(* ===== verification/Prelude.thy ===== *)
theory Prelude
  imports Main "HOL-Library.Word"
begin

text \<open>
  Shared vocabulary of the development: the exceptions that the assertion macros of
  \<^verbatim>\<open>mongo/util/assert_util.h\<close> raise (and the two kinds of undefined behaviour the models
  keep visible), results that are a value or such an exception, checked 32-bit arithmetic for
  the C++ \<^verbatim>\<open>int\<close> fields, and memory as lists of bytes with bounds-checked reads.
\<close>

unbundle bit_operations_syntax

section \<open>Exceptions and results\<close>

text \<open>
  \<open>MsgAssertion\<close> and \<open>UserAssertion\<close> carry the message id of
  \<^verbatim>\<open>msgasserted(id, ...)\<close> and \<^verbatim>\<open>uasserted(id, ...)\<close>. \<open>SignedOverflow\<close>,
  \<open>UndefinedCast\<close>, \<open>BadAccess\<close> and \<open>Diverges\<close> are not exceptions of the code: they mark the points where
  the C++ program has undefined behaviour (an \<^verbatim>\<open>int\<close> overflow, a cast of a double that is out of
  range, an access outside the storage) or does not return.
\<close>

datatype mongo_exn =
    MsgAssertion int
  | UserAssertion int
  | VerifyFailed
  | InvariantFailed
  | StdOutOfRange
  | StdLengthError
  | SignedOverflow
  | UndefinedCast
  | BadAccess
  | Diverges

type_synonym 'a res = "mongo_exn + 'a"

definition bindE :: "'a res \<Rightarrow> ('a \<Rightarrow> 'b res) \<Rightarrow> 'b res" where
  "bindE m f = (case m of Inl e \<Rightarrow> Inl e | Inr x \<Rightarrow> f x)"

lemma bindE_Inl [simp]: "bindE (Inl e) f = Inl e"
  by (simp add: bindE_def)

lemma bindE_Inr [simp]: "bindE (Inr x) f = f x"
  by (simp add: bindE_def)

lemma bindE_eq_Inr: "bindE m f = Inr y \<longleftrightarrow> (\<exists>x. m = Inr x \<and> f x = Inr y)"
  by (cases m) auto

lemma bindE_assoc: "bindE (bindE m f) g = bindE m (\<lambda>x. bindE (f x) g)"
  by (cases m) auto

lemma bindE_cong [fundef_cong]:
  "m = m' \<Longrightarrow> (\<And>x. m' = Inr x \<Longrightarrow> f x = f' x) \<Longrightarrow> bindE m f = bindE m' f'"
  by (cases m') auto

text \<open>The assertion macros: a failed condition raises, a satisfied one does nothing.\<close>

definition verify :: "bool \<Rightarrow> unit res" where
  "verify c = (if c then Inr () else Inl VerifyFailed)"

definition invariant :: "bool \<Rightarrow> unit res" where
  "invariant c = (if c then Inr () else Inl InvariantFailed)"

definition massert :: "int \<Rightarrow> bool \<Rightarrow> unit res" where
  "massert msgid c = (if c then Inr () else Inl (MsgAssertion msgid))"

definition uassert :: "int \<Rightarrow> bool \<Rightarrow> unit res" where
  "uassert msgid c = (if c then Inr () else Inl (UserAssertion msgid))"

named_theorems asserts "the assertion macros, unfolded"

lemma assert_True [simp]:
  "verify True = Inr ()" "invariant True = Inr ()"
  "massert i True = Inr ()" "uassert i True = Inr ()"
  by (simp_all add: verify_def invariant_def massert_def uassert_def)

lemma assert_False [simp]:
  "verify False = Inl VerifyFailed" "invariant False = Inl InvariantFailed"
  "massert i False = Inl (MsgAssertion i)" "uassert i False = Inl (UserAssertion i)"
  by (simp_all add: verify_def invariant_def massert_def uassert_def)

lemma assert_eq_Inr [simp]:
  "verify c = Inr u \<longleftrightarrow> c" "invariant c = Inr u \<longleftrightarrow> c"
  "massert i c = Inr u \<longleftrightarrow> c" "uassert i c = Inr u \<longleftrightarrow> c"
  by (simp_all add: verify_def invariant_def massert_def uassert_def)

declare verify_def [asserts] invariant_def [asserts] massert_def [asserts] uassert_def [asserts]

section \<open>The C++ type int\<close>

text \<open>
  \<^verbatim>\<open>int\<close> fields are integers; an operation whose result leaves the 32-bit range is
  undefined behaviour in C++ and \<open>SignedOverflow\<close> here.
\<close>

definition int32_max :: int where "int32_max = 2147483647"
definition int32_min :: int where "int32_min = - 2147483648"

definition in_int32 :: "int \<Rightarrow> bool" where
  "in_int32 x \<longleftrightarrow> int32_min \<le> x \<and> x \<le> int32_max"

definition chk32 :: "int \<Rightarrow> int res" where
  "chk32 x = (if in_int32 x then Inr x else Inl SignedOverflow)"

lemma in_int32_iff: "in_int32 x \<longleftrightarrow> - 2147483648 \<le> x \<and> x \<le> 2147483647"
  by (simp add: in_int32_def int32_min_def int32_max_def)

lemma chk32_ok [simp]: "in_int32 x \<Longrightarrow> chk32 x = Inr x"
  by (simp add: chk32_def)

lemma chk32_eq_Inr: "chk32 x = Inr y \<longleftrightarrow> in_int32 x \<and> y = x"
  by (auto simp: chk32_def)

text \<open>The conversion of a \<^verbatim>\<open>size_t\<close> to \<^verbatim>\<open>int\<close>, and of an \<^verbatim>\<open>int\<close> to a 64-bit \<^verbatim>\<open>size_t\<close>.\<close>

definition int_of_size :: "nat \<Rightarrow> int" where
  "int_of_size n = sint (of_nat n :: 32 word)"

definition size_of_int :: "int \<Rightarrow> nat" where
  "size_of_int i = nat (i mod 2 ^ 64)"

lemma int_of_size_small: "n < 2 ^ 31 \<Longrightarrow> int_of_size n = int n"
proof -
  assume "n < 2 ^ 31"
  then have "signed_take_bit 31 (int n) = int n"
    by (intro signed_take_bit_int_eq_self) auto
  then show ?thesis by (simp add: int_of_size_def signed_of_nat)
qed


lemma size_of_int_small: "0 \<le> i \<Longrightarrow> i < 2 ^ 64 \<Longrightarrow> size_of_int i = nat i"
  by (simp add: size_of_int_def)

section \<open>Memory as byte lists\<close>

type_synonym byte = "8 word"
type_synonym bytes = "byte list"

text \<open>
  \<open>slice bs off n\<close> is the \<open>n\<close> bytes at offset \<open>off\<close>; reading past the end of the
  storage is \<open>BadAccess\<close>.
\<close>

definition slice :: "'a list \<Rightarrow> nat \<Rightarrow> nat \<Rightarrow> 'a list res" where
  "slice bs off n = (if off + n \<le> length bs then Inr (take n (drop off bs)) else Inl BadAccess)"

lemma slice_append [simp]: "slice (xs @ ys @ zs) (length xs) (length ys) = Inr ys"
  by (simp add: slice_def)

lemma slice_prefix [simp]: "length xs = n \<Longrightarrow> slice (xs @ ys) 0 n = Inr xs"
  by (auto simp: slice_def)

lemma slice_append_ge:
  "length xs \<le> off \<Longrightarrow> slice (xs @ ys) off n = slice ys (off - length xs) n"
  by (auto simp: slice_def)

lemma slice_Cons: "slice (x # xs) (Suc off) n = slice xs off n"
  by (simp add: slice_def)

lemma slice_Inr_length: "slice bs off n = Inr xs \<Longrightarrow> length xs = n"
  by (auto simp: slice_def split: if_splits)

text \<open>
  A pointer into a storage is the rest of the storage from there; \<open>advance\<close> moves it (at most one
  past the end).
\<close>

definition advance :: "int \<Rightarrow> 'a list \<Rightarrow> 'a list res" where
  "advance n p = (if 0 \<le> n \<and> nat n \<le> length p then Inr (drop (nat n) p) else Inl BadAccess)"

lemma advance_append: "n = int (length xs) \<Longrightarrow> advance n (xs @ ys) = Inr ys"
  by (simp add: advance_def)

lemma advance_0 [simp]: "advance 0 p = Inr p"
  by (simp add: advance_def)

text \<open>Writing \<open>ys\<close> at offset \<open>off\<close> (\<^verbatim>\<open>memcpy\<close> into a buffer).\<close>

definition splice :: "'a list \<Rightarrow> nat \<Rightarrow> 'a list \<Rightarrow> 'a list res" where
  "splice xs off ys =
     (if off + length ys \<le> length xs
      then Inr (take off xs @ ys @ drop (off + length ys) xs) else Inl BadAccess)"

lemma splice_Inr_length: "splice xs off ys = Inr zs \<Longrightarrow> length zs = length xs"
  by (auto simp: splice_def split: if_splits)

lemma splice_exact:
  "length ys = length ys' \<Longrightarrow> splice (xs @ ys @ zs) (length xs) ys' = Inr (xs @ ys' @ zs)"
  by (simp add: splice_def)

lemma take_splice_prefix:
  "splice xs off ys = Inr zs \<Longrightarrow> take off zs = take off xs"
  by (auto simp: splice_def split: if_splits)

lemma take_splice:
  "splice xs off ys = Inr zs \<Longrightarrow> take (off + length ys) zs = take off xs @ ys"
  by (auto simp: splice_def split: if_splits)

lemma take_overwrite:
  assumes "off + n \<le> l" "l \<le> length cs" "length ys = n"
  shows "take l (take off cs @ ys @ drop (off + n) cs) =
    take off (take l cs) @ ys @ drop (off + n) (take l cs)"
proof (cases "l = off")
  case False
  with assms have "off < l" by simp
  with assms show ?thesis by (simp add: take_append drop_take min_def)
qed (use assms in simp)

section \<open>Little endian bytes of a word\<close>

definition le_bytes :: "'a::len word \<Rightarrow> bytes" where
  "le_bytes w = map (\<lambda>i. ucast (drop_bit (8 * i) w)) [0..<LENGTH('a) div 8]"

fun from_le :: "bytes \<Rightarrow> 'a::len word" where
  "from_le [] = 0"
| "from_le (b # bs) = ucast b OR push_bit 8 (from_le bs)"

lemma length_le_bytes [simp]: "length (le_bytes (w :: 'a::len word)) = LENGTH('a) div 8"
  by (simp add: le_bytes_def)

lemma bit_from_le:
  "bit (from_le bs :: 'a::len word) n \<longleftrightarrow>
     n < LENGTH('a) \<and> n div 8 < length bs \<and> bit (bs ! (n div 8)) (n mod 8)"
proof (induction bs arbitrary: n)
  case Nil
  then show ?case by simp
next
  case (Cons b bs)
  show ?case
  proof (cases "n < 8")
    case True
    then show ?thesis by (auto simp: bit_or_iff bit_push_bit_iff bit_ucast_iff)
  next
    case False
    then have n: "n div 8 = Suc ((n - 8) div 8)" "n mod 8 = (n - 8) mod 8"
      by (auto simp: le_div_geq le_mod_geq)
    have b: "\<not> bit b n" using False by (auto dest: bit_imp_le_length)
    show ?thesis using False Cons.IH [of "n - 8"] b
      by (auto simp: bit_or_iff bit_push_bit_iff bit_ucast_iff n)
  qed
qed

lemma bit_le_bytes:
  fixes w :: "'a::len word"
  assumes "i < LENGTH('a) div 8"
  shows "bit (le_bytes w ! i) j \<longleftrightarrow> j < 8 \<and> bit w (8 * i + j)"
  using assms by (simp add: le_bytes_def bit_ucast_iff bit_drop_bit_eq)

lemma from_le_le_bytes [simp]:
  fixes w :: "'a::len word"
  assumes "8 dvd LENGTH('a)"
  shows "from_le (le_bytes w) = w"
proof (rule bit_word_eqI)
  fix n
  assume n: "n < LENGTH('a)"
  from assms obtain k where k: "LENGTH('a) = 8 * k" by auto
  with n have "n div 8 < LENGTH('a) div 8" by simp
  then show "bit (from_le (le_bytes w) :: 'a word) n = bit w n"
    using n by (simp add: bit_from_le bit_le_bytes)
qed

lemma le_bytes_from_le [simp]:
  assumes "8 * length bs = LENGTH('a::len)"
  shows "le_bytes (from_le bs :: 'a word) = bs"
proof (rule nth_equalityI)
  show len: "length (le_bytes (from_le bs :: 'a word)) = length bs"
    using assms by (metis length_le_bytes nonzero_mult_div_cancel_left zero_neq_numeral)
  fix i
  assume "i < length (le_bytes (from_le bs :: 'a word))"
  then have i: "i < length bs" and i': "i < LENGTH('a) div 8"
    using len by (simp_all del: length_le_bytes) (simp add: length_le_bytes [symmetric])
  show "le_bytes (from_le bs :: 'a word) ! i = bs ! i"
  proof (rule bit_word_eqI)
    fix j
    assume "j < LENGTH(8)"
    then have j: "j < 8" by simp
    have "8 * i + j < LENGTH('a)" using i j assms by simp
    then show "bit (le_bytes (from_le bs :: 'a word) ! i) j = bit (bs ! i) j"
      using i j by (simp add: bit_le_bytes [OF i'] bit_from_le)
  qed
qed

lemma le_bytes_inject:
  assumes "8 dvd LENGTH('a::len)"
  shows "le_bytes (v :: 'a word) = le_bytes w \<longleftrightarrow> v = w"
  by (metis assms from_le_le_bytes)

text \<open>The widths the code uses.\<close>

lemma le_bytes_8: "le_bytes (b :: 8 word) = [b]"
  by (simp add: le_bytes_def)

lemma dvd_widths [simp]:
  "8 dvd LENGTH(8)" "8 dvd LENGTH(16)" "8 dvd LENGTH(32)" "8 dvd LENGTH(64)"
  by simp_all

end
