(* ===== verification/Endian.thy ===== *)
theory Endian
  imports Prelude
begin

text \<open>
  \<^verbatim>\<open>mongo/platform/endian.h\<close>, \<^verbatim>\<open>mongo/base/data_view.h\<close>, \<^verbatim>\<open>mongo/base/data_cursor.h\<close>
  and \<^verbatim>\<open>mongo/base/encoded_value_storage.h\<close>: the byte swaps, the byte order converters, and
  the views and cursors that read and write scalars in storage. The host's byte order
  (\<^verbatim>\<open>MONGO_BYTE_ORDER\<close>) is an argument, so that independence of it can be stated.
\<close>

section \<open>Byte swapping\<close>

datatype byte_order = MONGO_LITTLE_ENDIAN | MONGO_BIG_ENDIAN

definition bswap_slow16 :: "16 word \<Rightarrow> 16 word" where
  "bswap_slow16 v = push_bit 8 (v AND 0x00FF) OR drop_bit 8 (v AND 0xFF00)"

definition bswap_slow32 :: "32 word \<Rightarrow> 32 word" where
  "bswap_slow32 v =
     push_bit 24 (v AND 0x000000FF) OR push_bit 8 (v AND 0x0000FF00) OR
     drop_bit 8 (v AND 0x00FF0000) OR drop_bit 24 (v AND 0xFF000000)"

definition bswap_slow64 :: "64 word \<Rightarrow> 64 word" where
  "bswap_slow64 v =
     push_bit 56 (v AND 0x00000000000000FF) OR push_bit 40 (v AND 0x000000000000FF00) OR
     push_bit 24 (v AND 0x0000000000FF0000) OR push_bit 8 (v AND 0x00000000FF000000) OR
     drop_bit 8 (v AND 0x000000FF00000000) OR drop_bit 24 (v AND 0x0000FF0000000000) OR
     drop_bit 40 (v AND 0x00FF000000000000) OR drop_bit 56 (v AND 0xFF00000000000000)"

text \<open>
  The \<^verbatim>\<open>MONGO_UINTnn_SWAB\<close> macros fall back to the functions above when the compiler has no
  builtin; the builtins are documented to compute the same swap.
\<close>

definition MONGO_UINT16_SWAB :: "16 word \<Rightarrow> 16 word" where
  "MONGO_UINT16_SWAB v = bswap_slow16 v"

definition MONGO_UINT32_SWAB :: "32 word \<Rightarrow> 32 word" where
  "MONGO_UINT32_SWAB v = bswap_slow32 v"

definition MONGO_UINT64_SWAB :: "64 word \<Rightarrow> 64 word" where
  "MONGO_UINT64_SWAB v = bswap_slow64 v"

fun htobe16 :: "byte_order \<Rightarrow> 16 word \<Rightarrow> 16 word" where
  "htobe16 MONGO_LITTLE_ENDIAN v = MONGO_UINT16_SWAB v"
| "htobe16 MONGO_BIG_ENDIAN v = v"

fun htobe32 :: "byte_order \<Rightarrow> 32 word \<Rightarrow> 32 word" where
  "htobe32 MONGO_LITTLE_ENDIAN v = MONGO_UINT32_SWAB v"
| "htobe32 MONGO_BIG_ENDIAN v = v"

fun htobe64 :: "byte_order \<Rightarrow> 64 word \<Rightarrow> 64 word" where
  "htobe64 MONGO_LITTLE_ENDIAN v = MONGO_UINT64_SWAB v"
| "htobe64 MONGO_BIG_ENDIAN v = v"

fun htole16 :: "byte_order \<Rightarrow> 16 word \<Rightarrow> 16 word" where
  "htole16 MONGO_LITTLE_ENDIAN v = v"
| "htole16 MONGO_BIG_ENDIAN v = MONGO_UINT16_SWAB v"

fun htole32 :: "byte_order \<Rightarrow> 32 word \<Rightarrow> 32 word" where
  "htole32 MONGO_LITTLE_ENDIAN v = v"
| "htole32 MONGO_BIG_ENDIAN v = MONGO_UINT32_SWAB v"

fun htole64 :: "byte_order \<Rightarrow> 64 word \<Rightarrow> 64 word" where
  "htole64 MONGO_LITTLE_ENDIAN v = v"
| "htole64 MONGO_BIG_ENDIAN v = MONGO_UINT64_SWAB v"

fun be16toh :: "byte_order \<Rightarrow> 16 word \<Rightarrow> 16 word" where
  "be16toh MONGO_LITTLE_ENDIAN v = MONGO_UINT16_SWAB v"
| "be16toh MONGO_BIG_ENDIAN v = v"

fun be32toh :: "byte_order \<Rightarrow> 32 word \<Rightarrow> 32 word" where
  "be32toh MONGO_LITTLE_ENDIAN v = MONGO_UINT32_SWAB v"
| "be32toh MONGO_BIG_ENDIAN v = v"

fun be64toh :: "byte_order \<Rightarrow> 64 word \<Rightarrow> 64 word" where
  "be64toh MONGO_LITTLE_ENDIAN v = MONGO_UINT64_SWAB v"
| "be64toh MONGO_BIG_ENDIAN v = v"

fun le16toh :: "byte_order \<Rightarrow> 16 word \<Rightarrow> 16 word" where
  "le16toh MONGO_LITTLE_ENDIAN v = v"
| "le16toh MONGO_BIG_ENDIAN v = MONGO_UINT16_SWAB v"

fun le32toh :: "byte_order \<Rightarrow> 32 word \<Rightarrow> 32 word" where
  "le32toh MONGO_LITTLE_ENDIAN v = v"
| "le32toh MONGO_BIG_ENDIAN v = MONGO_UINT32_SWAB v"

fun le64toh :: "byte_order \<Rightarrow> 64 word \<Rightarrow> 64 word" where
  "le64toh MONGO_LITTLE_ENDIAN v = v"
| "le64toh MONGO_BIG_ENDIAN v = MONGO_UINT64_SWAB v"

section \<open>Byte order converters\<close>

text \<open>
  One record per specialisation of \<^verbatim>\<open>ByteOrderConverter<T>\<close>. A signed integer and a floating
  point number are represented by their bit pattern, so the \<^verbatim>\<open>static_cast\<close> to the unsigned
  type of the same width and the \<^verbatim>\<open>memcpy\<close> into it keep the pattern.
\<close>

record 'a byte_order_converter =
  nativeToBig :: "'a \<Rightarrow> 'a"
  bigToNative :: "'a \<Rightarrow> 'a"
  nativeToLittle :: "'a \<Rightarrow> 'a"
  littleToNative :: "'a \<Rightarrow> 'a"

definition ByteOrderConverter_uint8 :: "8 word byte_order_converter" where
  "ByteOrderConverter_uint8 = \<lparr>nativeToBig = (\<lambda>t. t), bigToNative = (\<lambda>t. t),
     nativeToLittle = (\<lambda>t. t), littleToNative = (\<lambda>t. t)\<rparr>"

definition ByteOrderConverter_uint16 :: "byte_order \<Rightarrow> 16 word byte_order_converter" where
  "ByteOrderConverter_uint16 bo = \<lparr>nativeToBig = (\<lambda>t. htobe16 bo t), bigToNative = (\<lambda>t. be16toh bo t),
     nativeToLittle = (\<lambda>t. htole16 bo t), littleToNative = (\<lambda>t. le16toh bo t)\<rparr>"

definition ByteOrderConverter_uint32 :: "byte_order \<Rightarrow> 32 word byte_order_converter" where
  "ByteOrderConverter_uint32 bo = \<lparr>nativeToBig = (\<lambda>t. htobe32 bo t), bigToNative = (\<lambda>t. be32toh bo t),
     nativeToLittle = (\<lambda>t. htole32 bo t), littleToNative = (\<lambda>t. le32toh bo t)\<rparr>"

definition ByteOrderConverter_uint64 :: "byte_order \<Rightarrow> 64 word byte_order_converter" where
  "ByteOrderConverter_uint64 bo = \<lparr>nativeToBig = (\<lambda>t. htobe64 bo t), bigToNative = (\<lambda>t. be64toh bo t),
     nativeToLittle = (\<lambda>t. htole64 bo t), littleToNative = (\<lambda>t. le64toh bo t)\<rparr>"

definition ByteOrderConverter_int8 :: "8 word byte_order_converter" where
  "ByteOrderConverter_int8 = \<lparr>nativeToBig = (\<lambda>t. t), bigToNative = (\<lambda>t. t),
     nativeToLittle = (\<lambda>t. t), littleToNative = (\<lambda>t. t)\<rparr>"

definition ByteOrderConverter_int16 :: "byte_order \<Rightarrow> 16 word byte_order_converter" where
  "ByteOrderConverter_int16 bo = \<lparr>nativeToBig = (\<lambda>t. htobe16 bo (ucast t)),
     bigToNative = (\<lambda>t. be16toh bo (ucast t)), nativeToLittle = (\<lambda>t. htole16 bo (ucast t)),
     littleToNative = (\<lambda>t. le16toh bo (ucast t))\<rparr>"

definition ByteOrderConverter_int32 :: "byte_order \<Rightarrow> 32 word byte_order_converter" where
  "ByteOrderConverter_int32 bo = \<lparr>nativeToBig = (\<lambda>t. htobe32 bo (ucast t)),
     bigToNative = (\<lambda>t. be32toh bo (ucast t)), nativeToLittle = (\<lambda>t. htole32 bo (ucast t)),
     littleToNative = (\<lambda>t. le32toh bo (ucast t))\<rparr>"

definition ByteOrderConverter_int64 :: "byte_order \<Rightarrow> 64 word byte_order_converter" where
  "ByteOrderConverter_int64 bo = \<lparr>nativeToBig = (\<lambda>t. htobe64 bo (ucast t)),
     bigToNative = (\<lambda>t. be64toh bo (ucast t)), nativeToLittle = (\<lambda>t. htole64 bo (ucast t)),
     littleToNative = (\<lambda>t. le64toh bo (ucast t))\<rparr>"

definition ByteOrderConverter_float :: "byte_order \<Rightarrow> 32 word byte_order_converter" where
  "ByteOrderConverter_float bo = \<lparr>
     nativeToBig = (\<lambda>t. let temp = t; temp = htobe32 bo temp in temp),
     bigToNative = (\<lambda>t. let temp = t; temp = be32toh bo temp in temp),
     nativeToLittle = (\<lambda>t. let temp = t; temp = htole32 bo temp in temp),
     littleToNative = (\<lambda>t. let temp = t; temp = le32toh bo temp in temp)\<rparr>"

definition ByteOrderConverter_double :: "byte_order \<Rightarrow> 64 word byte_order_converter" where
  "ByteOrderConverter_double bo = \<lparr>
     nativeToBig = (\<lambda>t. let temp = t; temp = htobe64 bo temp in temp),
     bigToNative = (\<lambda>t. let temp = t; temp = be64toh bo temp in temp),
     nativeToLittle = (\<lambda>t. let temp = t; temp = htole64 bo temp in temp),
     littleToNative = (\<lambda>t. let temp = t; temp = le64toh bo temp in temp)\<rparr>"

text \<open>
  \<^verbatim>\<open>IntegralTypeMap\<close>: the fixed-width type that stands for each scalar type. Whether plain
  \<^verbatim>\<open>char\<close> is signed is the platform's choice.
\<close>

datatype cxx_type =
    C_uint8 | C_uint16 | C_uint32 | C_uint64
  | C_int8 | C_int16 | C_int32 | C_int64
  | C_float | C_double
  | C_signed_char | C_unsigned_char | C_char | C_long_long | C_unsigned_long_long

fun sizeof :: "cxx_type \<Rightarrow> nat" where
  "sizeof C_uint8 = 1" | "sizeof C_int8 = 1"
| "sizeof C_signed_char = 1" | "sizeof C_unsigned_char = 1" | "sizeof C_char = 1"
| "sizeof C_uint16 = 2" | "sizeof C_int16 = 2"
| "sizeof C_uint32 = 4" | "sizeof C_int32 = 4" | "sizeof C_float = 4"
| "sizeof C_uint64 = 8" | "sizeof C_int64 = 8" | "sizeof C_double = 8"
| "sizeof C_long_long = 8" | "sizeof C_unsigned_long_long = 8"

fun IntegralTypeMap :: "bool \<Rightarrow> cxx_type \<Rightarrow> cxx_type" where
  "IntegralTypeMap char_signed C_signed_char = C_int8"
| "IntegralTypeMap char_signed C_unsigned_char = C_uint8"
| "IntegralTypeMap char_signed C_char = (if char_signed then C_int8 else C_uint8)"
| "IntegralTypeMap char_signed C_long_long = C_int64"
| "IntegralTypeMap char_signed C_unsigned_long_long = C_uint64"
| "IntegralTypeMap char_signed T = T"

lemma sizeof_IntegralTypeMap: "sizeof (IntegralTypeMap sg T) = sizeof T"
  by (cases T) simp_all

section \<open>What the swaps do to the bytes\<close>

lemma less_8_cases:
  "(j::nat) < 8 \<Longrightarrow> j = 0 \<or> j = 1 \<or> j = 2 \<or> j = 3 \<or> j = 4 \<or> j = 5 \<or> j = 6 \<or> j = 7"
  by arith

lemma byte_eqI: "(\<And>j. j < 8 \<Longrightarrow> bit (a :: byte) j = bit b j) \<Longrightarrow> a = b"
  by (rule bit_word_eqI) simp

lemma le_bytes_16: "le_bytes (v :: 16 word) = [ucast v, ucast (drop_bit 8 v)]"
  by (simp add: le_bytes_def upt_rec)

lemma le_bytes_32: "le_bytes (v :: 32 word) =
   [ucast v, ucast (drop_bit 8 v), ucast (drop_bit 16 v), ucast (drop_bit 24 v)]"
  by (simp add: le_bytes_def upt_rec)

lemma le_bytes_64: "le_bytes (v :: 64 word) =
   [ucast v, ucast (drop_bit 8 v), ucast (drop_bit 16 v), ucast (drop_bit 24 v),
    ucast (drop_bit 32 v), ucast (drop_bit 40 v), ucast (drop_bit 48 v), ucast (drop_bit 56 v)]"
  by (simp add: le_bytes_def upt_rec)

lemma le_bytes_bswap16 [simp]: "le_bytes (bswap_slow16 v) = rev (le_bytes v)"
  unfolding le_bytes_16 bswap_slow16_def
  by (auto simp: bit_simps intro!: byte_eqI dest!: less_8_cases)

lemma le_bytes_bswap32 [simp]: "le_bytes (bswap_slow32 v) = rev (le_bytes v)"
  unfolding le_bytes_32 bswap_slow32_def
  by (auto simp: bit_simps intro!: byte_eqI dest!: less_8_cases)

lemma le_bytes_bswap64 [simp]: "le_bytes (bswap_slow64 v) = rev (le_bytes v)"
  unfolding le_bytes_64 bswap_slow64_def
  by (auto simp: bit_simps intro!: byte_eqI dest!: less_8_cases)

lemma bswap_involutive [simp]:
  "bswap_slow16 (bswap_slow16 a) = a" "bswap_slow32 (bswap_slow32 b) = b"
  "bswap_slow64 (bswap_slow64 c) = c"
  by (simp_all flip: le_bytes_inject)

section \<open>The law every converter satisfies\<close>

text \<open>
  The representation of a scalar in the host's memory: the bytes of its bit pattern in the
  host's order.
\<close>

definition native_bytes :: "byte_order \<Rightarrow> 'a::len word \<Rightarrow> bytes" where
  "native_bytes bo w = (case bo of MONGO_LITTLE_ENDIAN \<Rightarrow> le_bytes w
     | MONGO_BIG_ENDIAN \<Rightarrow> rev (le_bytes w))"

definition from_native :: "byte_order \<Rightarrow> bytes \<Rightarrow> 'a::len word" where
  "from_native bo bs = (case bo of MONGO_LITTLE_ENDIAN \<Rightarrow> from_le bs
     | MONGO_BIG_ENDIAN \<Rightarrow> from_le (rev bs))"

text \<open>
  A view relies on its converter turning a value into one whose native bytes are the little
  endian (big endian) bytes of the value, and back.
\<close>

locale byte_order_law =
  fixes bo :: byte_order
    and cv :: "'a::len word byte_order_converter"
  assumes width: "8 dvd LENGTH('a)"
    and to_little: "native_bytes bo (nativeToLittle cv t) = le_bytes t"
    and to_big: "native_bytes bo (nativeToBig cv t) = rev (le_bytes t)"
    and little_inv: "littleToNative cv (nativeToLittle cv t) = t"
    and big_inv: "bigToNative cv (nativeToBig cv t) = t"
begin

lemma from_native_bytes: "from_native bo (native_bytes bo (t :: 'a word)) = t"
  by (cases bo) (simp_all add: from_native_def native_bytes_def width)

lemma little_of_le_bytes: "littleToNative cv (from_native bo (le_bytes t)) = t"
  by (metis from_native_bytes little_inv to_little)

lemma big_of_be_bytes: "bigToNative cv (from_native bo (rev (le_bytes t))) = t"
  by (metis from_native_bytes big_inv to_big)

lemma littleToNative_from_native:
  assumes "8 * length bs = LENGTH('a)"
  shows "littleToNative cv (from_native bo bs) = from_le bs"
  by (metis assms le_bytes_from_le little_of_le_bytes)

end

lemmas conv_defs = ByteOrderConverter_uint8_def ByteOrderConverter_uint16_def
  ByteOrderConverter_uint32_def ByteOrderConverter_uint64_def ByteOrderConverter_int8_def
  ByteOrderConverter_int16_def ByteOrderConverter_int32_def ByteOrderConverter_int64_def
  ByteOrderConverter_float_def ByteOrderConverter_double_def

lemmas swab_defs = MONGO_UINT16_SWAB_def MONGO_UINT32_SWAB_def MONGO_UINT64_SWAB_def

interpretation cv8: byte_order_law bo ByteOrderConverter_uint8 for bo
  by unfold_locales (cases bo; simp add: conv_defs native_bytes_def le_bytes_8)+

interpretation cv16: byte_order_law bo "ByteOrderConverter_uint16 bo" for bo
  by unfold_locales (cases bo; simp add: conv_defs native_bytes_def swab_defs)+

interpretation cv32: byte_order_law bo "ByteOrderConverter_uint32 bo" for bo
  by unfold_locales (cases bo; simp add: conv_defs native_bytes_def swab_defs)+

interpretation cv64: byte_order_law bo "ByteOrderConverter_uint64 bo" for bo
  by unfold_locales (cases bo; simp add: conv_defs native_bytes_def swab_defs)+

interpretation cvi8: byte_order_law bo ByteOrderConverter_int8 for bo
  by unfold_locales (cases bo; simp add: conv_defs native_bytes_def le_bytes_8)+

interpretation cvi16: byte_order_law bo "ByteOrderConverter_int16 bo" for bo
  by unfold_locales (cases bo; simp add: conv_defs native_bytes_def swab_defs)+

interpretation cvi32: byte_order_law bo "ByteOrderConverter_int32 bo" for bo
  by unfold_locales (cases bo; simp add: conv_defs native_bytes_def swab_defs)+

interpretation cvi64: byte_order_law bo "ByteOrderConverter_int64 bo" for bo
  by unfold_locales (cases bo; simp add: conv_defs native_bytes_def swab_defs)+

interpretation cvf: byte_order_law bo "ByteOrderConverter_float bo" for bo
  by unfold_locales (cases bo; simp add: conv_defs native_bytes_def swab_defs)+

interpretation cvd: byte_order_law bo "ByteOrderConverter_double bo" for bo
  by unfold_locales (cases bo; simp add: conv_defs native_bytes_def swab_defs)+

end
