(* ===== verification/DataView.thy ===== *)
theory DataView
  imports Endian
begin

text \<open>
  \<^verbatim>\<open>mongo/base/data_view.h\<close>, \<^verbatim>\<open>data_cursor.h\<close> and \<^verbatim>\<open>encoded_value_storage.h\<close>. A
  \<^verbatim>\<open>char*\<close> is a position in a storage; \<open>memcpy\<close> out of or into the storage is checked
  against its end.
\<close>

section \<open>Views\<close>

record data_view =
  dv_mem :: bytes
  dv_pos :: nat

definition view :: "data_view \<Rightarrow> nat \<Rightarrow> data_view" where
  "view v offset = v\<lparr>dv_pos := dv_pos v + offset\<rparr>"

definition readNative :: "byte_order \<Rightarrow> data_view \<Rightarrow> nat \<Rightarrow> 'a::len word res" where
  "readNative bo v offset =
     bindE (slice (dv_mem (view v offset)) (dv_pos (view v offset)) (LENGTH('a) div 8))
       (\<lambda>bs. Inr (from_native bo bs))"

definition readLE ::
    "byte_order \<Rightarrow> 'a::len word byte_order_converter \<Rightarrow> data_view \<Rightarrow> nat \<Rightarrow> 'a word res" where
  "readLE bo cv v offset = bindE (readNative bo v offset) (\<lambda>t. Inr (littleToNative cv t))"

definition readBE ::
    "byte_order \<Rightarrow> 'a::len word byte_order_converter \<Rightarrow> data_view \<Rightarrow> nat \<Rightarrow> 'a word res" where
  "readBE bo cv v offset = bindE (readNative bo v offset) (\<lambda>t. Inr (bigToNative cv t))"

definition writeNative :: "byte_order \<Rightarrow> data_view \<Rightarrow> 'a::len word \<Rightarrow> nat \<Rightarrow> data_view res" where
  "writeNative bo v t offset =
     bindE (splice (dv_mem v) (dv_pos (view v offset)) (native_bytes bo t))
       (\<lambda>mem. Inr (v\<lparr>dv_mem := mem\<rparr>))"

definition writeLE ::
    "byte_order \<Rightarrow> 'a::len word byte_order_converter \<Rightarrow> data_view \<Rightarrow> 'a word \<Rightarrow> nat \<Rightarrow> data_view res" where
  "writeLE bo cv v t offset = writeNative bo v (nativeToLittle cv t) offset"

definition writeBE ::
    "byte_order \<Rightarrow> 'a::len word byte_order_converter \<Rightarrow> data_view \<Rightarrow> 'a word \<Rightarrow> nat \<Rightarrow> data_view res" where
  "writeBE bo cv v t offset = writeNative bo v (nativeToBig cv t) offset"

section \<open>Cursors\<close>

text \<open>
  A cursor is a view that is moved. Moving it before its storage is undefined behaviour.
\<close>

definition cursor_plus :: "data_view \<Rightarrow> nat \<Rightarrow> data_view" where
  "cursor_plus c s = view c s"

definition cursor_minus :: "data_view \<Rightarrow> nat \<Rightarrow> data_view res" where
  "cursor_minus c s = (if s \<le> dv_pos c then Inr (c\<lparr>dv_pos := dv_pos c - s\<rparr>) else Inl BadAccess)"

definition pre_increment :: "data_view \<Rightarrow> data_view" where
  "pre_increment c = cursor_plus c 1"

text \<open>The postfix operators return the cursor before the move, and the moved cursor.\<close>

definition post_increment :: "data_view \<Rightarrow> data_view \<times> data_view" where
  "post_increment c = (let tmp = c in (tmp, pre_increment c))"

definition pre_decrement :: "data_view \<Rightarrow> data_view res" where
  "pre_decrement c = cursor_minus c 1"

definition post_decrement :: "data_view \<Rightarrow> (data_view \<times> data_view) res" where
  "post_decrement c = (let tmp = c in bindE (pre_decrement c) (\<lambda>c'. Inr (tmp, c')))"

definition skip :: "nat \<Rightarrow> data_view \<Rightarrow> data_view" where
  "skip sizeof_T c = view c sizeof_T"

definition readNativeAndAdvance :: "byte_order \<Rightarrow> data_view \<Rightarrow> ('a::len word \<times> data_view) res" where
  "readNativeAndAdvance bo c =
     bindE (readNative bo c 0) (\<lambda>out. Inr (out, skip (LENGTH('a) div 8) c))"

definition readLEAndAdvance ::
    "byte_order \<Rightarrow> 'a::len word byte_order_converter \<Rightarrow> data_view \<Rightarrow> ('a word \<times> data_view) res" where
  "readLEAndAdvance bo cv c =
     bindE (readNativeAndAdvance bo c) (\<lambda>(t, c'). Inr (littleToNative cv t, c'))"

definition readBEAndAdvance ::
    "byte_order \<Rightarrow> 'a::len word byte_order_converter \<Rightarrow> data_view \<Rightarrow> ('a word \<times> data_view) res" where
  "readBEAndAdvance bo cv c =
     bindE (readNativeAndAdvance bo c) (\<lambda>(t, c'). Inr (bigToNative cv t, c'))"

definition writeNativeAndAdvance :: "byte_order \<Rightarrow> data_view \<Rightarrow> 'a::len word \<Rightarrow> data_view res" where
  "writeNativeAndAdvance bo c t =
     bindE (writeNative bo c t 0) (\<lambda>c'. Inr (skip (LENGTH('a) div 8) c'))"

definition writeLEAndAdvance ::
    "byte_order \<Rightarrow> 'a::len word byte_order_converter \<Rightarrow> data_view \<Rightarrow> 'a word \<Rightarrow> data_view res" where
  "writeLEAndAdvance bo cv c t = writeNativeAndAdvance bo c (nativeToLittle cv t)"

definition writeBEAndAdvance ::
    "byte_order \<Rightarrow> 'a::len word byte_order_converter \<Rightarrow> data_view \<Rightarrow> 'a word \<Rightarrow> data_view res" where
  "writeBEAndAdvance bo cv c t = writeNativeAndAdvance bo c (nativeToBig cv t)"

text \<open>\<^verbatim>\<open>EncodedValueStorage(ZeroInitTag_t)\<close>: storage for a layout, zeroed.\<close>

definition EncodedValueStorage_zero :: "nat \<Rightarrow> data_view" where
  "EncodedValueStorage_zero sizeof_Layout = \<lparr>dv_mem = replicate sizeof_Layout 0, dv_pos = 0\<rparr>"

text \<open>The views of a storage are on its data from the start; the conversions are the same views.\<close>

definition EncodedValueStorage_view :: "data_view \<Rightarrow> data_view" where
  "EncodedValueStorage_view d = \<lparr>dv_mem = dv_mem d, dv_pos = 0\<rparr>"

definition EncodedValueStorage_constView :: "data_view \<Rightarrow> data_view" where
  "EncodedValueStorage_constView d = \<lparr>dv_mem = dv_mem d, dv_pos = 0\<rparr>"

definition EncodedValueStorage_to_View :: "data_view \<Rightarrow> data_view" where
  "EncodedValueStorage_to_View d = EncodedValueStorage_view d"

definition EncodedValueStorage_to_ConstView :: "data_view \<Rightarrow> data_view" where
  "EncodedValueStorage_to_ConstView d = EncodedValueStorage_constView d"

section \<open>Facts that hold for any lawful converter\<close>

context byte_order_law begin

lemma readLE_eq:
  "readLE bo cv v offset =
     bindE (slice (dv_mem v) (dv_pos v + offset) (LENGTH('a) div 8)) (\<lambda>bs. Inr (from_le bs))"
proof (cases "slice (dv_mem v) (dv_pos v + offset) (LENGTH('a) div 8)")
  case (Inr bs)
  then have "8 * length bs = LENGTH('a)"
    using width by (auto dest!: slice_Inr_length)
  with Inr show ?thesis
    by (simp add: readLE_def readNative_def view_def littleToNative_from_native)
qed (simp add: readLE_def readNative_def view_def)

lemma writeLE_eq:
  "writeLE bo cv v t offset =
     bindE (splice (dv_mem v) (dv_pos v + offset) (le_bytes t)) (\<lambda>mem. Inr (v\<lparr>dv_mem := mem\<rparr>))"
  by (simp add: writeLE_def writeNative_def view_def to_little)

lemma writeBE_eq:
  "writeBE bo cv v t offset =
     bindE (splice (dv_mem v) (dv_pos v + offset) (rev (le_bytes t))) (\<lambda>mem. Inr (v\<lparr>dv_mem := mem\<rparr>))"
  by (simp add: writeBE_def writeNative_def view_def to_big)

lemma slice_after_splice:
  "splice xs off ys = Inr zs \<Longrightarrow> slice zs off (length ys) = Inr ys"
  by (auto simp: splice_def slice_def split: if_splits)

lemma readLE_writeLE:
  assumes "writeLE bo cv v t offset = Inr v'"
  shows "readLE bo cv v' offset = Inr t"
proof -
  from assms obtain mem where mem: "splice (dv_mem v) (dv_pos v + offset) (le_bytes t) = Inr mem"
    and v': "v' = v\<lparr>dv_mem := mem\<rparr>"
    by (auto simp: writeLE_eq bindE_eq_Inr)
  from slice_after_splice [OF mem] show ?thesis
    by (simp add: readLE_eq v' width)
qed

lemma readBE_writeBE:
  assumes "writeBE bo cv v t offset = Inr v'"
  shows "readBE bo cv v' offset = Inr t"
proof -
  from assms obtain mem
    where mem: "splice (dv_mem v) (dv_pos v + offset) (rev (le_bytes t)) = Inr mem"
    and v': "v' = v\<lparr>dv_mem := mem\<rparr>"
    by (auto simp: writeBE_eq bindE_eq_Inr)
  from slice_after_splice [OF mem] show ?thesis
    by (simp add: readBE_def readNative_def view_def v' big_of_be_bytes)
qed

lemma writeLE_frame:
  assumes "writeLE bo cv v t offset = Inr v'"
  shows "take (dv_pos v + offset) (dv_mem v') = take (dv_pos v + offset) (dv_mem v)"
    and "length (dv_mem v') = length (dv_mem v)" and "dv_pos v' = dv_pos v"
  using assms by (auto simp: writeLE_eq bindE_eq_Inr dest: take_splice_prefix splice_Inr_length)

lemma readLEAndAdvance_eq:
  "readLEAndAdvance bo cv c =
     bindE (readLE bo cv c 0) (\<lambda>t. Inr (t, cursor_plus c (LENGTH('a) div 8)))"
  by (cases "readNative bo c 0 :: 'a word res")
    (simp_all add: readLEAndAdvance_def readNativeAndAdvance_def readLE_def skip_def cursor_plus_def)

lemma writeLEAndAdvance_eq:
  "writeLEAndAdvance bo cv c t =
     bindE (writeLE bo cv c t 0) (\<lambda>c'. Inr (cursor_plus c' (LENGTH('a) div 8)))"
  by (simp add: writeLEAndAdvance_def writeNativeAndAdvance_def writeLE_def skip_def cursor_plus_def)

end

section \<open>Host-independent reads\<close>

text \<open>
  By \<open>readLE_eq\<close> a little endian read does not depend on the host, so the components above
  this one use the following functions on a storage and an offset.
\<close>

definition load_le :: "bytes \<Rightarrow> nat \<Rightarrow> 'a::len word res" where
  "load_le bs off = bindE (slice bs off (LENGTH('a) div 8)) (\<lambda>xs. Inr (from_le xs))"

lemma load_le_prefix [simp]:
  "8 dvd LENGTH('a::len) \<Longrightarrow> load_le (le_bytes (w :: 'a word) @ xs) 0 = Inr w"
  by (simp add: load_le_def)

lemma load_le_at:
  assumes "8 dvd LENGTH('a::len)" and "length ys = off"
  shows "load_le (ys @ le_bytes (w :: 'a word) @ xs) off = Inr w"
proof -
  have "slice (ys @ le_bytes w @ xs) off (LENGTH('a) div 8) = Inr (le_bytes w)"
    using slice_append [of ys "le_bytes w" xs] assms(2) by simp
  then show ?thesis using assms(1) by (simp add: load_le_def)
qed

section \<open>Properties\<close>

lemma slice_same_prefix:
  assumes "take m xs = take m ys" and "off + n \<le> m" and "length xs = length ys"
  shows "slice xs off n = slice ys off n"
proof -
  have "take n (drop off xs) = take n (drop off (take m xs))"
    "take n (drop off ys) = take n (drop off (take m ys))"
    using assms(2) by (simp_all add: drop_take)
  then show ?thesis using assms by (simp add: slice_def)
qed



end
