(* ===== verification/StringData.thy ===== *)
theory StringData
  imports Prelude "HOL-Library.List_Lexorder" "HOL-Library.Sublist"
begin

text \<open>
  \<^verbatim>\<open>mongo/base/string_data.h\<close> and \<^verbatim>\<open>string_data-inl.h\<close>. A \<open>string_data\<close> is the region
  \<^verbatim>\<open>[_data, _data + _size)\<close> it points to; a null pointer only occurs with size 0. A size or
  position that may be \<^verbatim>\<open>std::string::npos\<close> is an option, \<^verbatim>\<open>None\<close> for \<^verbatim>\<open>npos\<close>.
\<close>

type_synonym string_data = bytes

section \<open>The C library functions used\<close>

text \<open>The index of the terminating null in a storage; running off its end is \<open>BadAccess\<close>.\<close>

fun strlen :: "bytes \<Rightarrow> nat res" where
  "strlen [] = Inl BadAccess"
| "strlen (b # bs) = (if b = 0 then Inr 0 else bindE (strlen bs) (\<lambda>n. Inr (Suc n)))"

text \<open>The sign of \<^verbatim>\<open>memcmp\<close> on the first \<open>n\<close> bytes, compared as unsigned.\<close>

fun memcmp :: "bytes \<Rightarrow> bytes \<Rightarrow> nat \<Rightarrow> int" where
  "memcmp (a # as) (b # bs) (Suc n) = (if a < b then -1 else if b < a then 1 else memcmp as bs n)"
| "memcmp _ _ _ = 0"

text \<open>The index of the first \<open>c\<close>.\<close>

fun memchr :: "bytes \<Rightarrow> byte \<Rightarrow> nat option" where
  "memchr [] c = None"
| "memchr (b # bs) c = (if b = c then Some 0 else map_option Suc (memchr bs c))"

text \<open>\<^verbatim>\<open>tolower\<close> in the C locale.\<close>

definition tolower :: "byte \<Rightarrow> byte" where
  "tolower c = (if 65 \<le> c \<and> c \<le> 90 then c + 32 else c)"

section \<open>Construction\<close>

definition StringData_empty :: string_data where
  "StringData_empty = []"

definition StringData_cstr :: "bytes option \<Rightarrow> string_data res" where
  "StringData_cstr str =
     (case str of None \<Rightarrow> Inr []
      | Some mem \<Rightarrow> bindE (strlen mem) (\<lambda>n. slice mem 0 n))"

definition StringData_len :: "bytes \<Rightarrow> nat \<Rightarrow> string_data res" where
  "StringData_len c len = slice c 0 len"

definition StringData_literal :: "bytes \<Rightarrow> string_data" where
  "StringData_literal val = take (length val - 1) val"

definition StringData_str :: "bytes \<Rightarrow> string_data" where
  "StringData_str s = s"

section \<open>Access\<close>

text \<open>A pointer into a string is what is left of it; reading beyond the end is \<open>BadAccess\<close>.\<close>

definition rawData :: "string_data \<Rightarrow> bytes" where
  "rawData s = s"

definition sd_size :: "string_data \<Rightarrow> nat" where
  "sd_size s = length s"

definition sd_empty :: "string_data \<Rightarrow> bool" where
  "sd_empty s \<longleftrightarrow> sd_size s = 0"

definition sd_toString :: "string_data \<Rightarrow> bytes" where
  "sd_toString s = take (sd_size s) (rawData s)"

definition sd_at :: "string_data \<Rightarrow> nat \<Rightarrow> byte res" where
  "sd_at s pos = (if pos < sd_size s then Inr (s ! pos) else Inl BadAccess)"

definition sd_begin :: "string_data \<Rightarrow> bytes" where
  "sd_begin s = rawData s"

definition sd_end :: "string_data \<Rightarrow> bytes" where
  "sd_end s = drop (sd_size s) (rawData s)"

lemma string_data_roundtrip: "sd_toString (StringData_str s) = s" "sd_begin s = sd_toString s @ sd_end s"
  by (simp_all add: sd_toString_def StringData_str_def sd_size_def rawData_def sd_begin_def sd_end_def)

section \<open>Operations\<close>

definition compare :: "string_data \<Rightarrow> string_data \<Rightarrow> int" where
  "compare s other =
     (let res = memcmp s other (min (length s) (length other)) in
      if res \<noteq> 0 then (if res > 0 then 1 else -1)
      else if length s = length other then 0
      else if length s > length other then 1 else -1)"

fun equalCaseInsensitive_loop :: "string_data \<Rightarrow> string_data \<Rightarrow> bool" where
  "equalCaseInsensitive_loop (a # as) (b # bs) =
     (if a = b then equalCaseInsensitive_loop as bs
      else if tolower a = tolower b then equalCaseInsensitive_loop as bs
      else False)"
| "equalCaseInsensitive_loop _ _ = True"

definition equalCaseInsensitive :: "string_data \<Rightarrow> string_data \<Rightarrow> bool" where
  "equalCaseInsensitive s other =
     (if length other \<noteq> length s then False else equalCaseInsensitive_loop s other)"

definition copyTo :: "string_data \<Rightarrow> bytes \<Rightarrow> bool \<Rightarrow> bytes res" where
  "copyTo s dest includeEndingNull =
     bindE (splice dest 0 s)
       (\<lambda>dest. if includeEndingNull then splice dest (length s) [0] else Inr dest)"

definition find_char :: "string_data \<Rightarrow> byte \<Rightarrow> nat \<Rightarrow> nat option" where
  "find_char s c fromPos =
     (if fromPos \<ge> length s then None
      else map_option (\<lambda>x. fromPos + x) (memchr (drop fromPos s) c))"

fun find_str_loop :: "string_data \<Rightarrow> string_data \<Rightarrow> nat \<Rightarrow> nat \<Rightarrow> nat option" where
  "find_str_loop s needle 0 i = None"
| "find_str_loop s needle (Suc k) i =
     (if memcmp (drop i s) needle (length needle) = 0 then Some i
      else find_str_loop s needle k (Suc i))"

definition find_str :: "string_data \<Rightarrow> string_data \<Rightarrow> nat option" where
  "find_str s needle =
     (let mx = length s; needleSize = length needle in
      if needleSize = 0 then Some 0
      else if needleSize > mx then None
      else find_str_loop s needle (Suc (mx - needleSize)) 0)"

fun rfind_loop :: "string_data \<Rightarrow> byte \<Rightarrow> nat \<Rightarrow> nat option" where
  "rfind_loop s c 0 = None"
| "rfind_loop s c (Suc cur) = (if s ! cur = c then Some cur else rfind_loop s c cur)"

definition rfind :: "string_data \<Rightarrow> byte \<Rightarrow> nat option \<Rightarrow> nat option" where
  "rfind s c fromPos =
     (let sz = length s;
          fromPos = (case fromPos of None \<Rightarrow> sz | Some p \<Rightarrow> if p > sz then sz else p)
      in rfind_loop s c fromPos)"

definition substr :: "string_data \<Rightarrow> nat \<Rightarrow> nat option \<Rightarrow> string_data res" where
  "substr s pos n =
     (if pos > length s then Inl StdOutOfRange
      else let n = (case n of None \<Rightarrow> length s - pos
                    | Some n \<Rightarrow> if n > length s - pos then length s - pos else n)
           in slice s pos n)"

definition sd_equal :: "string_data \<Rightarrow> string_data \<Rightarrow> bool" where
  "sd_equal lhs rhs \<longleftrightarrow> length lhs = length rhs \<and> compare lhs rhs = 0"

definition sd_not_equal :: "string_data \<Rightarrow> string_data \<Rightarrow> bool" where
  "sd_not_equal lhs rhs \<longleftrightarrow> \<not> sd_equal lhs rhs"

definition sd_less :: "string_data \<Rightarrow> string_data \<Rightarrow> bool" where
  "sd_less lhs rhs \<longleftrightarrow> compare lhs rhs < 0"

definition sd_less_eq :: "string_data \<Rightarrow> string_data \<Rightarrow> bool" where
  "sd_less_eq lhs rhs \<longleftrightarrow> compare lhs rhs \<le> 0"

definition sd_greater :: "string_data \<Rightarrow> string_data \<Rightarrow> bool" where
  "sd_greater lhs rhs \<longleftrightarrow> compare lhs rhs > 0"

definition sd_greater_eq :: "string_data \<Rightarrow> string_data \<Rightarrow> bool" where
  "sd_greater_eq lhs rhs \<longleftrightarrow> compare lhs rhs \<ge> 0"

definition startsWith :: "string_data \<Rightarrow> string_data \<Rightarrow> bool res" where
  "startsWith s prfx = bindE (substr s 0 (Some (length prfx))) (\<lambda>t. Inr (sd_equal t prfx))"

definition endsWith :: "string_data \<Rightarrow> string_data \<Rightarrow> bool res" where
  "endsWith s sffx =
     (let thisSize = length s; suffixSize = length sffx in
      if suffixSize > thisSize then Inr False
      else bindE (substr s (thisSize - suffixSize) None) (\<lambda>t. Inr (sd_equal t sffx)))"

section \<open>Facts about the C functions\<close>

lemma strlen_Inr_iff:
  "strlen bs = Inr n \<longleftrightarrow> n < length bs \<and> bs ! n = 0 \<and> (\<forall>i<n. bs ! i \<noteq> 0)"
proof (induction bs arbitrary: n)
  case (Cons b bs)
  show ?case
    by (cases n) (auto simp: Cons.IH bindE_eq_Inr All_less_Suc2)
qed simp

lemma strlen_append_null: "0 \<notin> set cs \<Longrightarrow> strlen (cs @ 0 # rest) = Inr (length cs)"
  by (induction cs) auto

lemma memcmp_eq_0: "n \<le> length as \<Longrightarrow> n \<le> length bs \<Longrightarrow> memcmp as bs n = 0 \<longleftrightarrow> take n as = take n bs"
  by (induction as bs n rule: memcmp.induct) auto

lemma memcmp_range: "memcmp as bs n \<in> {-1, 0, 1}"
  by (induction as bs n rule: memcmp.induct) auto

lemma memchr_None: "memchr bs c = None \<longleftrightarrow> c \<notin> set bs"
  by (induction bs) auto

lemma memchr_Some:
  "memchr bs c = Some i \<longleftrightarrow> i < length bs \<and> bs ! i = c \<and> (\<forall>j<i. bs ! j \<noteq> c)"
proof (induction bs arbitrary: i)
  case (Cons b bs)
  show ?case by (cases i) (auto simp: Cons.IH All_less_Suc2)
qed simp

lemma find_char_npos: "find_char s c 0 = None \<longleftrightarrow> c \<notin> set s"
  by (cases s) (auto simp: find_char_def memchr_None)

section \<open>Lexicographic order\<close>

lemma compare_Cons:
  "compare (a # as) (b # bs) = (if a < b then -1 else if b < a then 1 else compare as bs)"
  by (simp add: compare_def Let_def)

lemma compare_Nil: "compare [] bs = (if bs = [] then 0 else -1)"
    "compare as [] = (if as = [] then 0 else 1)"
  by (simp_all add: compare_def Let_def)

lemma compare_lex: "compare as bs = (if as < bs then -1 else if as = bs then 0 else 1)"
proof (induction as arbitrary: bs)
  case Nil
  then show ?case by (cases bs) (simp_all add: compare_Nil)
next
  case (Cons a as)
  then show ?case
    by (cases bs) (auto simp: compare_Nil compare_Cons)
qed

lemma sd_equal_iff [simp]: "sd_equal a b \<longleftrightarrow> a = b"
  by (auto simp: sd_equal_def compare_lex)

lemma sd_less_iff: "sd_less a b \<longleftrightarrow> a < b"
  by (auto simp: sd_less_def compare_lex)

lemma sd_less_eq_iff: "sd_less_eq a b \<longleftrightarrow> a \<le> b"
  by (auto simp: sd_less_eq_def compare_lex)

section \<open>Searching\<close>

lemma find_str_loop_Some:
  "find_str_loop s needle k i = Some j \<Longrightarrow>
     i \<le> j \<and> j < i + k \<and> memcmp (drop j s) needle (length needle) = 0 \<and>
     (\<forall>m. i \<le> m \<and> m < j \<longrightarrow> memcmp (drop m s) needle (length needle) \<noteq> 0)"
proof (induction k arbitrary: i)
  case (Suc k)
  then show ?case
    by (auto split: if_splits dest!: Suc.IH) (metis Suc_leI le_neq_implies_less)
qed simp

lemma find_str_loop_None:
  "find_str_loop s needle k i = None \<Longrightarrow>
     i \<le> m \<Longrightarrow> m < i + k \<Longrightarrow> memcmp (drop m s) needle (length needle) \<noteq> 0"
proof (induction k arbitrary: i)
  case (Suc k)
  then show ?case by (cases "m = i") (auto split: if_splits)
qed simp

lemma occurs_at_iff:
  "m + length needle \<le> length s \<Longrightarrow>
     memcmp (drop m s) needle (length needle) = 0 \<longleftrightarrow> prefix needle (drop m s)"
  by (auto simp: memcmp_eq_0 prefix_def) (metis append_take_drop_id)

lemma prefix_drop_bound: "prefix needle (drop m s) \<Longrightarrow> needle \<noteq> [] \<Longrightarrow> m + length needle \<le> length s"
  by (auto dest!: prefix_length_le) (metis add_leD2 diff_is_0_eq le_add_diff_inverse length_0_conv nat_le_linear le_zero_eq add.commute add_le_cancel_left)

lemma find_str_Some:
  assumes "find_str s needle = Some i"
  shows "prefix needle (drop i s) \<and> (\<forall>j<i. \<not> prefix needle (drop j s))"
proof (cases "needle = []")
  case True
  with assms show ?thesis by (simp add: find_str_def)
next
  case False
  with assms have le: "length needle \<le> length s"
    and l: "find_str_loop s needle (Suc (length s - length needle)) 0 = Some i"
    by (auto simp: find_str_def Let_def split: if_splits)
  from find_str_loop_Some [OF l] le have i: "i + length needle \<le> length s"
    "memcmp (drop i s) needle (length needle) = 0"
    "\<forall>m<i. memcmp (drop m s) needle (length needle) \<noteq> 0"
    by auto
  then show ?thesis by (auto simp: occurs_at_iff)
qed

lemma find_str_None:
  assumes "find_str s needle = None"
  shows "\<not> prefix needle (drop i s)"
proof
  assume p: "prefix needle (drop i s)"
  from assms have ne: "needle \<noteq> []" by (auto simp: find_str_def)
  from prefix_drop_bound [OF p ne] have b: "i + length needle \<le> length s" .
  with assms ne have "find_str_loop s needle (Suc (length s - length needle)) 0 = None"
    by (auto simp: find_str_def Let_def split: if_splits)
  from find_str_loop_None [OF this, of i] b have "memcmp (drop i s) needle (length needle) \<noteq> 0"
    by auto
  with p b show False by (simp add: occurs_at_iff)
qed

lemma rfind_loop_Some:
  "rfind_loop s c k = Some i \<longleftrightarrow> i < k \<and> s ! i = c \<and> (\<forall>j. i < j \<and> j < k \<longrightarrow> s ! j \<noteq> c)"
  by (induction k) (auto simp: less_Suc_eq)

lemma rfind_loop_None: "rfind_loop s c k = None \<longleftrightarrow> (\<forall>j<k. s ! j \<noteq> c)"
  by (induction k) (auto simp: less_Suc_eq)

lemma substr_eq:
  "substr s pos n = (if length s < pos then Inl StdOutOfRange
     else Inr (case n of None \<Rightarrow> drop pos s | Some k \<Rightarrow> take k (drop pos s)))"
  by (auto simp: substr_def slice_def split: option.splits)

lemma startsWith_iff: "startsWith s p = Inr (prefix p s)"
proof -
  have "take (length p) s = p \<longleftrightarrow> prefix p s"
    by (metis append_eq_conv_conj prefix_def)
  then show ?thesis by (simp add: startsWith_def substr_eq)
qed

lemma endsWith_iff: "endsWith s p = Inr (suffix p s)"
proof (cases "length p \<le> length s")
  case True
  then have "drop (length s - length p) s = p \<longleftrightarrow> suffix p s"
    by (metis append_take_drop_id suffix_def append_eq_append_conv length_drop diff_diff_cancel)
  with True show ?thesis by (simp add: endsWith_def substr_eq Let_def)
next
  case False
  then show ?thesis by (auto simp: endsWith_def Let_def dest: suffix_length_le)
qed

section \<open>Properties\<close>

text \<open>\<open>compare\<close> is the lexicographic order of the unsigned bytes, a linear order: it
  returns -1, 0 or 1 as the left string is smaller, equal or greater.\<close>

theorem compare_is_lexicographic:
  "compare a b = (if a < b then -1 else if a = b then 0 else 1) \<and> compare b a = - compare a b"
  by (auto simp: compare_lex)

text \<open>Searching for a string returns the first position at which it occurs, and \<open>npos\<close>
  exactly when it occurs nowhere.\<close>

theorem find_str_correct:
  "case find_str s needle of
     Some i \<Rightarrow> prefix needle (drop i s) \<and> (\<nexists>j. j < i \<and> prefix needle (drop j s))
   | None \<Rightarrow> (\<nexists>i. prefix needle (drop i s))"
proof (cases "find_str s needle")
  case None
  then show ?thesis using find_str_None [OF None] by simp
next
  case (Some i)
  then show ?thesis using find_str_Some [OF Some] by auto
qed

text \<open>\<open>startsWith\<close> and \<open>endsWith\<close> never throw (the \<open>substr\<close> they call stays in range)
  and decide prefix and suffix.\<close>

theorem startsWith_endsWith_correct:
  "startsWith s p = Inr (prefix p s) \<and> endsWith s p = Inr (suffix p s)"
  by (simp add: startsWith_iff endsWith_iff)

end
