(* ===== verification/BufBuilder.thy ===== *)
theory BufBuilder
  imports DataView StringData
begin

text \<open>
  \<^verbatim>\<open>mongo/bson/util/builder.h\<close>: the allocators, \<^verbatim>\<open>_BufBuilder\<close> and \<^verbatim>\<open>StringBuilderImpl\<close>.
  A cell of allocated memory is \<open>None\<close> until it is written. Whether the C library can serve an
  allocation of a given size is an argument \<open>env\<close>. Pointers into the buffer are offsets.
\<close>

definition BSONObjMaxUserSize :: int where
  "BSONObjMaxUserSize = 16 * 1024 * 1024"

definition BSONObjMaxInternalSize :: int where
  "BSONObjMaxInternalSize = BSONObjMaxUserSize + (16 * 1024)"

definition BufferMaxSize :: int where
  "BufferMaxSize = 64 * 1024 * 1024"

section \<open>Allocators\<close>

type_synonym cells = "byte option list"

datatype allocator = TrivialAllocator | StackAllocator

text \<open>A block and whether it is the stack allocator's own array.\<close>

record block =
  blk_stack :: bool
  blk_cells :: cells

definition StackAllocator_SZ :: int where
  "StackAllocator_SZ = 512"

definition c_malloc :: "(int \<Rightarrow> bool) \<Rightarrow> int \<Rightarrow> block option" where
  "c_malloc env sz =
     (if env sz then Some \<lparr>blk_stack = False, blk_cells = replicate (nat sz) None\<rparr> else None)"

definition c_realloc :: "(int \<Rightarrow> bool) \<Rightarrow> block option \<Rightarrow> int \<Rightarrow> block option" where
  "c_realloc env p sz =
     (case p of None \<Rightarrow> c_malloc env sz
      | Some b \<Rightarrow>
          if env sz
          then Some \<lparr>blk_stack = False,
                 blk_cells = take (nat sz) (blk_cells b) @ replicate (nat sz - length (blk_cells b)) None\<rparr>
          else None)"

fun Malloc :: "(int \<Rightarrow> bool) \<Rightarrow> allocator \<Rightarrow> int \<Rightarrow> block option" where
  "Malloc env TrivialAllocator sz = c_malloc env sz"
| "Malloc env StackAllocator sz =
     (if sz \<le> StackAllocator_SZ
      then Some \<lparr>blk_stack = True, blk_cells = replicate (nat StackAllocator_SZ) None\<rparr>
      else c_malloc env sz)"

fun Realloc :: "(int \<Rightarrow> bool) \<Rightarrow> allocator \<Rightarrow> block option \<Rightarrow> int \<Rightarrow> block option res" where
  "Realloc env TrivialAllocator p sz = Inr (c_realloc env p sz)"
| "Realloc env StackAllocator p sz =
     (case p of
        Some b \<Rightarrow>
          if blk_stack b then
            (if sz \<le> StackAllocator_SZ then Inr (Some b)
             else case c_malloc env sz of
                 None \<Rightarrow> Inl (MsgAssertion 15912)
               | Some d \<Rightarrow>
                   bindE (slice (blk_cells b) 0 (nat StackAllocator_SZ)) (\<lambda>src.
                   bindE (splice (blk_cells d) 0 src) (\<lambda>cs. Inr (Some (d\<lparr>blk_cells := cs\<rparr>)))))
          else Inr (c_realloc env p sz)
      | None \<Rightarrow> Inr (c_realloc env p sz))"

section \<open>_BufBuilder\<close>

record buf_builder =
  bb_al :: allocator
  bb_data :: "block option"
  bb_l :: int
  bb_size :: int
  bb_reserved :: int

definition BufBuilder_new :: "(int \<Rightarrow> bool) \<Rightarrow> allocator \<Rightarrow> int \<Rightarrow> buf_builder res" where
  "BufBuilder_new env al initsize =
     (if initsize > 0 then
        (case Malloc env al initsize of
           None \<Rightarrow> Inl (MsgAssertion 10000)
         | Some d \<Rightarrow> Inr \<lparr>bb_al = al, bb_data = Some d, bb_l = 0, bb_size = initsize, bb_reserved = 0\<rparr>)
      else Inr \<lparr>bb_al = al, bb_data = None, bb_l = 0, bb_size = initsize, bb_reserved = 0\<rparr>)"

definition StackBufBuilder_new :: "(int \<Rightarrow> bool) \<Rightarrow> buf_builder res" where
  "StackBufBuilder_new env = BufBuilder_new env StackAllocator StackAllocator_SZ"

definition bb_kill :: "buf_builder \<Rightarrow> buf_builder" where
  "bb_kill b = (case bb_data b of None \<Rightarrow> b | Some d \<Rightarrow> b\<lparr>bb_data := None\<rparr>)"

definition bb_reset :: "buf_builder \<Rightarrow> buf_builder" where
  "bb_reset b = b\<lparr>bb_l := 0, bb_reserved := 0\<rparr>"

definition bb_reset_max :: "(int \<Rightarrow> bool) \<Rightarrow> int \<Rightarrow> buf_builder \<Rightarrow> buf_builder res" where
  "bb_reset_max env maxSize b0 =
     (let b = b0\<lparr>bb_l := 0, bb_reserved := 0\<rparr> in
      if maxSize \<noteq> 0 \<and> bb_size b > maxSize then
        (case Malloc env (bb_al b) maxSize of
           None \<Rightarrow> Inl (MsgAssertion 15913)
         | Some d \<Rightarrow> Inr (b\<lparr>bb_data := Some d, bb_size := maxSize\<rparr>))
      else Inr b)"

text \<open>
  The doubling loop of \<open>grow_reallocate\<close>. With a start of 64 it ends or overflows; the branch
  for a start that is not positive is where the C++ loop would run forever.
\<close>

function grow_loop :: "int \<Rightarrow> int \<Rightarrow> int res" where
  "grow_loop a minSize =
     (if a < minSize then
        (if a \<le> 0 then Inl Diverges
         else if in_int32 (a * 2) then grow_loop (a * 2) minSize else Inl SignedOverflow)
      else Inr a)"
  by pat_completeness auto
termination
  by (relation "measure (\<lambda>(a, minSize). nat (minSize - a))") auto

declare grow_loop.simps [simp del]

definition grow_reallocate :: "(int \<Rightarrow> bool) \<Rightarrow> int \<Rightarrow> buf_builder \<Rightarrow> buf_builder res" where
  "grow_reallocate env minSize b =
     bindE (grow_loop 64 minSize) (\<lambda>a.
       if a > BufferMaxSize then Inl (MsgAssertion 13548)
       else bindE (Realloc env (bb_al b) (bb_data b) a) (\<lambda>d.
         case d of None \<Rightarrow> Inl (MsgAssertion 16070)
         | Some d \<Rightarrow> Inr (b\<lparr>bb_data := Some d, bb_size := a\<rparr>)))"

text \<open>\<open>grow\<close> returns the write position before the growth.\<close>

definition grow :: "(int \<Rightarrow> bool) \<Rightarrow> int \<Rightarrow> buf_builder \<Rightarrow> (int \<times> buf_builder) res" where
  "grow env n b =
     (let oldlen = bb_l b in
      bindE (chk32 (bb_l b + n)) (\<lambda>newLen.
      bindE (chk32 (newLen + bb_reserved b)) (\<lambda>minSize.
      bindE (if minSize > bb_size b then grow_reallocate env minSize b else Inr b) (\<lambda>b.
        Inr (oldlen, b\<lparr>bb_l := newLen\<rparr>)))))"

definition bb_skip :: "(int \<Rightarrow> bool) \<Rightarrow> int \<Rightarrow> buf_builder \<Rightarrow> (int \<times> buf_builder) res" where
  "bb_skip env n b = grow env n b"

definition reserveBytes :: "(int \<Rightarrow> bool) \<Rightarrow> int \<Rightarrow> buf_builder \<Rightarrow> buf_builder res" where
  "reserveBytes env n b =
     bindE (chk32 (bb_l b + bb_reserved b)) (\<lambda>x.
     bindE (chk32 (x + n)) (\<lambda>minSize.
     bindE (if minSize > bb_size b then grow_reallocate env minSize b else Inr b) (\<lambda>b.
     bindE (chk32 (bb_reserved b + n)) (\<lambda>r. Inr (b\<lparr>bb_reserved := r\<rparr>)))))"

definition claimReservedBytes :: "int \<Rightarrow> buf_builder \<Rightarrow> buf_builder res" where
  "claimReservedBytes n b =
     bindE (invariant (bb_reserved b \<ge> n)) (\<lambda>_.
     bindE (chk32 (bb_reserved b - n)) (\<lambda>r. Inr (b\<lparr>bb_reserved := r\<rparr>)))"

definition bb_decouple :: "buf_builder \<Rightarrow> buf_builder" where
  "bb_decouple b = b\<lparr>bb_data := None\<rparr>"

definition bb_len :: "buf_builder \<Rightarrow> int" where
  "bb_len b = bb_l b"

definition bb_setlen :: "int \<Rightarrow> buf_builder \<Rightarrow> buf_builder" where
  "bb_setlen newLen b = b\<lparr>bb_l := newLen\<rparr>"

definition bb_getSize :: "buf_builder \<Rightarrow> int" where
  "bb_getSize b = bb_size b"

text \<open>
  Storing bytes at an offset of the buffer, the \<^verbatim>\<open>memcpy(p, src, len)\<close> of the methods below.
\<close>

definition poke :: "int \<Rightarrow> bytes \<Rightarrow> buf_builder \<Rightarrow> buf_builder res" where
  "poke off src b =
     (case bb_data b of
        None \<Rightarrow> if src = [] then Inr b else Inl BadAccess
      | Some d \<Rightarrow>
          if off < 0 then Inl BadAccess
          else bindE (splice (blk_cells d) (nat off) (map Some src))
                 (\<lambda>cs. Inr (b\<lparr>bb_data := Some (d\<lparr>blk_cells := cs\<rparr>)\<rparr>)))"

definition appendBuf :: "(int \<Rightarrow> bool) \<Rightarrow> bytes \<Rightarrow> buf_builder \<Rightarrow> buf_builder res" where
  "appendBuf env src b =
     bindE (grow env (int_of_size (length src)) b) (\<lambda>(p, b). poke p src b)"

text \<open>
  \<open>appendNumImpl\<close>: by \<open>writeLE_eq\<close>, \<^verbatim>\<open>DataView::writeLE\<close> stores the little endian bytes on
  every host.
\<close>

definition appendNumImpl :: "(int \<Rightarrow> bool) \<Rightarrow> 'a::len word \<Rightarrow> buf_builder \<Rightarrow> buf_builder res" where
  "appendNumImpl env t b =
     bindE (grow env (int (LENGTH('a) div 8)) b) (\<lambda>(p, b). poke p (le_bytes t) b)"

definition appendUChar :: "(int \<Rightarrow> bool) \<Rightarrow> 8 word \<Rightarrow> buf_builder \<Rightarrow> buf_builder res" where
  "appendUChar env j b = appendNumImpl env j b"

definition appendChar :: "(int \<Rightarrow> bool) \<Rightarrow> 8 word \<Rightarrow> buf_builder \<Rightarrow> buf_builder res" where
  "appendChar env j b = appendNumImpl env j b"

definition appendNum_char :: "(int \<Rightarrow> bool) \<Rightarrow> 8 word \<Rightarrow> buf_builder \<Rightarrow> buf_builder res" where
  "appendNum_char env j b = appendNumImpl env j b"

definition appendNum_short :: "(int \<Rightarrow> bool) \<Rightarrow> 16 word \<Rightarrow> buf_builder \<Rightarrow> buf_builder res" where
  "appendNum_short env j b = appendNumImpl env j b"

definition appendNum_int :: "(int \<Rightarrow> bool) \<Rightarrow> 32 word \<Rightarrow> buf_builder \<Rightarrow> buf_builder res" where
  "appendNum_int env j b = appendNumImpl env j b"

definition appendNum_unsigned :: "(int \<Rightarrow> bool) \<Rightarrow> 32 word \<Rightarrow> buf_builder \<Rightarrow> buf_builder res" where
  "appendNum_unsigned env j b = appendNumImpl env j b"

text \<open>The overload on \<^verbatim>\<open>bool\<close> exists before C++11 only, and always fails.\<close>

definition appendNum_bool :: "bool \<Rightarrow> buf_builder \<Rightarrow> buf_builder res" where
  "appendNum_bool j b = bindE (invariant False) (\<lambda>_. Inr b)"

definition appendNum_double :: "(int \<Rightarrow> bool) \<Rightarrow> 64 word \<Rightarrow> buf_builder \<Rightarrow> buf_builder res" where
  "appendNum_double env j b = appendNumImpl env j b"

definition appendNum_longlong :: "(int \<Rightarrow> bool) \<Rightarrow> 64 word \<Rightarrow> buf_builder \<Rightarrow> buf_builder res" where
  "appendNum_longlong env j b = appendNumImpl env j b"

definition appendNum_ulonglong :: "(int \<Rightarrow> bool) \<Rightarrow> 64 word \<Rightarrow> buf_builder \<Rightarrow> buf_builder res" where
  "appendNum_ulonglong env j b = appendNumImpl env j b"

definition appendStr :: "(int \<Rightarrow> bool) \<Rightarrow> string_data \<Rightarrow> bool \<Rightarrow> buf_builder \<Rightarrow> buf_builder res" where
  "appendStr env str includeEndingNull b =
     (let len = int_of_size (length str + (if includeEndingNull then 1 else 0)) in
      bindE (grow env len b) (\<lambda>(p, b).
      bindE (poke p str b) (\<lambda>b.
        if includeEndingNull then poke (p + int (length str)) [0] b else Inr b)))"

text \<open>\<^verbatim>\<open>appendStruct\<close> copies the bytes that represent the struct; \<^verbatim>\<open>buf()\<close> is the pointer to the buffer.\<close>

definition appendStruct :: "('s \<Rightarrow> bytes) \<Rightarrow> (int \<Rightarrow> bool) \<Rightarrow> 's \<Rightarrow> buf_builder \<Rightarrow> buf_builder res" where
  "appendStruct object_bytes env s b = appendBuf env (object_bytes s) b"

definition bb_buf :: "buf_builder \<Rightarrow> block option" where
  "bb_buf b = bb_data b"

section \<open>Invariant and contents\<close>

text \<open>
  The buffer has room for what is written and what is reserved; a buffer of a size has a block
  of at least that many cells, and the stack allocator's array is only used by it.
\<close>

definition block_ok :: "buf_builder \<Rightarrow> bool" where
  "block_ok b = (case bb_data b of
       None \<Rightarrow> bb_size b \<le> 0
     | Some d \<Rightarrow> bb_size b \<le> int (length (blk_cells d)) \<and> int (length (blk_cells d)) \<le> int32_max \<and>
         (blk_stack d \<longrightarrow> bb_al b = StackAllocator \<and> int (length (blk_cells d)) = StackAllocator_SZ))"

definition bb_ok :: "buf_builder \<Rightarrow> bool" where
  "bb_ok b \<longleftrightarrow> 0 \<le> bb_l b \<and> 0 \<le> bb_reserved b \<and> bb_l b + bb_reserved b \<le> bb_size b \<and>
     bb_size b \<le> int32_max \<and> block_ok b"

definition contents :: "buf_builder \<Rightarrow> cells" where
  "contents b = (case bb_data b of None \<Rightarrow> [] | Some d \<Rightarrow> take (nat (bb_l b)) (blk_cells d))"

text \<open>What the C library is documented to do for a size that memory has room for.\<close>

definition mallocs :: "(int \<Rightarrow> bool) \<Rightarrow> bool" where
  "mallocs env \<longleftrightarrow> (\<forall>sz. 0 < sz \<and> sz \<le> BufferMaxSize \<longrightarrow> env sz)"

lemmas size_consts = BufferMaxSize_def int32_max_def int32_min_def StackAllocator_SZ_def

lemma length_contents: "bb_ok b \<Longrightarrow> length (contents b) = nat (bb_l b)"
  by (auto simp: bb_ok_def block_ok_def contents_def split: option.splits)

section \<open>The doubling loop\<close>

lemma grow_loop_Inr:
  "0 < a \<Longrightarrow> grow_loop a m = Inr r \<Longrightarrow>
     m \<le> r \<and> a \<le> r \<and> (r = a \<or> r < 2 * m) \<and> (\<exists>k. r = a * 2 ^ k)"
proof (induction a m rule: grow_loop.induct)
  case (1 a m)
  show ?case
  proof (cases "a < m")
    case True
    with "1.prems" have c: "in_int32 (a * 2)" and r: "grow_loop (a * 2) m = Inr r"
      by (simp_all add: grow_loop.simps [of a m] split: if_splits)
    have ih: "m \<le> r \<and> a * 2 \<le> r \<and> (r = a * 2 \<or> r < 2 * m) \<and> (\<exists>k. r = a * 2 * 2 ^ k)"
      by (rule "1.IH") (use True "1.prems" c r in auto)
    then obtain k where "r = a * 2 * 2 ^ k" by blast
    then have "r = a * 2 ^ Suc k" by simp
    moreover from ih True "1.prems"(1) have "m \<le> r" "a \<le> r" "r < 2 * m" by linarith+
    ultimately show ?thesis by blast
  next
    case False
    with "1.prems" show ?thesis
      by (auto simp: grow_loop.simps [of a m] intro: exI [of _ 0])
  qed
qed

lemma grow_loop_total: "0 < a \<Longrightarrow> m \<le> 2 ^ 30 \<Longrightarrow> \<exists>r. grow_loop a m = Inr r"
proof (induction a m rule: grow_loop.induct)
  case (1 a m)
  show ?case
  proof (cases "a < m")
    case True
    with "1.prems" have c: "in_int32 (a * 2)" by (simp add: in_int32_iff)
    with True "1.prems" "1.IH" obtain r where "grow_loop (a * 2) m = Inr r" by auto
    with True c "1.prems" show ?thesis by (simp add: grow_loop.simps [of a m])
  qed (simp add: grow_loop.simps [of a m])
qed

lemma grow_loop_overflow: "2 ^ 30 < m \<Longrightarrow> j + i = 30 \<Longrightarrow> grow_loop (2 ^ j) m = Inl SignedOverflow"
proof (induction i arbitrary: j)
  case 0
  then show ?case by (simp add: grow_loop.simps [of 1073741824 m] in_int32_iff)
next
  case (Suc i)
  then have j: "j \<le> 29" by simp
  have "(2::int) ^ j \<le> 2 ^ 29" using j by (rule power_increasing) simp
  moreover have "grow_loop (2 ^ Suc j) m = Inl SignedOverflow"
    by (rule Suc.IH) (use Suc.prems in auto)
  ultimately show ?case using Suc.prems(1)
    by (simp add: grow_loop.simps [of "2 ^ j" m] in_int32_iff mult.commute)
qed

section \<open>Growing\<close>

lemma realloc_spec:
  assumes ok: "block_ok b" and a: "bb_size b < a" "64 \<le> a" "a \<le> BufferMaxSize"
    and l: "0 \<le> bb_l b" "bb_l b \<le> bb_size b" and env: "mallocs env"
  shows "\<exists>d. Realloc env (bb_al b) (bb_data b) a = Inr (Some d) \<and> a \<le> int (length (blk_cells d)) \<and>
    int (length (blk_cells d)) \<le> int32_max \<and>
    (blk_stack d \<longrightarrow> bb_al b = StackAllocator \<and> int (length (blk_cells d)) = StackAllocator_SZ) \<and>
    take (nat (bb_l b)) (blk_cells d) = contents b"
proof -
  have e: "env a" using env a by (auto simp: mallocs_def)
  show ?thesis
  proof (cases "bb_data b")
    case None
    with ok l have "bb_l b = 0" by (simp add: block_ok_def)
    with None e a show ?thesis
      by (cases "bb_al b") (auto simp: c_realloc_def c_malloc_def contents_def size_consts)
  next
    case (Some d)
    with ok have d: "bb_size b \<le> int (length (blk_cells d))"
      "blk_stack d \<Longrightarrow> bb_al b = StackAllocator \<and> length (blk_cells d) = 512"
      by (auto simp: block_ok_def size_consts)
    have heap: "take (nat (bb_l b))
        (take (nat a) (blk_cells d) @ replicate (nat a - length (blk_cells d)) None) = contents b"
      using Some d l a by (simp add: contents_def min_def)
    show ?thesis
      using Some d e a l heap
      by (cases "bb_al b"; cases "blk_stack d")
        (auto simp: c_realloc_def c_malloc_def contents_def size_consts slice_def splice_def min_def)
  qed
qed

lemma grow_reallocate_total:
  assumes ok: "block_ok b" and m: "bb_size b < m" "m \<le> BufferMaxSize"
    and l: "0 \<le> bb_l b" "bb_l b \<le> bb_size b" and env: "mallocs env"
  shows "\<exists>b' d. grow_reallocate env m b = Inr b' \<and> b' = b\<lparr>bb_data := Some d, bb_size := bb_size b'\<rparr> \<and>
    m \<le> bb_size b' \<and> bb_size b' \<le> BufferMaxSize \<and> block_ok b' \<and> contents b' = contents b"
proof -
  from grow_loop_total [of 64 m] m obtain a where g: "grow_loop 64 m = Inr a"
    by (auto simp: size_consts)
  have a: "m \<le> a" "64 \<le> a" and a': "a = 64 \<or> a < 2 * m" "\<exists>k. a = 64 * 2 ^ k"
    using grow_loop_Inr [OF _ g] by auto
  have "a \<le> BufferMaxSize"
  proof -
    from a'(2) obtain k :: nat where k: "a = 64 * 2 ^ k" by blast
    have "k < 21 \<or> 21 \<le> k" by arith
    then show ?thesis
    proof
      assume "k < 21"
      then have "(2::int) ^ k \<le> 2 ^ 20" by (intro power_increasing) auto
      then show ?thesis by (simp add: k BufferMaxSize_def)
    next
      assume "21 \<le> k"
      then have "(2::int) ^ 21 \<le> 2 ^ k" by (intro power_increasing) auto
      then have "2 * m \<le> a" using m(2) by (simp add: k BufferMaxSize_def)
      with a'(1) m show ?thesis by (auto simp: BufferMaxSize_def)
    qed
  qed
  with realloc_spec [OF ok _ a(2) _ l env] m a obtain d where
    d: "Realloc env (bb_al b) (bb_data b) a = Inr (Some d)" "a \<le> int (length (blk_cells d))"
      "int (length (blk_cells d)) \<le> int32_max"
      "blk_stack d \<longrightarrow> bb_al b = StackAllocator \<and> int (length (blk_cells d)) = StackAllocator_SZ"
      "take (nat (bb_l b)) (blk_cells d) = contents b"
    by auto
  with g \<open>a \<le> BufferMaxSize\<close> a(1) show ?thesis
    by (intro exI [of _ "b\<lparr>bb_data := Some d, bb_size := a\<rparr>"] exI [of _ d])
      (auto simp: grow_reallocate_def block_ok_def contents_def)
qed

text \<open>Growing beyond the limit is always refused: by the check, or by the overflow before it.\<close>

lemma grow_reallocate_Inr_le:
  "grow_reallocate env m b = Inr b' \<Longrightarrow> m \<le> BufferMaxSize"
  by (auto simp: grow_reallocate_def bindE_eq_Inr split: if_splits dest!: grow_loop_Inr [rotated])

lemma grow_total:
  assumes ok: "bb_ok b" and n: "0 \<le> n" "bb_l b + n + bb_reserved b \<le> BufferMaxSize"
    and env: "mallocs env"
  shows "\<exists>b'. grow env n b = Inr (bb_l b, b') \<and> bb_ok b' \<and> bb_l b' = bb_l b + n \<and>
    bb_reserved b' = bb_reserved b \<and> bb_al b' = bb_al b \<and>
    take (nat (bb_l b)) (contents b') = contents b"
proof -
  have r: "in_int32 (bb_l b + n)" "in_int32 (bb_l b + n + bb_reserved b)"
    using ok n by (auto simp: bb_ok_def in_int32_iff size_consts)
  show ?thesis
  proof (cases "bb_size b < bb_l b + n + bb_reserved b")
    case False
    with r ok n show ?thesis
      by (intro exI [of _ "b\<lparr>bb_l := bb_l b + n\<rparr>"])
        (auto simp: grow_def bb_ok_def block_ok_def contents_def min_def split: option.splits)
  next
    case True
    from ok have l: "block_ok b" "0 \<le> bb_l b" "bb_l b \<le> bb_size b"
      by (auto simp: bb_ok_def)
    from grow_reallocate_total [OF l(1) True n(2) l(2,3) env] obtain b1 d where
      g: "grow_reallocate env (bb_l b + n + bb_reserved b) b = Inr b1"
      and b1: "b1 = b\<lparr>bb_data := Some d, bb_size := bb_size b1\<rparr>"
        "bb_l b + n + bb_reserved b \<le> bb_size b1" "bb_size b1 \<le> BufferMaxSize" "block_ok b1"
        "contents b1 = contents b"
      by blast
    have f: "bb_l b1 = bb_l b" "bb_reserved b1 = bb_reserved b" "bb_al b1 = bb_al b"
      "bb_data b1 = Some d"
      by (subst b1(1), simp)+
    have "bb_ok (b1\<lparr>bb_l := bb_l b + n\<rparr>)"
      using b1 ok n f by (auto simp: bb_ok_def block_ok_def size_consts)
    moreover have "take (nat (bb_l b)) (contents (b1\<lparr>bb_l := bb_l b + n\<rparr>)) = contents b"
      using b1(5) f nat_mono [of "bb_l b" "bb_l b + n"] n(1) by (simp add: contents_def min_def)
    ultimately show ?thesis
      using g r True f by (intro exI [of _ "b1\<lparr>bb_l := bb_l b + n\<rparr>"]) (simp add: grow_def)
  qed
qed

lemma grow_Inr_le:
  assumes "bb_ok b" and "bb_size b \<le> BufferMaxSize" and "grow env n b = Inr (p, b')"
  shows "bb_l b + n + bb_reserved b \<le> BufferMaxSize"
  using assms by (auto simp: grow_def Let_def bindE_eq_Inr chk32_eq_Inr dest!: grow_reallocate_Inr_le split: if_splits)

section \<open>Storing\<close>

lemma poke_spec:
  assumes ok: "bb_ok b" and r: "0 \<le> off" "off + int (length src) \<le> bb_l b"
  shows "\<exists>b'. poke off src b = Inr b' \<and> bb_ok b' \<and> bb_l b' = bb_l b \<and>
    bb_reserved b' = bb_reserved b \<and> bb_al b' = bb_al b \<and> bb_size b' = bb_size b \<and>
    contents b' = take (nat off) (contents b) @ map Some src @ drop (nat off + length src) (contents b)"
proof (cases "bb_data b")
  case None
  with ok have "bb_l b \<le> 0" by (auto simp: bb_ok_def block_ok_def)
  with r have "int (length src) \<le> 0" by linarith
  then have "src = []" by simp
  with None ok show ?thesis by (auto simp: poke_def contents_def)
next
  case (Some d)
  have len: "nat off + length src \<le> length (blk_cells d)" "nat off + length src \<le> nat (bb_l b)"
    using ok r Some by (auto simp: bb_ok_def block_ok_def)
  let ?cs = "take (nat off) (blk_cells d) @ map Some src @ drop (nat off + length src) (blk_cells d)"
  have p: "poke off src b = Inr (b\<lparr>bb_data := Some (d\<lparr>blk_cells := ?cs\<rparr>)\<rparr>)"
    using Some r len by (simp add: poke_def splice_def)
  have "length ?cs = length (blk_cells d)" using len by simp
  then have "bb_ok (b\<lparr>bb_data := Some (d\<lparr>blk_cells := ?cs\<rparr>)\<rparr>)"
    using ok Some by (simp add: bb_ok_def block_ok_def)
  moreover have "take (nat (bb_l b)) ?cs = take (nat off) (take (nat (bb_l b)) (blk_cells d)) @ map Some src @
      drop (nat off + length src) (take (nat (bb_l b)) (blk_cells d))"
    by (rule take_overwrite)
      (use len ok Some in \<open>auto simp: bb_ok_def block_ok_def\<close>)
  ultimately show ?thesis using p Some by (simp add: contents_def)
qed

section \<open>Appending\<close>

text \<open>
  \<open>emits env f bs\<close>: on a buffer that keeps the invariant, \<open>f\<close> appends exactly the bytes
  \<open>bs\<close>, keeps the invariant and the reservation, and fails only when the buffer would exceed
  the limit of 64MB. Appending operations compose by concatenation.
\<close>

definition emits :: "(buf_builder \<Rightarrow> buf_builder res) \<Rightarrow> bytes \<Rightarrow> bool" where
  "emits f bs \<longleftrightarrow> (\<forall>b. bb_ok b \<and> bb_l b + int (length bs) + bb_reserved b \<le> BufferMaxSize \<longrightarrow>
     (\<exists>b'. f b = Inr b' \<and> bb_ok b' \<and> contents b' = contents b @ map Some bs \<and>
       bb_l b' = bb_l b + int (length bs) \<and> bb_reserved b' = bb_reserved b \<and> bb_al b' = bb_al b))"

named_theorems emit "operations that append known bytes"

lemma emits_comp:
  assumes "emits f xs" and "emits g ys"
  shows "emits (\<lambda>b. bindE (f b) g) (xs @ ys)"
  unfolding emits_def
proof (intro allI impI)
  fix b
  assume b: "bb_ok b \<and> bb_l b + int (length (xs @ ys)) + bb_reserved b \<le> BufferMaxSize"
  then have "bb_ok b \<and> bb_l b + int (length xs) + bb_reserved b \<le> BufferMaxSize" by simp
  with assms(1) obtain b1 where b1: "f b = Inr b1" "bb_ok b1" "contents b1 = contents b @ map Some xs"
    "bb_l b1 = bb_l b + int (length xs)" "bb_reserved b1 = bb_reserved b" "bb_al b1 = bb_al b"
    unfolding emits_def by blast
  then have "bb_ok b1 \<and> bb_l b1 + int (length ys) + bb_reserved b1 \<le> BufferMaxSize" using b by simp
  with assms(2) obtain b2 where "g b1 = Inr b2" "bb_ok b2" "contents b2 = contents b1 @ map Some ys"
    "bb_l b2 = bb_l b1 + int (length ys)" "bb_reserved b2 = bb_reserved b1" "bb_al b2 = bb_al b1"
    unfolding emits_def by blast
  with b1 show "\<exists>b'. bindE (f b) g = Inr b' \<and> bb_ok b' \<and> contents b' = contents b @ map Some (xs @ ys) \<and>
       bb_l b' = bb_l b + int (length (xs @ ys)) \<and> bb_reserved b' = bb_reserved b \<and> bb_al b' = bb_al b"
    by simp
qed

lemma emits_return [emit]: "emits Inr []"
  by (simp add: emits_def)

lemma take_drop_contents:
  assumes "take n c = xs" "length xs = n" "length c = n + length ys"
  shows "take n c @ map Some ys @ drop (n + length ys) c = xs @ map Some ys"
  using assms by simp

lemma grow_poke_emits:
  assumes env: "mallocs env" and n: "n = int (length bs)"
  shows "emits (\<lambda>b. bindE (grow env n b) (\<lambda>(p, b). poke p bs b)) bs"
  unfolding emits_def
proof (intro allI impI)
  fix b
  assume b: "bb_ok b \<and> bb_l b + int (length bs) + bb_reserved b \<le> BufferMaxSize"
  from grow_total [of b n env] b env n obtain b1 where
    g: "grow env n b = Inr (bb_l b, b1)" and b1: "bb_ok b1" "bb_l b1 = bb_l b + n"
      "bb_reserved b1 = bb_reserved b" "bb_al b1 = bb_al b"
      "take (nat (bb_l b)) (contents b1) = contents b"
    by auto
  have l0: "0 \<le> bb_l b" using b by (simp add: bb_ok_def)
  from poke_spec [OF b1(1), of "bb_l b" bs] l0 b1 n obtain b2 where
    p: "poke (bb_l b) bs b1 = Inr b2" "bb_ok b2" "bb_l b2 = bb_l b1" "bb_reserved b2 = bb_reserved b1"
      "bb_al b2 = bb_al b1"
      "contents b2 = take (nat (bb_l b)) (contents b1) @ map Some bs @ drop (nat (bb_l b) + length bs) (contents b1)"
    by auto
  have "contents b2 = contents b @ map Some bs"
    unfolding p(6) by (rule take_drop_contents)
      (use b b1 n l0 in \<open>simp_all add: length_contents nat_add_distrib\<close>)
  with g p b1 n show "\<exists>b'. bindE (grow env n b) (\<lambda>(p, b). poke p bs b) = Inr b' \<and> bb_ok b' \<and>
      contents b' = contents b @ map Some bs \<and> bb_l b' = bb_l b + int (length bs) \<and>
      bb_reserved b' = bb_reserved b \<and> bb_al b' = bb_al b"
    by simp
qed

lemma emits_cong_small:
  assumes "\<And>b. int (length bs) \<le> BufferMaxSize \<Longrightarrow> bb_ok b \<Longrightarrow> f b = g b" and "emits g bs"
  shows "emits f bs"
  unfolding emits_def
proof (intro allI impI)
  fix b
  assume b: "bb_ok b \<and> bb_l b + int (length bs) + bb_reserved b \<le> BufferMaxSize"
  then have "int (length bs) \<le> BufferMaxSize" by (simp add: bb_ok_def)
  with assms b show "\<exists>b'. f b = Inr b' \<and> bb_ok b' \<and>
      contents b' = contents b @ map Some bs \<and> bb_l b' = bb_l b + int (length bs) \<and>
      bb_reserved b' = bb_reserved b \<and> bb_al b' = bb_al b"
    by (simp add: emits_def)
qed

lemma appendBuf_emits [emit]: "mallocs env \<Longrightarrow> emits (appendBuf env src) src"
  by (rule emits_cong_small [OF _ grow_poke_emits])
    (auto simp: appendBuf_def int_of_size_small size_consts)

lemma appendNumImpl_emits [emit]: "mallocs env \<Longrightarrow> emits (appendNumImpl env t) (le_bytes t)"
  unfolding appendNumImpl_def by (rule grow_poke_emits) simp_all

lemma appendStr_emits [emit]:
  assumes env: "mallocs env"
  shows "emits (appendStr env str nul) (str @ (if nul then [0] else []))"
proof (cases nul)
  case False
  then show ?thesis
    by (intro emits_cong_small [OF _ grow_poke_emits [OF env]])
      (auto simp: appendStr_def int_of_size_small size_consts bindE_def split: sum.splits)
next
  case True
  show ?thesis
    unfolding emits_def
  proof (intro allI impI)
    fix b
    assume "bb_ok b \<and> bb_l b + int (length (str @ (if nul then [0] else []))) + bb_reserved b \<le> BufferMaxSize"
    with True have b: "bb_ok b" "bb_l b + (int (length str) + 1) + bb_reserved b \<le> BufferMaxSize" by auto
    have l0: "0 \<le> bb_l b" and res0: "0 \<le> bb_reserved b" using b by (simp_all add: bb_ok_def)
    from grow_total [OF b(1) _ b(2) env] obtain b1 where
      g: "grow env (int (length str) + 1) b = Inr (bb_l b, b1)" and b1: "bb_ok b1"
        "bb_l b1 = bb_l b + (int (length str) + 1)" "bb_reserved b1 = bb_reserved b"
        "bb_al b1 = bb_al b" "take (nat (bb_l b)) (contents b1) = contents b"
      by auto
    from poke_spec [OF b1(1), of "bb_l b" str] l0 b1 obtain b2 where
      p: "poke (bb_l b) str b1 = Inr b2" "bb_ok b2" "bb_l b2 = bb_l b1" "bb_reserved b2 = bb_reserved b1"
        "bb_al b2 = bb_al b1"
        "contents b2 = contents b @ map Some str @ drop (nat (bb_l b) + length str) (contents b1)"
      by auto
    from poke_spec [OF p(2), of "bb_l b + int (length str)" "[0]"] l0 b1 p obtain b3 where
      q: "poke (bb_l b + int (length str)) [0] b2 = Inr b3" "bb_ok b3" "bb_l b3 = bb_l b2"
        "bb_reserved b3 = bb_reserved b2" "bb_al b3 = bb_al b2"
        "contents b3 = take (nat (bb_l b + int (length str))) (contents b2) @ map Some [0] @
           drop (nat (bb_l b + int (length str)) + 1) (contents b2)"
      by auto
    have lens: "length (contents b) = nat (bb_l b)" "length (contents b1) = nat (bb_l b) + length str + 1"
      using b b1 l0 by (simp_all add: length_contents nat_add_distrib)
    have "contents b3 = contents b @ map Some (str @ [0])"
      unfolding q(6) p(6) using l0 lens by (simp add: nat_add_distrib)
    moreover have "int_of_size (length str + 1) = int (length str) + 1"
      using b l0 res0 by (subst int_of_size_small) (simp_all add: size_consts)
    ultimately show "\<exists>b'. appendStr env str nul b = Inr b' \<and> bb_ok b' \<and>
        contents b' = contents b @ map Some (str @ (if nul then [0] else [])) \<and>
        bb_l b' = bb_l b + int (length (str @ (if nul then [0] else []))) \<and>
        bb_reserved b' = bb_reserved b \<and> bb_al b' = bb_al b"
      using g p q b1 True by (simp add: appendStr_def)
  qed
qed

section \<open>Construction and reservations\<close>

lemma BufBuilder_new_ok:
  assumes "mallocs env" and "0 \<le> n" and "n \<le> BufferMaxSize"
  shows "\<exists>b. BufBuilder_new env al n = Inr b \<and> bb_ok b \<and> contents b = [] \<and> bb_l b = 0 \<and>
    bb_reserved b = 0 \<and> bb_size b = n"
proof -
  have "0 < n \<Longrightarrow> env n" using assms by (simp add: mallocs_def)
  then show ?thesis using assms
    by (cases al) (auto simp: BufBuilder_new_def c_malloc_def bb_ok_def block_ok_def contents_def size_consts)
qed

lemma reserveBytes_total:
  assumes ok: "bb_ok b" and n: "0 \<le> n" "bb_l b + bb_reserved b + n \<le> BufferMaxSize"
    and env: "mallocs env"
  shows "\<exists>b'. reserveBytes env n b = Inr b' \<and> bb_ok b' \<and> contents b' = contents b \<and>
    bb_l b' = bb_l b \<and> bb_reserved b' = bb_reserved b + n \<and> bb_al b' = bb_al b"
proof -
  have r: "in_int32 (bb_l b + bb_reserved b)" "in_int32 (bb_l b + bb_reserved b + n)"
    "in_int32 (bb_reserved b + n)"
    using ok n by (auto simp: bb_ok_def in_int32_iff size_consts)
  show ?thesis
  proof (cases "bb_size b < bb_l b + bb_reserved b + n")
    case False
    with r ok n show ?thesis
      by (intro exI [of _ "b\<lparr>bb_reserved := bb_reserved b + n\<rparr>"])
        (auto simp: reserveBytes_def bb_ok_def block_ok_def contents_def split: option.splits)
  next
    case True
    from ok have l: "block_ok b" "0 \<le> bb_l b" "bb_l b \<le> bb_size b"
      by (auto simp: bb_ok_def)
    from grow_reallocate_total [OF l(1) True n(2) l(2,3) env] obtain b1 d where
      g: "grow_reallocate env (bb_l b + bb_reserved b + n) b = Inr b1"
      and b1: "b1 = b\<lparr>bb_data := Some d, bb_size := bb_size b1\<rparr>"
        "bb_l b + bb_reserved b + n \<le> bb_size b1" "bb_size b1 \<le> BufferMaxSize" "block_ok b1"
        "contents b1 = contents b"
      by blast
    have f: "bb_l b1 = bb_l b" "bb_reserved b1 = bb_reserved b" "bb_al b1 = bb_al b"
      "bb_data b1 = Some d"
      by (subst b1(1), simp)+
    have "bb_ok (b1\<lparr>bb_reserved := bb_reserved b + n\<rparr>)"
      using b1 ok n f by (auto simp: bb_ok_def block_ok_def size_consts)
    then show ?thesis
      using g r True f b1(5)
      by (intro exI [of _ "b1\<lparr>bb_reserved := bb_reserved b + n\<rparr>"])
        (simp add: reserveBytes_def contents_def)
  qed
qed

lemma claim_ok:
  assumes "bb_ok b" and "0 \<le> n" and "n \<le> bb_reserved b"
  shows "\<exists>b'. claimReservedBytes n b = Inr b' \<and> b' = b\<lparr>bb_reserved := bb_reserved b - n\<rparr> \<and> bb_ok b' \<and>
    contents b' = contents b"
  using assms
  by (auto simp: claimReservedBytes_def bb_ok_def block_ok_def contents_def chk32_def in_int32_iff
      size_consts split: option.splits)

section \<open>Properties\<close>

text \<open>C36: reallocation chooses the least of 64, 128, 256, ... that is large enough, never above
  64MB, and keeps the bytes written so far.\<close>

theorem grow_reallocate_correct:
  assumes "bb_ok b" and "bb_size b < m" and "m \<le> BufferMaxSize" and "mallocs env"
  shows "\<exists>b' k. grow_reallocate env m b = Inr b' \<and> bb_size b' = 64 * 2 ^ k \<and> m \<le> bb_size b' \<and>
    (bb_size b' = 64 \<or> bb_size b' < 2 * m) \<and> bb_size b' \<le> BufferMaxSize \<and> contents b' = contents b"
proof -
  from assms(1) have l: "block_ok b" "0 \<le> bb_l b" "bb_l b \<le> bb_size b"
    by (auto simp: bb_ok_def)
  from grow_reallocate_total [OF l(1) assms(2,3) l(2,3) assms(4)] obtain b' where
    g: "grow_reallocate env m b = Inr b'" "m \<le> bb_size b'" "bb_size b' \<le> BufferMaxSize"
      "contents b' = contents b"
    by blast
  from g(1) have "grow_loop 64 m = Inr (bb_size b')"
    by (auto simp: grow_reallocate_def bindE_eq_Inr split: if_splits option.splits)
  from grow_loop_Inr [OF _ this] g show ?thesis by auto
qed

theorem grow_reallocate_correct_witness:
  "\<exists>b' k. grow_reallocate (\<lambda>_. True) 100
      \<lparr>bb_al = TrivialAllocator, bb_data = None, bb_l = 0, bb_size = 0, bb_reserved = 0\<rparr> = Inr b' \<and>
    bb_size b' = 64 * 2 ^ k \<and> 100 \<le> bb_size b' \<and> (bb_size b' = 64 \<or> bb_size b' < 2 * 100) \<and>
    bb_size b' \<le> BufferMaxSize \<and>
    contents b' = contents \<lparr>bb_al = TrivialAllocator, bb_data = None, bb_l = 0, bb_size = 0, bb_reserved = 0\<rparr>"
  by (rule grow_reallocate_correct) (simp_all add: bb_ok_def block_ok_def mallocs_def size_consts)

text \<open>a request above 64MB is refused with message 13548 while it is at most \<open>2 ^ 30\<close>; beyond
  that the doubling overflows \<^verbatim>\<open>int\<close> before the limit is checked.\<close>

theorem grow_reallocate_limit:
  "(BufferMaxSize < m \<and> m \<le> 2 ^ 30 \<longrightarrow> grow_reallocate env m b = Inl (MsgAssertion 13548)) \<and>
   (2 ^ 30 < m \<longrightarrow> grow_reallocate env m b = Inl SignedOverflow)"
proof (intro conjI impI)
  assume m: "BufferMaxSize < m \<and> m \<le> 2 ^ 30"
  with grow_loop_total [of 64 m] obtain r where r: "grow_loop 64 m = Inr r" by auto
  with m grow_loop_Inr [OF _ r] show "grow_reallocate env m b = Inl (MsgAssertion 13548)"
    by (simp add: grow_reallocate_def)
next
  assume "2 ^ 30 < m"
  from grow_loop_overflow [OF this, of 6 24] show "grow_reallocate env m b = Inl SignedOverflow"
    by (simp add: grow_reallocate_def)
qed

theorem grow_reallocate_limit_witness:
  "grow_reallocate (\<lambda>_. True) 100000000
      \<lparr>bb_al = TrivialAllocator, bb_data = None, bb_l = 0, bb_size = 0, bb_reserved = 0\<rparr> =
    Inl (MsgAssertion 13548) \<and>
   grow_reallocate (\<lambda>_. True) 2000000000
      \<lparr>bb_al = TrivialAllocator, bb_data = None, bb_l = 0, bb_size = 0, bb_reserved = 0\<rparr> =
    Inl SignedOverflow"
  using grow_reallocate_limit [of 100000000] grow_reallocate_limit [of 2000000000]
  by (simp add: BufferMaxSize_def)

text \<open>C23: after a claim of reserved bytes, an append of up to that many bytes succeeds without
  reallocating, even where no allocation can be served.\<close>

theorem claim_guarantees_append:
  assumes "bb_ok b" and "int (length src) \<le> n" and "n \<le> bb_reserved b"
    and "bb_data b = Some d"
  shows "\<exists>b1 b2. claimReservedBytes n b = Inr b1 \<and> appendBuf (\<lambda>_. False) src b1 = Inr b2 \<and>
    bb_size b2 = bb_size b \<and> contents b2 = contents b @ map Some src"
proof -
  have n0: "0 \<le> n" using assms(2) by linarith
  from claim_ok [OF assms(1) n0 assms(3)] obtain b1 where
    c: "claimReservedBytes n b = Inr b1" "b1 = b\<lparr>bb_reserved := bb_reserved b - n\<rparr>" "bb_ok b1"
    "contents b1 = contents b" by blast
  have small: "int (length src) \<le> int32_max" "int_of_size (length src) = int (length src)"
    using assms by (auto simp: bb_ok_def size_consts intro!: int_of_size_small)
  let ?b = "b1\<lparr>bb_l := bb_l b1 + int (length src)\<rparr>"
  have g: "grow (\<lambda>_. False) (int (length src)) b1 = Inr (bb_l b1, ?b)"
    using assms c(2) by (simp add: grow_def bb_ok_def in_int32_iff size_consts)
  have ok: "bb_ok ?b"
    using assms c(2) by (auto simp: bb_ok_def block_ok_def)
  have l0: "0 \<le> bb_l b1" using c(3) by (simp add: bb_ok_def)
  from poke_spec [OF ok, of "bb_l b1" src] l0 obtain b2 where
    p: "poke (bb_l b1) src ?b = Inr b2" "bb_size b2 = bb_size b1"
      "contents b2 = take (nat (bb_l b1)) (contents ?b) @ map Some src @
         drop (nat (bb_l b1) + length src) (contents ?b)"
    by auto
  have "length (contents ?b) = nat (bb_l b1) + length src"
    using length_contents [OF ok] l0 by (simp add: nat_add_distrib)
  moreover have "take (nat (bb_l b1)) (contents ?b) = contents b1"
    using assms(4) c(2) l0 by (simp add: contents_def min_def nat_add_distrib)
  ultimately show ?thesis
    using c g p small by (simp add: appendBuf_def)
qed

theorem claim_guarantees_append_witness:
  "\<exists>b1 b2. claimReservedBytes 1
      \<lparr>bb_al = TrivialAllocator, bb_data = Some \<lparr>blk_stack = False, blk_cells = [None]\<rparr>,
       bb_l = 0, bb_size = 1, bb_reserved = 1\<rparr> = Inr b1 \<and>
    appendBuf (\<lambda>_. False) [7] b1 = Inr b2 \<and> bb_size b2 = 1 \<and> contents b2 = [] @ map Some [7]"
  using claim_guarantees_append [of "\<lparr>bb_al = TrivialAllocator,
      bb_data = Some \<lparr>blk_stack = False, blk_cells = [None]\<rparr>, bb_l = 0, bb_size = 1, bb_reserved = 1\<rparr>" "[7]" 1]
  by (simp add: bb_ok_def block_ok_def size_consts contents_def)

end
