(* ===== verification/Message.thy ===== *)
theory Message
  imports DataView BufBuilder "HOL-Library.Multiset"
begin

text \<open>
  \<^verbatim>\<open>mongo/util/net/message.h\<close> and \<^verbatim>\<open>operation.h\<close>: operation codes, the header that starts a message
  of the wire protocol, and the class \<open>Message\<close>, which owns one buffer or a sequence of them. Buffers
  are blocks of an explicit heap, so that what is freed and who owns it can be stated. Header fields
  are little endian on every host (\<open>readLE_eq\<close> and \<open>writeLE_eq\<close> of \<open>DataView\<close>), so the views read and write
  them with \<open>load_le\<close> and \<open>store_le\<close>. The sender's address is not modelled.
\<close>

section \<open>Operation codes\<close>

definition opReply :: int where "opReply = 1"
definition dbMsg :: int where "dbMsg = 1000"
definition dbUpdate :: int where "dbUpdate = 2001"
definition dbInsert :: int where "dbInsert = 2002"
definition dbQuery :: int where "dbQuery = 2004"
definition dbGetMore :: int where "dbGetMore = 2005"
definition dbDelete :: int where "dbDelete = 2006"
definition dbKillCursors :: int where "dbKillCursors = 2007"

lemmas op_defs = opReply_def dbMsg_def dbUpdate_def dbInsert_def dbQuery_def dbGetMore_def dbDelete_def
  dbKillCursors_def

definition WriteOpType :: "(string \<times> int) list" where
  "WriteOpType = [(''dbWriteUpdate'', dbUpdate), (''dbWriteInsert'', dbInsert), (''dbWriteDelete'', dbDelete)]"

definition MaxMessageSizeBytes :: nat where
  "MaxMessageSizeBytes = 48 * 1000 * 1000"

text \<open>In the default branch \<open>op\<close> is not 0, so \<^verbatim>\<open>massert(16141, ..., !op)\<close> always fires.\<close>

definition opToString :: "int \<Rightarrow> string res" where
  "opToString op =
     (if op = 0 then Inr ''none''
      else if op = opReply then Inr ''reply''
      else if op = dbMsg then Inr ''msg''
      else if op = dbUpdate then Inr ''update''
      else if op = dbInsert then Inr ''insert''
      else if op = dbQuery then Inr ''query''
      else if op = dbGetMore then Inr ''getmore''
      else if op = dbDelete then Inr ''remove''
      else if op = dbKillCursors then Inr ''killcursors''
      else bindE (massert 16141 (op = 0)) (\<lambda>u. Inr ''''))"

text \<open>The pointer that the default branch returns converts to \<open>True\<close>.\<close>

definition opIsWrite :: "int \<Rightarrow> bool res" where
  "opIsWrite op =
     (if op = 0 \<or> op = opReply \<or> op = dbMsg \<or> op = dbQuery \<or> op = dbGetMore \<or> op = dbKillCursors then Inr False
      else if op = dbUpdate \<or> op = dbInsert \<or> op = dbDelete then Inr True
      else bindE (verify False) (\<lambda>u. Inr True))"

section \<open>The header\<close>

definition store_le :: "bytes \<Rightarrow> nat \<Rightarrow> 'a::len word \<Rightarrow> bytes res" where
  "store_le bs off w = splice bs off (le_bytes w)"

definition load_int32 :: "bytes \<Rightarrow> nat \<Rightarrow> int res" where
  "load_int32 bs off = bindE (load_le bs off) (\<lambda>w :: 32 word. Inr (sint w))"

definition store_int32 :: "bytes \<Rightarrow> nat \<Rightarrow> int \<Rightarrow> bytes res" where
  "store_int32 bs off v = store_le bs off (word_of_int v :: 32 word)"

text \<open>The offsets of the members of the packed \<^verbatim>\<open>MSGHEADER::Layout\<close>, and its size.\<close>

definition off_messageLength :: nat where "off_messageLength = 0"
definition off_requestID :: nat where "off_requestID = 4"
definition off_responseTo :: nat where "off_responseTo = 8"
definition off_opCode :: nat where "off_opCode = 12"
definition sizeof_MSGHEADER :: nat where "sizeof_MSGHEADER = 16"

lemmas offset_defs = off_messageLength_def off_requestID_def off_responseTo_def off_opCode_def
  sizeof_MSGHEADER_def

definition hdr_getMessageLength :: "bytes \<Rightarrow> int res" where
  "hdr_getMessageLength d = load_int32 d off_messageLength"

definition hdr_getRequestID :: "bytes \<Rightarrow> int res" where
  "hdr_getRequestID d = load_int32 d off_requestID"

definition hdr_getResponseTo :: "bytes \<Rightarrow> int res" where
  "hdr_getResponseTo d = load_int32 d off_responseTo"

definition hdr_getOpCode :: "bytes \<Rightarrow> int res" where
  "hdr_getOpCode d = load_int32 d off_opCode"

definition hdr_setMessageLength :: "int \<Rightarrow> bytes \<Rightarrow> bytes res" where
  "hdr_setMessageLength value d = store_int32 d off_messageLength value"

definition hdr_setRequestID :: "int \<Rightarrow> bytes \<Rightarrow> bytes res" where
  "hdr_setRequestID value d = store_int32 d off_requestID value"

definition hdr_setResponseTo :: "int \<Rightarrow> bytes \<Rightarrow> bytes res" where
  "hdr_setResponseTo value d = store_int32 d off_responseTo value"

definition hdr_setOpCode :: "int \<Rightarrow> bytes \<Rightarrow> bytes res" where
  "hdr_setOpCode value d = store_int32 d off_opCode value"

definition MSGHEADER_Value_zero :: data_view where
  "MSGHEADER_Value_zero = EncodedValueStorage_zero sizeof_MSGHEADER"

section \<open>Message data\<close>

text \<open>\<^verbatim>\<open>MsgData::Layout\<close> is the header and the first 4 bytes of the data.\<close>

definition off_data :: nat where "off_data = sizeof_MSGHEADER"
definition sizeof_MsgData :: nat where "sizeof_MsgData = sizeof_MSGHEADER + 4"

definition MsgDataHeaderSize :: int where
  "MsgDataHeaderSize = int sizeof_MsgData - 4"

definition MsgData_Value_zero :: data_view where
  "MsgData_Value_zero = EncodedValueStorage_zero sizeof_MsgData"

definition md_getLen :: "bytes \<Rightarrow> int res" where
  "md_getLen d = hdr_getMessageLength d"

text \<open>\<^verbatim>\<open>MSGID\<close> is unsigned.\<close>

definition md_getId :: "bytes \<Rightarrow> 32 word res" where
  "md_getId d = bindE (hdr_getRequestID d) (\<lambda>v. Inr (word_of_int v))"

definition md_getResponseTo :: "bytes \<Rightarrow> 32 word res" where
  "md_getResponseTo d = bindE (hdr_getResponseTo d) (\<lambda>v. Inr (word_of_int v))"

definition md_getOperation :: "bytes \<Rightarrow> int res" where
  "md_getOperation d = hdr_getOpCode d"

definition md_data :: "bytes \<Rightarrow> bytes" where
  "md_data d = drop off_data d"

definition md_valid :: "bytes \<Rightarrow> bool res" where
  "md_valid d =
     bindE (md_getLen d) (\<lambda>len.
       if len \<le> 0 \<or> len > 4 * BSONObjMaxInternalSize then Inr False
       else bindE (md_getOperation d) (\<lambda>op. if op < 0 \<or> op > 30000 then Inr False else Inr True))"

definition md_getCursor :: "bytes \<Rightarrow> int res" where
  "md_getCursor d =
     bindE (md_getResponseTo d) (\<lambda>r. bindE (verify (r > 0)) (\<lambda>u.
     bindE (md_getOperation d) (\<lambda>op. bindE (verify (op = opReply)) (\<lambda>u.
     bindE (load_le d (off_data + 4)) (\<lambda>w :: 64 word. Inr (sint w))))))"

definition md_dataLen :: "bytes \<Rightarrow> int res" where
  "md_dataLen d = bindE (md_getLen d) (\<lambda>len. chk32 (len - MsgDataHeaderSize))"

definition md_setLen :: "int \<Rightarrow> bytes \<Rightarrow> bytes res" where
  "md_setLen value d = hdr_setMessageLength value d"

definition md_setId :: "32 word \<Rightarrow> bytes \<Rightarrow> bytes res" where
  "md_setId value d = hdr_setRequestID (sint value) d"

definition md_setResponseTo :: "32 word \<Rightarrow> bytes \<Rightarrow> bytes res" where
  "md_setResponseTo value d = hdr_setResponseTo (sint value) d"

definition md_setOperation :: "int \<Rightarrow> bytes \<Rightarrow> bytes res" where
  "md_setOperation value d = hdr_setOpCode value d"

section \<open>The heap of buffers\<close>

type_synonym msg_heap = "nat \<Rightarrow> bytes option"

text \<open>What \<^verbatim>\<open>malloc\<close> does: nothing is left, or a free address and what its memory happens to hold.\<close>

type_synonym malloc = "(nat \<times> (nat \<Rightarrow> byte)) option"

definition heap_malloc :: "malloc \<Rightarrow> nat \<Rightarrow> msg_heap \<Rightarrow> nat option \<times> msg_heap" where
  "heap_malloc m n heap =
     (case m of None \<Rightarrow> (None, heap) | Some (p, junk) \<Rightarrow> (Some p, heap(p \<mapsto> map junk [0..<n])))"

definition heap_free :: "nat \<Rightarrow> msg_heap \<Rightarrow> msg_heap res" where
  "heap_free p heap = (case heap p of None \<Rightarrow> Inl BadAccess | Some d \<Rightarrow> Inr (heap(p := None)))"

definition heap_read :: "(bytes \<Rightarrow> 'a res) \<Rightarrow> nat \<Rightarrow> msg_heap \<Rightarrow> 'a res" where
  "heap_read f p heap = (case heap p of None \<Rightarrow> Inl BadAccess | Some d \<Rightarrow> f d)"

definition heap_write :: "(bytes \<Rightarrow> bytes res) \<Rightarrow> nat \<Rightarrow> msg_heap \<Rightarrow> msg_heap res" where
  "heap_write f p heap =
     (case heap p of None \<Rightarrow> Inl BadAccess | Some d \<Rightarrow> bindE (f d) (\<lambda>d'. Inr (heap(p \<mapsto> d'))))"

text \<open>\<^verbatim>\<open>memcpy\<close> into a block; a null destination takes nothing.\<close>

definition heap_memcpy :: "nat option \<Rightarrow> nat \<Rightarrow> bytes \<Rightarrow> msg_heap \<Rightarrow> msg_heap res" where
  "heap_memcpy dest off src heap =
     (if src = [] then Inr heap
      else case dest of None \<Rightarrow> Inl BadAccess | Some p \<Rightarrow> heap_write (\<lambda>d. splice d off src) p heap)"

section \<open>Messages\<close>

record message =
  m_buf :: "nat option"
  m_data :: "(nat \<times> int) list"
  m_freeIt :: bool

definition m_setData_impl :: "nat option \<Rightarrow> bool \<Rightarrow> message \<Rightarrow> message" where
  "m_setData_impl d freeIt m = m\<lparr>m_freeIt := freeIt, m_buf := d\<rparr>"

definition Message_new :: message where
  "Message_new = \<lparr>m_buf = None, m_data = [], m_freeIt = False\<rparr>"

definition Message_of :: "nat option \<Rightarrow> bool \<Rightarrow> message" where
  "Message_of d freeIt = m_setData_impl d freeIt Message_new"

definition m_empty :: "message \<Rightarrow> bool" where
  "m_empty m \<longleftrightarrow> m_buf m = None \<and> m_data m = []"

text \<open>\<open>header\<close> is the address of the view that is returned.\<close>

definition m_header :: "message \<Rightarrow> nat res" where
  "m_header m =
     bindE (verify (\<not> m_empty m)) (\<lambda>u.
       case m_buf m of Some p \<Rightarrow> Inr p | None \<Rightarrow> Inr (fst (m_data m ! 0)))"

definition m_operation :: "message \<Rightarrow> msg_heap \<Rightarrow> int res" where
  "m_operation m heap = bindE (m_header m) (\<lambda>p. heap_read md_getOperation p heap)"

definition m_singleData :: "message \<Rightarrow> nat res" where
  "m_singleData m = bindE (massert 13273 (m_buf m \<noteq> None)) (\<lambda>u. m_header m)"

fun sum_sizes :: "int \<Rightarrow> (nat \<times> int) list \<Rightarrow> int res" where
  "sum_sizes res [] = Inr res"
| "sum_sizes res ((p, n) # xs) = bindE (chk32 (res + n)) (\<lambda>res. sum_sizes res xs)"

definition m_size :: "message \<Rightarrow> msg_heap \<Rightarrow> int res" where
  "m_size m heap =
     (case m_buf m of Some p \<Rightarrow> heap_read md_getLen p heap | None \<Rightarrow> sum_sizes 0 (m_data m))"

text \<open>\<^verbatim>\<open>size() - sizeof(...)\<close> is computed in \<^verbatim>\<open>size_t\<close> and converted back to \<^verbatim>\<open>int\<close>.\<close>

definition m_dataSize :: "message \<Rightarrow> msg_heap \<Rightarrow> int res" where
  "m_dataSize m heap =
     bindE (m_size m heap) (\<lambda>n. Inr (sint (word_of_int (n - int sizeof_MSGHEADER) :: 32 word)))"

fun free_all :: "(nat \<times> int) list \<Rightarrow> msg_heap \<Rightarrow> msg_heap res" where
  "free_all [] heap = Inr heap"
| "free_all ((p, n) # xs) heap = bindE (heap_free p heap) (free_all xs)"

definition m_reset :: "message \<Rightarrow> msg_heap \<Rightarrow> (message \<times> msg_heap) res" where
  "m_reset m heap =
     bindE (if m_freeIt m
            then bindE (case m_buf m of Some p \<Rightarrow> heap_free p heap | None \<Rightarrow> Inr heap) (free_all (m_data m))
            else Inr heap) (\<lambda>heap.
     Inr (m\<lparr>m_buf := None, m_data := [], m_freeIt := False\<rparr>, heap))"

definition Message_destroy :: "message \<Rightarrow> msg_heap \<Rightarrow> msg_heap res" where
  "Message_destroy m heap = bindE (m_reset m heap) (\<lambda>(m, heap). Inr heap)"

text \<open>\<open>operator=\<close> takes the buffers of \<open>r\<close>: the new message, and what is left of \<open>r\<close>.\<close>

definition m_assign :: "message \<Rightarrow> message \<Rightarrow> (message \<times> message) res" where
  "m_assign m r =
     bindE (verify (m_empty m)) (\<lambda>u. bindE (verify (m_freeIt r)) (\<lambda>u.
     let m = m\<lparr>m_buf := m_buf r\<rparr>; r = r\<lparr>m_buf := None\<rparr>;
         (md, rd) = (if length (m_data r) > 0 then (m_data r, m_data m) else (m_data m, m_data r));
         m = m\<lparr>m_data := md\<rparr>; r = r\<lparr>m_data := rd\<rparr>;
         r = r\<lparr>m_freeIt := False\<rparr>; m = m\<lparr>m_freeIt := True\<rparr>
     in Inr (m, r)))"

definition Message_copy :: "message \<Rightarrow> (message \<times> message) res" where
  "Message_copy r = m_assign Message_new r"

fun concat_copy :: "(nat \<times> int) list \<Rightarrow> nat option \<Rightarrow> nat \<Rightarrow> msg_heap \<Rightarrow> msg_heap res" where
  "concat_copy [] buf off heap = Inr heap"
| "concat_copy ((p, n) # xs) buf off heap =
     bindE (heap_read (\<lambda>d. slice d 0 (size_of_int n)) p heap) (\<lambda>src.
     bindE (heap_memcpy buf off src heap) (\<lambda>heap. concat_copy xs buf (off + nat n) heap))"

definition m_concat :: "malloc \<Rightarrow> message \<Rightarrow> msg_heap \<Rightarrow> (message \<times> msg_heap) res" where
  "m_concat a m heap =
     (if m_buf m \<noteq> None \<or> m_empty m then Inr (m, heap)
      else
        bindE (verify (m_freeIt m)) (\<lambda>u.
        bindE (sum_sizes 0 (m_data m)) (\<lambda>totalSize.
        let (buf, heap) = heap_malloc a (size_of_int totalSize) heap in
        bindE (concat_copy (m_data m) buf 0 heap) (\<lambda>heap.
        bindE (m_reset m heap) (\<lambda>(m, heap).
        Inr (m_setData_impl buf True m, heap))))))"

definition m_appendData :: "nat \<Rightarrow> int \<Rightarrow> message \<Rightarrow> msg_heap \<Rightarrow> (message \<times> msg_heap) res" where
  "m_appendData d n m heap =
     (if n \<le> 0 then Inr (m, heap)
      else if m_empty m then
        bindE (heap_write (md_setLen n) d heap) (\<lambda>heap. Inr (m_setData_impl (Some d) True m, heap))
      else
        bindE (verify (m_freeIt m)) (\<lambda>u.
        bindE (case m_buf m of None \<Rightarrow> Inr m
               | Some p \<Rightarrow> bindE (heap_read md_getLen p heap) (\<lambda>len.
                   Inr (m\<lparr>m_data := m_data m @ [(p, len)], m_buf := None\<rparr>))) (\<lambda>m.
        let m = m\<lparr>m_data := m_data m @ [(d, n)]\<rparr> in
        bindE (m_header m) (\<lambda>h.
        bindE (heap_read md_getLen h heap) (\<lambda>len.
        bindE (chk32 (len + n)) (\<lambda>len'.
        bindE (heap_write (md_setLen len') h heap) (\<lambda>heap. Inr (m, heap))))))))"

definition m_setData :: "nat option \<Rightarrow> bool \<Rightarrow> message \<Rightarrow> message res" where
  "m_setData d freeIt m = bindE (verify (m_empty m)) (\<lambda>u. Inr (m_setData_impl d freeIt m))"

text \<open>\<open>setData(operation, msgdata, len)\<close>; the members \<open>requestID\<close> and \<open>responseTo\<close> are not written.\<close>

definition m_setData_copy :: "malloc \<Rightarrow> int \<Rightarrow> bytes \<Rightarrow> message \<Rightarrow> msg_heap \<Rightarrow> (message \<times> msg_heap) res" where
  "m_setData_copy a operation msgdata m heap =
     bindE (verify (m_empty m)) (\<lambda>u.
     let dataLen = length msgdata + sizeof_MsgData - 4;
         (d, heap) = heap_malloc a dataLen heap in
     bindE (heap_memcpy d off_data msgdata heap) (\<lambda>heap.
     case d of None \<Rightarrow> Inl BadAccess
     | Some p \<Rightarrow>
         bindE (heap_write (md_setLen (int_of_size dataLen)) p heap) (\<lambda>heap.
         bindE (heap_write (md_setOperation operation) p heap) (\<lambda>heap.
         Inr (m_setData_impl d True m, heap)))))"

text \<open>\<open>setData(operation, msgtxt)\<close> copies the terminating null too.\<close>

definition m_setData_text :: "malloc \<Rightarrow> int \<Rightarrow> bytes \<Rightarrow> message \<Rightarrow> msg_heap \<Rightarrow> (message \<times> msg_heap) res" where
  "m_setData_text a operation msgtxt m heap =
     m_setData_copy a operation (takeWhile (\<lambda>c. c \<noteq> 0) msgtxt @ [0]) m heap"

definition m_doIFreeIt :: "message \<Rightarrow> bool" where
  "m_doIFreeIt m = m_freeIt m"

section \<open>Reading back the header\<close>

lemma store_int32_eq:
  "store_int32 d off v = (if off + 4 \<le> length d
     then Inr (take off d @ le_bytes (word_of_int v :: 32 word) @ drop (off + 4) d) else Inl BadAccess)"
  by (simp add: store_int32_def store_le_def splice_def)

lemma sint_word_of_int32: "in_int32 v \<Longrightarrow> sint (word_of_int v :: 32 word) = v"
  by (simp add: in_int32_iff sint_word_ariths signed_take_bit_int_eq_self_iff sint_sbintrunc')

lemma load_int32_at:
  assumes "in_int32 v" and "length xs = off"
  shows "load_int32 (xs @ le_bytes (word_of_int v :: 32 word) @ ys) off = Inr v"
  using load_le_at [of xs off "word_of_int v :: 32 word" ys] assms
  by (simp add: load_int32_def sint_word_of_int32)

lemma slice_append_left: "off + n \<le> length xs \<Longrightarrow> slice (xs @ ys) off n = slice xs off n"
  by (simp add: slice_def)

lemma load_int32_append: "off + 4 \<le> length d \<Longrightarrow> load_int32 (d @ e) off = load_int32 d off"
  by (simp add: load_int32_def load_le_def slice_append_left)

definition set_len :: "int \<Rightarrow> bytes \<Rightarrow> bytes" where
  "set_len n d = le_bytes (word_of_int n :: 32 word) @ drop 4 d"

lemma length_set_len [simp]: "4 \<le> length d \<Longrightarrow> length (set_len n d) = length d"
  by (simp add: set_len_def)

lemma set_len_append: "4 \<le> length d \<Longrightarrow> set_len n d @ e = set_len n (d @ e)"
  by (simp add: set_len_def)

lemma md_setLen_eq: "4 \<le> length d \<Longrightarrow> md_setLen n d = Inr (set_len n d)"
  by (simp add: md_setLen_def hdr_setMessageLength_def store_int32_eq off_messageLength_def set_len_def)

lemma md_getLen_set_len: "in_int32 n \<Longrightarrow> md_getLen (set_len n d) = Inr n"
  using load_int32_at [of n "[]" 0 "drop 4 d"]
  by (simp add: md_getLen_def hdr_getMessageLength_def off_messageLength_def set_len_def)

section \<open>What a message holds\<close>

definition chunks :: "message \<Rightarrow> nat list" where
  "chunks m = (case m_buf m of Some p \<Rightarrow> [p] | None \<Rightarrow> map fst (m_data m))"

definition m_bytes :: "msg_heap \<Rightarrow> message \<Rightarrow> bytes" where
  "m_bytes heap m = concat (map (\<lambda>p. the (heap p)) (chunks m))"

definition sized :: "msg_heap \<Rightarrow> nat list \<Rightarrow> (nat \<times> int) list" where
  "sized heap ps = map (\<lambda>p. (p, int (length (the (heap p))))) ps"

text \<open>
  A message owns its blocks and frees them; when there are several it knows their sizes, and the
  length in the header, which is in the first block, is that of all of them.
\<close>

definition message_ok :: "msg_heap \<Rightarrow> message \<Rightarrow> bool" where
  "message_ok heap m \<longleftrightarrow>
     m_freeIt m = (chunks m \<noteq> []) \<and> distinct (chunks m) \<and> (\<forall>p\<in>set (chunks m). heap p \<noteq> None) \<and>
     m_data m = (if m_buf m = None then sized heap (chunks m) else []) \<and>
     (chunks m \<noteq> [] \<longrightarrow> 16 \<le> length (the (heap (hd (chunks m)))) \<and> length (m_bytes heap m) < 2 ^ 31 \<and>
       md_getLen (the (heap (hd (chunks m)))) = Inr (int (length (m_bytes heap m))))"

lemma m_empty_chunks: "m_empty m \<longleftrightarrow> chunks m = []"
  by (auto simp: m_empty_def chunks_def split: option.splits)

lemma m_header_ok: "chunks m \<noteq> [] \<Longrightarrow> m_header m = Inr (hd (chunks m))"
  by (auto simp: m_header_def m_empty_chunks) (auto simp: chunks_def hd_conv_nth split: option.splits)

lemma sized_cong: "(\<And>p. p \<in> set ps \<Longrightarrow> length (the (heap' p)) = length (the (heap p))) \<Longrightarrow> sized heap' ps = sized heap ps"
  by (simp add: sized_def)

lemma sized_fst [simp]: "map fst (sized heap ps) = ps"
  by (induction ps) (simp_all add: sized_def)

lemma sum_sizes_sized:
  "0 \<le> r \<Longrightarrow> r + int (length (concat (map (\<lambda>p. the (heap p)) ps))) < 2 ^ 31 \<Longrightarrow>
   sum_sizes r (sized heap ps) = Inr (r + int (length (concat (map (\<lambda>p. the (heap p)) ps))))"
  by (induction ps arbitrary: r) (auto simp: sized_def chk32_def in_int32_iff)

lemma free_all_sized:
  "distinct ps \<Longrightarrow> (\<forall>p\<in>set ps. heap p \<noteq> None) \<Longrightarrow>
   free_all (sized h ps) heap = Inr (\<lambda>q. if q \<in> set ps then None else heap q)"
proof (induction ps arbitrary: heap)
  case (Cons p ps)
  then obtain d where d: "heap p = Some d" by auto
  have "free_all (sized h ps) (heap(p := None)) = Inr (\<lambda>q. if q \<in> set ps then None else (heap(p := None)) q)"
    using Cons.prems by (intro Cons.IH) auto
  moreover have "sized h (p # ps) = (p, int (length (the (h p)))) # sized h ps" by (simp add: sized_def)
  ultimately show ?case by (auto simp: heap_free_def d fun_eq_iff)
qed (simp add: sized_def)

lemma concat_copy_sized:
  "b \<notin> set ps \<Longrightarrow> (\<forall>p\<in>set ps. heap p \<noteq> None) \<Longrightarrow> heap b = Some (xs @ junk) \<Longrightarrow> length xs = off \<Longrightarrow>
   length junk = length (concat (map (\<lambda>p. the (heap p)) ps)) \<Longrightarrow> length junk < 2 ^ 31 \<Longrightarrow>
   concat_copy (sized heap ps) (Some b) off heap = Inr (heap(b \<mapsto> xs @ concat (map (\<lambda>p. the (heap p)) ps)))"
proof (induction ps arbitrary: heap xs junk off)
  case Nil
  then show ?case by (simp add: sized_def fun_upd_idem)
next
  case (Cons p ps)
  from Cons.prems(2) obtain d where d: "heap p = Some d" by auto
  define h' where "h' = heap(b \<mapsto> (xs @ d) @ drop (length d) junk)"
  have len: "length d \<le> length junk" "length d < 2 ^ 31" using Cons.prems(5,6) by (simp_all add: d)
  have src: "slice d 0 (size_of_int (int (length d))) = Inr d"
    using len by (subst size_of_int_small) (simp_all add: slice_def)
  have cpy: "heap_memcpy (Some b) off d heap = Inr h'"
    using len Cons.prems(3,4) by (auto simp: heap_memcpy_def heap_write_def splice_def h'_def fun_upd_idem)
  have other: "the (h' q) = the (heap q)" if "q \<in> set ps" for q
    using that Cons.prems(1) by (auto simp: h'_def)
  have same: "map (\<lambda>p. the (h' p)) ps = map (\<lambda>p. the (heap p)) ps" using other by simp
  have "concat_copy (sized h' ps) (Some b) (off + length d) h' =
      Inr (h'(b \<mapsto> (xs @ d) @ concat (map (\<lambda>p. the (h' p)) ps)))"
  proof (rule Cons.IH [of h' "xs @ d" "drop (length d) junk"])
    show "b \<notin> set ps" "\<forall>p\<in>set ps. h' p \<noteq> None" "length (xs @ d) = off + length d"
      "h' b = Some ((xs @ d) @ drop (length d) junk)" "length (drop (length d) junk) < 2 ^ 31"
      using Cons.prems by (auto simp: h'_def)
    show "length (drop (length d) junk) = length (concat (map (\<lambda>p. the (h' p)) ps))"
      unfolding same using Cons.prems(5) by (simp add: d)
  qed
  moreover have "sized h' ps = sized heap ps" using other by (intro sized_cong) simp
  moreover have "sized heap (p # ps) = (p, int (length d)) # sized heap ps" by (simp add: sized_def d)
  moreover have "h'(b \<mapsto> (xs @ d) @ concat (map (\<lambda>p. the (h' p)) ps)) =
      heap(b \<mapsto> xs @ concat (map (\<lambda>p. the (heap p)) (p # ps)))"
    unfolding same by (simp add: h'_def d)
  ultimately show ?case using src cpy by (simp add: heap_read_def d fun_eq_iff)
qed

text \<open>What the operations do on messages that are as they should be.\<close>

lemma m_size_ok:
  assumes "message_ok heap m"
  shows "m_size m heap = Inr (int (length (m_bytes heap m)))"
proof (cases "m_buf m")
  case None
  have "length (m_bytes heap m) < 2 ^ 31" using assms by (cases "chunks m = []") (simp_all add: message_ok_def m_bytes_def)
  then show ?thesis using assms None
    by (simp add: m_size_def message_ok_def sum_sizes_sized m_bytes_def)
next
  case (Some p)
  with assms show ?thesis by (auto simp: m_size_def message_ok_def heap_read_def chunks_def)
qed

lemma m_reset_ok:
  assumes "message_ok heap m"
  shows "m_reset m heap = Inr (Message_new, \<lambda>q. if q \<in> set (chunks m) then None else heap q)"
proof (cases "m_freeIt m")
  case True
  have "bindE (case m_buf m of Some p \<Rightarrow> heap_free p heap | None \<Rightarrow> Inr heap) (free_all (m_data m)) =
      Inr (\<lambda>q. if q \<in> set (chunks m) then None else heap q)"
  proof (cases "m_buf m")
    case None
    with assms show ?thesis by (simp add: message_ok_def free_all_sized)
  next
    case (Some p)
    with assms show ?thesis by (auto simp: message_ok_def chunks_def heap_free_def fun_eq_iff)
  qed
  with True show ?thesis by (simp add: m_reset_def Message_new_def)
next
  case False
  with assms show ?thesis by (simp add: m_reset_def Message_new_def message_ok_def)
qed

lemma m_concat_ok:
  assumes "message_ok heap m" and "chunks m \<noteq> []" and "m_buf m = None" and "heap b = None"
  shows "m_concat (Some (b, junk)) m heap =
    Inr (Message_of (Some b) True, (\<lambda>q. if q \<in> set (chunks m) then None else heap q)(b \<mapsto> m_bytes heap m))"
proof -
  note ok = assms(1) [unfolded message_ok_def]
  define n where "n = length (m_bytes heap m)"
  define h where "h = heap(b \<mapsto> map junk [0..<n])"
  have b: "b \<notin> set (chunks m)" using ok assms(4) by auto
  then have other: "the (h q) = the (heap q)" if "q \<in> set (chunks m)" for q
    using that by (auto simp: h_def)
  have same: "map (\<lambda>p. the (h p)) (chunks m) = map (\<lambda>p. the (heap p)) (chunks m)" using other by simp
  have data: "m_data m = sized h (chunks m)"
    using ok assms(3) other by (simp add: sized_cong [of _ h heap])
  have n: "n < 2 ^ 31" using ok assms(2) by (simp add: n_def)
  have sum: "sum_sizes 0 (m_data m) = Inr (int n)"
    using sum_sizes_sized [of 0 heap "chunks m"] ok assms(3) n by (simp add: n_def m_bytes_def)
  have "concat_copy (sized h (chunks m)) (Some b) 0 h =
      Inr (h(b \<mapsto> [] @ concat (map (\<lambda>p. the (h p)) (chunks m))))"
  proof (rule concat_copy_sized [of _ _ _ _ "map junk [0..<n]"])
    show "length (map junk [0..<n]) = length (concat (map (\<lambda>p. the (h p)) (chunks m)))"
      unfolding same by (simp add: n_def m_bytes_def)
  qed (use ok n b in \<open>auto simp: h_def\<close>)
  then have copy: "concat_copy (m_data m) (Some b) 0 h = Inr (heap(b \<mapsto> m_bytes heap m))"
    unfolding data same by (simp add: h_def m_bytes_def)
  have "message_ok (heap(b \<mapsto> m_bytes heap m)) m"
  proof -
    have "the ((heap(b \<mapsto> m_bytes heap m)) q) = the (heap q)" if "q \<in> set (chunks m)" for q
      using that b by auto
    then have "m_bytes (heap(b \<mapsto> m_bytes heap m)) m = m_bytes heap m"
        "sized (heap(b \<mapsto> m_bytes heap m)) (chunks m) = sized heap (chunks m)"
      by (auto simp: m_bytes_def sized_def intro!: arg_cong [of _ _ concat])
    then show ?thesis using assms(1,2) b by (auto simp: message_ok_def)
  qed
  from m_reset_ok [OF this] have
    "m_reset m (heap(b \<mapsto> m_bytes heap m)) =
      Inr (Message_new, (\<lambda>q. if q \<in> set (chunks m) then None else heap q)(b \<mapsto> m_bytes heap m))"
    using b by (auto simp: fun_eq_iff)
  moreover have "size_of_int (int n) = n" using n by (subst size_of_int_small) simp_all
  ultimately show ?thesis using ok assms(2,3) sum copy
    by (simp add: m_concat_def m_empty_chunks heap_malloc_def h_def Message_of_def)
qed

lemma heap_write_len:
  assumes "heap p = Some d" and "4 \<le> length d"
  shows "heap_write (md_setLen n) p heap = Inr (heap(p \<mapsto> set_len n d))"
  using assms by (simp add: heap_write_def md_setLen_eq)

lemma message_ok_chunks:
  assumes "chunks m \<noteq> []" and "m_freeIt m" and "distinct (chunks m)" and "\<And>p. p \<in> set (chunks m) \<Longrightarrow> heap p \<noteq> None"
    and "m_data m = (if m_buf m = None then sized heap (chunks m) else [])"
    and "16 \<le> length (the (heap (hd (chunks m))))" and "length (m_bytes heap m) < 2 ^ 31"
    and "the (heap (hd (chunks m))) = set_len (int (length (m_bytes heap m))) d"
  shows "message_ok heap m"
  using assms md_getLen_set_len [of "int (length (m_bytes heap m))" d]
  by (simp add: message_ok_def in_int32_iff)

text \<open>The first block of an empty message.\<close>

lemma m_appendData_first:
  assumes "message_ok heap m" and "chunks m = []" and "heap p = Some d" and "16 \<le> length d" and "length d < 2 ^ 31"
  defines "m' \<equiv> m_setData_impl (Some p) True m" and "heap' \<equiv> heap(p \<mapsto> set_len (int (length d)) d)"
  shows "m_appendData p (int (length d)) m heap = Inr (m', heap')"
    and "chunks m' = [p]" and "m_bytes heap' m' = set_len (int (length d)) d" and "message_ok heap' m'"
proof -
  show c: "chunks m' = [p]" by (simp add: m'_def m_setData_impl_def chunks_def)
  show b: "m_bytes heap' m' = set_len (int (length d)) d" by (simp add: m_bytes_def c heap'_def)
  show "m_appendData p (int (length d)) m heap = Inr (m', heap')"
    using assms(2-5) by (cases "d = []") (simp_all add: m_appendData_def m_empty_chunks heap_write_len m'_def heap'_def)
  show "message_ok heap' m'"
    using assms(1,2,4,5) by (intro message_ok_chunks [of _ _ d])
      (auto simp: c b, auto simp: m'_def heap'_def m_setData_impl_def message_ok_def sized_def)
qed

text \<open>A further block: the length in the first one becomes the total.\<close>

lemma m_appendData_more:
  assumes ok: "message_ok heap m" and ne: "chunks m \<noteq> []" and p: "heap p = Some d" "p \<notin> set (chunks m)"
    and d: "0 < length d" "length (m_bytes heap m) + length d < 2 ^ 31"
  defines "h \<equiv> hd (chunks m)" and "n \<equiv> int (length (m_bytes heap m) + length d)"
  defines "m' \<equiv> m\<lparr>m_buf := None, m_data := sized heap (chunks m @ [p])\<rparr>"
    and "heap' \<equiv> heap(h \<mapsto> set_len n (the (heap h)))"
  shows "m_appendData p (int (length d)) m heap = Inr (m', heap')"
    and "chunks m' = chunks m @ [p]" and "m_bytes heap' m' = set_len n (m_bytes heap m @ d)"
    and "message_ok heap' m'"
proof -
  note okD = ok [unfolded message_ok_def]
  have h: "h \<in> set (chunks m)" "heap h \<noteq> None" "16 \<le> length (the (heap h))" "m_freeIt m"
    using okD ne by (simp_all add: h_def)
  then obtain x where x: "heap h = Some x" by auto
  show c: "chunks m' = chunks m @ [p]" by (simp add: m'_def chunks_def)
  obtain ps where ps: "chunks m = h # ps" using ne by (cases "chunks m") (simp_all add: h_def)
  have notin: "h \<notin> set ps" "p \<noteq> h" using okD p(2) by (auto simp: ps)
  have rest: "map (\<lambda>q. the (heap' q)) ps = map (\<lambda>q. the (heap q)) ps" using notin by (auto simp: heap'_def)
  show b: "m_bytes heap' m' = set_len n (m_bytes heap m @ d)"
    using h(3) notin p(1) unfolding m_bytes_def c ps list.map append_Cons map_append rest
    by (simp add: heap'_def set_len_def)
  have len: "length (the (heap' q)) = length (the (heap q))" for q using h(3) by (simp add: heap'_def)
  have l4: "4 \<le> length (m_bytes heap m)" using h(3) by (simp add: m_bytes_def ps)
  show "message_ok heap' m'"
  proof (rule message_ok_chunks [of _ _ "the (heap h)"])
    show "m_data m' = (if m_buf m' = None then sized heap' (chunks m') else [])"
      using sized_cong [of "chunks m'" heap' heap, OF len] by (simp add: c) (simp add: m'_def)
    show "the (heap' (hd (chunks m'))) = set_len (int (length (m_bytes heap' m'))) (the (heap h))"
      using l4 by (simp add: b c ps) (simp add: heap'_def n_def)
    show "m_freeIt m'" using h(4) by (simp add: m'_def)
    show "heap' q \<noteq> None" if "q \<in> set (chunks m')" for q
      using that okD p(1) by (auto simp: c heap'_def)
    show "16 \<le> length (the (heap' (hd (chunks m'))))" using h(3) by (simp add: c len ps)
    show "length (m_bytes heap' m') < 2 ^ 31" using d(2) l4 by (simp add: b)
  qed (use okD p in \<open>auto simp: c\<close>)
  have data: "(case m_buf m of None \<Rightarrow> Inr m
      | Some q \<Rightarrow> bindE (heap_read md_getLen q heap) (\<lambda>len.
          Inr (m\<lparr>m_data := m_data m @ [(q, len)], m_buf := None\<rparr>))) =
      Inr (m\<lparr>m_buf := None, m_data := sized heap (chunks m)\<rparr>)"
  proof (cases "m_buf m")
    case None
    with okD show ?thesis by simp
  next
    case (Some q)
    with okD ne ps x show ?thesis by (auto simp: chunks_def heap_read_def sized_def m_bytes_def)
  qed
  have hdr: "m_header m' = Inr h" using m_header_ok [of m'] by (simp add: c ps)
  have "in_int32 n" using d(2) by (simp add: n_def in_int32_iff)
  moreover have "md_getLen x = Inr (int (length (m_bytes heap m)))" using okD ne x by (simp add: h_def)
  ultimately show "m_appendData p (int (length d)) m heap = Inr (m', heap')"
    using d(1) ne h x hdr heap_write_len [of heap h x n] p(1)
    by (simp add: m_appendData_def m_empty_chunks data heap_read_def heap'_def n_def m'_def sized_def add.commute)
qed

lemma m_assign_ok:
  assumes "message_ok heap m" and "message_ok heap r" and "m_empty m" and "\<not> m_empty r"
  shows "m_assign m r = Inr (r, Message_new)"
  using assms by (cases m; cases r)
    (auto simp: m_assign_def m_empty_chunks message_ok_def Message_new_def chunks_def sized_def split: option.splits)

definition data_block :: "(nat \<Rightarrow> byte) \<Rightarrow> int \<Rightarrow> bytes \<Rightarrow> bytes" where
  "data_block junk operation d =
     le_bytes (word_of_int (int (length d) + 16) :: 32 word) @ map junk [4..<12] @
     le_bytes (word_of_int operation :: 32 word) @ d"

lemma data_block_fields:
  assumes "length d + 16 < 2 ^ 31" and "in_int32 operation"
  shows "md_getLen (data_block junk operation d) = Inr (int (length d) + 16)"
    and "md_getOperation (data_block junk operation d) = Inr operation"
    and "md_data (data_block junk operation d) = d" and "length (data_block junk operation d) = length d + 16"
    and "md_dataLen (data_block junk operation d) = Inr (int (length d))"
proof -
  show l: "md_getLen (data_block junk operation d) = Inr (int (length d) + 16)"
    using load_int32_at [of "int (length d) + 16" "[]" 0] assms(1)
    by (simp add: data_block_def md_getLen_def hdr_getMessageLength_def off_messageLength_def in_int32_iff)
  show "md_getOperation (data_block junk operation d) = Inr operation"
    using load_int32_at [of operation "le_bytes (word_of_int (int (length d) + 16) :: 32 word) @ map junk [4..<12]" 12]
      assms(2) by (simp add: data_block_def md_getOperation_def hdr_getOpCode_def off_opCode_def)
  show "md_data (data_block junk operation d) = d" "length (data_block junk operation d) = length d + 16"
    by (simp_all add: data_block_def md_data_def off_data_def sizeof_MSGHEADER_def)
  show "md_dataLen (data_block junk operation d) = Inr (int (length d))"
    using assms(1) by (simp add: md_dataLen_def l MsgDataHeaderSize_def sizeof_MsgData_def sizeof_MSGHEADER_def
        chk32_def in_int32_iff)
qed

lemma m_setData_copy_ok:
  assumes "m_empty m" and "length d + 16 < 2 ^ 31"
  shows "m_setData_copy (Some (p, junk)) operation d m heap =
    Inr (m_setData_impl (Some p) True m, heap(p \<mapsto> data_block junk operation d))"
proof -
  define j where "j = map junk [0..<length d + 16]"
  have split: "take 12 (drop 4 j) = map junk [4..<12] @ map junk [12..<16]" "take 8 (drop 4 j) = map junk [4..<12]"
    by (simp_all add: j_def drop_map take_map take_upt flip: map_append upt_add_eq_append)
  have cpy: "heap_memcpy (Some p) off_data d (heap(p \<mapsto> j)) = Inr (heap(p \<mapsto> take 16 j @ d))"
    by (cases "d = []") (auto simp: heap_memcpy_def heap_write_def splice_def off_data_def sizeof_MSGHEADER_def j_def)
  have len: "heap_write (md_setLen (int (length d) + 16)) p (heap(p \<mapsto> take 16 j @ d)) =
      Inr (heap(p \<mapsto> le_bytes (word_of_int (int (length d) + 16) :: 32 word) @ take 12 (drop 4 j) @ d))"
    by (simp add: heap_write_def md_setLen_eq j_def set_len_def drop_take)
  have op: "heap_write (md_setOperation operation) p
      (heap(p \<mapsto> le_bytes (word_of_int (int (length d) + 16) :: 32 word) @ take 12 (drop 4 j) @ d)) =
      Inr (heap(p \<mapsto> data_block junk operation d))"
    unfolding data_block_def split(2) [symmetric]
    by (simp add: heap_write_def md_setOperation_def hdr_setOpCode_def store_int32_eq off_opCode_def
        take_map drop_map min_def) (simp add: j_def)
  have "int_of_size (length d + 16) = int (length d) + 16" using assms(2) by (simp add: int_of_size_small)
  moreover have "length d + sizeof_MsgData - 4 = length d + 16"
    by (simp add: sizeof_MsgData_def sizeof_MSGHEADER_def)
  ultimately show ?thesis using assms(1) cpy len op
    by (simp add: m_setData_copy_def heap_malloc_def j_def [symmetric])
qed

section \<open>Who owns which buffer\<close>

text \<open>
  All messages of a program over one heap. \<open>MAppend\<close> hands a new block over to a message; the caller
  keeps to the contract of the comment that the first buffer holds a full header. A failed
  assertion changes nothing (every operation checks before it writes), so the program goes on.
  Commands that are not possible, or totals of \<open>2 ^ 31\<close> bytes, are \<open>StdOutOfRange\<close>.
\<close>

record msg_world =
  mw_heap :: msg_heap
  mw_msgs :: "message list"

datatype msg_cmd =
    MNew
  | MSetData nat nat "nat \<Rightarrow> byte" int bytes
  | MAppend nat nat bytes
  | MConcat nat nat "nat \<Rightarrow> byte"
  | MAssign nat nat
  | MReset nat
  | MDestroy nat

definition world_put :: "nat \<Rightarrow> message \<times> msg_heap \<Rightarrow> msg_world \<Rightarrow> msg_world" where
  "world_put i r w = \<lparr>mw_heap = snd r, mw_msgs = (mw_msgs w)[i := fst r]\<rparr>"

text \<open>The guard of a command: its messages exist, a new block is at a free address, sizes are in range.\<close>

fun msg_possible :: "msg_cmd \<Rightarrow> msg_world \<Rightarrow> bool" where
  "msg_possible MNew w \<longleftrightarrow> True"
| "msg_possible (MSetData i p junk op d) w \<longleftrightarrow>
     i < length (mw_msgs w) \<and> mw_heap w p = None \<and> length d + 16 < 2 ^ 31"
| "msg_possible (MAppend i p d) w \<longleftrightarrow>
     i < length (mw_msgs w) \<and> mw_heap w p = None \<and>
     (if chunks (mw_msgs w ! i) = [] then 16 \<le> length d else 0 < length d) \<and>
     length (m_bytes (mw_heap w) (mw_msgs w ! i)) + length d < 2 ^ 31"
| "msg_possible (MConcat i p junk) w \<longleftrightarrow> i < length (mw_msgs w) \<and> mw_heap w p = None"
| "msg_possible (MAssign i j) w \<longleftrightarrow> i < length (mw_msgs w) \<and> j < length (mw_msgs w)"
| "msg_possible (MReset i) w \<longleftrightarrow> i < length (mw_msgs w)"
| "msg_possible (MDestroy i) w \<longleftrightarrow> i < length (mw_msgs w)"

fun msg_do :: "msg_cmd \<Rightarrow> msg_world \<Rightarrow> msg_world res" where
  "msg_do MNew w = Inr (w\<lparr>mw_msgs := mw_msgs w @ [Message_new]\<rparr>)"
| "msg_do (MSetData i p junk op d) w =
     bindE (m_setData_copy (Some (p, junk)) op d (mw_msgs w ! i) (mw_heap w)) (\<lambda>r. Inr (world_put i r w))"
| "msg_do (MAppend i p d) w =
     bindE (m_appendData p (int (length d)) (mw_msgs w ! i) ((mw_heap w)(p \<mapsto> d))) (\<lambda>r. Inr (world_put i r w))"
| "msg_do (MConcat i p junk) w =
     bindE (m_concat (Some (p, junk)) (mw_msgs w ! i) (mw_heap w)) (\<lambda>r. Inr (world_put i r w))"
| "msg_do (MAssign i j) w =
     bindE (m_assign (mw_msgs w ! i) (mw_msgs w ! j)) (\<lambda>(m, r).
       Inr (w\<lparr>mw_msgs := (mw_msgs w)[i := m, j := r]\<rparr>))"
| "msg_do (MReset i) w =
     bindE (m_reset (mw_msgs w ! i) (mw_heap w)) (\<lambda>r. Inr (world_put i r w))"
| "msg_do (MDestroy i) w =
     bindE (Message_destroy (mw_msgs w ! i) (mw_heap w)) (\<lambda>heap.
       Inr \<lparr>mw_heap = heap, mw_msgs = take i (mw_msgs w) @ drop (Suc i) (mw_msgs w)\<rparr>)"

definition msg_step :: "msg_cmd \<Rightarrow> msg_world \<Rightarrow> msg_world res" where
  "msg_step c w = (if msg_possible c w then msg_do c w else Inl StdOutOfRange)"

fun msg_run :: "msg_cmd list \<Rightarrow> msg_world \<Rightarrow> msg_world res" where
  "msg_run [] w = Inr w"
| "msg_run (c # cs) w =
     (case msg_step c w of Inl VerifyFailed \<Rightarrow> msg_run cs w | Inl e \<Rightarrow> Inl e | Inr w' \<Rightarrow> msg_run cs w')"

definition msg_init :: msg_world where
  "msg_init = \<lparr>mw_heap = (\<lambda>p. None), mw_msgs = []\<rparr>"

definition owned :: "message list \<Rightarrow> nat list" where
  "owned ms = concat (map chunks ms)"

definition world_ok :: "msg_world \<Rightarrow> bool" where
  "world_ok w \<longleftrightarrow> (\<forall>m\<in>set (mw_msgs w). message_ok (mw_heap w) m) \<and> distinct (owned (mw_msgs w)) \<and>
     dom (mw_heap w) = set (owned (mw_msgs w))"

lemma message_ok_cong:
  assumes "message_ok heap m" and "\<And>p. p \<in> set (chunks m) \<Longrightarrow> heap' p = heap p"
  shows "message_ok heap' m"
proof -
  have "m_bytes heap' m = m_bytes heap m" "sized heap' (chunks m) = sized heap (chunks m)"
    using assms(2) by (auto simp: m_bytes_def sized_def intro!: arg_cong [of _ _ concat])
  then show ?thesis using assms by (auto simp: message_ok_def)
qed

lemma message_ok_new [simp]: "message_ok heap Message_new"
  by (simp add: message_ok_def Message_new_def chunks_def sized_def)

lemma chunks_new [simp]: "chunks Message_new = []"
  by (simp add: Message_new_def chunks_def)

text \<open>One message changes, and so do only its own blocks.\<close>

lemma world_put_ok:
  assumes ok: "world_ok \<lparr>mw_heap = heap, mw_msgs = ms @ m # ns\<rparr>"
    and new: "message_ok heap' m'" "dom heap' = dom heap - set (chunks m) \<union> set (chunks m')"
    and own: "set (chunks m') \<inter> (dom heap - set (chunks m)) = {}"
    and rest: "\<And>q. q \<in> dom heap - set (chunks m) \<Longrightarrow> heap' q = heap q"
  shows "world_ok \<lparr>mw_heap = heap', mw_msgs = ms @ m' # ns\<rparr>"
proof -
  let ?others = "set (owned ms) \<union> set (owned ns)"
  have o: "?others = dom heap - set (chunks m)" "distinct (owned ms)" "distinct (owned ns)"
      "set (owned ms) \<inter> set (owned ns) = {}" "distinct (chunks m')"
    using ok new(1) by (auto simp: world_ok_def owned_def message_ok_def)
  have "message_ok heap' x" if "x \<in> set ms \<union> set ns" for x
  proof (rule message_ok_cong)
    show "message_ok heap x" using ok that by (auto simp: world_ok_def)
    show "heap' p = heap p" if "p \<in> set (chunks x)" for p
    proof (rule rest)
      have "p \<in> ?others" using that \<open>x \<in> set ms \<union> set ns\<close> by (auto simp: owned_def)
      then show "p \<in> dom heap - set (chunks m)" by (simp only: o(1))
    qed
  qed
  moreover have "set (owned ms) \<inter> set (chunks m') = {}" "set (owned ns) \<inter> set (chunks m') = {}"
    using o(1) own by blast+
  then have "distinct (owned (ms @ m' # ns))" using o(2-5) by (auto simp: owned_def)
  moreover have "dom heap' = set (owned (ms @ m' # ns))"
  proof -
    have "set (owned (ms @ m' # ns)) = ?others \<union> set (chunks m')" by (auto simp: owned_def)
    then show ?thesis using new(2) o(1) by simp
  qed
  ultimately show ?thesis using new(1) by (auto simp: world_ok_def)
qed

lemma world_put_ok':
  assumes "world_ok w" and "i < length (mw_msgs w)"
    and "message_ok heap' m'"
    and "dom heap' = dom (mw_heap w) - set (chunks (mw_msgs w ! i)) \<union> set (chunks m')"
    and "set (chunks m') \<inter> (dom (mw_heap w) - set (chunks (mw_msgs w ! i))) = {}"
    and "\<And>q. q \<in> dom (mw_heap w) - set (chunks (mw_msgs w ! i)) \<Longrightarrow> heap' q = mw_heap w q"
  shows "world_ok (world_put i (m', heap') w)"
proof -
  have "w = \<lparr>mw_heap = mw_heap w, mw_msgs = take i (mw_msgs w) @ mw_msgs w ! i # drop (Suc i) (mw_msgs w)\<rparr>"
    using id_take_nth_drop [OF assms(2)] by simp
  with assms(1) have "world_ok \<lparr>mw_heap = mw_heap w, mw_msgs = take i (mw_msgs w) @ mw_msgs w ! i # drop (Suc i) (mw_msgs w)\<rparr>"
    by metis
  from world_put_ok [OF this assms(3-6)] show ?thesis
    by (simp add: world_put_def upd_conv_take_nth_drop [OF assms(2)])
qed

lemma world_ok_permuted:
  assumes "world_ok w" and "mset ms = mset (mw_msgs w)"
  shows "world_ok (w\<lparr>mw_msgs := ms\<rparr>)"
proof -
  have "mset (owned ms) = mset (owned (mw_msgs w))"
    using assms(2) by (simp add: owned_def mset_concat flip: sum_mset_sum_list)
  then have "distinct (owned ms) = distinct (owned (mw_msgs w))" "set (owned ms) = set (owned (mw_msgs w))"
    by (auto dest: mset_eq_imp_distinct_iff mset_eq_setD)
  moreover have "set ms = set (mw_msgs w)" using assms(2) by (rule mset_eq_setD)
  ultimately show ?thesis using assms(1) by (simp add: world_ok_def)
qed

lemma world_ok_msg: "world_ok w \<Longrightarrow> i < length (mw_msgs w) \<Longrightarrow> message_ok (mw_heap w) (mw_msgs w ! i)"
  by (simp add: world_ok_def)

lemma world_ok_live: "world_ok w \<Longrightarrow> i < length (mw_msgs w) \<Longrightarrow> set (chunks (mw_msgs w ! i)) \<subseteq> dom (mw_heap w)"
  using world_ok_msg [of w i] by (auto simp: message_ok_def)

lemma message_ok_empty: "message_ok heap m \<Longrightarrow> m_empty m \<Longrightarrow> m = Message_new"
  by (cases m) (auto simp: m_empty_def message_ok_def Message_new_def chunks_def sized_def)

lemma world_append_ok:
  assumes w: "world_ok w" and g: "msg_possible (MAppend i p d) w"
  shows "\<exists>w'. msg_do (MAppend i p d) w = Inr w' \<and> world_ok w'"
proof -
  define m where "m = mw_msgs w ! i"
  define h where "h = (mw_heap w)(p \<mapsto> d)"
  have i: "i < length (mw_msgs w)" "mw_heap w p = None" using g by simp_all
  note live = world_ok_live [OF w i(1), folded m_def]
  have fresh: "p \<notin> set (chunks m)" "p \<notin> dom (mw_heap w)" using live i(2) by auto
  have ok: "message_ok h m"
    using fresh world_ok_msg [OF w i(1)] by (auto simp: h_def m_def intro: message_ok_cong)
  have hp: "h p = Some d" by (simp add: h_def)
  have bytes: "length (m_bytes h m) + length d < 2 ^ 31"
  proof -
    have "m_bytes h m = m_bytes (mw_heap w) m"
      unfolding m_bytes_def using fresh(1) by (intro arg_cong [of _ _ concat] map_cong) (auto simp: h_def)
    then show ?thesis using g by (simp add: m_def)
  qed
  have "\<exists>m' q x. m_appendData p (int (length d)) m h = Inr (m', h(q \<mapsto> x)) \<and> q \<in> set (chunks m') \<and>
      chunks m' = chunks m @ [p] \<and> message_ok (h(q \<mapsto> x)) m'"
  proof (cases "chunks m = []")
    case True
    with g have d: "16 \<le> length d" by (simp add: m_def)
    have "length d < 2 ^ 31" using bytes by simp
    from m_appendData_first [OF ok True hp d this] show ?thesis using True by fastforce
  next
    case False
    with g have d: "0 < length d" by (simp add: m_def)
    have "hd (chunks m) \<in> set (chunks m @ [p])" using False by simp
    with m_appendData_more [OF ok False hp fresh(1) d bytes] show ?thesis by metis
  qed
  then obtain m' q x where r: "m_appendData p (int (length d)) m h = Inr (m', h(q \<mapsto> x))"
    and c: "q \<in> set (chunks m')" "chunks m' = chunks m @ [p]" and ok': "message_ok (h(q \<mapsto> x)) m'" by blast
  have "world_ok (world_put i (m', h(q \<mapsto> x)) w)"
    using live fresh c unfolding m_def by (intro world_put_ok' [OF w i(1) ok']) (auto simp: h_def)
  with r show ?thesis by (simp add: h_def m_def)
qed

lemma world_concat_ok:
  assumes w: "world_ok w" and g: "msg_possible (MConcat i p junk) w"
  shows "\<exists>w'. msg_do (MConcat i p junk) w = Inr w' \<and> world_ok w'"
proof -
  define m where "m = mw_msgs w ! i"
  have i: "i < length (mw_msgs w)" "mw_heap w p = None" using g by simp_all
  note live = world_ok_live [OF w i(1), folded m_def] and ok = world_ok_msg [OF w i(1), folded m_def]
  show ?thesis
  proof (cases "m_buf m \<noteq> None \<or> m_empty m")
    case True
    have "world_put i (m, mw_heap w) w = w" by (simp add: world_put_def m_def)
    with True w show ?thesis by (simp add: m_concat_def m_def)
  next
    case False
    define b where "b = m_bytes (mw_heap w) m"
    define h where "h = (\<lambda>q. if q \<in> set (chunks m) then None else mw_heap w q)(p \<mapsto> b)"
    have ne: "chunks m \<noteq> []" "m_buf m = None" using False by (simp_all add: m_empty_chunks)
    then obtain x xs where x: "chunks m = x # xs" by (cases "chunks m") auto
    have hd: "md_getLen (the (mw_heap w x)) = Inr (int (length b))" "16 \<le> length (the (mw_heap w x))"
        "length b < 2 ^ 31"
      using ok by (simp_all add: message_ok_def x b_def)
    have "b = the (mw_heap w x) @ concat (map (\<lambda>p. the (mw_heap w p)) xs)" by (simp add: b_def m_bytes_def x)
    with hd have "md_getLen b = Inr (int (length b))" "16 \<le> length b"
      by (simp_all add: md_getLen_def hdr_getMessageLength_def off_messageLength_def load_int32_append)
    then have ok': "message_ok h (Message_of (Some p) True)"
      using hd(3) by (simp add: message_ok_def Message_of_def m_setData_impl_def Message_new_def chunks_def m_bytes_def h_def)
    have "world_ok (world_put i (Message_of (Some p) True, h) w)"
      using live i unfolding m_def by (intro world_put_ok' [OF w i(1) ok'])
        (auto simp: h_def m_def Message_of_def m_setData_impl_def chunks_def split: if_splits)
    with m_concat_ok [OF ok ne i(2)] show ?thesis by (simp add: m_def h_def b_def)
  qed
qed

lemma world_reset_ok:
  assumes w: "world_ok w" and i: "i < length (mw_msgs w)"
  shows "\<exists>heap. m_reset (mw_msgs w ! i) (mw_heap w) = Inr (Message_new, heap) \<and>
    world_ok (world_put i (Message_new, heap) w)"
proof -
  let ?h = "\<lambda>q. if q \<in> set (chunks (mw_msgs w ! i)) then None else mw_heap w q"
  have "world_ok (world_put i (Message_new, ?h) w)"
    using world_ok_live [OF w i]
    by (intro world_put_ok' [OF w i message_ok_new]) (auto simp: dom_def split: if_splits)
  with m_reset_ok [OF world_ok_msg [OF w i]] show ?thesis by simp
qed

lemma world_set_data_ok:
  assumes w: "world_ok w" and g: "msg_possible (MSetData i p junk op d) w" and e: "m_empty (mw_msgs w ! i)"
  shows "\<exists>w'. msg_do (MSetData i p junk op d) w = Inr w' \<and> world_ok w'"
proof -
  define m where "m = mw_msgs w ! i"
  define h where "h = (mw_heap w)(p \<mapsto> data_block junk op d)"
  have i: "i < length (mw_msgs w)" "mw_heap w p = None" and d: "length d + 16 < 2 ^ 31" using g by simp_all
  have m: "m = Message_new" using message_ok_empty [OF world_ok_msg [OF w i(1)] e] by (simp add: m_def)
  have blk: "md_getLen (data_block junk op d) = Inr (int (length d) + 16)" "length (data_block junk op d) = length d + 16"
    using data_block_fields(1,4) [of d 0] d load_int32_at [of "int (length d) + 16" "[]" 0]
    by (simp_all add: data_block_def md_getLen_def hdr_getMessageLength_def off_messageLength_def in_int32_iff)
  have "message_ok h (m_setData_impl (Some p) True m)"
    using d by (simp add: message_ok_def m m_setData_impl_def Message_new_def chunks_def m_bytes_def h_def blk)
  moreover have c: "chunks (m_setData_impl (Some p) True m) = [p]" by (simp add: m_setData_impl_def chunks_def)
  ultimately have "world_ok (world_put i (m_setData_impl (Some p) True m, h) w)"
    using i m unfolding m_def by (intro world_put_ok' [OF w i(1)]) (auto simp: h_def)
  with m_setData_copy_ok [OF e d, of p junk op "mw_heap w"] show ?thesis by (simp add: h_def m_def)
qed

lemma world_assign_ok:
  assumes w: "world_ok w" and ij: "i < length (mw_msgs w)" "j < length (mw_msgs w)"
  shows "m_assign (mw_msgs w ! i) (mw_msgs w ! j) = Inl VerifyFailed \<or>
    (\<exists>w'. msg_do (MAssign i j) w = Inr w' \<and> world_ok w')"
proof (cases "m_empty (mw_msgs w ! i) \<and> m_freeIt (mw_msgs w ! j)")
  case True
  have ok: "message_ok (mw_heap w) (mw_msgs w ! i)" "message_ok (mw_heap w) (mw_msgs w ! j)"
    using world_ok_msg [OF w] ij by simp_all
  have new: "mw_msgs w ! i = Message_new" using message_ok_empty [OF ok(1)] True by simp
  have ne: "\<not> m_empty (mw_msgs w ! j)" using True ok(2) by (simp add: message_ok_def m_empty_chunks)
  have "mset ((mw_msgs w)[i := mw_msgs w ! j, j := mw_msgs w ! i]) = mset (mw_msgs w)"
    using ij by (rule mset_swap [OF ij(2,1), unfolded list_update_swap] | simp add: mset_swap)
  with world_ok_permuted [OF w this] m_assign_ok [OF ok] True ne show ?thesis by (simp add: new)
next
  case False
  then show ?thesis by (cases "m_empty (mw_msgs w ! i)") (simp_all add: m_assign_def)
qed

lemma msg_step_ok:
  assumes w: "world_ok w" and g: "msg_possible c w"
  shows "msg_do c w = Inl VerifyFailed \<or> (\<exists>w'. msg_do c w = Inr w' \<and> world_ok w')"
proof (cases c)
  case MNew
  have "world_ok (w\<lparr>mw_msgs := mw_msgs w @ [Message_new]\<rparr>)" using w by (simp add: world_ok_def owned_def)
  then show ?thesis by (simp add: MNew)
next
  case (MSetData i p junk op d)
  show ?thesis
  proof (cases "m_empty (mw_msgs w ! i)")
    case True
    then show ?thesis using world_set_data_ok [OF w] g MSetData by blast
  qed (simp add: MSetData m_setData_copy_def)
next
  case (MAppend i p d)
  then show ?thesis using world_append_ok [OF w] g by blast
next
  case (MConcat i p junk)
  then show ?thesis using world_concat_ok [OF w] g by blast
next
  case (MAssign i j)
  then show ?thesis using world_assign_ok [OF w, of i j] g by auto
next
  case (MReset i)
  then show ?thesis using world_reset_ok [OF w, of i] g by auto
next
  case (MDestroy i)
  with g have i: "i < length (mw_msgs w)" by simp
  from world_reset_ok [OF w this] obtain heap where
    "m_reset (mw_msgs w ! i) (mw_heap w) = Inr (Message_new, heap)" "world_ok (world_put i (Message_new, heap) w)" by blast
  then show ?thesis
    by (simp add: MDestroy Message_destroy_def world_put_def upd_conv_take_nth_drop [OF i] world_ok_def owned_def ball_Un)
qed

lemma msg_run_ok:
  "world_ok w \<Longrightarrow> msg_run cs w = Inl StdOutOfRange \<or> (\<exists>w'. msg_run cs w = Inr w' \<and> world_ok w')"
proof (induction cs arbitrary: w)
  case (Cons c cs)
  show ?case
  proof (cases "msg_possible c w")
    case True
    then consider "msg_step c w = Inl VerifyFailed" | w' where "msg_step c w = Inr w'" "world_ok w'"
      using msg_step_ok [OF Cons.prems] by (auto simp: msg_step_def)
    then show ?thesis using Cons.IH Cons.prems by cases simp_all
  qed (simp add: msg_step_def)
qed simp

section \<open>Properties\<close>



text \<open>C21: appending a buffer to a message puts its bytes behind what the message holds and the total into
  the length field of the header; concatenating then gives the same bytes in one buffer and frees
  the others.\<close>

theorem append_then_concat:
  assumes "message_ok heap m" and "chunks m \<noteq> []" and "heap p = Some d" "p \<notin> set (chunks m)"
    and "0 < length d" and "length (m_bytes heap m) + length d < 2 ^ 31"
  shows "\<exists>m' heap'. m_appendData p (int (length d)) m heap = Inr (m', heap') \<and> message_ok heap' m' \<and>
    m_bytes heap' m' = set_len (int (length (m_bytes heap m) + length d)) (m_bytes heap m @ d) \<and>
    (\<forall>b junk. heap' b = None \<longrightarrow>
      (\<exists>heap''. m_concat (Some (b, junk)) m' heap' = Inr (Message_of (Some b) True, heap'') \<and>
        heap'' b = Some (m_bytes heap' m') \<and> (\<forall>q\<in>set (chunks m @ [p]). heap'' q = None)))"
proof -
  define m' where "m' = m\<lparr>m_buf := None, m_data := sized heap (chunks m @ [p])\<rparr>"
  define n where "n = int (length (m_bytes heap m) + length d)"
  define heap' where "heap' = heap(hd (chunks m) \<mapsto> set_len n (the (heap (hd (chunks m)))))"
  note more = m_appendData_more [OF assms, folded n_def, folded m'_def heap'_def]
  have buf: "m_buf m' = None" by (simp add: m'_def)
  have "\<exists>heap''. m_concat (Some (b, junk)) m' heap' = Inr (Message_of (Some b) True, heap'') \<and>
        heap'' b = Some (m_bytes heap' m') \<and> (\<forall>q\<in>set (chunks m @ [p]). heap'' q = None)"
    if b: "heap' b = None" for b junk
  proof -
    have ne: "chunks m' \<noteq> []" by (simp add: more(2))
    have nb: "b \<notin> set (chunks m @ [p])" using more(4) b by (auto simp: message_ok_def more(2))
    show ?thesis
      by (rule exI, rule conjI, rule m_concat_ok [OF more(4) ne buf b]) (use nb in \<open>auto simp: more(2)\<close>)
  qed
  then show ?thesis using more by (auto simp: n_def)
qed

theorem append_then_concat_witness:
  "\<exists>m' heap'. m_appendData 8 3 (m_setData_impl (Some 7) True Message_new)
       [7 \<mapsto> data_block (\<lambda>i. 0) 2004 [1, 2], 8 \<mapsto> [3, 4, 5]] = Inr (m', heap') \<and> message_ok heap' m'"
proof -
  let ?h = "[7 \<mapsto> data_block (\<lambda>i. 0) 2004 [1, 2], 8 \<mapsto> [3, 4, 5]] :: msg_heap"
  let ?m = "m_setData_impl (Some 7) True Message_new"
  have f: "md_getLen (data_block (\<lambda>i. 0) 2004 [1, 2]) = Inr 18" "length (data_block (\<lambda>i. 0) 2004 [1, 2]) = 18"
    using data_block_fields(1,4) [of "[1, 2]" 2004 "\<lambda>i. 0"] by (simp_all add: in_int32_iff)
  have c: "chunks ?m = [7]" "m_bytes ?h ?m = data_block (\<lambda>i. 0) 2004 [1, 2]"
    by (simp_all add: m_setData_impl_def Message_new_def chunks_def m_bytes_def)
  have "message_ok ?h ?m"
    using f c unfolding message_ok_def by (simp add: m_setData_impl_def Message_new_def)
  from append_then_concat [OF this, of 8 "[3, 4, 5]"] f c show ?thesis by fastforce
qed

text \<open>A message made by \<^verbatim>\<open>setData\<close> from an operation code and data has them, with the length of
  header and data in the header, whatever the allocated memory held; setting data again is refused.\<close>

theorem setData_reads_back:
  assumes "length d + 16 < 2 ^ 31" and "in_int32 operation"
  shows "\<exists>m heap'. m_setData_copy (Some (p, junk)) operation d Message_new heap = Inr (m, heap') \<and>
    m_operation m heap' = Inr operation \<and> m_size m heap' = Inr (int (length d) + 16) \<and>
    m_dataSize m heap' = Inr (int (length d)) \<and> m_singleData m = Inr p \<and>
    map_option md_data (heap' p) = Some d \<and> m_setData_copy (Some (p, junk)) operation d m heap' = Inl VerifyFailed"
proof -
  have e: "m_empty Message_new" by (simp add: m_empty_def Message_new_def)
  let ?m = "m_setData_impl (Some p) True Message_new"
  let ?h = "heap(p \<mapsto> data_block junk operation d)"
  have hd: "m_header ?m = Inr p" by (simp add: m_header_def m_empty_def m_setData_impl_def)
  note f = data_block_fields [OF assms, of junk]
  have "m_operation ?m ?h = Inr operation" by (simp add: m_operation_def hd heap_read_def f)
  moreover have size: "m_size ?m ?h = Inr (int (length d) + 16)" by (simp add: m_size_def m_setData_impl_def heap_read_def f)
  moreover have "m_dataSize ?m ?h = Inr (int (length d))"
    using sint_word_of_int32 [of "int (length d)"] assms(1) by (simp add: m_dataSize_def sizeof_MSGHEADER_def in_int32_iff size)
  moreover have "m_singleData ?m = Inr p" using hd by (simp add: m_singleData_def m_setData_impl_def)
  moreover have "m_setData_copy (Some (p, junk)) operation d ?m ?h = Inl VerifyFailed"
    by (simp add: m_setData_copy_def m_empty_def m_setData_impl_def)
  moreover have "map_option md_data (?h p) = Some d" by (simp add: f)
  ultimately show ?thesis using m_setData_copy_ok [OF e assms(1), of p junk operation heap] by blast
qed

theorem setData_reads_back_witness:
  "\<exists>m heap'. m_setData_copy (Some (7, (\<lambda>i. 255))) dbQuery [1, 2, 3] Message_new (\<lambda>p. None) = Inr (m, heap') \<and>
    m_operation m heap' = Inr dbQuery"
  using setData_reads_back [of "[1, 2, 3]" dbQuery 7 "\<lambda>i. 255" "\<lambda>p. None"] by (auto simp: in_int32_iff dbQuery_def)

text \<open>The names and the read/write classification cover exactly the operation codes of the protocol
  (and 0); \<open>opIsWrite\<close> holds exactly of the write operations, and any other code fails the assertion
  of each function.\<close>

theorem operation_codes:
  "(opToString op = Inl (MsgAssertion 16141)) = (op \<notin> {0, 1, 1000, 2001, 2002, 2004, 2005, 2006, 2007}) \<and>
   (opIsWrite op = Inl VerifyFailed) = (opToString op = Inl (MsgAssertion 16141)) \<and>
   (opIsWrite op = Inr True) = (op \<in> snd ` set WriteOpType) \<and> opToString op \<noteq> Inr []"
  by (simp add: opToString_def opIsWrite_def op_defs WriteOpType_def)

end
