(* ===== verification/AtomicWord.thy ===== *)
theory AtomicWord
  imports Prelude
begin

text \<open>
  \<^verbatim>\<open>mongo/platform/atomic_intrinsics_*.h\<close> and \<^verbatim>\<open>atomic_word_*.h\<close>: the atomic operations on a
  word, once per toolchain, and the class \<^verbatim>\<open>AtomicWord\<close> over them. A shared word is its value,
  the interference of other threads still to come (one function for each access of this thread,
  applied just before it; none once the list is used up) and the log of this thread's own accesses,
  each as the value before and after. The builtins, instructions and API functions that the code
  calls are single accesses with their documented effect. Accesses are sequentially consistent;
  fences are not modelled. Values are unsigned words.
\<close>

section \<open>A shared word\<close>

record 'w shared =
  sh_val :: 'w
  sh_env :: "('w \<Rightarrow> 'w) list"
  sh_log :: "('w \<times> 'w) list"

text \<open>One indivisible access: a result and a new value, from the value found.\<close>

definition interfered :: "'w shared \<Rightarrow> 'w" where
  "interfered s = (case sh_env s of [] \<Rightarrow> sh_val s | f # _ \<Rightarrow> f (sh_val s))"

definition access :: "('w \<Rightarrow> 'r \<times> 'w) \<Rightarrow> 'w shared \<Rightarrow> 'r \<times> 'w shared" where
  "access f s =
     (let c = interfered s; (r, c') = f c in
      (r, \<lparr>sh_val = c', sh_env = tl (sh_env s), sh_log = sh_log s @ [(c, c')]\<rparr>))"

text \<open>What each operation does when nothing interferes with it.\<close>

definition spec_cas :: "'w \<Rightarrow> 'w \<Rightarrow> 'w \<Rightarrow> 'w \<times> 'w" where
  "spec_cas expected newValue c = (c, if c = expected then newValue else c)"

definition spec_swap :: "'w \<Rightarrow> 'w \<Rightarrow> 'w \<times> 'w" where
  "spec_swap newValue c = (c, newValue)"

definition spec_load :: "'w \<Rightarrow> 'w \<times> 'w" where
  "spec_load c = (c, c)"

definition spec_store :: "'w \<Rightarrow> 'w \<Rightarrow> unit \<times> 'w" where
  "spec_store newValue c = ((), newValue)"

definition spec_add :: "'a::len word \<Rightarrow> 'a word \<Rightarrow> 'a word \<times> 'a word" where
  "spec_add increment c = (c, c + increment)"

section \<open>GCC sync builtins\<close>

definition gcc_sync_compareAndSwap :: "'w \<Rightarrow> 'w \<Rightarrow> 'w shared \<Rightarrow> 'w \<times> 'w shared" where
  "gcc_sync_compareAndSwap expected newValue = access (spec_cas expected newValue)"

definition plain_read :: "'w shared \<Rightarrow> 'w \<times> 'w shared" where
  "plain_read = access spec_load"

text \<open>
  The loop around compare-and-swap: a failed attempt uses up one interference, or leaves
  \<open>currentValue\<close> equal to the word, so the loop ends.
\<close>

function swap_loop :: "'w \<Rightarrow> 'w \<Rightarrow> 'w shared \<Rightarrow> 'w \<times> 'w shared" where
  "swap_loop newValue currentValue s =
     (let (result, s') = gcc_sync_compareAndSwap currentValue newValue s in
      if result = currentValue then (result, s') else swap_loop newValue result s')"
  by pat_completeness auto
termination
  by (relation "measure (\<lambda>(n, c, s). 2 * length (sh_env s) + (if c = sh_val s then 0 else 1))")
    (auto simp: gcc_sync_compareAndSwap_def access_def spec_cas_def interfered_def Let_def
      split: list.splits)

declare swap_loop.simps [simp del]

definition gcc_sync_swap :: "'w \<Rightarrow> 'w shared \<Rightarrow> 'w \<times> 'w shared" where
  "gcc_sync_swap newValue s = (let (currentValue, s') = plain_read s in swap_loop newValue currentValue s')"

definition gcc_sync_load :: "'w shared \<Rightarrow> 'w \<times> 'w shared" where
  "gcc_sync_load = access spec_load"

definition gcc_sync_loadRelaxed :: "'w shared \<Rightarrow> 'w \<times> 'w shared" where
  "gcc_sync_loadRelaxed = plain_read"

definition gcc_sync_store :: "'w \<Rightarrow> 'w shared \<Rightarrow> unit \<times> 'w shared" where
  "gcc_sync_store newValue = access (spec_store newValue)"

definition gcc_sync_fetchAndAdd :: "'a::len word \<Rightarrow> 'a word shared \<Rightarrow> 'a word \<times> 'a word shared" where
  "gcc_sync_fetchAndAdd increment = access (spec_add increment)"

text \<open>The instantiation for words larger than a pointer: load and store through the others.\<close>

definition gcc_sync_large_load :: "'a::len word shared \<Rightarrow> 'a word \<times> 'a word shared" where
  "gcc_sync_large_load = gcc_sync_compareAndSwap 0 0"

definition gcc_sync_large_store :: "'w \<Rightarrow> 'w shared \<Rightarrow> unit \<times> 'w shared" where
  "gcc_sync_large_store newValue s = (let (r, s') = gcc_sync_swap newValue s in ((), s'))"

section \<open>GCC atomic builtins\<close>

text \<open>The compare-exchange stores the value it found into its second argument when it fails.\<close>

definition compare_exchange :: "'w \<Rightarrow> 'w \<Rightarrow> 'w \<Rightarrow> 'w \<times> 'w" where
  "compare_exchange expected newValue c = (if c = expected then (expected, newValue) else (c, c))"

definition gcc_atomic_compareAndSwap :: "'w \<Rightarrow> 'w \<Rightarrow> 'w shared \<Rightarrow> 'w \<times> 'w shared" where
  "gcc_atomic_compareAndSwap expected newValue s =
     (let (expected, s') = access (compare_exchange expected newValue) s in (expected, s'))"

definition gcc_atomic_swap :: "'w \<Rightarrow> 'w shared \<Rightarrow> 'w \<times> 'w shared" where
  "gcc_atomic_swap newValue = access (spec_swap newValue)"

definition gcc_atomic_load :: "'w shared \<Rightarrow> 'w \<times> 'w shared" where
  "gcc_atomic_load = access spec_load"

definition gcc_atomic_loadRelaxed :: "'w shared \<Rightarrow> 'w \<times> 'w shared" where
  "gcc_atomic_loadRelaxed = access spec_load"

definition gcc_atomic_store :: "'w \<Rightarrow> 'w shared \<Rightarrow> unit \<times> 'w shared" where
  "gcc_atomic_store newValue = access (spec_store newValue)"

definition gcc_atomic_fetchAndAdd :: "'a::len word \<Rightarrow> 'a word shared \<Rightarrow> 'a word \<times> 'a word shared" where
  "gcc_atomic_fetchAndAdd increment = access (spec_add increment)"

section \<open>Intel instructions\<close>

text \<open>\<^verbatim>\<open>lock cmpxchg\<close> leaves the value found in its result register.\<close>

definition intel_compareAndSwap :: "'w \<Rightarrow> 'w \<Rightarrow> 'w shared \<Rightarrow> 'w \<times> 'w shared" where
  "intel_compareAndSwap expected newValue = access (spec_cas expected newValue)"

definition intel_swap :: "'w \<Rightarrow> 'w shared \<Rightarrow> 'w \<times> 'w shared" where
  "intel_swap newValue = access (spec_swap newValue)"

definition intel_load :: "'w shared \<Rightarrow> 'w \<times> 'w shared" where
  "intel_load = plain_read"

definition intel_loadRelaxed :: "'w shared \<Rightarrow> 'w \<times> 'w shared" where
  "intel_loadRelaxed = plain_read"

definition intel_store :: "'w \<Rightarrow> 'w shared \<Rightarrow> unit \<times> 'w shared" where
  "intel_store newValue = access (spec_store newValue)"

definition intel_fetchAndAdd :: "'a::len word \<Rightarrow> 'a word shared \<Rightarrow> 'a word \<times> 'a word shared" where
  "intel_fetchAndAdd increment = access (spec_add increment)"

text \<open>The 64-bit instantiation on 32-bit systems, over \<^verbatim>\<open>lock cmpxchg8b\<close>: loops that read the
  word again for each attempt.\<close>

definition intel_large_load :: "'a::len word shared \<Rightarrow> 'a word \<times> 'a word shared" where
  "intel_large_load = intel_compareAndSwap 0 0"

function intel_large_swap :: "'w \<Rightarrow> 'w shared \<Rightarrow> 'w \<times> 'w shared" where
  "intel_large_swap newValue s =
     (let (expected, s1) = plain_read s;
          (actual, s2) = intel_compareAndSwap expected newValue s1
      in if actual \<noteq> expected then intel_large_swap newValue s2 else (actual, s2))"
  by pat_completeness auto
termination
  by (relation "measure (\<lambda>(n, s). length (sh_env s))")
    (auto simp: intel_compareAndSwap_def plain_read_def access_def spec_cas_def spec_load_def
      interfered_def Let_def split: list.splits)

function intel_large_fetchAndAdd :: "'a::len word \<Rightarrow> 'a word shared \<Rightarrow> 'a word \<times> 'a word shared" where
  "intel_large_fetchAndAdd increment s =
     (let (expected, s1) = intel_large_load s;
          (actual, s2) = intel_compareAndSwap expected (expected + increment) s1
      in if actual \<noteq> expected then intel_large_fetchAndAdd increment s2 else (actual, s2))"
  by pat_completeness auto
termination
  by (relation "measure (\<lambda>(n, s). length (sh_env s))")
    (auto simp: intel_compareAndSwap_def intel_large_load_def access_def spec_cas_def
      interfered_def Let_def split: list.splits if_splits)

declare intel_large_swap.simps [simp del] intel_large_fetchAndAdd.simps [simp del]

definition intel_large_store :: "'w \<Rightarrow> 'w shared \<Rightarrow> unit \<times> 'w shared" where
  "intel_large_store newValue s = (let (r, s') = intel_large_swap newValue s in ((), s'))"

section \<open>Windows\<close>

text \<open>32-bit words, and 64-bit words where the API has the 64-bit operations.\<close>

definition win32_compareAndSwap :: "'w \<Rightarrow> 'w \<Rightarrow> 'w shared \<Rightarrow> 'w \<times> 'w shared" where
  "win32_compareAndSwap expected newValue = access (spec_cas expected newValue)"

definition win32_swap :: "'w \<Rightarrow> 'w shared \<Rightarrow> 'w \<times> 'w shared" where
  "win32_swap newValue = access (spec_swap newValue)"

definition win32_load :: "'w shared \<Rightarrow> 'w \<times> 'w shared" where
  "win32_load = plain_read"

definition win32_loadRelaxed :: "'w shared \<Rightarrow> 'w \<times> 'w shared" where
  "win32_loadRelaxed = plain_read"

definition win32_store :: "'w \<Rightarrow> 'w shared \<Rightarrow> unit \<times> 'w shared" where
  "win32_store newValue = access (spec_store newValue)"

definition win32_fetchAndAdd :: "'a::len word \<Rightarrow> 'a word shared \<Rightarrow> 'a word \<times> 'a word shared" where
  "win32_fetchAndAdd increment = access (spec_add increment)"

text \<open>64-bit words without those operations: loops over the compiler's compare-exchange.\<close>

definition impl64_compareAndSwap :: "'w \<Rightarrow> 'w \<Rightarrow> 'w shared \<Rightarrow> 'w \<times> 'w shared" where
  "impl64_compareAndSwap expected newValue = access (spec_cas expected newValue)"

function impl64_swap_loop :: "'w \<Rightarrow> 'w \<Rightarrow> 'w shared \<Rightarrow> 'w \<times> 'w shared" where
  "impl64_swap_loop newValue currentValue s =
     (let (result, s') = impl64_compareAndSwap currentValue newValue s in
      if result = currentValue then (result, s') else impl64_swap_loop newValue result s')"
  by pat_completeness auto
termination
  by (relation "measure (\<lambda>(n, c, s). 2 * length (sh_env s) + (if c = sh_val s then 0 else 1))")
    (auto simp: impl64_compareAndSwap_def access_def spec_cas_def interfered_def Let_def
      split: list.splits)

definition impl64_swap :: "'w \<Rightarrow> 'w shared \<Rightarrow> 'w \<times> 'w shared" where
  "impl64_swap newValue s =
     (let (currentValue, s') = plain_read s in impl64_swap_loop newValue currentValue s')"

function impl64_add_loop :: "'a::len word \<Rightarrow> 'a word \<Rightarrow> 'a word shared \<Rightarrow> 'a word \<times> 'a word shared" where
  "impl64_add_loop increment currentValue s =
     (let incremented = currentValue + increment;
          (result, s') = impl64_compareAndSwap currentValue incremented s in
      if result = currentValue then (result, s') else impl64_add_loop increment result s')"
  by pat_completeness auto
termination
  by (relation "measure (\<lambda>(n, c, s). 2 * length (sh_env s) + (if c = sh_val s then 0 else 1))")
    (auto simp: impl64_compareAndSwap_def access_def spec_cas_def interfered_def Let_def
      split: list.splits)

declare impl64_swap_loop.simps [simp del] impl64_add_loop.simps [simp del]

definition impl64_fetchAndAdd :: "'a::len word \<Rightarrow> 'a word shared \<Rightarrow> 'a word \<times> 'a word shared" where
  "impl64_fetchAndAdd increment s =
     (let (currentValue, s') = plain_read s in impl64_add_loop increment currentValue s')"

text \<open>64-bit words where the API has the operations.\<close>

definition interlocked64_compareAndSwap :: "'w \<Rightarrow> 'w \<Rightarrow> 'w shared \<Rightarrow> 'w \<times> 'w shared" where
  "interlocked64_compareAndSwap expected newValue = access (spec_cas expected newValue)"

definition interlocked64_swap :: "'w \<Rightarrow> 'w shared \<Rightarrow> 'w \<times> 'w shared" where
  "interlocked64_swap newValue = access (spec_swap newValue)"

definition interlocked64_fetchAndAdd :: "'a::len word \<Rightarrow> 'a word shared \<Rightarrow> 'a word \<times> 'a word shared" where
  "interlocked64_fetchAndAdd increment = access (spec_add increment)"

text \<open>Load and store of 64-bit words on 64-bit systems, and on 32-bit systems over the other operations.\<close>

definition native_load :: "'w shared \<Rightarrow> 'w \<times> 'w shared" where
  "native_load = plain_read"

definition native_store :: "'w \<Rightarrow> 'w shared \<Rightarrow> unit \<times> 'w shared" where
  "native_store newValue = access (spec_store newValue)"

definition large_load ::
    "('a::len word \<Rightarrow> 'a word \<Rightarrow> 'a word shared \<Rightarrow> 'a word \<times> 'a word shared) \<Rightarrow> 'a word shared \<Rightarrow> 'a word \<times> 'a word shared" where
  "large_load compareAndSwap = compareAndSwap 0 0"

definition large_store :: "('w \<Rightarrow> 'w shared \<Rightarrow> 'w \<times> 'w shared) \<Rightarrow> 'w \<Rightarrow> 'w shared \<Rightarrow> unit \<times> 'w shared" where
  "large_store swap newValue s = (let (r, s') = swap newValue s in ((), s'))"

section \<open>The class AtomicWord\<close>

text \<open>The operations a toolchain provides.\<close>

record 'w intrinsics =
  ai_compareAndSwap :: "'w \<Rightarrow> 'w \<Rightarrow> 'w shared \<Rightarrow> 'w \<times> 'w shared"
  ai_swap :: "'w \<Rightarrow> 'w shared \<Rightarrow> 'w \<times> 'w shared"
  ai_load :: "'w shared \<Rightarrow> 'w \<times> 'w shared"
  ai_store :: "'w \<Rightarrow> 'w shared \<Rightarrow> unit \<times> 'w shared"
  ai_fetchAndAdd :: "'w \<Rightarrow> 'w shared \<Rightarrow> 'w \<times> 'w shared"

definition AtomicWord_new :: "'w \<Rightarrow> ('w \<Rightarrow> 'w) list \<Rightarrow> 'w shared" where
  "AtomicWord_new value env = \<lparr>sh_val = value, sh_env = env, sh_log = []\<rparr>"

definition aw_load :: "'w intrinsics \<Rightarrow> 'w shared \<Rightarrow> 'w \<times> 'w shared" where
  "aw_load ai = ai_load ai"

definition aw_store :: "'w intrinsics \<Rightarrow> 'w \<Rightarrow> 'w shared \<Rightarrow> unit \<times> 'w shared" where
  "aw_store ai newValue = ai_store ai newValue"

definition aw_swap :: "'w intrinsics \<Rightarrow> 'w \<Rightarrow> 'w shared \<Rightarrow> 'w \<times> 'w shared" where
  "aw_swap ai newValue = ai_swap ai newValue"

definition aw_compareAndSwap :: "'w intrinsics \<Rightarrow> 'w \<Rightarrow> 'w \<Rightarrow> 'w shared \<Rightarrow> 'w \<times> 'w shared" where
  "aw_compareAndSwap ai expected newValue = ai_compareAndSwap ai expected newValue"

definition aw_fetchAndAdd ::
    "'a::len word intrinsics \<Rightarrow> 'a word \<Rightarrow> 'a word shared \<Rightarrow> 'a word \<times> 'a word shared" where
  "aw_fetchAndAdd ai increment = ai_fetchAndAdd ai increment"

definition aw_fetchAndSubtract ::
    "'a::len word intrinsics \<Rightarrow> 'a word \<Rightarrow> 'a word shared \<Rightarrow> 'a word \<times> 'a word shared" where
  "aw_fetchAndSubtract ai decrement = aw_fetchAndAdd ai (0 - decrement)"

definition aw_addAndFetch ::
    "'a::len word intrinsics \<Rightarrow> 'a word \<Rightarrow> 'a word shared \<Rightarrow> 'a word \<times> 'a word shared" where
  "aw_addAndFetch ai increment s =
     (let (r, s') = aw_fetchAndAdd ai increment s in (r + increment, s'))"

definition aw_subtractAndFetch ::
    "'a::len word intrinsics \<Rightarrow> 'a word \<Rightarrow> 'a word shared \<Rightarrow> 'a word \<times> 'a word shared" where
  "aw_subtractAndFetch ai decrement s =
     (let (r, s') = aw_fetchAndSubtract ai decrement s in (r - decrement, s'))"

definition gcc_sync :: "'a::len word intrinsics" where
  "gcc_sync = \<lparr>ai_compareAndSwap = gcc_sync_compareAndSwap, ai_swap = gcc_sync_swap,
     ai_load = gcc_sync_load, ai_store = gcc_sync_store, ai_fetchAndAdd = gcc_sync_fetchAndAdd\<rparr>"

definition gcc_sync_large :: "'a::len word intrinsics" where
  "gcc_sync_large = \<lparr>ai_compareAndSwap = gcc_sync_compareAndSwap, ai_swap = gcc_sync_swap,
     ai_load = gcc_sync_large_load, ai_store = gcc_sync_large_store,
     ai_fetchAndAdd = gcc_sync_fetchAndAdd\<rparr>"

definition gcc_atomic :: "'a::len word intrinsics" where
  "gcc_atomic = \<lparr>ai_compareAndSwap = gcc_atomic_compareAndSwap, ai_swap = gcc_atomic_swap,
     ai_load = gcc_atomic_load, ai_store = gcc_atomic_store, ai_fetchAndAdd = gcc_atomic_fetchAndAdd\<rparr>"

definition intel :: "'a::len word intrinsics" where
  "intel = \<lparr>ai_compareAndSwap = intel_compareAndSwap, ai_swap = intel_swap,
     ai_load = intel_load, ai_store = intel_store, ai_fetchAndAdd = intel_fetchAndAdd\<rparr>"

definition intel_large :: "'a::len word intrinsics" where
  "intel_large = \<lparr>ai_compareAndSwap = intel_compareAndSwap, ai_swap = intel_large_swap,
     ai_load = intel_large_load, ai_store = intel_large_store,
     ai_fetchAndAdd = intel_large_fetchAndAdd\<rparr>"

definition win32 :: "'a::len word intrinsics" where
  "win32 = \<lparr>ai_compareAndSwap = win32_compareAndSwap, ai_swap = win32_swap,
     ai_load = win32_load, ai_store = win32_store, ai_fetchAndAdd = win32_fetchAndAdd\<rparr>"

text \<open>By \<^verbatim>\<open>kHaveInterlocked64\<close>, and by whether a pointer has 64 bits.\<close>

definition win32_large :: "bool \<Rightarrow> bool \<Rightarrow> 'a::len word intrinsics" where
  "win32_large kHaveInterlocked64 pointers64 =
     (let compareAndSwap = if kHaveInterlocked64 then interlocked64_compareAndSwap else impl64_compareAndSwap;
          swap = if kHaveInterlocked64 then interlocked64_swap else impl64_swap in
      \<lparr>ai_compareAndSwap = compareAndSwap, ai_swap = swap,
       ai_load = if pointers64 then native_load else large_load compareAndSwap,
       ai_store = if pointers64 then native_store else large_store swap,
       ai_fetchAndAdd = if kHaveInterlocked64 then interlocked64_fetchAndAdd else impl64_fetchAndAdd\<rparr>)"

text \<open>The implementation over \<^verbatim>\<open>std::atomic\<close>, which has its own subtraction.\<close>

definition cxx11_load :: "'w shared \<Rightarrow> 'w \<times> 'w shared" where
  "cxx11_load = access spec_load"

definition cxx11_loadRelaxed :: "'w shared \<Rightarrow> 'w \<times> 'w shared" where
  "cxx11_loadRelaxed = access spec_load"

definition cxx11_store :: "'w \<Rightarrow> 'w shared \<Rightarrow> unit \<times> 'w shared" where
  "cxx11_store newValue = access (spec_store newValue)"

definition cxx11_swap :: "'w \<Rightarrow> 'w shared \<Rightarrow> 'w \<times> 'w shared" where
  "cxx11_swap newValue = access (spec_swap newValue)"

definition cxx11_compareAndSwap :: "'w \<Rightarrow> 'w \<Rightarrow> 'w shared \<Rightarrow> 'w \<times> 'w shared" where
  "cxx11_compareAndSwap expected newValue s =
     (let (expected, s') = access (compare_exchange expected newValue) s in (expected, s'))"

definition cxx11_fetchAndAdd :: "'a::len word \<Rightarrow> 'a word shared \<Rightarrow> 'a word \<times> 'a word shared" where
  "cxx11_fetchAndAdd increment = access (spec_add increment)"

definition cxx11_fetchAndSubtract :: "'a::len word \<Rightarrow> 'a word shared \<Rightarrow> 'a word \<times> 'a word shared" where
  "cxx11_fetchAndSubtract decrement = access (\<lambda>c. (c, c - decrement))"

definition cxx11_addAndFetch :: "'a::len word \<Rightarrow> 'a word shared \<Rightarrow> 'a word \<times> 'a word shared" where
  "cxx11_addAndFetch increment s =
     (let (r, s') = cxx11_fetchAndAdd increment s in (r + increment, s'))"

definition cxx11_subtractAndFetch :: "'a::len word \<Rightarrow> 'a word shared \<Rightarrow> 'a word \<times> 'a word shared" where
  "cxx11_subtractAndFetch decrement s =
     (let (r, s') = cxx11_fetchAndSubtract decrement s in (r - decrement, s'))"

section \<open>Linearizability\<close>

text \<open>
  An operation takes effect at its last access, on the value it finds there; its accesses before
  that one leave the word alone.
\<close>

fun stutters :: "('w \<times> 'w) list \<Rightarrow> bool" where
  "stutters [] \<longleftrightarrow> True"
| "stutters ((x, y) # log) \<longleftrightarrow> x = y \<and> stutters log"

definition lin :: "('w \<Rightarrow> 'r \<times> 'w) \<Rightarrow> ('w shared \<Rightarrow> 'r \<times> 'w shared) \<Rightarrow> bool" where
  "lin spec op \<longleftrightarrow>
     (\<forall>s. \<exists>r c c' pre s'. op s = (r, s') \<and> spec c = (r, c') \<and> sh_val s' = c' \<and>
        stutters pre \<and> sh_log s' = sh_log s @ pre @ [(c, c')])"

lemma linI:
  assumes "\<And>s. \<exists>c pre. op s = (fst (spec c), s' s) \<and> sh_val (s' s) = snd (spec c) \<and>
    stutters pre \<and> sh_log (s' s) = sh_log s @ pre @ [(c, snd (spec c))]"
  shows "lin spec op"
  unfolding lin_def
proof
  fix s
  from assms [of s] obtain c pre where "op s = (fst (spec c), s' s)" "sh_val (s' s) = snd (spec c)"
    "stutters pre" "sh_log (s' s) = sh_log s @ pre @ [(c, snd (spec c))]" by blast
  then show "\<exists>r c c' pre s'. op s = (r, s') \<and> spec c = (r, c') \<and> sh_val s' = c' \<and>
      stutters pre \<and> sh_log s' = sh_log s @ pre @ [(c, c')]"
    by (intro exI [of _ "fst (spec c)"] exI [of _ c] exI [of _ "snd (spec c)"] exI [of _ pre]
        exI [of _ "s' s"]) (simp only: prod.collapse simp_thms)
qed

lemma linD:
  "lin f op \<Longrightarrow> \<exists>r c c' pre s'. op s = (r, s') \<and> f c = (r, c') \<and> sh_val s' = c' \<and>
     stutters pre \<and> sh_log s' = sh_log s @ pre @ [(c, c')]"
  unfolding lin_def by (rule spec)

lemma access_split:
  "access f s = (fst (f (interfered s)), \<lparr>sh_val = snd (f (interfered s)), sh_env = tl (sh_env s),
     sh_log = sh_log s @ [(interfered s, snd (f (interfered s)))]\<rparr>)"
  by (simp add: access_def Let_def split_beta)

lemma lin_access: "lin f (access f)"
proof (rule linI)
  fix s
  show "\<exists>c pre. access f s = (fst (f c), snd (access f s)) \<and> sh_val (snd (access f s)) = snd (f c) \<and>
      stutters pre \<and> sh_log (snd (access f s)) = sh_log s @ pre @ [(c, snd (f c))]"
    by (intro exI [of _ "interfered s"] exI [of _ "[]"]) (simp add: access_split)
qed

lemma lin_spec_cong: "lin f op \<Longrightarrow> (\<And>c. f c = g c) \<Longrightarrow> lin g op"
  by (simp add: lin_def)

text \<open>Post-processing of the result.\<close>

lemma lin_map:
  assumes "lin f op"
  shows "lin (\<lambda>c. let (r, c') = f c in (h r, c')) (\<lambda>s. let (r, s') = op s in (h r, s'))"
  unfolding lin_def
proof
  fix s
  from assms obtain r c c' pre s' where "op s = (r, s')" "f c = (r, c')" "sh_val s' = c'"
    "stutters pre" "sh_log s' = sh_log s @ pre @ [(c, c')]"
    unfolding lin_def by blast
  then show "\<exists>r c c' pre s'. (let (r, s') = op s in (h r, s')) = (r, s') \<and>
      (let (r, c') = f c in (h r, c')) = (r, c') \<and> sh_val s' = c' \<and>
      stutters pre \<and> sh_log s' = sh_log s @ pre @ [(c, c')]"
    by (intro exI [of _ "h r"] exI [of _ c] exI [of _ c'] exI [of _ pre] exI [of _ s']) simp
qed

text \<open>An access that leaves the word alone, followed by an operation.\<close>

lemma lin_after_read:
  fixes f :: "'w \<Rightarrow> 'r \<times> 'w" and g :: "'w \<Rightarrow> 'q \<times> 'w"
  assumes "\<And>r. lin f (op r)" and "\<And>c. snd (g c) = c"
  shows "lin f (\<lambda>s. let (r, s') = access g s in op r s')"
  unfolding lin_def
proof
  fix s :: "'w shared"
  let ?c = "interfered s" and ?r = "fst (access g s)" and ?s = "snd (access g s)"
  have l: "sh_log ?s = sh_log s @ [(?c, ?c)]"
    by (simp add: access_split assms(2))
  from linD [OF assms(1), of ?r ?s] obtain r c c' pre s' where *: "op ?r ?s = (r, s')"
    "f c = (r, c')" "sh_val s' = c'" "stutters pre" "sh_log s' = sh_log ?s @ pre @ [(c, c')]"
    by blast
  have "(let (r, s') = access g s in op r s') = (r, s')" using *(1) by (simp add: split_beta)
  moreover have "stutters ((?c, ?c) # pre)" using *(4) by simp
  moreover have "sh_log s' = sh_log s @ ((?c, ?c) # pre) @ [(c, c')]" using *(5) l by simp
  ultimately show "\<exists>r c c' pre s'. (let (r, s') = access g s in op r s') = (r, s') \<and> f c = (r, c') \<and>
      sh_val s' = c' \<and> stutters pre \<and> sh_log s' = sh_log s @ pre @ [(c, c')]"
    using *(2,3) by blast
qed

text \<open>
  The loops. \<open>attempt e\<close> tries to replace the expected value \<open>e\<close>; it succeeds on finding \<open>e\<close> and
  otherwise leaves the word alone.
\<close>

lemma cas_found:
  assumes "access (spec_cas e n) s = (r, s')"
  shows "sh_log s' = sh_log s @ [(r, if r = e then n else r)]" "sh_val s' = (if r = e then n else r)"
proof -
  have "r = fst (access (spec_cas e n) s)" "s' = snd (access (spec_cas e n) s)"
    using assms by simp_all
  then show "sh_log s' = sh_log s @ [(r, if r = e then n else r)]" "sh_val s' = (if r = e then n else r)"
    by (simp_all add: access_split spec_cas_def)
qed

lemma lin_stutter:
  assumes "sh_log s0 = sh_log s @ [(c0, c0)]"
    and "\<exists>r c c' pre s'. res = (r, s') \<and> f c = (r, c') \<and> sh_val s' = c' \<and>
      stutters pre \<and> sh_log s' = sh_log s0 @ pre @ [(c, c')]"
  shows "\<exists>r c c' pre s'. res = (r, s') \<and> f c = (r, c') \<and> sh_val s' = c' \<and>
      stutters pre \<and> sh_log s' = sh_log s @ pre @ [(c, c')]"
proof -
  from assms(2) obtain r c c' pre s' where *: "res = (r, s')" "f c = (r, c')" "sh_val s' = c'"
    "stutters pre" "sh_log s' = sh_log s0 @ pre @ [(c, c')]" by blast
  have "stutters ((c0, c0) # pre)" "sh_log s' = sh_log s @ ((c0, c0) # pre) @ [(c, c')]"
    using * assms(1) by auto
  with * show ?thesis by blast
qed

lemma lin_last:
  assumes "f c = (r, c')" and "sh_val s' = c'" and "sh_log s' = sh_log s @ [(c, c')]"
  shows "\<exists>r1 c c' pre s1. (r, s') = (r1, s1) \<and> f c = (r1, c') \<and> sh_val s1 = c' \<and>
      stutters pre \<and> sh_log s1 = sh_log s @ pre @ [(c, c')]"
  by (rule exI [of _ r], rule exI [of _ c], rule exI [of _ c'], rule exI [of _ "[]"], rule exI [of _ s'])
    (use assms in simp)

lemma lin_swap_loop: "lin (spec_swap n) (swap_loop n e)"
  unfolding lin_def
proof
  fix s
  show "\<exists>r c c' pre s'. swap_loop n e s = (r, s') \<and> spec_swap n c = (r, c') \<and> sh_val s' = c' \<and>
      stutters pre \<and> sh_log s' = sh_log s @ pre @ [(c, c')]"
  proof (induction n e s rule: swap_loop.induct)
    case (1 n e s)
    obtain r s1 where a: "gcc_sync_compareAndSwap e n s = (r, s1)" by fastforce
    note found = cas_found [OF a [unfolded gcc_sync_compareAndSwap_def]]
    show ?case
    proof (cases "r = e")
      case True
      then show ?thesis using found
        by (simp only: swap_loop.simps [of n e s] a Let_def prod.case if_True if_P)
          (intro lin_last, simp_all add: spec_swap_def)
    next
      case False
      from lin_stutter [OF _ "1.IH" [OF a [symmetric] refl False], of s r] found False show ?thesis
        by (simp add: swap_loop.simps [of n e s] a)
    qed
  qed
qed

lemma impl64_swap_loop_eq: "impl64_swap_loop n e s = swap_loop n e s"
proof (induction n e s rule: swap_loop.induct)
  case (1 n e s)
  have op: "impl64_compareAndSwap e n s = gcc_sync_compareAndSwap e n s"
    by (simp add: impl64_compareAndSwap_def gcc_sync_compareAndSwap_def)
  obtain r s1 where a: "gcc_sync_compareAndSwap e n s = (r, s1)" by fastforce
  show ?case
  proof (cases "r = e")
    case False
    then show ?thesis using "1.IH" [OF a [symmetric] refl False]
      by (simp add: impl64_swap_loop.simps [of n e s] swap_loop.simps [of n e s] op a)
  qed (simp add: impl64_swap_loop.simps [of n e s] swap_loop.simps [of n e s] op a)
qed

lemma lin_impl64_add_loop: "lin (spec_add i) (impl64_add_loop i e)"
  unfolding lin_def
proof
  fix s
  show "\<exists>r c c' pre s'. impl64_add_loop i e s = (r, s') \<and> spec_add i c = (r, c') \<and> sh_val s' = c' \<and>
      stutters pre \<and> sh_log s' = sh_log s @ pre @ [(c, c')]"
  proof (induction i e s rule: impl64_add_loop.induct)
    case (1 i e s)
    obtain r s1 where a: "impl64_compareAndSwap e (e + i) s = (r, s1)" by fastforce
    note found = cas_found [OF a [unfolded impl64_compareAndSwap_def]]
    show ?case
    proof (cases "r = e")
      case True
      then show ?thesis using found
        by (simp only: impl64_add_loop.simps [of i e s] a Let_def prod.case if_True if_P)
          (intro lin_last, simp_all add: spec_add_def)
    next
      case False
      from lin_stutter [OF _ "1.IH" [OF refl a [symmetric] refl False], of s r] found False show ?thesis
        by (simp add: impl64_add_loop.simps [of i e s] a)
    qed
  qed
qed

lemma plain_read_log:
  "plain_read s = (r, s') \<Longrightarrow> sh_log s' = sh_log s @ [(r, r)]"
  using access_split [of spec_load s] by (auto simp: plain_read_def spec_load_def)

lemma lin_intel_large_swap: "lin (spec_swap n) (intel_large_swap n)"
  unfolding lin_def
proof
  fix s
  show "\<exists>r c c' pre s'. intel_large_swap n s = (r, s') \<and> spec_swap n c = (r, c') \<and> sh_val s' = c' \<and>
      stutters pre \<and> sh_log s' = sh_log s @ pre @ [(c, c')]"
  proof (induction n s rule: intel_large_swap.induct)
    case (1 n s)
    obtain e s1 where a: "plain_read s = (e, s1)" by fastforce
    obtain r s2 where b: "intel_compareAndSwap e n s1 = (r, s2)" by fastforce
    note found = cas_found [OF b [unfolded intel_compareAndSwap_def]] and log = plain_read_log [OF a]
    show ?case
    proof (cases "r = e")
      case True
      then have "intel_large_swap n s = (r, s2)" by (simp add: intel_large_swap.simps [of n s] a b)
      then show ?thesis using found True
        by (simp only:) (rule lin_stutter [OF log], intro lin_last, simp_all add: spec_swap_def)
    next
      case False
      have eq: "intel_large_swap n s = intel_large_swap n s2"
        using False by (simp add: intel_large_swap.simps [of n s] a b)
      have log2: "sh_log s2 = sh_log s1 @ [(r, r)]" using found False by simp
      show ?thesis unfolding eq
        by (rule lin_stutter [OF log], rule lin_stutter [OF log2],
            rule "1.IH" [OF a [symmetric] refl b [symmetric] refl False])
    qed
  qed
qed

lemma lin_intel_large_fetchAndAdd: "lin (spec_add i) (intel_large_fetchAndAdd i)"
  unfolding lin_def
proof
  fix s
  show "\<exists>r c c' pre s'. intel_large_fetchAndAdd i s = (r, s') \<and> spec_add i c = (r, c') \<and> sh_val s' = c' \<and>
      stutters pre \<and> sh_log s' = sh_log s @ pre @ [(c, c')]"
  proof (induction i s rule: intel_large_fetchAndAdd.induct)
    case (1 i s)
    obtain e s1 where a: "intel_large_load s = (e, s1)" by fastforce
    obtain r s2 where b: "intel_compareAndSwap e (e + i) s1 = (r, s2)" by fastforce
    note found = cas_found [OF b [unfolded intel_compareAndSwap_def]]
    have log: "sh_log s1 = sh_log s @ [(e, e)]"
      using cas_found [OF a [unfolded intel_large_load_def intel_compareAndSwap_def]] by auto
    show ?case
    proof (cases "r = e")
      case True
      then have "intel_large_fetchAndAdd i s = (r, s2)"
        by (simp add: intel_large_fetchAndAdd.simps [of i s] a b)
      then show ?thesis using found True
        by (simp only:) (rule lin_stutter [OF log], intro lin_last, simp_all add: spec_add_def)
    next
      case False
      have eq: "intel_large_fetchAndAdd i s = intel_large_fetchAndAdd i s2"
        using False by (simp add: intel_large_fetchAndAdd.simps [of i s] a b)
      have log2: "sh_log s2 = sh_log s1 @ [(r, r)]" using found False by simp
      show ?thesis unfolding eq
        by (rule lin_stutter [OF log], rule lin_stutter [OF log2],
            rule "1.IH" [OF a [symmetric] refl b [symmetric] refl False])
    qed
  qed
qed

lemma lin_store_of_swap:
  assumes "lin (spec_swap n) op"
  shows "lin (spec_store n) (\<lambda>s. let (r, s') = op s in ((), s'))"
  using lin_map [OF assms, where h = "\<lambda>_. ()"] by (rule lin_spec_cong) (simp add: spec_swap_def spec_store_def)

lemma lin_after_plain_read: "(\<And>r. lin f (op r)) \<Longrightarrow> lin f (\<lambda>s. let (r, s') = plain_read s in op r s')"
  unfolding plain_read_def by (rule lin_after_read) (simp_all add: spec_load_def)

lemma lin_cas_zero: "lin spec_load (access (spec_cas 0 (0 :: 'a::len word)))"
  using lin_access [of "spec_cas 0 (0 :: 'a word)"]
  by (rule lin_spec_cong) (simp add: spec_cas_def spec_load_def)

lemma lin_exchange: "lin (spec_cas e n) (access (compare_exchange e n))"
  using lin_access [of "compare_exchange e n"]
  by (rule lin_spec_cong) (simp add: compare_exchange_def spec_cas_def)

section \<open>The interface between the class and the toolchains\<close>

locale atomic_intrinsics =
  fixes ai :: "'a::len word intrinsics"
  assumes lin_cas: "lin (spec_cas e n) (ai_compareAndSwap ai e n)"
    and lin_swap: "lin (spec_swap n) (ai_swap ai n)"
    and lin_load: "lin spec_load (ai_load ai)"
    and lin_store: "lin (spec_store n) (ai_store ai n)"
    and lin_add: "lin (spec_add i) (ai_fetchAndAdd ai i)"
begin

lemma fetchAndSubtract_lin: "lin (\<lambda>c. (c, c - d)) (aw_fetchAndSubtract ai d)"
  unfolding aw_fetchAndSubtract_def aw_fetchAndAdd_def
  using lin_add [of "0 - d"] by (rule lin_spec_cong) (simp add: spec_add_def)

lemma addAndFetch_lin: "lin (\<lambda>c. (c + i, c + i)) (aw_addAndFetch ai i)"
  using lin_map [OF lin_add [of i], where h = "\<lambda>r. r + i"] unfolding aw_addAndFetch_def [abs_def] aw_fetchAndAdd_def
  by (rule lin_spec_cong) (simp add: spec_add_def)

lemma subtractAndFetch_lin: "lin (\<lambda>c. (c - d, c - d)) (aw_subtractAndFetch ai d)"
  using lin_map [OF fetchAndSubtract_lin [of d], where h = "\<lambda>r. r - d"] unfolding aw_subtractAndFetch_def [abs_def]
  by (rule lin_spec_cong) simp

lemmas word_ops_lin = lin_cas [folded aw_compareAndSwap_def] lin_swap [folded aw_swap_def]
  lin_load [folded aw_load_def] lin_store [folded aw_store_def] lin_add [folded aw_fetchAndAdd_def]
  fetchAndSubtract_lin addAndFetch_lin subtractAndFetch_lin

end

definition toolchains :: "'a::len word intrinsics list" where
  "toolchains = [gcc_sync, gcc_sync_large, gcc_atomic, intel, intel_large, win32,
     win32_large False False, win32_large False True, win32_large True False, win32_large True True]"

lemmas intrinsics_defs = gcc_sync_def gcc_sync_large_def gcc_atomic_def intel_def intel_large_def
  win32_def win32_large_def

lemmas single_access = gcc_sync_compareAndSwap_def gcc_sync_load_def gcc_sync_store_def
  gcc_sync_fetchAndAdd_def gcc_atomic_swap_def gcc_atomic_load_def gcc_atomic_store_def
  gcc_atomic_fetchAndAdd_def intel_compareAndSwap_def intel_swap_def intel_load_def
  intel_store_def intel_fetchAndAdd_def win32_compareAndSwap_def win32_swap_def win32_load_def
  win32_store_def win32_fetchAndAdd_def impl64_compareAndSwap_def plain_read_def
  interlocked64_compareAndSwap_def interlocked64_swap_def interlocked64_fetchAndAdd_def native_load_def native_store_def

lemma lin_gcc_sync_swap: "lin (spec_swap n) (gcc_sync_swap n)"
  unfolding gcc_sync_swap_def [abs_def] by (rule lin_after_plain_read) (rule lin_swap_loop)

lemma lin_impl64_swap: "lin (spec_swap n) (impl64_swap n)"
  unfolding impl64_swap_def [abs_def] impl64_swap_loop_eq
  by (rule lin_after_plain_read) (rule lin_swap_loop)

lemma lin_impl64_add: "lin (spec_add i) (impl64_fetchAndAdd i)"
  unfolding impl64_fetchAndAdd_def [abs_def] by (rule lin_after_plain_read) (rule lin_impl64_add_loop)

interpretation ai_sync: atomic_intrinsics gcc_sync
  by unfold_locales (simp_all add: intrinsics_defs single_access lin_access lin_gcc_sync_swap)

interpretation ai_sync_large: atomic_intrinsics gcc_sync_large
  by unfold_locales (simp_all add: intrinsics_defs single_access lin_access lin_gcc_sync_swap
      gcc_sync_large_load_def lin_cas_zero gcc_sync_large_store_def [abs_def] lin_store_of_swap [unfolded Let_def])

interpretation ai_atomic: atomic_intrinsics gcc_atomic
  by unfold_locales (simp_all add: intrinsics_defs single_access lin_access
      gcc_atomic_compareAndSwap_def [abs_def] lin_exchange)

interpretation ai_intel: atomic_intrinsics intel
  by unfold_locales (simp_all add: intrinsics_defs single_access lin_access)

interpretation ai_intel_large: atomic_intrinsics intel_large
  by unfold_locales (simp_all add: intrinsics_defs single_access lin_access lin_intel_large_swap
      intel_large_load_def lin_cas_zero intel_large_store_def [abs_def] lin_store_of_swap [unfolded Let_def]
      lin_intel_large_fetchAndAdd)

interpretation ai_win32: atomic_intrinsics win32
  by unfold_locales (simp_all add: intrinsics_defs single_access lin_access)

interpretation ai_win32_large: atomic_intrinsics "win32_large kHaveInterlocked64 pointers64"
  by unfold_locales (simp_all add: Let_def intrinsics_defs single_access lin_access lin_impl64_swap
      large_load_def lin_cas_zero large_store_def [abs_def] lin_store_of_swap [unfolded Let_def] lin_impl64_add)

lemmas all_word_ops_lin = ai_sync.word_ops_lin ai_sync_large.word_ops_lin ai_atomic.word_ops_lin
  ai_intel.word_ops_lin ai_intel_large.word_ops_lin ai_win32.word_ops_lin ai_win32_large.word_ops_lin

text \<open>Alone, a counter that nobody else touches is a plain number.\<close>

lemma cxx11_count:
  "cxx11_fetchAndAdd k (AtomicWord_new v []) =
     (v, \<lparr>sh_val = v + k, sh_env = [], sh_log = [(v, v + k)]\<rparr>)"
  "cxx11_subtractAndFetch k (AtomicWord_new v []) =
     (v - k, \<lparr>sh_val = v - k, sh_env = [], sh_log = [(v, v - k)]\<rparr>)"
  by (simp_all add: cxx11_fetchAndAdd_def cxx11_subtractAndFetch_def cxx11_fetchAndSubtract_def
      access_split spec_add_def interfered_def AtomicWord_new_def)

section \<open>Properties\<close>

text \<open>C22: on every toolchain, and over \<^verbatim>\<open>std::atomic\<close>, \<^verbatim>\<open>subtractAndFetch\<close> takes effect
  indivisibly whatever the interference: some access finds a value, replaces it by that value less
  the decrement, returns what it stored, and no other access of it changes the word. So do
  \<^verbatim>\<open>fetchAndAdd\<close> and \<^verbatim>\<open>addAndFetch\<close>.\<close>

theorem counting_linearizable:
  "list_all (\<lambda>ai. lin (\<lambda>c. (c - k, c - k)) (aw_subtractAndFetch ai k) \<and> lin (\<lambda>c. (c, c + k)) (aw_fetchAndAdd ai k) \<and>
      lin (\<lambda>c. (c + k, c + k)) (aw_addAndFetch ai k)) toolchains \<and>
   lin (\<lambda>c. (c - k, c - k)) (cxx11_subtractAndFetch k) \<and> lin (\<lambda>c. (c, c + k)) (cxx11_fetchAndAdd k) \<and>
   lin (\<lambda>c. (c + k, c + k)) (cxx11_addAndFetch (k :: 'a::len word))"
proof -
  have add: "spec_add k = (\<lambda>c. (c, c + k))" by (simp add: fun_eq_iff spec_add_def)
  have sub: "lin (\<lambda>c. (c - k, c - k)) (cxx11_subtractAndFetch k)"
    using lin_map [OF lin_access [of "\<lambda>c. (c, c - k)"], where h = "\<lambda>r. r - k"]
    unfolding cxx11_subtractAndFetch_def [abs_def] cxx11_fetchAndSubtract_def
    by (rule lin_spec_cong) simp
  have addf: "lin (\<lambda>c. (c + k, c + k)) (cxx11_addAndFetch k)"
    using lin_map [OF lin_access [of "spec_add k"], where h = "\<lambda>r. r + k"]
    unfolding cxx11_addAndFetch_def [abs_def] cxx11_fetchAndAdd_def
    by (rule lin_spec_cong) (simp add: spec_add_def)
  show ?thesis
    by (simp add: toolchains_def all_word_ops_lin sub addf cxx11_fetchAndAdd_def lin_access add [symmetric])
qed

text \<open>Swap and compare-and-swap take effect indivisibly on every toolchain, also where they are
  loops over another primitive, and the loops end once the interference does.\<close>

theorem swap_linearizable:
  "list_all (\<lambda>ai. lin (\<lambda>c. (c, n)) (aw_swap ai n) \<and> lin (\<lambda>c. (c, c)) (aw_load ai) \<and> lin (\<lambda>c. ((), n)) (aw_store ai n) \<and>
      lin (\<lambda>c. (c, if c = e then n else c)) (aw_compareAndSwap ai e n)) toolchains \<and>
   lin (\<lambda>c. (c, n)) (cxx11_swap n) \<and> lin (\<lambda>c. (c, c)) cxx11_load \<and> lin (\<lambda>c. ((), n)) (cxx11_store n) \<and>
   lin (\<lambda>c. (c, if c = e then n else (c :: 'a::len word))) (cxx11_compareAndSwap e n)"
proof -
  have specs: "spec_swap n = (\<lambda>c. (c, n))" "spec_load = (\<lambda>c. (c, c))" "spec_store n = (\<lambda>c. ((), n))"
    "spec_cas e n = (\<lambda>c. (c, if c = e then n else c))"
    by (simp_all add: fun_eq_iff spec_swap_def spec_load_def spec_store_def spec_cas_def)
  show ?thesis
    by (simp add: toolchains_def all_word_ops_lin cxx11_swap_def cxx11_load_def cxx11_store_def lin_access specs [symmetric]
        cxx11_compareAndSwap_def [abs_def] lin_exchange)
qed

end
