(* ===== verification/RefCount.thy ===== *)
theory RefCount
  imports Prelude
begin

text \<open>
  Reference counting, as the interface that intrusive pointers rely on: an operation that takes a
  reference on a block of the heap and one that gives it back and frees the block with the last.
  The invariant says that a block is live exactly while some handle points to it, and that its
  32-bit counter is the number of those handles. \<open>SharedBuffer\<close> and \<open>Status\<close> interpret it.
\<close>

section \<open>Counting handles\<close>

fun counted_at :: "('h \<Rightarrow> 32 word) \<Rightarrow> 'h option \<Rightarrow> nat \<Rightarrow> bool" where
  "counted_at cnt None n \<longleftrightarrow> n = 0"
| "counted_at cnt (Some h) n \<longleftrightarrow> 0 < n \<and> unat (cnt h) = n"

definition rc_counted :: "('h \<Rightarrow> 32 word) \<Rightarrow> (nat \<Rightarrow> 'h option) \<Rightarrow> nat option list \<Rightarrow> bool" where
  "rc_counted cnt heap hs \<longleftrightarrow> (\<forall>p. counted_at cnt (heap p) (count_list hs (Some p)))"

lemma rc_countedI: "(\<And>p. counted_at cnt (heap p) (count_list hs (Some p))) \<Longrightarrow> rc_counted cnt heap hs"
  by (simp add: rc_counted_def)

lemma rc_countedD: "rc_counted cnt heap hs \<Longrightarrow> counted_at cnt (heap p) (count_list hs (Some p))"
  by (simp add: rc_counted_def)

lemma rc_counted_same:
  assumes "rc_counted cnt heap hs" and "\<And>p. count_list hs' (Some p) = count_list hs (Some p)"
  shows "rc_counted cnt heap hs'"
  using assms unfolding rc_counted_def by simp

lemma rc_counted_empty [simp]: "rc_counted cnt (\<lambda>p. None) []"
  by (simp add: rc_counted_def)

definition remove_nth :: "nat \<Rightarrow> 'a list \<Rightarrow> 'a list" where
  "remove_nth i xs = take i xs @ drop (Suc i) xs"

lemma length_remove_nth: "length (remove_nth i xs) \<le> length xs"
  by (simp add: remove_nth_def)

lemma count_remove_nth:
  "i < length xs \<Longrightarrow> count_list xs x = count_list (remove_nth i xs) x + (if xs ! i = x then 1 else 0)"
  by (induction xs arbitrary: i) (auto simp: remove_nth_def nth_Cons split: nat.splits)

lemma count_update:
  "i < length xs \<Longrightarrow> count_list (xs[i := y]) x + (if xs ! i = x then 1 else 0) =
     count_list xs x + (if y = x then 1 else 0)"
proof (induction xs arbitrary: i)
  case (Cons a xs)
  show ?case
  proof (cases i)
    case (Suc j)
    then show ?thesis using Cons.IH [of j] Cons.prems by (simp split: if_splits)
  qed simp
qed simp

lemma count_snoc: "count_list (xs @ [y]) x = count_list xs x + (if y = x then 1 else 0)"
  by (induction xs) auto

text \<open>A move leaves null behind.\<close>

lemma count_moved:
  assumes "i < length xs"
  shows "count_list (xs[i := None] @ [xs ! i]) (Some p) = count_list xs (Some p)"
  using count_update [OF assms, of None "Some p"] by (cases "xs ! i = Some p") (simp_all add: count_snoc)

lemma rc_counted_live:
  assumes "rc_counted cnt heap hs" and "Some p \<in> set hs"
  shows "\<exists>h. heap p = Some h \<and> 0 < count_list hs (Some p) \<and> unat (cnt h) = count_list hs (Some p)"
proof -
  have "count_list hs (Some p) \<noteq> 0" using assms(2) by (simp add: count_list_0_iff)
  then show ?thesis using rc_countedD [OF assms(1), of p] by (cases "heap p") auto
qed

lemma rc_counted_holder:
  assumes "rc_counted cnt heap hs"
  shows "(heap p = None) = (Some p \<notin> set hs)"
    and "heap p = Some h \<Longrightarrow> unat (cnt h) = count_list hs (Some p)"
proof -
  have "count_list hs (Some p) = 0 \<longleftrightarrow> Some p \<notin> set hs" by (rule count_list_0_iff)
  then show "(heap p = None) = (Some p \<notin> set hs)"
    using rc_countedD [OF assms, of p] by (cases "heap p") simp_all
  show "heap p = Some h \<Longrightarrow> unat (cnt h) = count_list hs (Some p)"
    using rc_countedD [OF assms, of p] by simp
qed

lemma rc_counted_update:
  assumes "rc_counted cnt heap hs" and "counted_at cnt v (count_list hs' (Some p))"
    and "\<And>q. q \<noteq> p \<Longrightarrow> count_list hs' (Some q) = count_list hs (Some q)"
  shows "rc_counted cnt (heap(p := v)) hs'"
proof (rule rc_countedI)
  fix q
  show "counted_at cnt ((heap(p := v)) q) (count_list hs' (Some q))"
    using assms(2,3) rc_countedD [OF assms(1), of q] by (cases "q = p") auto
qed

text \<open>A new block with count 1 behind one new handle.\<close>

lemma rc_counted_alloc:
  assumes "rc_counted cnt heap hs" and "heap p = None" and "cnt h = 1"
  shows "rc_counted cnt (heap(p \<mapsto> h)) (hs @ [Some p])"
  using rc_countedD [OF assms(1), of p] assms(2,3)
  by (intro rc_counted_update [OF assms(1)]) (simp_all add: count_snoc)

lemma unat_add_1:
  fixes v :: "32 word"
  assumes "unat v + 1 < 2 ^ 32"
  shows "unat (v + 1) = unat v + 1"
  using assms by (simp add: unat_word_ariths)

lemma unat_minus_1:
  fixes v :: "32 word"
  assumes "0 < unat v"
  shows "unat (v - 1) = unat v - 1"
  using assms by (intro unat_minus_one) (auto simp: unat_gt_0)

section \<open>The interface\<close>

locale ref_counted =
  fixes cnt :: "'h \<Rightarrow> 32 word"
    and add_ref :: "nat \<Rightarrow> (nat \<Rightarrow> 'h option) \<Rightarrow> (nat \<Rightarrow> 'h option) res"
    and release :: "nat \<Rightarrow> (nat \<Rightarrow> 'h option) \<Rightarrow> (nat \<Rightarrow> 'h option) res"
  assumes takes: "heap p = Some h \<Longrightarrow> \<exists>h'. add_ref p heap = Inr (heap(p \<mapsto> h')) \<and> cnt h' = cnt h + 1"
    and frees_last: "heap p = Some h \<Longrightarrow> cnt h - 1 = 0 \<Longrightarrow> release p heap = Inr (heap(p := None))"
    and gives_back: "heap p = Some h \<Longrightarrow> cnt h - 1 \<noteq> 0 \<Longrightarrow>
      \<exists>h'. release p heap = Inr (heap(p \<mapsto> h')) \<and> cnt h' = cnt h - 1"
begin

lemma counted_add_ref:
  assumes "rc_counted cnt heap hs" and "Some p \<in> set hs" and "length hs + 1 < 2 ^ 32"
    and "\<And>q. count_list hs' (Some q) = count_list hs (Some q) + (if q = p then 1 else 0)"
  shows "\<exists>heap'. add_ref p heap = Inr heap' \<and> rc_counted cnt heap' hs'"
proof -
  from rc_counted_live [OF assms(1,2)] obtain h where h: "heap p = Some h"
    and c: "unat (cnt h) = count_list hs (Some p)" by blast
  have "count_list hs (Some p) \<le> length hs" by (rule count_le_length)
  with assms(3) c have u: "unat (cnt h + 1) = count_list hs (Some p) + 1"
    by (subst unat_add_1) auto
  from takes [of heap, OF h] obtain h' where h': "add_ref p heap = Inr (heap(p \<mapsto> h'))" "cnt h' = cnt h + 1"
    by blast
  have "rc_counted cnt (heap(p \<mapsto> h')) hs'"
    using u by (intro rc_counted_update [OF assms(1)]) (simp_all add: assms(4) h'(2))
  then show ?thesis using h' by blast
qed

lemma counted_release:
  assumes "rc_counted cnt heap hs" and "Some p \<in> set hs"
    and "\<And>q. count_list hs (Some q) = count_list hs' (Some q) + (if q = p then 1 else 0)"
  shows "\<exists>heap'. release p heap = Inr heap' \<and> rc_counted cnt heap' hs'"
proof -
  from rc_counted_live [OF assms(1,2)] obtain h where h: "heap p = Some h"
    and c: "unat (cnt h) = count_list hs (Some p)" "0 < count_list hs (Some p)" by blast
  with assms(3) [of p] have u: "unat (cnt h - 1) = count_list hs' (Some p)"
    by (subst unat_minus_1) auto
  have other: "q \<noteq> p \<Longrightarrow> count_list hs' (Some q) = count_list hs (Some q)" for q
    using assms(3) [of q] by simp
  show ?thesis
  proof (cases "cnt h - 1 = 0")
    case True
    with u have "count_list hs' (Some p) = 0" by simp
    then have "rc_counted cnt (heap(p := None)) hs'"
      by (intro rc_counted_update [OF assms(1)]) (simp_all add: other)
    then show ?thesis using frees_last [of heap, OF h True] by blast
  next
    case False
    from gives_back [of heap, OF h False] obtain h' where
      h': "release p heap = Inr (heap(p \<mapsto> h'))" "cnt h' = cnt h - 1" by blast
    have "rc_counted cnt (heap(p \<mapsto> h')) hs'"
      using u False by (intro rc_counted_update [OF assms(1)]) (auto simp: other unat_eq_zero [symmetric] h'(2))
    then show ?thesis using h' by blast
  qed
qed

text \<open>The same for a handle that may be null.\<close>

lemma counted_copy:
  assumes "rc_counted cnt heap hs" and "x \<in> set hs" and "length hs + 1 < 2 ^ 32"
    and "\<And>q. count_list hs' (Some q) = count_list hs (Some q) + (if x = Some q then 1 else 0)"
  shows "\<exists>heap'. (case x of None \<Rightarrow> Inr heap | Some p \<Rightarrow> add_ref p heap) = Inr heap' \<and> rc_counted cnt heap' hs'"
proof (cases x)
  case None
  then show ?thesis using rc_counted_same [OF assms(1), of hs'] assms(4) by simp
next
  case (Some p)
  have "count_list hs' (Some q) = count_list hs (Some q) + (if q = p then 1 else 0)" for q
    using assms(4) [of q] Some by auto
  then show ?thesis using counted_add_ref [OF assms(1), of p hs'] assms(2,3) Some by simp
qed

lemma counted_drop:
  assumes "rc_counted cnt heap hs" and "x \<in> set hs"
    and "\<And>q. count_list hs (Some q) = count_list hs' (Some q) + (if x = Some q then 1 else 0)"
  shows "\<exists>heap'. (case x of None \<Rightarrow> Inr heap | Some p \<Rightarrow> release p heap) = Inr heap' \<and> rc_counted cnt heap' hs'"
proof (cases x)
  case None
  then show ?thesis using rc_counted_same [OF assms(1), of hs'] assms(3) by simp
next
  case (Some p)
  have "count_list hs (Some q) = count_list hs' (Some q) + (if q = p then 1 else 0)" for q
    using assms(3) [of q] Some by auto
  then show ?thesis using counted_release [OF assms(1), of p hs'] assms(2) Some by simp
qed

end

section \<open>Runs\<close>

text \<open>
  A machine whose commands add at most one handle each and keep the invariant while the 32-bit
  counters cannot wrap: every run of fewer than \<open>2 ^ 32\<close> commands keeps it. A command that names
  no live object is refused.
\<close>

locale counted_machine =
  fixes step :: "'c \<Rightarrow> 's \<Rightarrow> 's res"
    and run :: "'c list \<Rightarrow> 's \<Rightarrow> 's res"
    and handles :: "'s \<Rightarrow> nat"
    and inv :: "'s \<Rightarrow> bool"
  assumes run_Nil: "run [] s = Inr s"
    and run_Cons: "run (c # cs) s = bindE (step c s) (run cs)"
    and step_inv: "inv s \<Longrightarrow> handles s + 1 < 2 ^ 32 \<Longrightarrow>
      step c s = Inl StdOutOfRange \<or> (\<exists>s'. step c s = Inr s' \<and> inv s' \<and> handles s' \<le> handles s + 1)"
begin

lemma run_inv:
  "inv s \<Longrightarrow> handles s + length cs < 2 ^ 32 \<Longrightarrow>
   run cs s = Inl StdOutOfRange \<or> (\<exists>s'. run cs s = Inr s' \<and> inv s')"
proof (induction cs arbitrary: s)
  case Nil
  then show ?case by (simp add: run_Nil)
next
  case (Cons c cs)
  from step_inv [OF Cons.prems(1), of c] Cons.prems(2)
  consider "step c s = Inl StdOutOfRange"
    | s' where "step c s = Inr s'" "inv s'" "handles s' \<le> handles s + 1"
    by auto
  then show ?case
  proof cases
    case 2
    then have "handles s' + length cs < 2 ^ 32" using Cons.prems(2) by simp
    from Cons.IH [OF 2(2) this] 2(1) show ?thesis by (simp add: run_Cons)
  qed (simp add: run_Cons)
qed

end

end
