(* ===== verification/Status.thy ===== *)
theory Status
  imports AtomicWord RefCount StringData
begin

text \<open>
  \<^verbatim>\<open>mongo/base/error_codes.h\<close>, \<^verbatim>\<open>mongo/base/status.h\<close>, \<^verbatim>\<open>status-inl.h\<close> and \<^verbatim>\<open>status_with.h\<close>, and the part of
  \<^verbatim>\<open>mongo/util/assert_util.h\<close> that turns a status into an exception. A \<open>Status\<close> is the pointer it
  wraps: null for success, or the address of a reference-counted \<open>ErrorInfo\<close>. The constructor that
  allocates an \<open>ErrorInfo\<close> is only declared; the block it leaves (with one reference) is an argument.
\<close>

section \<open>Error codes\<close>

text \<open>A code is an integer: \<^verbatim>\<open>fromInt\<close> preserves the unrecognized ones. The table is the enumeration.\<close>

type_synonym error_code = int

definition ErrorCodes_Error :: "(string \<times> error_code) list" where
  "ErrorCodes_Error = [
     (''OK'', 0), (''InternalError'', 1), (''BadValue'', 2), (''OBSOLETE_DuplicateKey'', 3),
     (''NoSuchKey'', 4), (''GraphContainsCycle'', 5), (''HostUnreachable'', 6), (''HostNotFound'', 7),
     (''UnknownError'', 8), (''FailedToParse'', 9), (''CannotMutateObject'', 10), (''UserNotFound'', 11),
     (''UnsupportedFormat'', 12), (''Unauthorized'', 13), (''TypeMismatch'', 14), (''Overflow'', 15),
     (''InvalidLength'', 16), (''ProtocolError'', 17), (''AuthenticationFailed'', 18),
     (''CannotReuseObject'', 19), (''IllegalOperation'', 20), (''EmptyArrayOperation'', 21),
     (''InvalidBSON'', 22), (''AlreadyInitialized'', 23), (''LockTimeout'', 24),
     (''RemoteValidationError'', 25), (''NamespaceNotFound'', 26), (''IndexNotFound'', 27),
     (''PathNotViable'', 28), (''NonExistentPath'', 29), (''InvalidPath'', 30), (''RoleNotFound'', 31),
     (''RolesNotRelated'', 32), (''PrivilegeNotFound'', 33), (''CannotBackfillArray'', 34),
     (''UserModificationFailed'', 35), (''RemoteChangeDetected'', 36), (''FileRenameFailed'', 37),
     (''FileNotOpen'', 38), (''FileStreamFailed'', 39), (''ConflictingUpdateOperators'', 40),
     (''FileAlreadyOpen'', 41), (''LogWriteFailed'', 42), (''CursorNotFound'', 43),
     (''UserDataInconsistent'', 45), (''LockBusy'', 46), (''NoMatchingDocument'', 47),
     (''NamespaceExists'', 48), (''InvalidRoleModification'', 49), (''ExceededTimeLimit'', 50),
     (''ManualInterventionRequired'', 51), (''DollarPrefixedFieldName'', 52), (''InvalidIdField'', 53),
     (''NotSingleValueField'', 54), (''InvalidDBRef'', 55), (''EmptyFieldName'', 56),
     (''DottedFieldName'', 57), (''RoleModificationFailed'', 58), (''CommandNotFound'', 59),
     (''DatabaseNotFound'', 60), (''ShardKeyNotFound'', 61), (''OplogOperationUnsupported'', 62),
     (''StaleShardVersion'', 63), (''WriteConcernFailed'', 64), (''MultipleErrorsOccurred'', 65),
     (''ImmutableField'', 66), (''CannotCreateIndex'', 67), (''IndexAlreadyExists'', 68),
     (''AuthSchemaIncompatible'', 69), (''ShardNotFound'', 70), (''ReplicaSetNotFound'', 71),
     (''InvalidOptions'', 72), (''InvalidNamespace'', 73), (''NodeNotFound'', 74),
     (''WriteConcernLegacyOK'', 75), (''NoReplicationEnabled'', 76), (''OperationIncomplete'', 77),
     (''CommandResultSchemaViolation'', 78), (''UnknownReplWriteConcern'', 79),
     (''RoleDataInconsistent'', 80), (''NoWhereParseContext'', 81), (''NoProgressMade'', 82),
     (''RemoteResultsUnavailable'', 83), (''DuplicateKeyValue'', 84), (''IndexOptionsConflict'', 85),
     (''IndexKeySpecsConflict'', 86), (''CannotSplit'', 87), (''SplitFailed'', 88),
     (''NetworkTimeout'', 89), (''CallbackCanceled'', 90), (''ShutdownInProgress'', 91),
     (''SecondaryAheadOfPrimary'', 92), (''InvalidReplicaSetConfig'', 93), (''NotYetInitialized'', 94),
     (''NotSecondary'', 95), (''OperationFailed'', 96), (''NoProjectionFound'', 97),
     (''DBPathInUse'', 98), (''WriteConcernNotDefined'', 99), (''CannotSatisfyWriteConcern'', 100),
     (''OutdatedClient'', 101), (''IncompatibleAuditMetadata'', 102),
     (''NewReplicaSetConfigurationIncompatible'', 103), (''NodeNotElectable'', 104),
     (''IncompatibleShardingMetadata'', 105), (''DistributedClockSkewed'', 106), (''LockFailed'', 107),
     (''InconsistentReplicaSetNames'', 108), (''ConfigurationInProgress'', 109),
     (''CannotInitializeNodeWithData'', 110), (''NotExactValueField'', 111), (''WriteConflict'', 112),
     (''InitialSyncFailure'', 113), (''InitialSyncOplogSourceMissing'', 114),
     (''CommandNotSupported'', 115), (''DocTooLargeForCapped'', 116),
     (''ConflictingOperationInProgress'', 117), (''OplogStartMissing'', 120), (''NotMaster'', 10107),
     (''DuplicateKey'', 11000), (''InterruptedAtShutdown'', 11600), (''Interrupted'', 11601),
     (''BackgroundOperationInProgressForDatabase'', 12586),
     (''BackgroundOperationInProgressForNamespace'', 12587), (''ShardKeyTooBig'', 13334),
     (''NotMasterNoSlaveOkCode'', 13435), (''NotMasterOrSecondaryCode'', 13436),
     (''OutOfDiskSpace'', 14031), (''KeyTooLong'', 17280),
     (''MaxError'', 17281)]"

definition ErrorCodes_OK :: error_code where
  "ErrorCodes_OK = 0"

definition CommonErrorCodes :: "(string \<times> int) list" where
  "CommonErrorCodes = [(''OkCode'', 0), (''DatabaseDifferCaseCode'', 13297), (''SendStaleConfigCode'', 13388),
     (''RecvStaleConfigCode'', 9996), (''PrepareConfigsFailedCode'', 13104),
     (''NotMasterOrSecondaryCode'', 13436), (''NotMasterNoSlaveOkCode'', 13435), (''NotMaster'', 10107)]"

section \<open>Status\<close>

record ErrorInfo =
  ei_refs :: "32 word"
  ei_code :: error_code
  ei_reason :: bytes
  ei_location :: int

type_synonym error_heap = "nat \<Rightarrow> ErrorInfo option"
type_synonym status = "nat option"

definition Status_OK :: status where
  "Status_OK = None"

definition error_info :: "error_heap \<Rightarrow> nat \<Rightarrow> ErrorInfo res" where
  "error_info heap p = (case heap p of None \<Rightarrow> Inl BadAccess | Some ei \<Rightarrow> Inr ei)"

definition Status_ref :: "status \<Rightarrow> error_heap \<Rightarrow> error_heap res" where
  "Status_ref error heap =
     (case error of None \<Rightarrow> Inr heap
      | Some p \<Rightarrow> bindE (error_info heap p) (\<lambda>ei.
          let (r, w) = cxx11_fetchAndAdd 1 (AtomicWord_new (ei_refs ei) []) in
          Inr (heap(p \<mapsto> ei\<lparr>ei_refs := sh_val w\<rparr>))))"

definition Status_unref :: "status \<Rightarrow> error_heap \<Rightarrow> error_heap res" where
  "Status_unref error heap =
     (case error of None \<Rightarrow> Inr heap
      | Some p \<Rightarrow> bindE (error_info heap p) (\<lambda>ei.
          let (r, w) = cxx11_subtractAndFetch 1 (AtomicWord_new (ei_refs ei) []) in
          if r = 0 then Inr (heap(p := None))
          else Inr (heap(p \<mapsto> ei\<lparr>ei_refs := sh_val w\<rparr>))))"

definition Status_copy :: "status \<Rightarrow> error_heap \<Rightarrow> (status \<times> error_heap) res" where
  "Status_copy other heap = bindE (Status_ref other heap) (\<lambda>heap. Inr (other, heap))"

definition Status_assign :: "status \<Rightarrow> status \<Rightarrow> error_heap \<Rightarrow> (status \<times> error_heap) res" where
  "Status_assign this other heap =
     bindE (Status_ref other heap) (\<lambda>heap.
     bindE (Status_unref this heap) (\<lambda>heap. Inr (other, heap)))"

text \<open>Moving returns the new status and what is left of the other.\<close>

definition Status_move :: "status \<Rightarrow> status \<times> status" where
  "Status_move other = (other, None)"

definition Status_move_assign :: "status \<Rightarrow> status \<Rightarrow> error_heap \<Rightarrow> (status \<times> status \<times> error_heap) res" where
  "Status_move_assign this other heap =
     bindE (Status_unref this heap) (\<lambda>heap. Inr (other, None, heap))"

definition Status_destroy :: "status \<Rightarrow> error_heap \<Rightarrow> error_heap res" where
  "Status_destroy this heap = Status_unref this heap"

definition Status_code :: "error_heap \<Rightarrow> status \<Rightarrow> error_code res" where
  "Status_code heap s =
     (case s of None \<Rightarrow> Inr ErrorCodes_OK | Some p \<Rightarrow> bindE (error_info heap p) (\<lambda>ei. Inr (ei_code ei)))"

definition Status_isOK :: "error_heap \<Rightarrow> status \<Rightarrow> bool res" where
  "Status_isOK heap s = bindE (Status_code heap s) (\<lambda>c. Inr (c = ErrorCodes_OK))"

definition Status_codeString :: "(error_code \<Rightarrow> bytes) \<Rightarrow> error_heap \<Rightarrow> status \<Rightarrow> bytes res" where
  "Status_codeString errorString heap s = bindE (Status_code heap s) (\<lambda>c. Inr (errorString c))"

definition Status_reason :: "error_heap \<Rightarrow> status \<Rightarrow> bytes res" where
  "Status_reason heap s =
     (case s of None \<Rightarrow> Inr [] | Some p \<Rightarrow> bindE (error_info heap p) (\<lambda>ei. Inr (ei_reason ei)))"

definition Status_location :: "error_heap \<Rightarrow> status \<Rightarrow> int res" where
  "Status_location heap s =
     (case s of None \<Rightarrow> Inr 0 | Some p \<Rightarrow> bindE (error_info heap p) (\<lambda>ei. Inr (ei_location ei)))"

definition Status_refCount :: "error_heap \<Rightarrow> status \<Rightarrow> 32 word res" where
  "Status_refCount heap s =
     (case s of None \<Rightarrow> Inr 0
      | Some p \<Rightarrow> bindE (error_info heap p) (\<lambda>ei.
          let (r, w) = cxx11_load (AtomicWord_new (ei_refs ei) []) in Inr r))"

text \<open>\<^verbatim>\<open>code == status\<close> and \<^verbatim>\<open>code != status\<close>, over the members that are only declared.\<close>

definition code_eq_status :: "(status \<Rightarrow> error_code \<Rightarrow> bool) \<Rightarrow> error_code \<Rightarrow> status \<Rightarrow> bool" where
  "code_eq_status status_eq lhs rhs = status_eq rhs lhs"

definition code_neq_status :: "(status \<Rightarrow> error_code \<Rightarrow> bool) \<Rightarrow> error_code \<Rightarrow> status \<Rightarrow> bool" where
  "code_neq_status status_neq lhs rhs = status_neq rhs lhs"

section \<open>StatusWith\<close>

record 'a StatusWith =
  sw_status :: status
  sw_t :: 'a

text \<open>The error cases leave the value default-constructed.\<close>

definition StatusWith_error :: "(error_code \<Rightarrow> bytes \<Rightarrow> int \<Rightarrow> status) \<Rightarrow> 'a \<Rightarrow> error_code \<Rightarrow> bytes \<Rightarrow> int \<Rightarrow> 'a StatusWith" where
  "StatusWith_error Status_new dflt code reason location =
     \<lparr>sw_status = Status_new code reason location, sw_t = dflt\<rparr>"

definition StatusWith_status :: "'a \<Rightarrow> status \<Rightarrow> error_heap \<Rightarrow> ('a StatusWith \<times> error_heap) res" where
  "StatusWith_status dflt s heap =
     bindE (Status_copy s heap) (\<lambda>(s', heap). Inr (\<lparr>sw_status = s', sw_t = dflt\<rparr>, heap))"

definition StatusWith_value :: "'a \<Rightarrow> 'a StatusWith" where
  "StatusWith_value t = \<lparr>sw_status = Status_OK, sw_t = t\<rparr>"

definition sw_getValue :: "'a StatusWith \<Rightarrow> 'a" where
  "sw_getValue sw = sw_t sw"

definition sw_getStatus :: "'a StatusWith \<Rightarrow> status" where
  "sw_getStatus sw = sw_status sw"

definition sw_isOK :: "error_heap \<Rightarrow> 'a StatusWith \<Rightarrow> bool res" where
  "sw_isOK heap sw = Status_isOK heap (sw_status sw)"

definition sw_toString :: "(status \<Rightarrow> bytes) \<Rightarrow> 'a StatusWith \<Rightarrow> bytes" where
  "sw_toString Status_toString sw = Status_toString (sw_status sw)"

section \<open>Exceptions\<close>

record ExceptionInfo =
  xi_msg :: bytes
  xi_code :: int

definition ExceptionInfo_new :: ExceptionInfo where
  "ExceptionInfo_new = \<lparr>xi_msg = [], xi_code = -1\<rparr>"

definition ExceptionInfo_of :: "bytes \<Rightarrow> int \<Rightarrow> ExceptionInfo" where
  "ExceptionInfo_of m c = \<lparr>xi_msg = m, xi_code = c\<rparr>"

definition xi_empty :: "ExceptionInfo \<Rightarrow> bool" where
  "xi_empty ei \<longleftrightarrow> xi_msg ei = []"

definition xi_reset :: "ExceptionInfo \<Rightarrow> ExceptionInfo" where
  "xi_reset ei = ei\<lparr>xi_msg := [], xi_code := -1\<rparr>"

text \<open>The class of an exception decides what the virtual members answer.\<close>

datatype exception_class = DBException | AssertionException | UserException | MsgAssertionException

record db_exception =
  ex_class :: exception_class
  ex_ei :: ExceptionInfo

definition DBException_new :: "bytes \<Rightarrow> int \<Rightarrow> db_exception" where
  "DBException_new m c = \<lparr>ex_class = DBException, ex_ei = ExceptionInfo_of m c\<rparr>"

definition AssertionException_new :: "bytes \<Rightarrow> int \<Rightarrow> db_exception" where
  "AssertionException_new m c = (DBException_new m c)\<lparr>ex_class := AssertionException\<rparr>"

definition UserException_new :: "int \<Rightarrow> bytes \<Rightarrow> db_exception" where
  "UserException_new c m = (AssertionException_new m c)\<lparr>ex_class := UserException\<rparr>"

definition MsgAssertionException_new :: "int \<Rightarrow> bytes \<Rightarrow> db_exception" where
  "MsgAssertionException_new c m = (AssertionException_new m c)\<lparr>ex_class := MsgAssertionException\<rparr>"

definition ex_what :: "db_exception \<Rightarrow> bytes" where
  "ex_what ex = xi_msg (ex_ei ex)"

definition ex_getCode :: "db_exception \<Rightarrow> int" where
  "ex_getCode ex = xi_code (ex_ei ex)"

definition ex_addContext :: "(bytes \<Rightarrow> bytes) \<Rightarrow> bytes \<Rightarrow> db_exception \<Rightarrow> db_exception" where
  "ex_addContext causedBy s ex = ex\<lparr>ex_ei := (ex_ei ex)\<lparr>xi_msg := s @ causedBy (xi_msg (ex_ei ex))\<rparr>\<rparr>"

text \<open>\<^verbatim>\<open>what()\<close> is a C string: a status made from it loses what follows a null byte in the message.\<close>

definition ex_toStatus_context ::
    "(error_code \<Rightarrow> bytes \<Rightarrow> 's) \<Rightarrow> (int \<Rightarrow> error_code) \<Rightarrow> (db_exception \<Rightarrow> bytes) \<Rightarrow> bytes \<Rightarrow> db_exception \<Rightarrow> 's" where
  "ex_toStatus_context Status_new convertExceptionCode causedBy context ex =
     Status_new (convertExceptionCode (ex_getCode ex)) (context @ causedBy ex)"

definition ex_toStatus :: "(error_code \<Rightarrow> bytes \<Rightarrow> 's) \<Rightarrow> (int \<Rightarrow> error_code) \<Rightarrow> db_exception \<Rightarrow> 's" where
  "ex_toStatus Status_new convertExceptionCode ex =
     Status_new (convertExceptionCode (ex_getCode ex)) (takeWhile (\<lambda>c. c \<noteq> 0) (ex_what ex))"

fun ex_severe :: "exception_class \<Rightarrow> bool option" where
  "ex_severe DBException = None"
| "ex_severe AssertionException = Some True"
| "ex_severe UserException = Some False"
| "ex_severe MsgAssertionException = Some False"

fun ex_isUserAssertion :: "exception_class \<Rightarrow> bool option" where
  "ex_isUserAssertion DBException = None"
| "ex_isUserAssertion AssertionException = Some False"
| "ex_isUserAssertion UserException = Some True"
| "ex_isUserAssertion MsgAssertionException = Some False"

definition ex_getInfo :: "db_exception \<Rightarrow> ExceptionInfo" where
  "ex_getInfo ex = ex_ei ex"

text \<open>The text of an \<^verbatim>\<open>ErrorMsg\<close> is what is before the null byte in its 256 bytes.\<close>

definition ErrorMsg_string :: "bytes \<Rightarrow> bytes res" where
  "ErrorMsg_string buf = StringData_cstr (Some buf)"

text \<open>\<^verbatim>\<open>wassert\<close> warns and goes on; the log is that of \<^verbatim>\<open>wasserted\<close>.\<close>

definition MONGO_wassert :: "('log \<Rightarrow> 'log) \<Rightarrow> bool \<Rightarrow> 'log \<Rightarrow> 'log" where
  "MONGO_wassert wasserted expression log = (if \<not> expression then wasserted log else log)"

section \<open>Other exceptions become assertions\<close>

text \<open>What an expression may throw: an exception with a \<^verbatim>\<open>what()\<close>, or anything else.\<close>

datatype thrown = StdException bytes | OtherThrown

definition MONGO_ASSERT_ON_EXCEPTION :: "thrown + 'a \<Rightarrow> 'a res" where
  "MONGO_ASSERT_ON_EXCEPTION expression =
     (case expression of
        Inr x \<Rightarrow> Inr x
      | Inl (StdException what) \<Rightarrow> Inl (MsgAssertion 13294)
      | Inl OtherThrown \<Rightarrow> bindE (massert 10437 False) (\<lambda>u. Inl (MsgAssertion 10437)))"

definition MONGO_ASSERT_ON_EXCEPTION_WITH_MSG :: "thrown + 'a \<Rightarrow> 'a res" where
  "MONGO_ASSERT_ON_EXCEPTION_WITH_MSG expression =
     (case expression of
        Inr x \<Rightarrow> Inr x
      | Inl (StdException what) \<Rightarrow> Inl (MsgAssertion 14043)
      | Inl OtherThrown \<Rightarrow> Inl (MsgAssertion 14044))"

section \<open>Assertions on a status\<close>

text \<open>\<^verbatim>\<open>fassert\<close> ends the process; \<open>FAbort msgid\<close> is that outcome.\<close>

datatype fatal = FAbort int | FContinue

definition fassert :: "int \<Rightarrow> bool \<Rightarrow> fatal" where
  "fassert msgid testOK = (if \<not> testOK then FAbort msgid else FContinue)"

definition fassert_status :: "error_heap \<Rightarrow> int \<Rightarrow> status \<Rightarrow> fatal res" where
  "fassert_status heap msgid s = bindE (Status_isOK heap s) (\<lambda>ok. Inr (if \<not> ok then FAbort msgid else FContinue))"

definition fassertNoTrace :: "error_heap \<Rightarrow> int \<Rightarrow> status \<Rightarrow> fatal res" where
  "fassertNoTrace heap msgid s = bindE (Status_isOK heap s) (\<lambda>ok. Inr (if \<not> ok then FAbort msgid else FContinue))"

definition uassertStatusOK :: "error_heap \<Rightarrow> status \<Rightarrow> unit res" where
  "uassertStatusOK heap s =
     bindE (Status_isOK heap s) (\<lambda>ok.
       if \<not> ok then
         bindE (Status_location heap s) (\<lambda>l.
         bindE (Status_code heap s) (\<lambda>c. Inl (UserAssertion (if l \<noteq> 0 then l else c))))
       else Inr ())"

definition massertStatusOK :: "error_heap \<Rightarrow> status \<Rightarrow> unit res" where
  "massertStatusOK heap s =
     bindE (Status_isOK heap s) (\<lambda>ok.
       if \<not> ok then
         bindE (Status_location heap s) (\<lambda>l.
         bindE (Status_code heap s) (\<lambda>c. Inl (MsgAssertion (if l \<noteq> 0 then l else c))))
       else Inr ())"

definition massertNoTraceStatusOK :: "error_heap \<Rightarrow> status \<Rightarrow> unit res" where
  "massertNoTraceStatusOK heap s =
     bindE (Status_isOK heap s) (\<lambda>ok.
       if \<not> ok then
         bindE (Status_location heap s) (\<lambda>l.
         bindE (Status_code heap s) (\<lambda>c. Inl (MsgAssertion (if l \<noteq> 0 then l else c))))
       else Inr ())"

definition invariantOK :: "error_heap \<Rightarrow> status \<Rightarrow> unit res" where
  "invariantOK heap s = bindE (Status_isOK heap s) (\<lambda>ok. invariant ok)"

section \<open>Runs\<close>

text \<open>
  The live statuses of a program and what it does with them. \<open>Fail p ei\<close> is the declared constructor:
  the new block \<open>ei\<close> at the free address \<open>p\<close> has one reference.
\<close>

record status_state =
  ss_heap :: error_heap
  ss_live :: "status list"

datatype status_cmd =
    MakeOK
  | Fail nat error_code bytes int
  | CopyOf nat
  | Assign nat nat
  | Move nat
  | MoveAssign nat nat
  | Drop nat
  | Inspect nat

fun status_step :: "status_cmd \<Rightarrow> status_state \<Rightarrow> status_state res" where
  "status_step MakeOK s = Inr (s\<lparr>ss_live := ss_live s @ [Status_OK]\<rparr>)"
| "status_step (Fail p code reason loc) s =
     (if ss_heap s p \<noteq> None then Inl StdOutOfRange
      else Inr \<lparr>ss_heap = (ss_heap s)(p \<mapsto> \<lparr>ei_refs = 1, ei_code = code, ei_reason = reason, ei_location = loc\<rparr>),
                ss_live = ss_live s @ [Some p]\<rparr>)"
| "status_step (CopyOf i) s =
     (if i < length (ss_live s)
      then bindE (Status_copy (ss_live s ! i) (ss_heap s)) (\<lambda>(c, heap).
             Inr \<lparr>ss_heap = heap, ss_live = ss_live s @ [c]\<rparr>)
      else Inl StdOutOfRange)"
| "status_step (Assign i j) s =
     (if i < length (ss_live s) \<and> j < length (ss_live s)
      then bindE (Status_assign (ss_live s ! i) (ss_live s ! j) (ss_heap s)) (\<lambda>(c, heap).
             Inr \<lparr>ss_heap = heap, ss_live = (ss_live s)[i := c]\<rparr>)
      else Inl StdOutOfRange)"
| "status_step (Move i) s =
     (if i < length (ss_live s)
      then let (c, left) = Status_move (ss_live s ! i) in Inr (s\<lparr>ss_live := (ss_live s)[i := left] @ [c]\<rparr>)
      else Inl StdOutOfRange)"
| "status_step (MoveAssign i j) s =
     (if i < length (ss_live s) \<and> j < length (ss_live s)
      then bindE (Status_move_assign (ss_live s ! i) (ss_live s ! j) (ss_heap s)) (\<lambda>(c, left, heap).
             Inr \<lparr>ss_heap = heap, ss_live = (ss_live s)[i := c, j := left]\<rparr>)
      else Inl StdOutOfRange)"
| "status_step (Drop i) s =
     (if i < length (ss_live s)
      then bindE (Status_destroy (ss_live s ! i) (ss_heap s)) (\<lambda>heap.
             Inr \<lparr>ss_heap = heap, ss_live = remove_nth i (ss_live s)\<rparr>)
      else Inl StdOutOfRange)"
| "status_step (Inspect i) s =
     (if i < length (ss_live s)
      then bindE (Status_code (ss_heap s) (ss_live s ! i)) (\<lambda>c.
           bindE (Status_reason (ss_heap s) (ss_live s ! i)) (\<lambda>r.
           bindE (Status_location (ss_heap s) (ss_live s ! i)) (\<lambda>l. Inr s)))
      else Inl StdOutOfRange)"

fun status_run :: "status_cmd list \<Rightarrow> status_state \<Rightarrow> status_state res" where
  "status_run [] s = Inr s"
| "status_run (c # cs) s = bindE (status_step c s) (status_run cs)"

definition status_init :: status_state where
  "status_init = \<lparr>ss_heap = (\<lambda>p. None), ss_live = []\<rparr>"

section \<open>The counting invariant\<close>

interpretation sts: ref_counted ei_refs "\<lambda>p. Status_ref (Some p)" "\<lambda>p. Status_unref (Some p)"
proof unfold_locales
  fix heap :: error_heap and p h
  assume h: "heap p = Some h"
  show "\<exists>h'. Status_ref (Some p) heap = Inr (heap(p \<mapsto> h')) \<and> ei_refs h' = ei_refs h + 1"
    by (intro exI [of _ "h\<lparr>ei_refs := ei_refs h + 1\<rparr>"])
      (simp add: Status_ref_def error_info_def cxx11_count h)
  show "ei_refs h - 1 = 0 \<Longrightarrow> Status_unref (Some p) heap = Inr (heap(p := None))"
    by (simp add: Status_unref_def error_info_def cxx11_count h)
  show "ei_refs h - 1 \<noteq> 0 \<Longrightarrow>
      \<exists>h'. Status_unref (Some p) heap = Inr (heap(p \<mapsto> h')) \<and> ei_refs h' = ei_refs h - 1"
    by (intro exI [of _ "h\<lparr>ei_refs := ei_refs h - 1\<rparr>"])
      (simp add: Status_unref_def error_info_def cxx11_count h)
qed

lemma Status_ref_case: "Status_ref x heap = (case x of None \<Rightarrow> Inr heap | Some p \<Rightarrow> Status_ref (Some p) heap)"
  by (cases x) (simp_all add: Status_ref_def)

lemma Status_unref_case: "Status_unref x heap = (case x of None \<Rightarrow> Inr heap | Some p \<Rightarrow> Status_unref (Some p) heap)"
  by (cases x) (simp_all add: Status_unref_def)

definition status_inv :: "status_state \<Rightarrow> bool" where
  "status_inv s \<longleftrightarrow> rc_counted ei_refs (ss_heap s) (ss_live s)"

text \<open>Referencing the source first makes assignment safe even when both are the same status.\<close>

lemma assign_counts:
  assumes "rc_counted ei_refs heap live" and "i < length live" and "j < length live" and "length live + 1 < 2 ^ 32"
  shows "\<exists>heap'. Status_assign (live ! i) (live ! j) heap = Inr (live ! j, heap') \<and>
    rc_counted ei_refs heap' (live[i := live ! j])"
proof -
  have "count_list (live @ [live ! j]) (Some q) =
      count_list live (Some q) + (if live ! j = Some q then 1 else 0)" for q
    by (rule count_snoc)
  from sts.counted_copy [OF assms(1) nth_mem [OF assms(3)] assms(4) this] obtain heap1 where
    h1: "Status_ref (live ! j) heap = Inr heap1" "rc_counted ei_refs heap1 (live @ [live ! j])"
    by (auto simp: Status_ref_case [of "live ! j"])
  have "live ! i \<in> set (live @ [live ! j])" using assms(2) by simp
  moreover have "count_list (live @ [live ! j]) (Some q) =
      count_list (live[i := live ! j]) (Some q) + (if live ! i = Some q then 1 else 0)" for q
    using count_update [OF assms(2), of "live ! j" "Some q"] by (simp add: count_snoc)
  ultimately obtain heap2 where
    "Status_unref (live ! i) heap1 = Inr heap2" "rc_counted ei_refs heap2 (live[i := live ! j])"
    using sts.counted_drop [OF h1(2), of "live ! i" "live[i := live ! j]"]
    by (auto simp: Status_unref_case [of "live ! i"])
  with h1(1) show ?thesis by (simp add: Status_assign_def)
qed

lemma move_assign_counts:
  assumes "rc_counted ei_refs heap live" and "i < length live" and "j < length live"
  shows "\<exists>heap'. Status_move_assign (live ! i) (live ! j) heap = Inr (live ! j, None, heap') \<and>
    rc_counted ei_refs heap' (live[i := live ! j, j := None])"
proof -
  have "count_list live (Some q) =
      count_list (live[i := live ! j, j := None]) (Some q) + (if live ! i = Some q then 1 else 0)" for q
    using count_update [OF assms(2), of "live ! j" "Some q"] assms(2,3)
      count_update [of j "live[i := live ! j]" None "Some q"]
    by (auto simp: nth_list_update split: if_splits)
  from sts.counted_drop [OF assms(1) nth_mem [OF assms(2)] this] show ?thesis
    by (auto simp: Status_move_assign_def Status_unref_case [of "live ! i"])
qed

lemma status_readable:
  assumes "rc_counted ei_refs heap live" and "x \<in> set live"
  shows "\<exists>c. Status_code heap x = Inr c" and "\<exists>r. Status_reason heap x = Inr r"
    and "\<exists>l. Status_location heap x = Inr l"
  using rc_counted_live [OF assms(1)] assms(2)
  by (cases x; force simp: Status_code_def Status_reason_def Status_location_def error_info_def)+

text \<open>One step keeps the count and never touches a freed block.\<close>

lemma status_step_inv:
  assumes "status_inv s" and "length (ss_live s) + 1 < 2 ^ 32"
  shows "status_step c s = Inl StdOutOfRange \<or>
    (\<exists>s'. status_step c s = Inr s' \<and> status_inv s' \<and> length (ss_live s') \<le> length (ss_live s) + 1)"
proof -
  note inv = assms(1) [unfolded status_inv_def]
  show ?thesis
  proof (cases c)
    case MakeOK
    have "rc_counted ei_refs (ss_heap s) (ss_live s @ [None])"
      by (rule rc_counted_same [OF inv]) (simp add: count_snoc)
    then show ?thesis by (simp add: MakeOK status_inv_def Status_OK_def)
  next
    case (Fail p code reason loc)
    show ?thesis using rc_counted_alloc [OF inv, of p] by (auto simp: Fail status_inv_def)
  next
    case (CopyOf i)
    have "count_list (ss_live s @ [ss_live s ! i]) (Some q) =
        count_list (ss_live s) (Some q) + (if ss_live s ! i = Some q then 1 else 0)" for q
      by (rule count_snoc)
    from sts.counted_copy [OF inv nth_mem assms(2) this] show ?thesis
      by (fastforce simp: CopyOf Status_copy_def Status_ref_case [of "ss_live s ! i"] status_inv_def)
  next
    case (Assign i j)
    show ?thesis using assign_counts [OF inv _ _ assms(2), of i j] by (auto simp: Assign status_inv_def)
  next
    case (Move i)
    have "rc_counted ei_refs (ss_heap s) ((ss_live s)[i := None] @ [ss_live s ! i])" if "i < length (ss_live s)"
      by (rule rc_counted_same [OF inv count_moved [OF that]])
    then show ?thesis by (simp add: Move Status_move_def status_inv_def)
  next
    case (MoveAssign i j)
    show ?thesis using move_assign_counts [OF inv, of i j] by (auto simp: MoveAssign status_inv_def)
  next
    case (Drop i)
    show ?thesis
    proof (cases "i < length (ss_live s)")
      case True
      from sts.counted_drop [OF inv nth_mem [OF True] count_remove_nth [OF True]]
      show ?thesis using length_remove_nth [of i "ss_live s"]
        by (fastforce simp: Drop True Status_destroy_def Status_unref_case [of "ss_live s ! i"] status_inv_def)
    qed (simp add: Drop)
  next
    case (Inspect i)
    show ?thesis
    proof (cases "i < length (ss_live s)")
      case True
      then obtain c r l where "Status_code (ss_heap s) (ss_live s ! i) = Inr c"
          "Status_reason (ss_heap s) (ss_live s ! i) = Inr r" "Status_location (ss_heap s) (ss_live s ! i) = Inr l"
        using status_readable [OF inv nth_mem] by blast
      then show ?thesis using assms(1) True by (simp add: Inspect)
    qed (simp add: Inspect)
  qed
qed

interpretation stm: counted_machine status_step status_run "\<lambda>s. length (ss_live s)" status_inv
  by unfold_locales (simp_all only: status_run.simps, rule status_step_inv)

section \<open>Properties\<close>

text \<open>C15: however statuses are copied, assigned (also to themselves), moved and destroyed, no error
  block is used after it was freed, and in every reachable state a block is live exactly while some
  status points to it, its count being the number of those statuses.\<close>

theorem status_counts:
  assumes "length cs < 2 ^ 32"
  shows "status_run cs status_init \<noteq> Inl BadAccess \<and>
    (case status_run cs status_init of Inl e \<Rightarrow> e = StdOutOfRange
     | Inr s \<Rightarrow> (\<forall>p. (ss_heap s p = None) = (Some p \<notin> set (ss_live s)) \<and>
         (\<forall>h. ss_heap s p = Some h \<longrightarrow> unat (ei_refs h) = count_list (ss_live s) (Some p))))"
proof -
  have "status_inv status_init" by (simp add: status_inv_def status_init_def)
  from stm.run_inv [OF this, of cs] assms
  consider "status_run cs status_init = Inl StdOutOfRange"
    | s where "status_run cs status_init = Inr s" "rc_counted ei_refs (ss_heap s) (ss_live s)"
    by (auto simp: status_init_def status_inv_def)
  then show ?thesis
  proof cases
    case (2 s)
    then show ?thesis using rc_counted_holder [OF 2(2)] by simp
  qed simp
qed

theorem status_counts_witness:
  "status_run [Fail 7 9 [65] 0, MakeOK, CopyOf 0, Assign 1 0, MoveAssign 0 0, Drop 1, Inspect 0] status_init \<noteq> Inl BadAccess"
  using status_counts [of "[Fail 7 9 [65] 0, MakeOK, CopyOf 0, Assign 1 0, MoveAssign 0 0, Drop 1, Inspect 0]"] by simp

text \<open>The assertions on a status pass exactly when its code is \<open>OK\<close>, and otherwise raise their kind
  of assertion with the location of the status, or with its code when there is no location.\<close>

theorem statusOK_assertions:
  assumes "heap p = Some ei" and "num = (if ei_location ei \<noteq> 0 then ei_location ei else ei_code ei)"
  shows "uassertStatusOK heap (Some p) = (if ei_code ei = 0 then Inr () else Inl (UserAssertion num)) \<and>
    massertStatusOK heap (Some p) = (if ei_code ei = 0 then Inr () else Inl (MsgAssertion num)) \<and>
    massertNoTraceStatusOK heap (Some p) = massertStatusOK heap (Some p) \<and>
    invariantOK heap (Some p) = (if ei_code ei = 0 then Inr () else Inl InvariantFailed) \<and>
    fassert_status heap n (Some p) = Inr (fassert n (ei_code ei = 0)) \<and>
    uassertStatusOK heap Status_OK = Inr () \<and> invariantOK heap Status_OK = Inr ()"
  by (simp add: assms uassertStatusOK_def massertStatusOK_def massertNoTraceStatusOK_def invariantOK_def
      fassert_status_def fassert_def Status_isOK_def Status_code_def Status_location_def error_info_def
      ErrorCodes_OK_def Status_OK_def)

theorem statusOK_assertions_witness:
  "uassertStatusOK [7 \<mapsto> \<lparr>ei_refs = 1, ei_code = 9, ei_reason = [], ei_location = 0\<rparr>] (Some 7) = Inl (UserAssertion 9)"
  using statusOK_assertions [of "[7 \<mapsto> \<lparr>ei_refs = 1, ei_code = 9, ei_reason = [], ei_location = 0\<rparr>]" 7
      "\<lparr>ei_refs = 1, ei_code = 9, ei_reason = [], ei_location = 0\<rparr>" 9] by simp

text \<open>The table is a bijection: no code and no name is given twice, and \<open>OK\<close> is 0.\<close>

lemma ErrorCodes_distinct:
  "distinct (map snd ErrorCodes_Error)" "distinct (map fst ErrorCodes_Error)"
  "map_of ErrorCodes_Error ''OK'' = Some ErrorCodes_OK"
  by (simp_all add: ErrorCodes_Error_def ErrorCodes_OK_def)

end
