(* ===== verification/Oid.thy ===== *)
theory Oid
  imports StringData
begin

text \<open>
  The small value types of a document: object ids (\<^verbatim>\<open>mongo/bson/oid.h\<close>, its inline part),
  \<^verbatim>\<open>Timestamp_t\<close> (\<^verbatim>\<open>mongo/bson/timestamp.h\<close>), \<^verbatim>\<open>Date_t\<close> and the constructor of
  \<^verbatim>\<open>Backoff\<close> (\<^verbatim>\<open>mongo/util/time_support.h\<close>). Generating an object id, its text form and
  the fields of its layout are only declared in the headers and are not modelled.
\<close>

section \<open>Object ids\<close>

record OID =
  oid_data :: bytes

definition kOIDSize :: nat where "kOIDSize = 12"
definition kTimestampSize :: nat where "kTimestampSize = 4"
definition kInstanceUniqueSize :: nat where "kInstanceUniqueSize = 5"
definition kIncrementSize :: nat where "kIncrementSize = 3"

definition OID_new :: OID where
  "OID_new = \<lparr>oid_data = replicate kOIDSize 0\<rparr>"

text \<open>The constructor from a reference to a 12-byte array.\<close>

definition OID_arr :: "bytes \<Rightarrow> OID res" where
  "OID_arr arr = bindE (slice arr 0 kOIDSize) (\<lambda>d. Inr \<lparr>oid_data = d\<rparr>)"

definition oid_clear :: "OID \<Rightarrow> OID" where
  "oid_clear o1 = o1\<lparr>oid_data := replicate kOIDSize 0\<rparr>"

definition oid_compare :: "OID \<Rightarrow> OID \<Rightarrow> int" where
  "oid_compare o1 other = memcmp (oid_data o1) (oid_data other) kOIDSize"

definition OID_from :: "bytes \<Rightarrow> OID res" where
  "OID_from buf = bindE (slice buf 0 kOIDSize) (\<lambda>d. Inr \<lparr>oid_data = d\<rparr>)"

definition OID_max :: OID where
  "OID_max = \<lparr>oid_data = replicate kOIDSize 0xFF\<rparr>"

definition oid_isSet :: "OID \<Rightarrow> bool" where
  "oid_isSet o1 \<longleftrightarrow> oid_compare o1 OID_new \<noteq> 0"

definition oid_view :: "OID \<Rightarrow> bytes" where
  "oid_view o1 = oid_data o1"

definition oid_eq :: "OID \<Rightarrow> OID \<Rightarrow> bool" where
  "oid_eq lhs rhs \<longleftrightarrow> oid_compare lhs rhs = 0"

definition oid_neq :: "OID \<Rightarrow> OID \<Rightarrow> bool" where
  "oid_neq lhs rhs \<longleftrightarrow> oid_compare lhs rhs \<noteq> 0"

definition oid_less :: "OID \<Rightarrow> OID \<Rightarrow> bool" where
  "oid_less lhs rhs \<longleftrightarrow> oid_compare lhs rhs < 0"

definition oid_less_eq :: "OID \<Rightarrow> OID \<Rightarrow> bool" where
  "oid_less_eq lhs rhs \<longleftrightarrow> oid_compare lhs rhs \<le> 0"

text \<open>
  Construction from a string and of a new id, over \<^verbatim>\<open>init\<close>, which is only declared; a new id starts with
  the bytes that happen to be in memory. Printing goes over \<^verbatim>\<open>toString\<close>, which is only declared.
\<close>

definition OID_str :: "(bytes \<Rightarrow> OID \<Rightarrow> OID res) \<Rightarrow> bytes \<Rightarrow> OID res" where
  "OID_str init s = init s OID_new"

definition OID_gen :: "(OID \<Rightarrow> OID) \<Rightarrow> bytes \<Rightarrow> OID" where
  "OID_gen init uninitialized = init \<lparr>oid_data = take kOIDSize uninitialized\<rparr>"

definition oid_mutable_view :: "OID \<Rightarrow> bytes" where
  "oid_mutable_view o1 = oid_data o1"

definition oid_ostream :: "(OID \<Rightarrow> bytes) \<Rightarrow> bytes \<Rightarrow> OID \<Rightarrow> bytes" where
  "oid_ostream toString s o1 = s @ toString o1"

section \<open>Timestamps and dates\<close>

record Timestamp_t =
  ts_seconds :: "32 word"
  ts_increment :: "32 word"

definition Timestamp_new :: Timestamp_t where
  "Timestamp_new = \<lparr>ts_seconds = 0, ts_increment = 0\<rparr>"

definition Timestamp_of :: "32 word \<Rightarrow> 32 word \<Rightarrow> Timestamp_t" where
  "Timestamp_of seconds increment = \<lparr>ts_seconds = seconds, ts_increment = increment\<rparr>"

definition seconds :: "Timestamp_t \<Rightarrow> 32 word" where
  "seconds t = ts_seconds t"

definition increment :: "Timestamp_t \<Rightarrow> 32 word" where
  "increment t = ts_increment t"

record Date_t =
  millis :: "64 word"

definition Date_new :: Date_t where
  "Date_new = \<lparr>millis = 0\<rparr>"

definition Date_of :: "64 word \<Rightarrow> Date_t" where
  "Date_of m = \<lparr>millis = m\<rparr>"

definition date_as_ulonglong :: "Date_t \<Rightarrow> 64 word" where
  "date_as_ulonglong d = millis d"

definition asInt64 :: "Date_t \<Rightarrow> int" where
  "asInt64 d = sint (millis d)"

text \<open>\<^verbatim>\<open>OID::asDateT\<close> over \<^verbatim>\<open>asTimeT\<close>, which the headers only declare.\<close>

definition asDateT :: "(OID \<Rightarrow> int) \<Rightarrow> OID \<Rightarrow> Date_t" where
  "asDateT asTimeT o1 = Date_of (word_of_int (asTimeT o1 * 1000))"

record Backoff =
  maxSleepMillis :: int
  resetAfterMillis :: int
  lastSleepMillis :: int
  lastErrorTimeMillis :: "64 word"

definition Backoff_new :: "int \<Rightarrow> int \<Rightarrow> Backoff res" where
  "Backoff_new maxSleep resetAfter =
     bindE (chk32 (maxSleep + resetAfter)) (\<lambda>r.
       Inr \<lparr>maxSleepMillis = maxSleep, resetAfterMillis = r, lastSleepMillis = 0,
            lastErrorTimeMillis = 0\<rparr>)"

section \<open>Lemmas\<close>

definition oid_ok :: "OID \<Rightarrow> bool" where
  "oid_ok o1 \<longleftrightarrow> length (oid_data o1) = kOIDSize"

lemma oid_ok_new [simp]: "oid_ok OID_new" "oid_ok OID_max"
  by (simp_all add: oid_ok_def OID_new_def OID_max_def)

lemma memcmp_lex:
  "length as = n \<Longrightarrow> length bs = n \<Longrightarrow> memcmp as bs n = (if as < bs then -1 else if as = bs then 0 else 1)"
  by (induction as bs n rule: memcmp.induct) (auto simp: Cons_less_Cons)

lemma oid_compare_lex:
  assumes "oid_ok a" and "oid_ok b"
  shows "oid_compare a b =
    (if oid_data a < oid_data b then -1 else if oid_data a = oid_data b then 0 else 1)"
  using assms unfolding oid_compare_def oid_ok_def by (rule memcmp_lex)

lemma oid_order:
  assumes "oid_ok a" and "oid_ok b"
  shows "oid_less a b \<longleftrightarrow> oid_data a < oid_data b" "oid_eq a b \<longleftrightarrow> a = b"
    "oid_less_eq a b \<longleftrightarrow> oid_data a \<le> oid_data b"
  unfolding oid_less_def oid_eq_def oid_less_eq_def oid_compare_lex [OF assms] by auto

lemma replicate_max:
  "length bs = n \<Longrightarrow> bs \<le> replicate n (0xFF :: byte)"
proof (induction bs arbitrary: n)
  case (Cons b bs)
  have "b \<le> - 1" by simp
  moreover have "(- 1 :: byte) = 0xFF" by simp
  ultimately have "b \<le> 0xFF" by (simp only:)
  with Cons show ?case by (cases n) (auto simp: Cons_le_Cons)
qed simp

lemma replicate_min: "length bs = n \<Longrightarrow> replicate n (0 :: byte) \<le> bs"
  by (induction bs arbitrary: n) (auto simp: Cons_le_Cons word_gt_0)

lemma OID_from_ok: "kOIDSize \<le> length buf \<Longrightarrow> OID_from buf = Inr \<lparr>oid_data = take kOIDSize buf\<rparr>"
  by (simp add: OID_from_def slice_def)

section \<open>Properties\<close>

text \<open>\<^verbatim>\<open>OID::compare\<close> orders object ids as their bytes, most significant first: it is 0 on
  equal ids only, antisymmetric, transitive through \<open>oid_less\<close>, with the cleared id least and
  \<^verbatim>\<open>OID::max()\<close> greatest; only the cleared id is not set.\<close>

theorem oid_total_order:
  assumes "oid_ok a" and "oid_ok b" and "oid_ok c"
  shows "(oid_eq a b \<longleftrightarrow> a = b) \<and> (oid_compare b a = - oid_compare a b) \<and>
    (oid_less a b \<and> oid_less b c \<longrightarrow> oid_less a c) \<and>
    (oid_less a b \<or> oid_eq a b \<or> oid_less b a) \<and>
    oid_less_eq (oid_clear c) a \<and> oid_less_eq a OID_max \<and> (oid_isSet a \<longleftrightarrow> a \<noteq> OID_new)"
proof -
  have clr: "oid_ok (oid_clear c)" by (simp add: oid_ok_def oid_clear_def)
  have "oid_data a \<le> oid_data OID_max" "oid_data (oid_clear c) \<le> oid_data a"
    using assms by (simp_all add: oid_ok_def OID_max_def oid_clear_def replicate_max replicate_min)
  then have "oid_less_eq (oid_clear c) a" "oid_less_eq a OID_max"
    using assms clr by (simp_all add: oid_order)
  moreover have "oid_less a b \<and> oid_less b c \<longrightarrow> oid_less a c"
    using assms by (auto simp: oid_order)
  moreover have "oid_less a b \<or> oid_eq a b \<or> oid_less b a"
    using assms by (auto simp: oid_order OID.equality)
  moreover have "oid_isSet a \<longleftrightarrow> a \<noteq> OID_new"
    using oid_order(2) [OF assms(1) oid_ok_new(1)] by (simp add: oid_isSet_def oid_eq_def)
  moreover have "oid_compare b a = - oid_compare a b"
    using assms by (auto simp: oid_compare_lex)
  ultimately show ?thesis using oid_order(2) [OF assms(1,2)] by simp
qed

theorem oid_total_order_witness:
  "\<not> oid_eq OID_new OID_max \<and> oid_less_eq (oid_clear OID_max) OID_new \<and> oid_less_eq OID_new OID_max"
proof -
  have "OID_new \<noteq> OID_max" by (simp add: OID_new_def OID_max_def kOIDSize_def)
  then show ?thesis using oid_total_order [of OID_new OID_max OID_max] by simp
qed

end
