(* ===== verification/Logger.thy ===== *)
theory Logger
  imports Status Oid
begin

text \<open>
  \<^verbatim>\<open>mongo/logger\<close>: severities and their order, labelled levels, components, events and the stream-like
  builder of a message. Where messages go (domains and appenders) has no body under \<^verbatim>\<open>src/\<close>, nor has
  \<^verbatim>\<open>makeStream\<close>, which is a parameter; an output stream is the sequence of what was inserted into it.
\<close>

section \<open>Severities\<close>

datatype LogSeverity = LogSeverity (severity: int)

definition Severe :: LogSeverity where "Severe = LogSeverity (- 4)"
definition Error :: LogSeverity where "Error = LogSeverity (- 3)"
definition Warning :: LogSeverity where "Warning = LogSeverity (- 2)"
definition Info :: LogSeverity where "Info = LogSeverity (- 1)"
definition Log :: LogSeverity where "Log = LogSeverity 0"
definition Debug :: "int \<Rightarrow> LogSeverity" where "Debug debugLevel = LogSeverity debugLevel"

definition severity_cast :: "int \<Rightarrow> LogSeverity" where
  "severity_cast ll = LogSeverity ll"

definition toInt :: "LogSeverity \<Rightarrow> int" where
  "toInt s = severity s"

definition moreSevere :: "LogSeverity \<Rightarrow> LogSeverity res" where
  "moreSevere s = bindE (chk32 (severity s - 1)) (\<lambda>n. Inr (LogSeverity n))"

definition lessSevere :: "LogSeverity \<Rightarrow> LogSeverity res" where
  "lessSevere s = bindE (chk32 (severity s + 1)) (\<lambda>n. Inr (LogSeverity n))"

definition sev_eq :: "LogSeverity \<Rightarrow> LogSeverity \<Rightarrow> bool" where
  "sev_eq s other \<longleftrightarrow> severity s = severity other"

definition sev_neq :: "LogSeverity \<Rightarrow> LogSeverity \<Rightarrow> bool" where
  "sev_neq s other \<longleftrightarrow> severity s \<noteq> severity other"

definition sev_lt :: "LogSeverity \<Rightarrow> LogSeverity \<Rightarrow> bool" where
  "sev_lt s other \<longleftrightarrow> severity s > severity other"

definition sev_le :: "LogSeverity \<Rightarrow> LogSeverity \<Rightarrow> bool" where
  "sev_le s other \<longleftrightarrow> severity s \<ge> severity other"

definition sev_gt :: "LogSeverity \<Rightarrow> LogSeverity \<Rightarrow> bool" where
  "sev_gt s other \<longleftrightarrow> severity s < severity other"

definition sev_ge :: "LogSeverity \<Rightarrow> LogSeverity \<Rightarrow> bool" where
  "sev_ge s other \<longleftrightarrow> severity s \<le> severity other"

text \<open>The order of the comparison operators is total: less is less severe.\<close>

instantiation LogSeverity :: linorder
begin

definition less_LogSeverity :: "LogSeverity \<Rightarrow> LogSeverity \<Rightarrow> bool" where
  "less_LogSeverity = sev_lt"

definition less_eq_LogSeverity :: "LogSeverity \<Rightarrow> LogSeverity \<Rightarrow> bool" where
  "less_eq_LogSeverity = sev_le"

instance
  by intro_classes
    (auto simp: less_LogSeverity_def less_eq_LogSeverity_def sev_lt_def sev_le_def LogSeverity.expand)

end

section \<open>Labelled levels\<close>

record LabeledLevel =
  ll_label :: bytes
  ll_level :: int

definition LabeledLevel_of :: "int \<Rightarrow> LabeledLevel" where
  "LabeledLevel_of level = \<lparr>ll_label = [], ll_level = level\<rparr>"

definition LabeledLevel_new :: "bytes \<Rightarrow> int \<Rightarrow> LabeledLevel" where
  "LabeledLevel_new label level = \<lparr>ll_label = label, ll_level = level\<rparr>"

definition ll_plus :: "LabeledLevel \<Rightarrow> int \<Rightarrow> LabeledLevel res" where
  "ll_plus ll i = bindE (chk32 (ll_level ll + i)) (\<lambda>n. Inr (LabeledLevel_new (ll_label ll) n))"

definition ll_minus :: "LabeledLevel \<Rightarrow> int \<Rightarrow> LabeledLevel res" where
  "ll_minus ll i = bindE (chk32 (ll_level ll - i)) (\<lambda>n. Inr (LabeledLevel_new (ll_label ll) n))"

definition getLabel :: "LabeledLevel \<Rightarrow> bytes" where
  "getLabel ll = ll_label ll"

definition getLevel :: "LabeledLevel \<Rightarrow> int" where
  "getLevel ll = ll_level ll"

definition ll_LogSeverity :: "LabeledLevel \<Rightarrow> LogSeverity" where
  "ll_LogSeverity ll = severity_cast (ll_level ll)"

definition ll_lt_int :: "LabeledLevel \<Rightarrow> int \<Rightarrow> bool" where "ll_lt_int ll i \<longleftrightarrow> getLevel ll < i"
definition int_lt_ll :: "int \<Rightarrow> LabeledLevel \<Rightarrow> bool" where "int_lt_ll i ll \<longleftrightarrow> i < getLevel ll"
definition ll_gt_int :: "LabeledLevel \<Rightarrow> int \<Rightarrow> bool" where "ll_gt_int ll i \<longleftrightarrow> getLevel ll > i"
definition int_gt_ll :: "int \<Rightarrow> LabeledLevel \<Rightarrow> bool" where "int_gt_ll i ll \<longleftrightarrow> i > getLevel ll"
definition ll_le_int :: "LabeledLevel \<Rightarrow> int \<Rightarrow> bool" where "ll_le_int ll i \<longleftrightarrow> getLevel ll \<le> i"
definition int_le_ll :: "int \<Rightarrow> LabeledLevel \<Rightarrow> bool" where "int_le_ll i ll \<longleftrightarrow> i \<le> getLevel ll"
definition ll_ge_int :: "LabeledLevel \<Rightarrow> int \<Rightarrow> bool" where "ll_ge_int ll i \<longleftrightarrow> getLevel ll \<ge> i"
definition int_ge_ll :: "int \<Rightarrow> LabeledLevel \<Rightarrow> bool" where "int_ge_ll i ll \<longleftrightarrow> i \<ge> getLevel ll"
definition ll_eq_int :: "LabeledLevel \<Rightarrow> int \<Rightarrow> bool" where "ll_eq_int ll i \<longleftrightarrow> getLevel ll = i"
definition int_eq_ll :: "int \<Rightarrow> LabeledLevel \<Rightarrow> bool" where "int_eq_ll i ll \<longleftrightarrow> i = getLevel ll"

section \<open>Components and events\<close>

datatype LogComponent =
    kDefault | kAccessControl | kCommand | kControl | kGeo | kIndex | kNetwork | kQuery | kReplication
  | kSharding | kStorage | kJournal | kWrite | kNumLogComponents

fun LogComponent_Value :: "LogComponent \<Rightarrow> int" where
  "LogComponent_Value kDefault = 0"
| "LogComponent_Value kAccessControl = 1"
| "LogComponent_Value kCommand = 2"
| "LogComponent_Value kControl = 3"
| "LogComponent_Value kGeo = 4"
| "LogComponent_Value kIndex = 5"
| "LogComponent_Value kNetwork = 6"
| "LogComponent_Value kQuery = 7"
| "LogComponent_Value kReplication = 8"
| "LogComponent_Value kSharding = 9"
| "LogComponent_Value kStorage = 10"
| "LogComponent_Value kJournal = 11"
| "LogComponent_Value kWrite = 12"
| "LogComponent_Value kNumLogComponents = 13"

record MessageEvent =
  ev_date :: Date_t
  ev_severity :: LogSeverity
  ev_component :: LogComponent
  ev_contextName :: string_data
  ev_message :: string_data

definition MessageEvent_default :: "Date_t \<Rightarrow> LogSeverity \<Rightarrow> string_data \<Rightarrow> string_data \<Rightarrow> MessageEvent" where
  "MessageEvent_default dt sev contextName msg =
     \<lparr>ev_date = dt, ev_severity = sev, ev_component = kDefault, ev_contextName = contextName, ev_message = msg\<rparr>"

definition MessageEvent_new ::
    "Date_t \<Rightarrow> LogSeverity \<Rightarrow> LogComponent \<Rightarrow> string_data \<Rightarrow> string_data \<Rightarrow> MessageEvent" where
  "MessageEvent_new dt sev component contextName msg =
     \<lparr>ev_date = dt, ev_severity = sev, ev_component = component, ev_contextName = contextName, ev_message = msg\<rparr>"

definition ev_getDate :: "MessageEvent \<Rightarrow> 64 word" where
  "ev_getDate ev = millis (ev_date ev)"

definition ev_getSeverity :: "MessageEvent \<Rightarrow> LogSeverity" where
  "ev_getSeverity ev = ev_severity ev"

definition ev_getComponent :: "MessageEvent \<Rightarrow> LogComponent" where
  "ev_getComponent ev = ev_component ev"

definition ev_getContextName :: "MessageEvent \<Rightarrow> string_data" where
  "ev_getContextName ev = ev_contextName ev"

definition ev_getMessage :: "MessageEvent \<Rightarrow> string_data" where
  "ev_getMessage ev = ev_message ev"

section \<open>The stream of a message\<close>

text \<open>What can be inserted: one constructor per overload. Addresses print as numbers, manipulators by name.\<close>

datatype stream_item =
    SCharPtr bytes | SStdString bytes | SStringData bytes | SChar byte | SInt int | SLong int
  | SULong nat | SUnsigned nat | SUShort nat | SDouble "64 word" | SPointer nat | SLongLong int
  | SULongLong nat | SBool bool | SManip string

record 'd logstream_builder =
  lb_domain :: 'd
  lb_contextName :: bytes
  lb_severity :: LogSeverity
  lb_component :: LogComponent
  lb_baseMessage :: bytes
  lb_os :: "stream_item list option"

definition severityCast_int :: "int \<Rightarrow> LogSeverity" where
  "severityCast_int ll = severity_cast ll"

definition severityCast_severity :: "LogSeverity \<Rightarrow> LogSeverity" where
  "severityCast_severity ls = ls"

definition severityCast_labeled :: "LabeledLevel \<Rightarrow> LabeledLevel" where
  "severityCast_labeled labeled = labeled"

definition setBaseMessage :: "bytes \<Rightarrow> 'd logstream_builder \<Rightarrow> 'd logstream_builder" where
  "setBaseMessage baseMessage lb = lb\<lparr>lb_baseMessage := baseMessage\<rparr>"

definition lb_stream ::
    "('d logstream_builder \<Rightarrow> 'd logstream_builder) \<Rightarrow> 'd logstream_builder \<Rightarrow>
     (stream_item list \<times> 'd logstream_builder) res" where
  "lb_stream makeStream lb =
     (let lb = makeStream lb in case lb_os lb of None \<Rightarrow> Inl BadAccess | Some os \<Rightarrow> Inr (os, lb))"

definition lb_insert ::
    "('d logstream_builder \<Rightarrow> 'd logstream_builder) \<Rightarrow> stream_item \<Rightarrow> 'd logstream_builder \<Rightarrow>
     'd logstream_builder res" where
  "lb_insert makeStream x lb =
     bindE (lb_stream makeStream lb) (\<lambda>(os, lb). Inr (lb\<lparr>lb_os := Some (os @ [x])\<rparr>))"

definition lb_insert_T ::
    "('d logstream_builder \<Rightarrow> 'd logstream_builder) \<Rightarrow> ('t \<Rightarrow> bytes) \<Rightarrow> 't \<Rightarrow> 'd logstream_builder \<Rightarrow>
     'd logstream_builder res" where
  "lb_insert_T makeStream toString x lb =
     bindE (lb_stream makeStream lb) (\<lambda>(os, lb). Inr (lb\<lparr>lb_os := Some (os @ [SStdString (toString x)])\<rparr>))"

definition lb_insert_manip ::
    "('d logstream_builder \<Rightarrow> 'd logstream_builder) \<Rightarrow> string \<Rightarrow> 'd logstream_builder \<Rightarrow>
     'd logstream_builder res" where
  "lb_insert_manip makeStream manip lb =
     bindE (lb_stream makeStream lb) (\<lambda>(os, lb). Inr (lb\<lparr>lb_os := Some (os @ [SManip manip])\<rparr>))"

section \<open>Domains, and what destructors throw\<close>

record 'd LogDomain =
  ld_appenders :: "'d list"
  ld_abortOnFailure :: bool

definition getAbortOnFailure :: "'d LogDomain \<Rightarrow> bool" where
  "getAbortOnFailure d = ld_abortOnFailure d"

definition setAbortOnFailure :: "bool \<Rightarrow> 'd LogDomain \<Rightarrow> 'd LogDomain" where
  "setAbortOnFailure abortOnFailure d = d\<lparr>ld_abortOnFailure := abortOnFailure\<rparr>"

text \<open>
  The guard never lets an exception out of a destructor: it logs the exception, at the severity \<open>Log\<close>,
  with the strings of the source given as arguments.
\<close>

definition MONGO_DESTRUCTOR_GUARD ::
    "bytes \<Rightarrow> bytes \<Rightarrow> bytes \<Rightarrow> bytes \<Rightarrow> bytes \<Rightarrow> thrown + unit \<Rightarrow> (LogSeverity \<times> stream_item list) option" where
  "MONGO_DESTRUCTOR_GUARD caught in_destructor caught_unknown closing function_name expression =
     (case expression of
        Inr u \<Rightarrow> None
      | Inl (StdException what) \<Rightarrow>
          Some (Log, [SCharPtr caught, SCharPtr what, SCharPtr in_destructor, SCharPtr function_name,
                      SCharPtr closing, SManip ''endl''])
      | Inl OtherThrown \<Rightarrow>
          Some (Log, [SCharPtr caught_unknown, SCharPtr function_name, SCharPtr closing, SManip ''endl'']))"

section \<open>Properties\<close>

text \<open>Severities are totally ordered as documented, from \<open>Severe\<close> down to ever higher debug levels;
  one step more severe is the next greater severity, and the comparisons of a labelled level with a
  number are the reverse of those of the severities they stand for.\<close>

theorem severity_order:
  assumes "in_int32 (toInt s)" and "moreSevere s = Inr t"
  shows "Severe > Error \<and> Error > Warning \<and> Warning > Info \<and> Info > Log \<and> Log > Debug 1 \<and> Debug 0 = Log \<and>
    (Debug i > Debug j) = (i < j) \<and> s < t \<and> \<not> (\<exists>u. s < u \<and> u < t) \<and> lessSevere t = Inr s \<and>
    sev_gt a b = (a > b) \<and> sev_ge a b = (a \<ge> b) \<and> sev_eq a b = (a = b) \<and> sev_neq a b = (a \<noteq> b) \<and>
    ll_lt_int ll i = (ll_LogSeverity ll > severity_cast i) \<and> ll_ge_int ll i = (ll_LogSeverity ll \<le> severity_cast i)"
proof -
  have t: "t = LogSeverity (severity s - 1)" using assms(2) by (auto simp: moreSevere_def bindE_eq_Inr chk32_eq_Inr)
  then have "lessSevere t = Inr s" using assms(1) by (simp add: lessSevere_def toInt_def)
  then show ?thesis
    by (auto simp: t Severe_def Error_def Warning_def Info_def Log_def Debug_def less_LogSeverity_def
        less_eq_LogSeverity_def sev_lt_def sev_le_def sev_gt_def sev_ge_def sev_eq_def sev_neq_def ll_lt_int_def
        ll_ge_int_def getLevel_def ll_LogSeverity_def severity_cast_def LogSeverity.expand)
qed

theorem severity_order_witness:
  "Warning < Error \<and> moreSevere Warning = Inr Error"
proof -
  have m: "moreSevere Warning = Inr Error" by (simp add: moreSevere_def Warning_def Error_def in_int32_iff)
  moreover have "in_int32 (toInt Warning)" by (simp add: toInt_def Warning_def in_int32_iff)
  from severity_order [OF this m] have "Warning < Error" by blast
  ultimately show ?thesis by blast
qed

end
