(* ===== verification/Net.thy ===== *)
theory Net
  imports Message Status Logger
begin

text \<open>
  The inline parts of \<^verbatim>\<open>mongo/util/net/hostandport.h\<close>, \<^verbatim>\<open>mongo/util/net/sock.h\<close> and
  \<^verbatim>\<open>mongo/util/net/message_port.h\<close>: host addresses, socket errors, the counters and flags of a socket,
  and the port that forwards to the socket it shares. What talks to the network is only declared and is
  an argument: \<open>'s\<close> is the world it acts on.
\<close>

text \<open>A string literal of the source.\<close>

definition lit :: "string \<Rightarrow> bytes" where
  "lit s = map of_char s"

section \<open>Addresses\<close>

record HostAndPort =
  hp_host :: bytes
  hp_port :: int

definition hp_neq :: "(HostAndPort \<Rightarrow> HostAndPort \<Rightarrow> bool) \<Rightarrow> HostAndPort \<Rightarrow> HostAndPort \<Rightarrow> bool" where
  "hp_neq hp_eq this r \<longleftrightarrow> \<not> hp_eq this r"

definition get_host :: "HostAndPort \<Rightarrow> bytes" where
  "get_host hp = hp_host hp"

definition hasPort :: "HostAndPort \<Rightarrow> bool" where
  "hasPort hp \<longleftrightarrow> hp_port hp \<ge> 0"

record SockAddr =
  sa_addressSize :: nat
  sa_storage :: bytes
  sa_isValid :: bool

definition isValid :: "SockAddr \<Rightarrow> bool" where
  "isValid sa = sa_isValid sa"

text \<open>The storage seen as another type: the same bytes, read by \<open>cast\<close>.\<close>

definition sa_as :: "(bytes \<Rightarrow> 't) \<Rightarrow> SockAddr \<Rightarrow> 't" where
  "sa_as cast sa = cast (sa_storage sa)"

definition sa_raw :: "SockAddr \<Rightarrow> bytes" where
  "sa_raw sa = sa_storage sa"

section \<open>Socket exceptions\<close>

datatype SocketException_Type =
    CLOSED | RECV_ERROR | SEND_ERROR | RECV_TIMEOUT | SEND_TIMEOUT | FAILED_STATE | CONNECT_ERROR

fun socket_type_code :: "SocketException_Type \<Rightarrow> int" where
  "socket_type_code CLOSED = 0"
| "socket_type_code RECV_ERROR = 1"
| "socket_type_code SEND_ERROR = 2"
| "socket_type_code RECV_TIMEOUT = 3"
| "socket_type_code SEND_TIMEOUT = 4"
| "socket_type_code FAILED_STATE = 5"
| "socket_type_code CONNECT_ERROR = 6"

text \<open>A value of the enumeration type may hold another number: the switch has a default.\<close>

definition getStringType :: "int \<Rightarrow> bytes" where
  "getStringType t =
     (if t = socket_type_code CLOSED then lit ''CLOSED''
      else if t = socket_type_code RECV_ERROR then lit ''RECV_ERROR''
      else if t = socket_type_code SEND_ERROR then lit ''SEND_ERROR''
      else if t = socket_type_code RECV_TIMEOUT then lit ''RECV_TIMEOUT''
      else if t = socket_type_code SEND_TIMEOUT then lit ''SEND_TIMEOUT''
      else if t = socket_type_code FAILED_STATE then lit ''FAILED_STATE''
      else if t = socket_type_code CONNECT_ERROR then lit ''CONNECT_ERROR''
      else lit ''UNKNOWN'')"

record SocketException = db_exception +
  se_type :: int
  se_server :: bytes
  se_extra :: bytes

definition SocketException_new :: "int \<Rightarrow> bytes \<Rightarrow> int \<Rightarrow> bytes \<Rightarrow> SocketException" where
  "SocketException_new t srv code extra =
     db_exception.extend
       (DBException_new (lit ''socket exception ['' @ getStringType t @ lit ''] for '' @ srv) code)
       \<lparr>se_type = t, se_server = srv, se_extra = extra\<rparr>"

definition default_socket_code :: int where
  "default_socket_code = 9001"

definition shouldPrint :: "SocketException \<Rightarrow> bool" where
  "shouldPrint e \<longleftrightarrow> se_type e \<noteq> socket_type_code CLOSED"

definition se_get_server :: "SocketException \<Rightarrow> bytes" where
  "se_get_server e = se_server e"

section \<open>Sockets\<close>

definition INVALID_SOCKET :: int where
  "INVALID_SOCKET = - 1"

definition SOCK_FAMILY_UNKNOWN_ERROR :: int where
  "SOCK_FAMILY_UNKNOWN_ERROR = 13078"

text \<open>\<^verbatim>\<open>closesocket\<close> is the system's \<^verbatim>\<open>close\<close>, whose result it drops.\<close>

definition closesocket :: "(int \<Rightarrow> 's \<Rightarrow> int \<times> 's) \<Rightarrow> int \<Rightarrow> 's \<Rightarrow> 's" where
  "closesocket close s w = snd (close s w)"

record Socket =
  so_fd :: int
  so_fdCreationMicroSec :: "64 word"
  so_local :: SockAddr
  so_remote :: SockAddr
  so_timeout :: "64 word"
  so_bytesIn :: int
  so_bytesOut :: int
  so_lastValidityCheckAtSecs :: int
  so_logLevel :: LogSeverity
  so_awaitingHandshake :: bool

definition getLogLevel :: "Socket \<Rightarrow> LogSeverity" where
  "getLogLevel s = so_logLevel s"

definition setLogLevel :: "LogSeverity \<Rightarrow> Socket \<Rightarrow> Socket" where
  "setLogLevel ll s = s\<lparr>so_logLevel := ll\<rparr>"

definition remoteAddr :: "Socket \<Rightarrow> SockAddr" where
  "remoteAddr s = so_remote s"

definition remoteString :: "(SockAddr \<Rightarrow> bool \<Rightarrow> bytes) \<Rightarrow> Socket \<Rightarrow> bytes" where
  "remoteString toString s = toString (so_remote s) True"

definition remotePort :: "(SockAddr \<Rightarrow> 32 word) \<Rightarrow> Socket \<Rightarrow> 32 word" where
  "remotePort getPort s = getPort (so_remote s)"

definition localAddr :: "Socket \<Rightarrow> SockAddr" where
  "localAddr s = so_local s"

definition clearCounters :: "Socket \<Rightarrow> Socket" where
  "clearCounters s = s\<lparr>so_bytesIn := 0, so_bytesOut := 0\<rparr>"

definition getBytesIn :: "Socket \<Rightarrow> int" where
  "getBytesIn s = so_bytesIn s"

definition getBytesOut :: "Socket \<Rightarrow> int" where
  "getBytesOut s = so_bytesOut s"

definition rawFD :: "Socket \<Rightarrow> int" where
  "rawFD s = so_fd s"

definition setHandshakeReceived :: "Socket \<Rightarrow> Socket" where
  "setHandshakeReceived s = s\<lparr>so_awaitingHandshake := False\<rparr>"

definition isAwaitingHandshake :: "Socket \<Rightarrow> bool" where
  "isAwaitingHandshake s = so_awaitingHandshake s"

definition getSockCreationMicroSec :: "Socket \<Rightarrow> 64 word" where
  "getSockCreationMicroSec s = so_fdCreationMicroSec s"

section \<open>Ports\<close>

text \<open>A port shares its socket: the sockets are in a store, and the port has the address of one.\<close>

type_synonym sockets = "nat \<Rightarrow> Socket option"

record MessagingPort =
  mp_tag :: "32 word"
  mp_connectionId :: int
  mp_x509SubjectName :: bytes
  mp_sock :: "nat option"

definition AbstractMessagingPort_new :: "nat option \<Rightarrow> MessagingPort" where
  "AbstractMessagingPort_new p = \<lparr>mp_tag = 0, mp_connectionId = 0, mp_x509SubjectName = [], mp_sock = p\<rparr>"

definition setX509SubjectName :: "bytes \<Rightarrow> MessagingPort \<Rightarrow> MessagingPort" where
  "setX509SubjectName name mp = mp\<lparr>mp_x509SubjectName := name\<rparr>"

definition getX509SubjectName :: "MessagingPort \<Rightarrow> bytes" where
  "getX509SubjectName mp = mp_x509SubjectName mp"

definition mp_getConnectionId :: "MessagingPort \<Rightarrow> int" where
  "mp_getConnectionId mp = mp_connectionId mp"

text \<open>Through a null \<^verbatim>\<open>shared_ptr\<close> or to a socket that is gone there is nothing to call.\<close>

definition with_socket :: "MessagingPort \<Rightarrow> sockets \<Rightarrow> (Socket \<Rightarrow> ('r \<times> Socket) res) \<Rightarrow> ('r \<times> sockets) res" where
  "with_socket mp socks f =
     (case mp_sock mp of
        None \<Rightarrow> Inl BadAccess
      | Some a \<Rightarrow>
          (case socks a of
             None \<Rightarrow> Inl BadAccess
           | Some s \<Rightarrow> bindE (f s) (\<lambda>(r, s). Inr (r, socks(a \<mapsto> s)))))"

definition mp_remotePort :: "(SockAddr \<Rightarrow> 32 word) \<Rightarrow> MessagingPort \<Rightarrow> sockets \<Rightarrow> (32 word \<times> sockets) res" where
  "mp_remotePort getPort mp socks = with_socket mp socks (\<lambda>s. Inr (remotePort getPort s, s))"

definition mp_send ::
    "(bytes \<Rightarrow> int \<Rightarrow> bytes \<Rightarrow> Socket \<Rightarrow> (unit \<times> Socket) res) \<Rightarrow> bytes \<Rightarrow> int \<Rightarrow> bytes \<Rightarrow>
      MessagingPort \<Rightarrow> sockets \<Rightarrow> (unit \<times> sockets) res" where
  "mp_send send d len ctx mp socks = with_socket mp socks (send d len ctx)"

definition mp_send_vector ::
    "((bytes \<times> int) list \<Rightarrow> bytes \<Rightarrow> Socket \<Rightarrow> (unit \<times> Socket) res) \<Rightarrow> (bytes \<times> int) list \<Rightarrow> bytes \<Rightarrow>
      MessagingPort \<Rightarrow> sockets \<Rightarrow> (unit \<times> sockets) res" where
  "mp_send_vector send d ctx mp socks = with_socket mp socks (send d ctx)"

definition mp_connect ::
    "(SockAddr \<Rightarrow> Socket \<Rightarrow> ((bool \<times> SockAddr) \<times> Socket) res) \<Rightarrow> SockAddr \<Rightarrow>
      MessagingPort \<Rightarrow> sockets \<Rightarrow> ((bool \<times> SockAddr) \<times> sockets) res" where
  "mp_connect connect farEnd mp socks = with_socket mp socks (connect farEnd)"

definition mp_secure ::
    "('ssl \<Rightarrow> bytes \<Rightarrow> Socket \<Rightarrow> (bool \<times> Socket) res) \<Rightarrow> 'ssl \<Rightarrow> bytes \<Rightarrow> MessagingPort \<Rightarrow> sockets \<Rightarrow> (bool \<times> sockets) res" where
  "mp_secure secure ssl remoteHost mp socks = with_socket mp socks (secure ssl remoteHost)"

definition mp_isStillConnected ::
    "(Socket \<Rightarrow> (bool \<times> Socket) res) \<Rightarrow> MessagingPort \<Rightarrow> sockets \<Rightarrow> (bool \<times> sockets) res" where
  "mp_isStillConnected isStillConnected mp socks = with_socket mp socks isStillConnected"

definition mp_getSockCreationMicroSec :: "MessagingPort \<Rightarrow> sockets \<Rightarrow> (64 word \<times> sockets) res" where
  "mp_getSockCreationMicroSec mp socks = with_socket mp socks (\<lambda>s. Inr (getSockCreationMicroSec s, s))"

section \<open>Properties\<close>

lemma lit_eq: "lit s = lit s' \<longleftrightarrow> s = s'"
proof -
  have inj: "of_char c = (of_char c' :: byte) \<longleftrightarrow> c = c'" for c c'
  proof
    assume "of_char c = (of_char c' :: byte)"
    then have "unat (of_char c :: byte) = unat (of_char c' :: byte)" by simp
    moreover have "unat (of_char x :: byte) = of_char x" for x
    proof -
      have "(of_char x :: byte) = of_nat (of_char x)" by (rule of_nat_of_char [symmetric])
      moreover have "(of_char x :: nat) < 2 ^ LENGTH(8)" by simp
      ultimately show ?thesis by (simp add: unat_of_nat)
    qed
    ultimately show "c = c'" by simp
  qed simp
  show ?thesis unfolding lit_def by (rule inj_map_eq_map) (simp add: inj_def inj)
qed

lemma socket_type_code_eq: "socket_type_code t = socket_type_code t' \<longleftrightarrow> t = t'"
  by (cases t; cases t'; simp)

lemma getStringType_eq: "getStringType (socket_type_code t) = getStringType (socket_type_code t') \<longleftrightarrow> t = t'"
  by (cases t; cases t'; simp add: getStringType_def lit_eq)

lemma getStringType_unknown:
  assumes "\<And>t. n \<noteq> socket_type_code t"
  shows "getStringType n = lit ''UNKNOWN''"
  unfolding getStringType_def by (simp only: assms if_False)

text \<open>The base class's view of the exception: its text tells the type, one server, two types, two messages.\<close>

lemma socket_exception_what:
  "ex_what (db_exception.truncate (SocketException_new t srv c x)) =
     lit ''socket exception ['' @ getStringType t @ lit ''] for '' @ srv"
  "ex_getCode (db_exception.truncate (SocketException_new t srv c x)) = c"
  by (simp_all add: SocketException_new_def ex_what_def ex_getCode_def DBException_new_def ExceptionInfo_of_def
      db_exception.defs)

lemma socket_exceptions_distinct:
  "ex_what (db_exception.truncate (SocketException_new (socket_type_code t) srv c x)) =
     ex_what (db_exception.truncate (SocketException_new (socket_type_code t') srv c' x')) \<longleftrightarrow> t = t'"
  by (simp add: socket_exception_what getStringType_eq)

end
