(* ===== verification/BsonTypes.thy ===== *)
theory BsonTypes
  imports Prelude
begin

text \<open>
  \<^verbatim>\<open>mongo/bson/bsontypes.h\<close>: the element types, their codes and their place in the sort
  order, and the subtypes of binary data.
\<close>

text \<open>
  An element's type is a signed byte cast to the enumeration; a byte that is none of the
  enumerators is \<open>Unlisted\<close>.
\<close>

datatype BSONType =
    MinKey | EOO | NumberDouble | String | Object | Array | BinData | Undefined | jstOID | Bool
  | Date | jstNULL | RegEx | DBRef | Code | Symbol | CodeWScope | NumberInt | Timestamp
  | NumberLong | MaxKey | Unlisted int

fun type_code :: "BSONType \<Rightarrow> int" where
  "type_code MinKey = -1"
| "type_code EOO = 0"
| "type_code NumberDouble = 1"
| "type_code String = 2"
| "type_code Object = 3"
| "type_code Array = 4"
| "type_code BinData = 5"
| "type_code Undefined = 6"
| "type_code jstOID = 7"
| "type_code Bool = 8"
| "type_code Date = 9"
| "type_code jstNULL = 10"
| "type_code RegEx = 11"
| "type_code DBRef = 12"
| "type_code Code = 13"
| "type_code Symbol = 14"
| "type_code CodeWScope = 15"
| "type_code NumberInt = 16"
| "type_code Timestamp = 17"
| "type_code NumberLong = 18"
| "type_code MaxKey = 127"
| "type_code (Unlisted c) = c"

definition JSTypeMax :: BSONType where
  "JSTypeMax = NumberLong"

definition enumerators :: "BSONType list" where
  "enumerators = [MinKey, EOO, NumberDouble, String, Object, Array, BinData, Undefined, jstOID,
     Bool, Date, jstNULL, RegEx, DBRef, Code, Symbol, CodeWScope, NumberInt, Timestamp,
     NumberLong, MaxKey]"

definition type_of_code :: "int \<Rightarrow> BSONType" where
  "type_of_code c = (case find (\<lambda>t. type_code t = c) enumerators of Some t \<Rightarrow> t | None \<Rightarrow> Unlisted c)"

text \<open>\<^verbatim>\<open>(char)t\<close>, the byte that names a type.\<close>

definition type_byte :: "BSONType \<Rightarrow> byte" where
  "type_byte t = of_int (type_code t)"

datatype BinDataType =
    BinDataGeneral | Function | ByteArrayDeprecated | bdtUUID | newUUID | MD5Type | bdtCustom
  | OtherSubtype byte

fun subtype_byte :: "BinDataType \<Rightarrow> byte" where
  "subtype_byte BinDataGeneral = 0"
| "subtype_byte Function = 1"
| "subtype_byte ByteArrayDeprecated = 2"
| "subtype_byte bdtUUID = 3"
| "subtype_byte newUUID = 4"
| "subtype_byte MD5Type = 5"
| "subtype_byte bdtCustom = 128"
| "subtype_byte (OtherSubtype b) = b"

definition subtype_of_byte :: "byte \<Rightarrow> BinDataType" where
  "subtype_of_byte b =
     (case find (\<lambda>t. subtype_byte t = b)
        [BinDataGeneral, Function, ByteArrayDeprecated, bdtUUID, newUUID, MD5Type, bdtCustom] of
        Some t \<Rightarrow> t | None \<Rightarrow> OtherSubtype b)"

fun canonicalizeBSONType :: "BSONType \<Rightarrow> int res" where
  "canonicalizeBSONType MinKey = Inr (type_code MinKey)"
| "canonicalizeBSONType MaxKey = Inr (type_code MaxKey)"
| "canonicalizeBSONType EOO = Inr 0"
| "canonicalizeBSONType Undefined = Inr 0"
| "canonicalizeBSONType jstNULL = Inr 5"
| "canonicalizeBSONType NumberDouble = Inr 10"
| "canonicalizeBSONType NumberInt = Inr 10"
| "canonicalizeBSONType NumberLong = Inr 10"
| "canonicalizeBSONType String = Inr 15"
| "canonicalizeBSONType Symbol = Inr 15"
| "canonicalizeBSONType Object = Inr 20"
| "canonicalizeBSONType Array = Inr 25"
| "canonicalizeBSONType BinData = Inr 30"
| "canonicalizeBSONType jstOID = Inr 35"
| "canonicalizeBSONType Bool = Inr 40"
| "canonicalizeBSONType Date = Inr 45"
| "canonicalizeBSONType Timestamp = Inr 47"
| "canonicalizeBSONType RegEx = Inr 50"
| "canonicalizeBSONType DBRef = Inr 55"
| "canonicalizeBSONType Code = Inr 60"
| "canonicalizeBSONType CodeWScope = Inr 65"
| "canonicalizeBSONType (Unlisted c) = bindE (verify False) (\<lambda>_. Inr (-1))"

section \<open>Lemmas\<close>

definition is_enumerator :: "BSONType \<Rightarrow> bool" where
  "is_enumerator t \<longleftrightarrow> (case t of Unlisted c \<Rightarrow> False | _ \<Rightarrow> True)"

lemma type_of_code_code [simp]: "is_enumerator t \<Longrightarrow> type_of_code (type_code t) = t"
  by (cases t) (simp_all add: type_of_code_def enumerators_def is_enumerator_def)

lemma sint_type_byte [simp]: "is_enumerator t \<Longrightarrow> sint (type_byte t) = type_code t"
  by (cases t) (simp_all add: type_byte_def is_enumerator_def)

lemma type_of_type_byte [simp]: "is_enumerator t \<Longrightarrow> type_of_code (sint (type_byte t)) = t"
  by simp

lemma type_byte_inject:
  "is_enumerator s \<Longrightarrow> is_enumerator t \<Longrightarrow> type_byte s = type_byte t \<longleftrightarrow> s = t"
  by (metis type_of_type_byte)

lemma subtype_of_subtype_byte [simp]:
  "(\<forall>b. st \<noteq> OtherSubtype b) \<Longrightarrow> subtype_of_byte (subtype_byte st) = st"
  by (cases st) (simp_all add: subtype_of_byte_def)

lemma subtype_byte_subtype_of_byte [simp]: "subtype_byte (subtype_of_byte b) = b"
  by (auto simp: subtype_of_byte_def)

section \<open>Properties\<close>

text \<open>The sort position of a type is defined exactly for the enumerators (any other code
  fails the verify); \<open>MinKey\<close> is strictly first, \<open>MaxKey\<close> strictly last, and two types that a
  comparison treats as one class (the numbers, strings and symbols, undefined and end of object)
  are the only ones that share a position.\<close>

theorem canonicalize_order:
  "(\<exists>p. canonicalizeBSONType t = Inr p) = is_enumerator t \<and>
   (canonicalizeBSONType s = Inr p \<and> canonicalizeBSONType t = Inr q \<longrightarrow>
     (p < q \<longrightarrow> s \<noteq> MaxKey \<and> t \<noteq> MinKey) \<and> (s = MinKey \<and> t \<noteq> MinKey \<longrightarrow> p < q) \<and>
     (t = MaxKey \<and> s \<noteq> MaxKey \<longrightarrow> p < q) \<and>
     (p = q \<longleftrightarrow> s = t \<or> {s, t} \<subseteq> {NumberDouble, NumberInt, NumberLong} \<or>
        {s, t} \<subseteq> {String, Symbol} \<or> {s, t} \<subseteq> {EOO, Undefined}))"
  by (cases s; cases t) (auto simp: is_enumerator_def)

theorem canonicalize_order_witness:
  "canonicalizeBSONType NumberInt = Inr 10 \<and> canonicalizeBSONType String = Inr 15 \<and>
   ((10::int) = 15 \<longleftrightarrow> NumberInt = String \<or> {NumberInt, String} \<subseteq> {NumberDouble, NumberInt, NumberLong} \<or>
        {NumberInt, String} \<subseteq> {String, Symbol} \<or> {NumberInt, String} \<subseteq> {EOO, Undefined})"
  using canonicalize_order [of String NumberInt 10 15] by simp

end
