(* ===== verification/BsonFormat.thy ===== *)
theory BsonFormat
  imports BsonTypes DataView StringData
begin

text \<open>
  The abstract side of BSON: documents as lists of named values, and the object format that the
  comment at the head of \<^verbatim>\<open>class BSONObj\<close> (\<^verbatim>\<open>mongo/bson/bsonobj.h\<close>) documents. The byte-level
  components are proved against it. The size of an element, whose computation is not part of the
  sources here (\<^verbatim>\<open>BSONElement::size()\<close> is only declared), is a parameter of the components that
  use it; \<open>format_size\<close> reads it off the documented format and is the instance the development
  interprets that interface with.
\<close>

section \<open>Documents\<close>

datatype bson_val =
    VMinKey
  | VDouble "64 word"
  | VString bytes
  | VObject "(bytes \<times> bson_val) list"
  | VArray "(bytes \<times> bson_val) list"
  | VBinData byte bytes
  | VUndefined
  | VOID bytes
  | VBool bool
  | VDate "64 word"
  | VNull
  | VRegEx bytes bytes
  | VDBRef bytes bytes
  | VCode bytes
  | VSymbol bytes
  | VCodeWScope bytes "(bytes \<times> bson_val) list"
  | VInt "32 word"
  | VTimestamp "32 word" "32 word"
  | VLong "64 word"
  | VMaxKey

type_synonym elem = "bytes \<times> bson_val"
type_synonym doc = "elem list"

fun val_type :: "bson_val \<Rightarrow> BSONType" where
  "val_type VMinKey = MinKey"
| "val_type (VDouble d) = NumberDouble"
| "val_type (VString s) = String"
| "val_type (VObject es) = Object"
| "val_type (VArray es) = Array"
| "val_type (VBinData st bs) = BinData"
| "val_type VUndefined = Undefined"
| "val_type (VOID oid) = jstOID"
| "val_type (VBool b) = Bool"
| "val_type (VDate ms) = Date"
| "val_type VNull = jstNULL"
| "val_type (VRegEx pat opts) = RegEx"
| "val_type (VDBRef ns oid) = DBRef"
| "val_type (VCode c) = Code"
| "val_type (VSymbol s) = Symbol"
| "val_type (VCodeWScope c es) = CodeWScope"
| "val_type (VInt i) = NumberInt"
| "val_type (VTimestamp sec inc) = Timestamp"
| "val_type (VLong l) = NumberLong"
| "val_type VMaxKey = MaxKey"

text \<open>A 32-bit length, little endian.\<close>

definition len_word :: "nat \<Rightarrow> 32 word" where
  "len_word n = of_nat n"

definition enc_len :: "nat \<Rightarrow> bytes" where
  "enc_len n = le_bytes (len_word n)"

text \<open>\<open>unsigned32 strsizewithnull\<close>, then the string and its null.\<close>

definition enc_string :: "bytes \<Rightarrow> bytes" where
  "enc_string s = enc_len (length s + 1) @ s @ [0]"

text \<open>\<open>unsigned totalSize\<close>, the elements, the end of object byte; the size includes itself.\<close>

definition frame_doc :: "bytes \<Rightarrow> bytes" where
  "frame_doc body = enc_len (length body + 5) @ body @ [0]"

fun enc_val :: "bson_val \<Rightarrow> bytes"
  and enc_elems :: "doc \<Rightarrow> bytes" where
  "enc_val VMinKey = []"
| "enc_val (VDouble d) = le_bytes d"
| "enc_val (VString s) = enc_string s"
| "enc_val (VObject es) = frame_doc (enc_elems es)"
| "enc_val (VArray es) = frame_doc (enc_elems es)"
| "enc_val (VBinData st bs) = enc_len (length bs) @ [st] @ bs"
| "enc_val VUndefined = []"
| "enc_val (VOID oid) = oid"
| "enc_val (VBool b) = [if b then 1 else 0]"
| "enc_val (VDate ms) = le_bytes ms"
| "enc_val VNull = []"
| "enc_val (VRegEx pat opts) = pat @ [0] @ opts @ [0]"
| "enc_val (VDBRef ns oid) = enc_string ns @ oid"
| "enc_val (VCode c) = enc_string c"
| "enc_val (VSymbol s) = enc_string s"
| "enc_val (VCodeWScope c es) =
     (let scope = frame_doc (enc_elems es) in
      enc_len (4 + 4 + length c + 1 + length scope) @ enc_string c @ scope)"
| "enc_val (VInt i) = le_bytes i"
| "enc_val (VTimestamp sec inc) = le_bytes inc @ le_bytes sec"
| "enc_val (VLong l) = le_bytes l"
| "enc_val VMaxKey = []"
| "enc_elems [] = []"
| "enc_elems ((n, v) # es) = type_byte (val_type v) # n @ [0] @ enc_val v @ enc_elems es"

definition enc_elem :: "elem \<Rightarrow> bytes" where
  "enc_elem e = type_byte (val_type (snd e)) # fst e @ [0] @ enc_val (snd e)"

definition enc_doc :: "doc \<Rightarrow> bytes" where
  "enc_doc es = frame_doc (enc_elems es)"

text \<open>
  What the format asks of a document: names and the parts of a regular expression are C strings,
  an object id has 12 bytes.
\<close>

definition cstring :: "bytes \<Rightarrow> bool" where
  "cstring n \<longleftrightarrow> 0 \<notin> set n"

fun wf_val :: "bson_val \<Rightarrow> bool"
  and wf_doc :: "doc \<Rightarrow> bool" where
  "wf_val (VObject es) = wf_doc es"
| "wf_val (VArray es) = wf_doc es"
| "wf_val (VOID oid) = (length oid = 12)"
| "wf_val (VRegEx pat opts) = (cstring pat \<and> cstring opts)"
| "wf_val (VDBRef ns oid) = (length oid = 12)"
| "wf_val (VCodeWScope c es) = wf_doc es"
| "wf_val v = True"
| "wf_doc [] = True"
| "wf_doc ((n, v) # es) = (cstring n \<and> wf_val v \<and> wf_doc es)"

definition wf_elem :: "elem \<Rightarrow> bool" where
  "wf_elem e \<longleftrightarrow> cstring (fst e) \<and> wf_val (snd e)"

section \<open>The size of an element, read off the format\<close>

definition nat_of_len :: "32 word \<Rightarrow> nat" where
  "nat_of_len w = unat w"

text \<open>The size of the value of type \<open>t\<close> that starts at \<open>mem\<close>.\<close>

definition format_valuesize :: "BSONType \<Rightarrow> bytes \<Rightarrow> nat res" where
  "format_valuesize t mem =
     (case t of
        MinKey \<Rightarrow> Inr 0 | MaxKey \<Rightarrow> Inr 0 | Undefined \<Rightarrow> Inr 0 | jstNULL \<Rightarrow> Inr 0 | EOO \<Rightarrow> Inr 0
      | Bool \<Rightarrow> Inr 1
      | NumberInt \<Rightarrow> Inr 4
      | NumberDouble \<Rightarrow> Inr 8 | Date \<Rightarrow> Inr 8 | Timestamp \<Rightarrow> Inr 8 | NumberLong \<Rightarrow> Inr 8
      | jstOID \<Rightarrow> Inr 12
      | String \<Rightarrow> bindE (load_le mem 0) (\<lambda>n. Inr (4 + nat_of_len n))
      | Code \<Rightarrow> bindE (load_le mem 0) (\<lambda>n. Inr (4 + nat_of_len n))
      | Symbol \<Rightarrow> bindE (load_le mem 0) (\<lambda>n. Inr (4 + nat_of_len n))
      | DBRef \<Rightarrow> bindE (load_le mem 0) (\<lambda>n. Inr (4 + nat_of_len n + 12))
      | Object \<Rightarrow> bindE (load_le mem 0) (\<lambda>n. Inr (nat_of_len n))
      | Array \<Rightarrow> bindE (load_le mem 0) (\<lambda>n. Inr (nat_of_len n))
      | CodeWScope \<Rightarrow> bindE (load_le mem 0) (\<lambda>n. Inr (nat_of_len n))
      | BinData \<Rightarrow> bindE (load_le mem 0) (\<lambda>n. Inr (4 + 1 + nat_of_len n))
      | RegEx \<Rightarrow> bindE (strlen mem) (\<lambda>p. bindE (strlen (drop (p + 1) mem)) (\<lambda>q. Inr (p + 1 + (q + 1))))
      | Unlisted c \<Rightarrow> Inl (MsgAssertion 10320))"

text \<open>The size of the element at \<open>mem\<close>: type byte, name, null, value; 1 for the end of object.\<close>

definition format_size :: "bytes \<Rightarrow> int res" where
  "format_size mem =
     (case mem of [] \<Rightarrow> Inl BadAccess
      | tb # rest \<Rightarrow>
          (let t = type_of_code (sint tb) in
           if t = EOO then Inr 1
           else bindE (strlen rest) (\<lambda>n.
                bindE (format_valuesize t (drop (n + 1) rest)) (\<lambda>v. Inr (int (1 + (n + 1) + v))))))"

section \<open>Facts about the format\<close>

lemma is_enumerator_val_type [simp]: "is_enumerator (val_type v)" "val_type v \<noteq> EOO"
  by (cases v; simp add: is_enumerator_def)+

lemma enc_elems_eq: "enc_elems es = concat (map enc_elem es)"
  by (induction es) (auto simp: enc_elem_def)

lemma enc_elems_append: "enc_elems (es @ fs) = enc_elems es @ enc_elems fs"
  by (simp add: enc_elems_eq)

lemma enc_elems_Cons: "enc_elems (e # es) = enc_elem e @ enc_elems es"
  by (simp add: enc_elems_eq)

lemma wf_doc_iff: "wf_doc es \<longleftrightarrow> (\<forall>e \<in> set es. wf_elem e)"
  by (induction es) (auto simp: wf_elem_def)

lemma length_enc_len [simp]: "length (enc_len n) = 4"
  by (simp add: enc_len_def)

lemma length_frame_doc [simp]: "length (frame_doc body) = length body + 5"
  by (simp add: frame_doc_def)

lemma length_enc_string [simp]: "length (enc_string s) = length s + 5"
  by (simp add: enc_string_def)

lemma unat_len_word [simp]: "n < 2 ^ 31 \<Longrightarrow> unat (len_word n) = n"
  by (simp add: len_word_def unat_of_nat)

lemma sint_len_word [simp]:
  assumes "n < 2 ^ 31"
  shows "sint (len_word n) = int n"
proof -
  have "signed_take_bit 31 (int n) = int n"
    by (intro signed_take_bit_int_eq_self) (use assms in auto)
  then show ?thesis by (simp add: len_word_def signed_of_nat)
qed

lemma load_enc_len [simp]: "load_le (enc_len n @ xs) 0 = Inr (len_word n)"
  by (simp add: enc_len_def)

lemma format_valuesize_enc:
  assumes "wf_val v" and "length (enc_val v) < 2 ^ 31"
  shows "format_valuesize (val_type v) (enc_val v @ rest) = Inr (length (enc_val v))"
  using assms
  by (cases v)
    (simp_all add: format_valuesize_def enc_string_def frame_doc_def nat_of_len_def Let_def
      cstring_def strlen_append_null)

lemma format_size_enc:
  assumes "wf_elem e" and "length (enc_elem e) < 2 ^ 31"
  shows "format_size (enc_elem e @ rest) = Inr (int (length (enc_elem e)))"
proof -
  from assms have v: "wf_val (snd e)" "length (enc_val (snd e)) < 2 ^ 31" "0 \<notin> set (fst e)"
    by (auto simp: enc_elem_def wf_elem_def cstring_def)
  have "format_valuesize (val_type (snd e)) (enc_val (snd e) @ rest) = Inr (length (enc_val (snd e)))"
    by (rule format_valuesize_enc [OF v(1,2)])
  with v(3) show ?thesis
    by (simp add: format_size_def enc_elem_def strlen_append_null)
qed

lemma format_size_eoo: "format_size (0 # rest) = Inr 1"
  by (simp add: format_size_def type_of_code_def enumerators_def)

section \<open>The format is unambiguous\<close>

lemma null_terminated_inject:
  "0 \<notin> set m \<Longrightarrow> 0 \<notin> set n \<Longrightarrow> m @ (0 :: byte) # x = n @ 0 # y \<Longrightarrow> m = n \<and> x = y"
proof (induction m arbitrary: n)
  case Nil
  then show ?case by (cases n) auto
next
  case (Cons a m)
  then show ?case by (cases n) auto
qed

lemma enc_len_inject:
  assumes "enc_len a @ x = enc_len b @ y" and "a < 2 ^ 31" and "b < 2 ^ 31"
  shows "a = b \<and> x = y"
proof -
  have "enc_len a = enc_len b" "x = y" using assms(1) by simp_all
  then have "len_word a = len_word b" by (simp add: enc_len_def le_bytes_inject)
  then have "unat (len_word a) = unat (len_word b)" by simp
  then show ?thesis using assms \<open>x = y\<close> by simp
qed

lemma enc_string_inject:
  assumes "enc_string s @ x = enc_string t @ y" and "length s + 1 < 2 ^ 31" and "length t + 1 < 2 ^ 31"
  shows "s = t \<and> x = y"
  using enc_len_inject [of "length s + 1" "s @ 0 # x" "length t + 1" "t @ 0 # y"] assms
  by (auto simp: enc_string_def)

lemma frame_doc_inject:
  assumes "frame_doc s @ x = frame_doc t @ y" and "length s + 5 < 2 ^ 31" and "length t + 5 < 2 ^ 31"
  shows "s = t \<and> x = y"
  using enc_len_inject [of "length s + 5" "s @ 0 # x" "length t + 5" "t @ 0 # y"] assms
  by (auto simp: frame_doc_def)

lemma le_bytes_append_inject:
  "8 dvd LENGTH('a::len) \<Longrightarrow> le_bytes (v :: 'a word) @ x = le_bytes w @ y \<longleftrightarrow> v = w \<and> x = y"
  by (auto simp: le_bytes_inject)

definition small :: "bytes \<Rightarrow> bool" where
  "small bs \<longleftrightarrow> length bs < 2 ^ 31"

lemma enc_inject:
  "wf_val v \<Longrightarrow> wf_val w \<Longrightarrow> val_type v = val_type w \<Longrightarrow> small (enc_val v) \<Longrightarrow> small (enc_val w) \<Longrightarrow>
     enc_val v @ x = enc_val w @ y \<Longrightarrow> v = w \<and> x = y"
  "wf_doc es \<Longrightarrow> wf_doc fs \<Longrightarrow> small (enc_elems es) \<Longrightarrow> small (enc_elems fs) \<Longrightarrow>
     enc_elems es = enc_elems fs \<Longrightarrow> es = fs"
proof (induction v and es arbitrary: w x y and fs rule: enc_val_enc_elems.induct)
  case (3 s)
  then show ?case by (cases w) (auto simp: small_def dest: enc_string_inject)
next
  case (4 es)
  from "4.prems"(3) obtain fs where w: "w = VObject fs" by (cases w) auto
  have "enc_elems es = enc_elems fs" "x = y"
    using "4.prems" w frame_doc_inject [of "enc_elems es" x "enc_elems fs" y] by (auto simp: small_def)
  then show ?case using "4.IH" [of fs] "4.prems" w by (simp add: small_def)
next
  case (5 es)
  from "5.prems"(3) obtain fs where w: "w = VArray fs" by (cases w) auto
  have "enc_elems es = enc_elems fs" "x = y"
    using "5.prems" w frame_doc_inject [of "enc_elems es" x "enc_elems fs" y] by (auto simp: small_def)
  then show ?case using "5.IH" [of fs] "5.prems" w by (simp add: small_def)
next
  case (6 st bs)
  then obtain st' bs' where w: "w = VBinData st' bs'" by (cases w) auto
  then have "length bs = length bs'" "st # bs @ x = st' # bs' @ y"
    using 6 enc_len_inject [of "length bs" "st # bs @ x" "length bs'" "st' # bs' @ y"]
    by (auto simp: small_def)
  then show ?case by (simp add: w)
next
  case (12 pat opts)
  then obtain pat' opts' where w: "w = VRegEx pat' opts'" by (cases w) auto
  then have "pat @ 0 # opts @ 0 # x = pat' @ 0 # opts' @ 0 # y" using 12 by simp
  moreover have "0 \<notin> set pat" "0 \<notin> set pat'" "0 \<notin> set opts" "0 \<notin> set opts'"
    using 12 w by (auto simp: cstring_def)
  ultimately have "pat = pat'" "opts @ 0 # x = opts' @ 0 # y"
    using null_terminated_inject [of pat pat'] by auto
  then show ?case
    using null_terminated_inject [of opts opts'] \<open>0 \<notin> set opts\<close> \<open>0 \<notin> set opts'\<close> by (auto simp: w)
next
  case (13 ns oid)
  then obtain ns' oid' where w: "w = VDBRef ns' oid'" by (cases w) auto
  then have "ns = ns'" "oid @ x = oid' @ y"
    using 13 enc_string_inject [of ns "oid @ x" ns' "oid' @ y"] by (auto simp: small_def)
  then show ?case using 13 by (auto simp: w)
next
  case (14 c)
  then show ?case by (cases w) (auto simp: small_def dest: enc_string_inject)
next
  case (15 s)
  then show ?case by (cases w) (auto simp: small_def dest: enc_string_inject)
next
  case (16 c es)
  from "16.prems"(3) obtain c' fs where w: "w = VCodeWScope c' fs" by (cases w) auto
  let ?t = "enc_string c @ frame_doc (enc_elems es) @ x" and ?t' = "enc_string c' @ frame_doc (enc_elems fs) @ y"
  have sm: "length c + length (enc_elems es) + 14 < 2 ^ 31" "length c' + length (enc_elems fs) + 14 < 2 ^ 31"
    using "16.prems" w by (simp_all add: small_def Let_def)
  have "?t = ?t'"
    using "16.prems"(6) w sm
      enc_len_inject [of "4 + 4 + length c + 1 + length (frame_doc (enc_elems es))" ?t
        "4 + 4 + length c' + 1 + length (frame_doc (enc_elems fs))" ?t'] by (simp add: Let_def)
  then have c: "c = c'" and d: "frame_doc (enc_elems es) @ x = frame_doc (enc_elems fs) @ y"
    using enc_string_inject [of c _ c'] sm by auto
  from frame_doc_inject [OF d] sm have "enc_elems es = enc_elems fs" "x = y" by auto
  moreover have "es = fs" using "16.IH" [of fs] "16.prems" w sm \<open>enc_elems es = enc_elems fs\<close>
    by (simp add: small_def)
  ultimately show ?case using c w by simp
next
  case 21
  then show ?case by (cases fs) auto
next
  case (22 n v es)
  then obtain m w fs' where fs: "fs = (m, w) # fs'" by (cases fs) auto
  have eq: "type_byte (val_type v) = type_byte (val_type w)"
    "n @ 0 # enc_val v @ enc_elems es = m @ 0 # enc_val w @ enc_elems fs'"
    using "22.prems"(5) fs by simp_all
  have t: "val_type v = val_type w" using eq(1) by (simp add: type_byte_inject)
  have "n = m" and rest: "enc_val v @ enc_elems es = enc_val w @ enc_elems fs'"
    using null_terminated_inject [OF _ _ eq(2)] "22.prems"(1,2) fs by (simp_all add: cstring_def)
  moreover have "v = w \<and> enc_elems es = enc_elems fs'"
    using "22.IH"(1) [OF _ _ t _ _ rest] "22.prems" fs by (simp add: small_def)
  moreover have "wf_doc es" "wf_doc fs'" "small (enc_elems es)" "small (enc_elems fs')"
    using "22.prems" fs by (simp_all add: small_def)
  ultimately show ?case using "22.IH"(2) [of fs'] fs by simp
qed (case_tac [!] w; auto simp: le_bytes_inject split: if_splits)+

lemma enc_doc_inject:
  assumes "wf_doc es" and "wf_doc fs" and "length (enc_doc es) < 2 ^ 31" and "length (enc_doc fs) < 2 ^ 31"
  shows "enc_doc es = enc_doc fs \<longleftrightarrow> es = fs"
proof
  assume eq: "enc_doc es = enc_doc fs"
  have "length (enc_elems es) + 5 < 2 ^ 31" "length (enc_elems fs) + 5 < 2 ^ 31"
    using assms(3,4) by (simp_all add: enc_doc_def)
  then have "enc_elems es = enc_elems fs"
    using frame_doc_inject [of "enc_elems es" "[]" "enc_elems fs" "[]"] eq by (simp only: enc_doc_def)
  then show "es = fs" using enc_inject(2) [OF assms(1,2)] assms(3,4) by (simp add: small_def enc_doc_def)
qed simp

section \<open>The interface to the element size\<close>

text \<open>
  \<open>esize mem maxLen\<close> is \<^verbatim>\<open>BSONElement(mem).size(maxLen)\<close>, with -1 for the variant without a
  bound. What its callers rely on: for an element in the documented format that the bound, if
  any, covers, it is the number of bytes of the element, and an end of object has size 1.
\<close>

locale element_size =
  fixes esize :: "bytes \<Rightarrow> int \<Rightarrow> int res"
  assumes size_elem: "wf_elem e \<Longrightarrow> length (enc_elem e) < 2 ^ 31 \<Longrightarrow>
      maxLen = -1 \<or> int (length (enc_elem e)) \<le> maxLen \<Longrightarrow>
      esize (enc_elem e @ rest) maxLen = Inr (int (length (enc_elem e)))"
    and size_eoo: "maxLen = -1 \<or> 1 \<le> maxLen \<Longrightarrow> esize (0 # rest) maxLen = Inr 1"

definition format_esize :: "bytes \<Rightarrow> int \<Rightarrow> int res" where
  "format_esize mem maxLen =
     bindE (format_size mem) (\<lambda>n.
       if maxLen \<noteq> -1 \<and> maxLen < n then Inl (MsgAssertion 10334) else Inr n)"

interpretation fmt: element_size format_esize
  by unfold_locales (auto simp: format_esize_def format_size_enc format_size_eoo)

end
