(* ===== verification/ConnString.thy ===== *)
theory ConnString
  imports Net BsonFormat
begin

text \<open>
  \<^verbatim>\<open>class ConnectionString\<close> of \<^verbatim>\<open>mongo/client/dbclientinterface.h\<close> and the option enumerations of
  \<^verbatim>\<open>dbclientinterface.h\<close>, \<^verbatim>\<open>write_options.h\<close>, \<^verbatim>\<open>write_concern.h\<close>, \<^verbatim>\<open>index_spec.h\<close> and \<^verbatim>\<open>options.h\<close>. The
  parser of the server list \<open>fillServers\<close> and \<open>finishInit\<close>, which makes the printed form, are only
  declared: they are arguments.
\<close>

section \<open>Options\<close>

definition WriteOption_FromWriteback :: "32 word" where "WriteOption_FromWriteback = push_bit 31 1"
definition Reserved_InsertOption_ContinueOnError :: "32 word" where "Reserved_InsertOption_ContinueOnError = push_bit 0 1"
definition Reserved_FromWriteback :: "32 word" where "Reserved_FromWriteback = push_bit 1 1"

definition UpdateOption_Upsert :: "32 word" where "UpdateOption_Upsert = push_bit 0 1"
definition UpdateOption_Multi :: "32 word" where "UpdateOption_Multi = push_bit 1 1"
definition UpdateOption_Broadcast :: "32 word" where "UpdateOption_Broadcast = push_bit 2 1"
definition UpdateOption_BypassDocumentValidation :: "32 word" where "UpdateOption_BypassDocumentValidation = push_bit 3 1"
definition RemoveOption_JustOne :: "32 word" where "RemoveOption_JustOne = push_bit 0 1"
definition RemoveOption_Broadcast :: "32 word" where "RemoveOption_Broadcast = push_bit 1 1"
definition InsertOption_ContinueOnError :: "32 word" where "InsertOption_ContinueOnError = push_bit 0 1"
definition InsertOption_BypassDocumentValidation :: "32 word" where "InsertOption_BypassDocumentValidation = push_bit 1 1"

datatype ReadPreference =
    PrimaryOnly | PrimaryPreferred | SecondaryOnly | SecondaryPreferred | Nearest

fun read_preference_code :: "ReadPreference \<Rightarrow> int" where
  "read_preference_code PrimaryOnly = 0"
| "read_preference_code PrimaryPreferred = 1"
| "read_preference_code SecondaryOnly = 2"
| "read_preference_code SecondaryPreferred = 3"
| "read_preference_code Nearest = 4"

datatype IndexType =
    kIndexTypeAscending | kIndexTypeDescending | kIndexTypeText | kIndexTypeGeo2D
  | kIndexTypeGeoHaystack | kIndexTypeGeo2DSphere | kIndexTypeHashed

definition kIndexValAscending :: int where "kIndexValAscending = 1"
definition kIndexValDescending :: int where "kIndexValDescending = - 1"

datatype ProfilingLevel = ProfileOff | ProfileSlow | ProfileAll

fun profiling_code :: "ProfilingLevel \<Rightarrow> int" where
  "profiling_code ProfileOff = 0"
| "profiling_code ProfileSlow = 1"
| "profiling_code ProfileAll = 2"

datatype DefaultPorts = kDbServer | kShardServer | kConfigServer

fun port_code :: "DefaultPorts \<Rightarrow> int" where
  "port_code kDbServer = 27017"
| "port_code kShardServer = 27018"
| "port_code kConfigServer = 27019"

datatype SSLModes = kSSLDisabled | kSSLRequired
datatype TLSProtocol = kTLS1_0 | kTLS1_1 | kTLS1_2

definition kDefaultAutoShutdownGracePeriodMillis :: "32 word" where
  "kDefaultAutoShutdownGracePeriodMillis = 0"

definition kDefaultDefaultLocalThresholdMillis :: int where
  "kDefaultDefaultLocalThresholdMillis = 15"

record 'appender Options =
  opt_callShutdownAtExit :: bool
  opt_autoShutdownGracePeriodMillis :: "32 word"
  opt_sslMode :: SSLModes
  opt_useFIPSMode :: bool
  opt_sslDisabledTLSProtocols :: "TLSProtocol list"
  opt_sslCAFile :: bytes
  opt_sslPEMKeyFile :: bytes
  opt_sslPEMKeyPassword :: bytes
  opt_sslCRLFile :: bytes
  opt_sslAllowInvalidCertificates :: bool
  opt_sslAllowInvalidHostnames :: bool
  opt_sslCipherConfig :: bytes
  opt_defaultLocalThresholdMillis :: int
  opt_appenderFactory :: 'appender
  opt_minLoggedSeverity :: LogSeverity
  opt_IPv6Enabled :: bool
  opt_validateObjects :: bool

definition SSLEnabled :: "('appender Options \<Rightarrow> SSLModes) \<Rightarrow> 'appender Options \<Rightarrow> bool" where
  "SSLEnabled SSLMode opts \<longleftrightarrow> SSLMode opts \<noteq> kSSLDisabled"

record WriteConcern =
  wc_enabled :: "bool list"
  wc_w :: int
  wc_w_str :: bytes
  wc_j :: bool
  wc_fsync :: bool
  wc_timeout :: int

definition kNumOptions :: nat where
  "kNumOptions = 5"

datatype WriteConcern_Options = kW | kWStr | kJ | kFsync | kTimeout

section \<open>Connection strings\<close>

datatype ConnectionType = INVALID | MASTER | PAIR | SET | CUSTOM

record ConnectionString =
  cs_type :: ConnectionType
  cs_servers :: "HostAndPort list"
  cs_string :: bytes
  cs_setName :: bytes
  cs_user :: bytes
  cs_password :: bytes
  cs_database :: bytes
  cs_options :: doc

definition ConnectionString_INVALID :: ConnectionString where
  "ConnectionString_INVALID =
     \<lparr>cs_type = INVALID, cs_servers = [], cs_string = [], cs_setName = [], cs_user = [], cs_password = [],
      cs_database = [], cs_options = []\<rparr>"

type_synonym finish_init = "ConnectionString \<Rightarrow> ConnectionString res"
type_synonym fill_servers = "bytes \<Rightarrow> bool \<Rightarrow> ConnectionString \<Rightarrow> ConnectionString res"

definition ConnectionString_server :: "finish_init \<Rightarrow> HostAndPort \<Rightarrow> ConnectionString res" where
  "ConnectionString_server finishInit server =
     (let cs = ConnectionString_INVALID\<lparr>cs_type := MASTER\<rparr>;
          cs = cs\<lparr>cs_servers := cs_servers cs @ [server]\<rparr> in
      finishInit cs)"

text \<open>The switch over the type that both of the next constructors have.\<close>

definition check_servers :: "ConnectionString \<Rightarrow> unit res" where
  "check_servers cs =
     (case cs_type cs of
        MASTER \<Rightarrow> verify (length (cs_servers cs) = 1)
      | SET \<Rightarrow>
          bindE (verify (length (cs_setName cs) \<noteq> 0)) (\<lambda>u.
            verify (length (cs_servers cs) \<ge> 1))
      | PAIR \<Rightarrow> verify (length (cs_servers cs) = 2)
      | _ \<Rightarrow> verify (length (cs_servers cs) > 0))"

definition ConnectionString_typed ::
    "fill_servers \<Rightarrow> finish_init \<Rightarrow> ConnectionType \<Rightarrow> bytes \<Rightarrow> bytes \<Rightarrow> ConnectionString res" where
  "ConnectionString_typed fillServers finishInit type s setName =
     (let cs = ConnectionString_INVALID\<lparr>cs_type := type, cs_setName := setName\<rparr> in
      bindE (fillServers s True cs) (\<lambda>cs.
      bindE (check_servers cs) (\<lambda>u.
        finishInit cs)))"

definition ConnectionString_favored ::
    "fill_servers \<Rightarrow> finish_init \<Rightarrow> bytes \<Rightarrow> ConnectionType \<Rightarrow> ConnectionString res" where
  "ConnectionString_favored fillServers finishInit s favoredMultipleType =
     bindE (fillServers s True ConnectionString_INVALID) (\<lambda>cs.
     bindE (if cs_type cs \<noteq> INVALID then Inr cs
            else if length (cs_servers cs) = 1 then Inr (cs\<lparr>cs_type := MASTER\<rparr>)
            else (let cs = cs\<lparr>cs_type := favoredMultipleType\<rparr> in
                  bindE (verify (cs_type cs = SET)) (\<lambda>u. Inr cs))) (\<lambda>cs.
       finishInit cs))"

definition ConnectionString_full ::
    "fill_servers \<Rightarrow> finish_init \<Rightarrow> ConnectionType \<Rightarrow> bytes \<Rightarrow> bytes \<Rightarrow> bytes \<Rightarrow> bytes \<Rightarrow> bytes \<Rightarrow> doc \<Rightarrow> ConnectionString res" where
  "ConnectionString_full fillServers finishInit type user password servers database setName options =
     (let cs = \<lparr>cs_type = type, cs_servers = [], cs_string = [], cs_setName = setName, cs_user = user,
                cs_password = password, cs_database = database, cs_options = options\<rparr> in
      bindE (fillServers servers False cs) (\<lambda>cs.
      bindE (check_servers cs) (\<lambda>u.
        finishInit cs)))"

definition cs_isValid :: "ConnectionString \<Rightarrow> bool" where
  "cs_isValid cs \<longleftrightarrow> cs_type cs \<noteq> INVALID"

definition cs_toString :: "ConnectionString \<Rightarrow> bytes" where
  "cs_toString cs = cs_string cs"

definition cs_getSetName :: "ConnectionString \<Rightarrow> bytes" where
  "cs_getSetName cs = cs_setName cs"

definition cs_getServers :: "ConnectionString \<Rightarrow> HostAndPort list" where
  "cs_getServers cs = cs_servers cs"

definition cs_get_type :: "ConnectionString \<Rightarrow> ConnectionType" where
  "cs_get_type cs = cs_type cs"

definition cs_getUser :: "ConnectionString \<Rightarrow> bytes" where
  "cs_getUser cs = cs_user cs"

definition cs_getPassword :: "ConnectionString \<Rightarrow> bytes" where
  "cs_getPassword cs = cs_password cs"

definition cs_getOptions :: "ConnectionString \<Rightarrow> doc" where
  "cs_getOptions cs = cs_options cs"

definition cs_getDatabase :: "ConnectionString \<Rightarrow> bytes" where
  "cs_getDatabase cs = cs_database cs"

text \<open>The hook is one static pointer; each access holds the lock.\<close>

definition setConnectionHook :: "'hook option \<Rightarrow> 'hook option \<Rightarrow> 'hook option" where
  "setConnectionHook hook connectHook = hook"

definition getConnectionHook :: "'hook option \<Rightarrow> 'hook option" where
  "getConnectionHook connectHook = connectHook"

definition cs_less :: "ConnectionString \<Rightarrow> ConnectionString \<Rightarrow> bool" where
  "cs_less this other \<longleftrightarrow> compare (cs_string this) (cs_string other) < 0"

definition cs_mock :: "(HostAndPort \<Rightarrow> bytes) \<Rightarrow> HostAndPort \<Rightarrow> ConnectionString" where
  "cs_mock toString server =
     (let connStr = ConnectionString_INVALID;
          connStr = connStr\<lparr>cs_servers := cs_servers connStr @ [server]\<rparr> in
      connStr\<lparr>cs_string := toString server\<rparr>)"

section \<open>Properties\<close>

definition shaped :: "ConnectionString \<Rightarrow> bool" where
  "shaped cs \<longleftrightarrow>
     (case cs_type cs of
        MASTER \<Rightarrow> length (cs_servers cs) = 1
      | SET \<Rightarrow> cs_setName cs \<noteq> [] \<and> cs_servers cs \<noteq> []
      | PAIR \<Rightarrow> length (cs_servers cs) = 2
      | _ \<Rightarrow> cs_servers cs \<noteq> [])"

lemma check_servers_iff: "check_servers cs = (if shaped cs then Inr () else Inl VerifyFailed)"
  by (cases "cs_type cs") (auto simp: check_servers_def shaped_def verify_def Suc_le_eq)

text \<open>What \<^verbatim>\<open>_finishInit\<close> is for: it makes the printed form from the rest and changes nothing else.\<close>

definition prints_only :: "finish_init \<Rightarrow> bool" where
  "prints_only finishInit \<longleftrightarrow> (\<forall>cs. \<exists>s. finishInit cs = Inr (cs\<lparr>cs_string := s\<rparr>))"

lemma prints_onlyE:
  assumes "prints_only finishInit"
  obtains s where "finishInit cs = Inr (cs\<lparr>cs_string := s\<rparr>)"
  using assms unfolding prints_only_def by blast

lemma shaped_string [simp]: "shaped (cs\<lparr>cs_string := s\<rparr>) = shaped cs"
  by (cases "cs_type cs") (simp_all add: shaped_def)

lemma checked_ctor:
  assumes "prints_only finishInit"
  shows "bindE (check_servers cs) (\<lambda>u. finishInit cs) = Inr cs' \<Longrightarrow> shaped cs'"
    and "\<not> shaped cs \<Longrightarrow> bindE (check_servers cs) (\<lambda>u. finishInit cs) = Inl VerifyFailed"
    and "shaped cs \<Longrightarrow> \<exists>s. bindE (check_servers cs) (\<lambda>u. finishInit cs) = Inr (cs\<lparr>cs_string := s\<rparr>)"
proof -
  obtain s where "finishInit cs = Inr (cs\<lparr>cs_string := s\<rparr>)" by (rule prints_onlyE [OF assms])
  then show "bindE (check_servers cs) (\<lambda>u. finishInit cs) = Inr cs' \<Longrightarrow> shaped cs'"
    and "\<not> shaped cs \<Longrightarrow> bindE (check_servers cs) (\<lambda>u. finishInit cs) = Inl VerifyFailed"
    and "shaped cs \<Longrightarrow> \<exists>s. bindE (check_servers cs) (\<lambda>u. finishInit cs) = Inr (cs\<lparr>cs_string := s\<rparr>)"
    by (auto simp: check_servers_iff split: if_splits)
qed

text \<open>Every connection string that the constructors with a type make has the shape its type needs: one
  server for \<^verbatim>\<open>MASTER\<close>, two for \<^verbatim>\<open>PAIR\<close>, a set name and a server for \<^verbatim>\<open>SET\<close>, a server for the others. A
  server list of another shape raises, and one of the shape gives the string with that list.\<close>

theorem connection_string_shape:
  assumes "prints_only finishInit"
  shows "(\<exists>cs. ConnectionString_server finishInit server = Inr cs \<and> shaped cs \<and> cs_servers cs = [server]) \<and>
         (case fillServers s True (ConnectionString_INVALID\<lparr>cs_type := t, cs_setName := setName\<rparr>) of
            Inl e \<Rightarrow> ConnectionString_typed fillServers finishInit t s setName = Inl e
          | Inr cs \<Rightarrow>
              if shaped cs
              then \<exists>p. ConnectionString_typed fillServers finishInit t s setName = Inr (cs\<lparr>cs_string := p\<rparr>)
              else ConnectionString_typed fillServers finishInit t s setName = Inl VerifyFailed) \<and>
         (\<forall>user pw db opts. case ConnectionString_full fillServers finishInit t user pw s db setName opts of
            Inl e \<Rightarrow> True | Inr cs \<Rightarrow> shaped cs)"
proof (intro conjI allI)
  obtain p where "finishInit (ConnectionString_INVALID\<lparr>cs_type := MASTER, cs_servers := [server]\<rparr>) =
      Inr (ConnectionString_INVALID\<lparr>cs_type := MASTER, cs_servers := [server]\<rparr>\<lparr>cs_string := p\<rparr>)"
    by (rule prints_onlyE [OF assms])
  then show "\<exists>cs. ConnectionString_server finishInit server = Inr cs \<and> shaped cs \<and> cs_servers cs = [server]"
    by (simp add: ConnectionString_server_def shaped_def ConnectionString_INVALID_def)
next
  show "case fillServers s True (ConnectionString_INVALID\<lparr>cs_type := t, cs_setName := setName\<rparr>) of
            Inl e \<Rightarrow> ConnectionString_typed fillServers finishInit t s setName = Inl e
          | Inr cs \<Rightarrow>
              if shaped cs
              then \<exists>p. ConnectionString_typed fillServers finishInit t s setName = Inr (cs\<lparr>cs_string := p\<rparr>)
              else ConnectionString_typed fillServers finishInit t s setName = Inl VerifyFailed"
    using checked_ctor(2,3) [OF assms] by (simp add: ConnectionString_typed_def split: sum.splits)
next
  fix user pw db opts
  show "case ConnectionString_full fillServers finishInit t user pw s db setName opts of
      Inl e \<Rightarrow> True | Inr cs \<Rightarrow> shaped cs"
    using checked_ctor(1) [OF assms]
    by (auto simp: ConnectionString_full_def bindE_eq_Inr Let_def split: sum.splits)
qed

text \<open>A server list of one host, and the host as the printed form.\<close>

definition fill_one :: fill_servers where
  "fill_one s legacy cs = Inr (cs\<lparr>cs_servers := cs_servers cs @ [\<lparr>hp_host = s, hp_port = - 1\<rparr>]\<rparr>)"

definition print_first :: finish_init where
  "print_first cs = Inr (cs\<lparr>cs_string := (case cs_servers cs of [] \<Rightarrow> [] | hp # hps \<Rightarrow> hp_host hp)\<rparr>)"

lemma print_first_prints: "prints_only print_first"
  unfolding prints_only_def print_first_def by blast

theorem connection_string_shape_witness:
  "(\<exists>p. ConnectionString_typed fill_one print_first MASTER (lit ''db'') [] =
      Inr (ConnectionString_INVALID\<lparr>cs_type := MASTER, cs_setName := [],
             cs_servers := [\<lparr>hp_host = lit ''db'', hp_port = - 1\<rparr>]\<rparr>\<lparr>cs_string := p\<rparr>)) \<and>
   ConnectionString_typed fill_one print_first PAIR (lit ''db'') [] = Inl VerifyFailed"
  using connection_string_shape [OF print_first_prints, of _ fill_one MASTER "lit ''db''" "[]"]
    connection_string_shape [OF print_first_prints, of _ fill_one PAIR "lit ''db''" "[]"]
  by (simp add: fill_one_def shaped_def ConnectionString_INVALID_def)

text \<open>The constructor that guesses the type: what the server list says wins; else one server is a
  \<^verbatim>\<open>MASTER\<close>, and any other number is the favored type, which must be \<^verbatim>\<open>SET\<close>. This constructor checks neither
  the set name nor that there is a server: from a list without a name it makes a string whose shape the
  others reject.\<close>

theorem favored_connection_string:
  assumes "prints_only finishInit" and "fillServers s True ConnectionString_INVALID = Inr cs"
  shows "if cs_type cs \<noteq> INVALID
         then \<exists>p. ConnectionString_favored fillServers finishInit s fav = Inr (cs\<lparr>cs_string := p\<rparr>)
         else if length (cs_servers cs) = 1
         then \<exists>cs'. ConnectionString_favored fillServers finishInit s fav = Inr cs' \<and> cs_type cs' = MASTER \<and> shaped cs'
         else if fav = SET
         then \<exists>cs'. ConnectionString_favored fillServers finishInit s fav = Inr cs' \<and> cs_type cs' = SET \<and>
                (shaped cs' = (cs_setName cs \<noteq> [] \<and> cs_servers cs \<noteq> []))
         else ConnectionString_favored fillServers finishInit s fav = Inl VerifyFailed"
proof -
  obtain p where p: "finishInit cs = Inr (cs\<lparr>cs_string := p\<rparr>)" by (rule prints_onlyE [OF assms(1)])
  obtain q where q: "finishInit (cs\<lparr>cs_type := MASTER\<rparr>) = Inr (cs\<lparr>cs_type := MASTER\<rparr>\<lparr>cs_string := q\<rparr>)"
    by (rule prints_onlyE [OF assms(1)])
  obtain r where r: "finishInit (cs\<lparr>cs_type := fav\<rparr>) = Inr (cs\<lparr>cs_type := fav\<rparr>\<lparr>cs_string := r\<rparr>)"
    by (rule prints_onlyE [OF assms(1)])
  show ?thesis
    using p q r by (auto simp: ConnectionString_favored_def assms(2) shaped_def verify_def)
qed

text \<open>The empty list with a favored set, over a parser that finds no server in it.\<close>

definition fill_none :: fill_servers where
  "fill_none s legacy cs = Inr cs"

theorem favored_connection_string_witness:
  "\<exists>cs. ConnectionString_favored fill_none print_first [] SET = Inr cs \<and> cs_type cs = SET \<and> \<not> shaped cs"
  using favored_connection_string [OF print_first_prints, of fill_none "[]" ConnectionString_INVALID SET]
  by (simp add: fill_none_def ConnectionString_INVALID_def)

text \<open>The order on connection strings is the order of what they print.\<close>

lemma cs_less_iff: "cs_less a b \<longleftrightarrow> cs_toString a < cs_toString b"
  by (simp add: cs_less_def cs_toString_def compare_lex)

end
