(* ===== verification/Cursor.thy ===== *)
theory Cursor
  imports Message BsonFormat
begin

text \<open>
  \<^verbatim>\<open>mongo/client/dbclientcursor.h\<close>: the cursor's state and its inline operations, and the batch
  iterator. \<open>more\<close>, \<open>next\<close> and \<open>nextSafe\<close> are only declared: they are arguments, with what the
  comments of the header promise of them as the locales \<open>cursor_ops\<close> and \<open>batch_source\<close>. A cursor
  that holds its batches in memory interprets both. An object here is its document; \<open>getOwned\<close>
  copies its bytes and leaves the document as it is.
\<close>

section \<open>Query options\<close>

definition QueryOption_CursorTailable :: "32 word" where "QueryOption_CursorTailable = push_bit 1 1"
definition QueryOption_SlaveOk :: "32 word" where "QueryOption_SlaveOk = push_bit 2 1"
definition QueryOption_OplogReplay :: "32 word" where "QueryOption_OplogReplay = push_bit 3 1"
definition QueryOption_NoCursorTimeout :: "32 word" where "QueryOption_NoCursorTimeout = push_bit 4 1"
definition QueryOption_AwaitData :: "32 word" where "QueryOption_AwaitData = push_bit 5 1"
definition QueryOption_Exhaust :: "32 word" where "QueryOption_Exhaust = push_bit 6 1"
definition QueryOption_PartialResults :: "32 word" where "QueryOption_PartialResults = push_bit 7 1"

definition QueryOption_AllSupported :: "32 word" where
  "QueryOption_AllSupported =
     QueryOption_CursorTailable OR QueryOption_SlaveOk OR
     QueryOption_OplogReplay OR QueryOption_NoCursorTimeout OR QueryOption_AwaitData OR
     QueryOption_Exhaust OR QueryOption_PartialResults"

lemmas query_options = QueryOption_CursorTailable_def QueryOption_SlaveOk_def QueryOption_OplogReplay_def
  QueryOption_NoCursorTimeout_def QueryOption_AwaitData_def QueryOption_Exhaust_def
  QueryOption_PartialResults_def QueryOption_AllSupported_def

section \<open>The state of a cursor\<close>

text \<open>Pointers to other objects are addresses, or \<open>None\<close> for null.\<close>

record Batch =
  bt_m :: message
  bt_nReturned :: int
  bt_pos :: int
  bt_data :: "bytes option"

definition Batch_new :: Batch where
  "Batch_new = \<lparr>bt_m = Message_new, bt_nReturned = 0, bt_pos = 0, bt_data = None\<rparr>"

record DBClientCursor =
  dc_shim :: "nat option"
  dc_batch :: Batch
  dc_client :: "nat option"
  dc_originalHost :: bytes
  dc_ns :: bytes
  dc_query :: doc
  dc_nToReturn :: int
  dc_nToSkip :: int
  dc_nReturned :: int
  dc_fieldsToReturn :: "doc option"
  dc_opts :: "32 word"
  dc_batchSize :: int
  dc_putBack :: "doc list"
  dc_resultFlags :: "32 word"
  dc_cursorId :: int
  dc_ownCursor :: bool
  dc_scopedHost :: bytes
  dc_lazyHost :: bytes
  dc_wasError :: bool

definition assertIfNull :: "'a option \<Rightarrow> unit res" where
  "assertIfNull this = uassert 13348 (this \<noteq> None)"

text \<open>The sum is computed in \<^verbatim>\<open>size_t\<close> and returned as an \<^verbatim>\<open>int\<close>.\<close>

definition left_in_batch :: "'a DBClientCursor_scheme \<Rightarrow> int" where
  "left_in_batch c =
     sint (ucast (of_nat (length (dc_putBack c)) + of_int (bt_nReturned (dc_batch c))
                    - of_int (bt_pos (dc_batch c)) :: 64 word) :: 32 word)"

definition objsLeftInBatch :: "'a DBClientCursor_scheme option \<Rightarrow> int res" where
  "objsLeftInBatch this = bindE (assertIfNull this) (\<lambda>u. Inr (left_in_batch (the this)))"

definition moreInCurrentBatch :: "'a DBClientCursor_scheme option \<Rightarrow> bool res" where
  "moreInCurrentBatch this = bindE (objsLeftInBatch this) (\<lambda>n. Inr (n > 0))"

definition putBack :: "doc \<Rightarrow> 'a DBClientCursor_scheme \<Rightarrow> 'a DBClientCursor_scheme" where
  "putBack o1 c = c\<lparr>dc_putBack := o1 # dc_putBack c\<rparr>"

definition isDead :: "'a DBClientCursor_scheme \<Rightarrow> bool" where
  "isDead c \<longleftrightarrow> dc_cursorId c = 0"

definition tailable :: "'a DBClientCursor_scheme \<Rightarrow> bool" where
  "tailable c \<longleftrightarrow> dc_opts c AND QueryOption_CursorTailable \<noteq> 0"

definition hasResultFlag :: "32 word \<Rightarrow> 'a DBClientCursor_scheme option \<Rightarrow> bool res" where
  "hasResultFlag flag this =
     bindE (assertIfNull this) (\<lambda>u. Inr (dc_resultFlags (the this) AND flag \<noteq> 0))"

definition setBatchSize :: "int \<Rightarrow> 'a DBClientCursor_scheme \<Rightarrow> 'a DBClientCursor_scheme" where
  "setBatchSize newBatchSize c = c\<lparr>dc_batchSize := newBatchSize\<rparr>"

definition getCursorId :: "'a DBClientCursor_scheme \<Rightarrow> int" where
  "getCursorId c = dc_cursorId c"

definition dc_decouple :: "'a DBClientCursor_scheme \<Rightarrow> 'a DBClientCursor_scheme" where
  "dc_decouple c = c\<lparr>dc_ownCursor := False\<rparr>"

definition originalHost :: "'a DBClientCursor_scheme \<Rightarrow> bytes" where
  "originalHost c = dc_originalHost c"

definition getns :: "'a DBClientCursor_scheme \<Rightarrow> bytes" where
  "getns c = dc_ns c"

definition getMessage :: "'a DBClientCursor_scheme \<Rightarrow> message" where
  "getMessage c = bt_m (dc_batch c)"

text \<open>\<^verbatim>\<open>dataReceived()\<close> calls the declared overload with two locals and drops what it leaves there.\<close>

definition dataReceived :: "('s \<Rightarrow> (bool \<times> bytes \<times> 's) res) \<Rightarrow> 's \<Rightarrow> 's res" where
  "dataReceived dataReceived_retry c = bindE (dataReceived_retry c) (\<lambda>(retry, lazyHost, c). Inr c)"

section \<open>Counting what a cursor returns\<close>

text \<open>The loop may never end (a tailable cursor), and its counter is an \<^verbatim>\<open>int\<close>.\<close>

partial_function (option) itcount_loop ::
    "('s \<Rightarrow> (bool \<times> 's) res) \<Rightarrow> ('s \<Rightarrow> (doc \<times> 's) res) \<Rightarrow> 's \<Rightarrow> int \<Rightarrow> (int \<times> 's) res option" where
  "itcount_loop has_more next_obj c n =
     (case has_more c of
        Inl e \<Rightarrow> Some (Inl e)
      | Inr (b, c) \<Rightarrow>
          if b then
            (case next_obj c of
               Inl e \<Rightarrow> Some (Inl e)
             | Inr (d, c) \<Rightarrow>
                 (case chk32 (n + 1) of
                    Inl e \<Rightarrow> Some (Inl e)
                  | Inr n \<Rightarrow> itcount_loop has_more next_obj c n))
          else Some (Inr (n, c)))"

definition itcount ::
    "('s \<Rightarrow> (bool \<times> 's) res) \<Rightarrow> ('s \<Rightarrow> (doc \<times> 's) res) \<Rightarrow> 's \<Rightarrow> (int \<times> 's) res option" where
  "itcount has_more next_obj c = itcount_loop has_more next_obj c 0"

section \<open>The batch iterator\<close>

text \<open>The iterator refers to the cursor: an operation works on both. The count goes up before the call.\<close>

record BatchIterator =
  bi_n :: int

definition BatchIterator_new :: BatchIterator where
  "BatchIterator_new = \<lparr>bi_n = 0\<rparr>"

definition bi_moreInCurrentBatch :: "'a DBClientCursor_scheme option \<Rightarrow> bool res" where
  "bi_moreInCurrentBatch c = moreInCurrentBatch c"

definition bi_nextSafe ::
    "('a DBClientCursor_scheme \<Rightarrow> (doc \<times> 'a DBClientCursor_scheme) res) \<Rightarrow> BatchIterator \<Rightarrow>
      'a DBClientCursor_scheme \<Rightarrow> (doc \<times> BatchIterator \<times> 'a DBClientCursor_scheme) res" where
  "bi_nextSafe nextSafe it c =
     bindE (bi_moreInCurrentBatch (Some c)) (\<lambda>m.
     bindE (massert 13383 m) (\<lambda>u.
     bindE (chk32 (bi_n it + 1)) (\<lambda>n.
     bindE (nextSafe c) (\<lambda>(d, c). Inr (d, it\<lparr>bi_n := n\<rparr>, c)))))"

definition bi_count :: "BatchIterator \<Rightarrow> int" where
  "bi_count it = bi_n it"

text \<open>A client's loop: \<open>k\<close> calls of \<open>nextSafe\<close> in a row.\<close>

fun bi_take ::
    "('a DBClientCursor_scheme \<Rightarrow> (doc \<times> 'a DBClientCursor_scheme) res) \<Rightarrow> nat \<Rightarrow> BatchIterator \<Rightarrow>
      'a DBClientCursor_scheme \<Rightarrow> (doc list \<times> BatchIterator \<times> 'a DBClientCursor_scheme) res" where
  "bi_take nextSafe 0 it c = Inr ([], it, c)"
| "bi_take nextSafe (Suc k) it c =
     bindE (bi_nextSafe nextSafe it c) (\<lambda>(d, it, c).
     bindE (bi_take nextSafe k it c) (\<lambda>(ds, it, c). Inr (d # ds, it, c)))"

section \<open>What the cursor's declared operations promise\<close>

text \<open>
  \<open>rest\<close> is what the cursor still returns. \<^verbatim>\<open>more()\<close>: "If true, safe to call next(). Requests more
  from server if necessary." \<^verbatim>\<open>next()\<close> returns the next object and removes it.
\<close>

locale cursor_ops =
  fixes ok :: "'s \<Rightarrow> bool"
    and ready :: "'s \<Rightarrow> bool"
    and rest :: "'s \<Rightarrow> doc list"
    and has_more :: "'s \<Rightarrow> (bool \<times> 's) res"
    and next_obj :: "'s \<Rightarrow> (doc \<times> 's) res"
  assumes more_tells: "ok c \<Longrightarrow> \<exists>c'. has_more c = Inr (rest c \<noteq> [], c') \<and> ok c' \<and> rest c' = rest c \<and> ready c'"
    and next_takes: "ok c \<Longrightarrow> ready c \<Longrightarrow> rest c = d # ds \<Longrightarrow>
      \<exists>c'. next_obj c = Inr (d, c') \<and> ok c' \<and> rest c' = ds"
begin

lemma loop_ends:
  assumes "ok c" and "rest c = []"
  shows "\<exists>c'. itcount_loop has_more next_obj c n = Some (Inr (n, c')) \<and> ok c' \<and> rest c' = []"
  using more_tells [OF assms(1)] assms(2) by (subst itcount_loop.simps) auto

lemma loop_steps:
  assumes "ok c" and "rest c = d # ds"
  shows "\<exists>c'. ok c' \<and> rest c' = ds \<and>
    itcount_loop has_more next_obj c n =
      (if in_int32 (n + 1) then itcount_loop has_more next_obj c' (n + 1) else Some (Inl SignedOverflow))"
proof -
  obtain c1 where c1: "has_more c = Inr (True, c1)" "ok c1" "rest c1 = d # ds" "ready c1"
    using more_tells [OF assms(1)] assms(2) by auto
  obtain c2 where "next_obj c1 = Inr (d, c2)" "ok c2" "rest c2 = ds"
    using next_takes [OF c1(2,4,3)] by blast
  then show ?thesis using c1(1) by (subst itcount_loop.simps) (auto simp: chk32_def)
qed

text \<open>The loop counts what is left, whatever the number: one too many for an \<^verbatim>\<open>int\<close> is overflow.\<close>

lemma itcount_loop_counts:
  assumes "ok c" and "rest c = ds" and "n + int (length ds) \<le> int32_max" and "0 \<le> n"
  shows "\<exists>c'. itcount_loop has_more next_obj c n = Some (Inr (n + int (length ds), c')) \<and> rest c' = []"
  using assms
proof (induction ds arbitrary: c n)
  case Nil
  then show ?case using loop_ends [of c n] by auto
next
  case (Cons d ds)
  have n: "in_int32 (n + 1)" using Cons.prems by (auto simp: in_int32_def int32_min_def int32_max_def)
  obtain c' where "ok c'" "rest c' = ds"
    "itcount_loop has_more next_obj c n = itcount_loop has_more next_obj c' (n + 1)"
    using loop_steps [OF Cons.prems(1,2), of n] n by auto
  then show ?case using Cons.IH [of c' "n + 1"] Cons.prems by (auto simp: algebra_simps)
qed

lemma itcount_loop_overflows:
  assumes "ok c" and "rest c = ds" and "int32_max < n + int (length ds)" and "0 \<le> n" and "n \<le> int32_max"
  shows "itcount_loop has_more next_obj c n = Some (Inl SignedOverflow)"
  using assms
proof (induction ds arbitrary: c n)
  case (Cons d ds)
  obtain c' where c: "ok c'" "rest c' = ds"
    and step: "itcount_loop has_more next_obj c n =
      (if in_int32 (n + 1) then itcount_loop has_more next_obj c' (n + 1) else Some (Inl SignedOverflow))"
    using loop_steps [OF Cons.prems(1,2)] by blast
  show ?case
  proof (cases "n = int32_max")
    case True
    then show ?thesis using step by (simp add: in_int32_def)
  next
    case False
    then show ?thesis using step Cons.IH [OF c, of "n + 1"] Cons.prems by auto
  qed
qed simp

lemma itcount_value:
  assumes "ok c"
  shows "if int (length (rest c)) \<le> int32_max
         then \<exists>c'. itcount has_more next_obj c = Some (Inr (int (length (rest c)), c')) \<and> rest c' = []
         else itcount has_more next_obj c = Some (Inl SignedOverflow)"
proof (cases "int (length (rest c)) \<le> int32_max")
  case True
  then show ?thesis using itcount_loop_counts [OF assms refl, of 0] by (auto simp: itcount_def)
next
  case False
  then show ?thesis using itcount_loop_overflows [OF assms refl, of 0] by (auto simp: itcount_def int32_max_def)
qed

end

text \<open>
  \<^verbatim>\<open>nextSafe()\<close> returns the next object of the batch, as long as there is one and it is not an error
  report.
\<close>

locale batch_source =
  fixes ok :: "'a DBClientCursor_scheme \<Rightarrow> bool"
    and batch :: "'a DBClientCursor_scheme \<Rightarrow> doc list"
    and nextSafe :: "'a DBClientCursor_scheme \<Rightarrow> (doc \<times> 'a DBClientCursor_scheme) res"
  assumes left: "ok c \<Longrightarrow> left_in_batch c = int (length (batch c))"
    and takes_one: "ok c \<Longrightarrow> batch c = d # ds \<Longrightarrow>
      \<exists>c'. nextSafe c = Inr (d, c') \<and> ok c' \<and> batch c' = ds"
begin

lemma nextSafe_takes:
  assumes "ok c" and "batch c = d # ds" and "in_int32 (bi_n it + 1)"
  shows "\<exists>c'. bi_nextSafe nextSafe it c = Inr (d, \<lparr>bi_n = bi_n it + 1\<rparr>, c') \<and> ok c' \<and> batch c' = ds"
  using takes_one [OF assms(1,2)] left [OF assms(1)] assms(2,3)
  by (auto simp: bi_nextSafe_def bi_moreInCurrentBatch_def moreInCurrentBatch_def objsLeftInBatch_def assertIfNull_def)

lemma nextSafe_empty:
  assumes "ok c" and "batch c = []"
  shows "bi_nextSafe nextSafe it c = Inl (MsgAssertion 13383)"
  using left [OF assms(1)] assms(2)
  by (simp add: bi_nextSafe_def bi_moreInCurrentBatch_def moreInCurrentBatch_def objsLeftInBatch_def assertIfNull_def)

lemma takes_batch:
  assumes "ok c" and "batch c = ds" and "0 \<le> bi_n it" and "bi_n it + int (length ds) \<le> int32_max"
  shows "\<exists>c'. bi_take nextSafe (length ds) it c = Inr (ds, \<lparr>bi_n = bi_n it + int (length ds)\<rparr>, c') \<and>
              ok c' \<and> batch c' = []"
  using assms
proof (induction ds arbitrary: it c)
  case (Cons d ds)
  have n: "in_int32 (bi_n it + 1)" using Cons.prems by (auto simp: in_int32_def int32_min_def int32_max_def)
  from nextSafe_takes [OF Cons.prems(1,2) n] obtain c1
    where "bi_nextSafe nextSafe it c = Inr (d, \<lparr>bi_n = bi_n it + 1\<rparr>, c1)" "ok c1" "batch c1 = ds" by blast
  then show ?case using Cons.IH [of c1 "\<lparr>bi_n = bi_n it + 1\<rparr>"] Cons.prems by (auto simp: algebra_simps)
qed simp

end

section \<open>A cursor over batches in memory\<close>

text \<open>
  The documented behaviour of the declared operations, over the model's cursor: the documents of the
  current batch and the batches the server still sends. What was put back comes first.
\<close>

record mem_cursor = DBClientCursor +
  mc_batch :: "doc list"
  mc_server :: "doc list list"

definition mc_rest :: "mem_cursor \<Rightarrow> doc list" where
  "mc_rest c = dc_putBack c @ mc_batch c @ concat (mc_server c)"

definition mc_left :: "mem_cursor \<Rightarrow> doc list" where
  "mc_left c = dc_putBack c @ mc_batch c"

definition mc_ok :: "mem_cursor \<Rightarrow> bool" where
  "mc_ok c \<longleftrightarrow>
     bt_nReturned (dc_batch c) - bt_pos (dc_batch c) = int (length (mc_batch c)) \<and>
     length (mc_left c) < 2 ^ 31 \<and> (\<forall>b \<in> set (mc_server c). length b < 2 ^ 31)"

definition mc_ready :: "mem_cursor \<Rightarrow> bool" where
  "mc_ready c \<longleftrightarrow> (mc_left c = [] \<longrightarrow> mc_rest c = [])"

definition mc_more :: "mem_cursor \<Rightarrow> (bool \<times> mem_cursor) res" where
  "mc_more c =
     bindE (moreInCurrentBatch (Some c)) (\<lambda>m.
       if m then Inr (True, c)
       else (case dropWhile (\<lambda>b. b = []) (mc_server c) of
               [] \<Rightarrow> Inr (False, c\<lparr>mc_server := []\<rparr>)
             | b # bs \<Rightarrow> Inr (True, c\<lparr>mc_batch := b, mc_server := bs,
                 dc_batch := dc_batch c\<lparr>bt_nReturned := int (length b), bt_pos := 0\<rparr>\<rparr>)))"

definition mc_next :: "mem_cursor \<Rightarrow> (doc \<times> mem_cursor) res" where
  "mc_next c =
     (case dc_putBack c of
        d # ds \<Rightarrow> Inr (d, c\<lparr>dc_putBack := ds\<rparr>)
      | [] \<Rightarrow>
          (case mc_batch c of
             [] \<Rightarrow> Inl BadAccess
           | d # ds \<Rightarrow> Inr (d, c\<lparr>mc_batch := ds,
               dc_batch := dc_batch c\<lparr>bt_pos := bt_pos (dc_batch c) + 1\<rparr>\<rparr>)))"

lemma small_int_roundtrip:
  assumes "n < 2 ^ 31"
  shows "sint (ucast (of_nat n :: 64 word) :: 32 word) = int n"
proof -
  have "take_bit 64 n = n" using assms by (intro take_bit_nat_eq_self) simp
  then have "ucast (of_nat n :: 64 word) = (of_nat n :: 32 word)" by (simp add: unsigned_of_nat)
  moreover have "signed_take_bit 31 (int n) = int n"
    using assms by (intro signed_take_bit_int_eq_self) auto
  ultimately show ?thesis by (simp add: signed_of_nat)
qed

lemma mc_left_in_batch:
  assumes "mc_ok c"
  shows "left_in_batch c = int (length (mc_left c))"
proof -
  let ?n = "length (mc_left c)"
  have d: "bt_nReturned (dc_batch c) = bt_pos (dc_batch c) + int (length (mc_batch c))"
    using assms by (simp add: mc_ok_def)
  have "(of_nat (length (dc_putBack c)) + of_int (bt_nReturned (dc_batch c)) - of_int (bt_pos (dc_batch c)) :: 64 word)
      = of_nat ?n"
    unfolding d by (simp add: mc_left_def)
  then show ?thesis using small_int_roundtrip [of ?n] assms by (simp add: left_in_batch_def mc_ok_def)
qed

lemma mc_more_in_batch:
  "mc_ok c \<Longrightarrow> moreInCurrentBatch (Some c) = Inr (mc_left c \<noteq> [])"
  by (simp add: moreInCurrentBatch_def objsLeftInBatch_def assertIfNull_def mc_left_in_batch)

lemma concat_dropWhile_empty: "concat (dropWhile (\<lambda>b. b = []) bs) = concat bs"
  by (induction bs) auto

lemma dropWhile_head: "dropWhile (\<lambda>b. b = []) bs = b # bs' \<Longrightarrow> b \<noteq> []"
  by (induction bs) (auto split: if_splits)

lemma mc_more_tells:
  assumes "mc_ok c"
  shows "\<exists>c'. mc_more c = Inr (mc_rest c \<noteq> [], c') \<and> mc_ok c' \<and> mc_rest c' = mc_rest c \<and> mc_ready c'"
proof (cases "mc_left c")
  case (Cons d ds)
  then show ?thesis using assms
    by (auto simp: mc_more_def mc_more_in_batch mc_rest_def mc_left_def mc_ready_def)
next
  case Nil
  then have e: "dc_putBack c = []" "mc_batch c = []" by (simp_all add: mc_left_def)
  have m: "moreInCurrentBatch (Some c) = Inr False" using mc_more_in_batch [OF assms] Nil by simp
  have cc: "concat (dropWhile (\<lambda>b. b = []) (mc_server c)) = concat (mc_server c)" by (rule concat_dropWhile_empty)
  have sub: "set (dropWhile (\<lambda>b. b = []) (mc_server c)) \<subseteq> set (mc_server c)" by (auto dest: set_dropWhileD)
  show ?thesis
  proof (cases "dropWhile (\<lambda>b. b = []) (mc_server c)")
    case Nil
    have "mc_more c = Inr (False, c\<lparr>mc_server := []\<rparr>)" unfolding mc_more_def m Nil by simp
    moreover have "concat (mc_server c) = []" using cc unfolding Nil by simp
    ultimately show ?thesis using assms e
      by (auto simp: mc_rest_def mc_left_def mc_ready_def mc_ok_def)
  next
    case (Cons b bs)
    have "b \<noteq> []" by (rule dropWhile_head [OF Cons])
    then show ?thesis using assms e m cc sub Cons
      by (auto simp: mc_more_def mc_rest_def mc_left_def mc_ready_def mc_ok_def)
  qed
qed

lemma mc_next_left:
  assumes "mc_ok c" and "mc_left c = d # ds"
  shows "\<exists>c'. mc_next c = Inr (d, c') \<and> mc_ok c' \<and> mc_left c' = ds \<and> mc_server c' = mc_server c"
proof (cases "dc_putBack c")
  case Nil
  then show ?thesis using assms by (auto simp: mc_next_def mc_left_def mc_ok_def)
next
  case (Cons x xs)
  then show ?thesis using assms by (auto simp: mc_next_def mc_left_def mc_ok_def)
qed

lemma mc_next_takes:
  assumes "mc_ok c" and "mc_ready c" and "mc_rest c = d # ds"
  shows "\<exists>c'. mc_next c = Inr (d, c') \<and> mc_ok c' \<and> mc_rest c' = ds"
proof -
  have r: "mc_rest c = mc_left c @ concat (mc_server c)" by (simp add: mc_rest_def mc_left_def)
  with assms(2,3) obtain x xs where l: "mc_left c = x # xs" by (cases "mc_left c") (auto simp: mc_ready_def)
  with r assms(3) have "x = d" "ds = xs @ concat (mc_server c)" by simp_all
  with mc_next_left [OF assms(1) l] show ?thesis by (auto simp: mc_rest_def mc_left_def)
qed

interpretation mco: cursor_ops mc_ok mc_ready mc_rest mc_more mc_next
  by unfold_locales (auto intro: mc_more_tells mc_next_takes)

interpretation mcb: batch_source mc_ok mc_left mc_next
  using mc_left_in_batch mc_next_left by unfold_locales blast+

section \<open>Properties\<close>

definition sample_cursor :: "doc list \<Rightarrow> doc list \<Rightarrow> doc list list \<Rightarrow> mem_cursor" where
  "sample_cursor back batch server =
     \<lparr>dc_shim = None, dc_batch = Batch_new\<lparr>bt_nReturned := int (length batch)\<rparr>, dc_client = None,
      dc_originalHost = [], dc_ns = [], dc_query = [], dc_nToReturn = 0, dc_nToSkip = 0, dc_nReturned = 0,
      dc_fieldsToReturn = None, dc_opts = 0, dc_batchSize = 0, dc_putBack = back, dc_resultFlags = 0,
      dc_cursorId = 0, dc_ownCursor = True, dc_scopedHost = [], dc_lazyHost = [], dc_wasError = False,
      mc_batch = batch, mc_server = server\<rparr>"

lemma sample_ok:
  "length (back @ batch) < 2 ^ 31 \<Longrightarrow> \<forall>b \<in> set server. length b < 2 ^ 31 \<Longrightarrow>
     mc_ok (sample_cursor back batch server)"
  by (simp add: mc_ok_def sample_cursor_def mc_left_def Batch_new_def)

lemma sample_left [simp]: "mc_left (sample_cursor back batch server) = back @ batch"
  by (simp add: mc_left_def sample_cursor_def)

text \<open>C19: \<open>itcount\<close> of a cursor whose \<open>more\<close> and \<open>next\<close> behave as documented and that has finitely many
  documents left returns: with their number and the cursor exhausted when the number fits the \<^verbatim>\<open>int\<close>
  counter, and in its overflow otherwise.\<close>

theorem itcount_returns:
  assumes "cursor_ops ok ready rest has_more next_obj" and "ok c"
  shows "if int (length (rest c)) \<le> int32_max
         then \<exists>c'. itcount has_more next_obj c = Some (Inr (int (length (rest c)), c')) \<and> rest c' = []
         else itcount has_more next_obj c = Some (Inl SignedOverflow)"
  by (rule cursor_ops.itcount_value [OF assms])

text \<open>Three documents: one put back, one in the batch, one in the batch after an empty one.\<close>

theorem itcount_returns_witness:
  "\<exists>c'. itcount mc_more mc_next (sample_cursor [[]] [[([97], VNull)]] [[], [[]]]) = Some (Inr (3, c')) \<and> mc_rest c' = []"
  using itcount_returns [OF mco.cursor_ops_axioms sample_ok [of "[[]]" "[[([97], VNull)]]" "[[], [[]]]"]]
  by (simp add: mc_rest_def sample_cursor_def int32_max_def)

text \<open>The batch iterator, over a cursor whose \<open>nextSafe\<close> behaves as documented, returns exactly the
  documents that the cursor has left in its batch, in order, counts them, and then raises 13383, whatever
  the server would still send.\<close>

theorem batch_iterator_exact:
  assumes "batch_source ok batch nextSafe" and "ok c" and "int (length (batch c)) \<le> int32_max"
  shows "left_in_batch c = int (length (batch c)) \<and>
         (\<exists>c'. bi_take nextSafe (length (batch c)) BatchIterator_new c =
                 Inr (batch c, \<lparr>bi_n = left_in_batch c\<rparr>, c') \<and>
               bi_nextSafe nextSafe \<lparr>bi_n = left_in_batch c\<rparr> c' = Inl (MsgAssertion 13383))"
proof -
  have l: "left_in_batch c = int (length (batch c))"
    by (rule batch_source.left [OF assms(1,2)])
  have "\<exists>c'. bi_take nextSafe (length (batch c)) BatchIterator_new c =
      Inr (batch c, \<lparr>bi_n = bi_n BatchIterator_new + int (length (batch c))\<rparr>, c') \<and> ok c' \<and> batch c' = []"
    using assms(3) by (intro batch_source.takes_batch [OF assms(1,2) refl]) (simp_all add: BatchIterator_new_def)
  then show ?thesis using l batch_source.nextSafe_empty [OF assms(1)] by (auto simp: BatchIterator_new_def)
qed

theorem batch_iterator_exact_witness:
  "\<exists>c'. bi_take mc_next (length [[([97] :: bytes, VNull)], []]) BatchIterator_new (sample_cursor [] [[([97], VNull)], []] [[[]]]) =
          Inr ([[([97], VNull)], []], \<lparr>bi_n = 2\<rparr>, c') \<and>
        bi_nextSafe mc_next \<lparr>bi_n = 2\<rparr> c' = Inl (MsgAssertion 13383)"
proof -
  let ?c = "sample_cursor [] [[([97], VNull)], []] [[[]]]"
  have ok: "mc_ok ?c" by (rule sample_ok) simp_all
  have l: "mc_left ?c = [[([97], VNull)], []]" by simp
  have "int (length (mc_left ?c)) \<le> int32_max" unfolding l by (simp add: int32_max_def)
  note exact = batch_iterator_exact [OF mcb.batch_source_axioms ok this]
  have two: "left_in_batch ?c = 2" using exact [THEN conjunct1] unfolding l by simp
  show ?thesis using exact [THEN conjunct2] unfolding two l .
qed

text \<open>An object that is put back is the next one the cursor returns and one more to return from the
  batch; returning it leaves the cursor as it was.\<close>

lemma put_back_next:
  assumes "mc_ok c" and "length (mc_left c) + 1 < 2 ^ 31"
  shows "mc_next (putBack d c) = Inr (d, c) \<and> left_in_batch (putBack d c) = left_in_batch c + 1 \<and>
         moreInCurrentBatch (Some (putBack d c)) = Inr True"
proof -
  have ok: "mc_ok (putBack d c)" using assms by (simp add: mc_ok_def putBack_def mc_left_def)
  moreover have "mc_next (putBack d c) = Inr (d, c)" by (simp add: mc_next_def putBack_def)
  ultimately show ?thesis using assms
    by (simp add: mc_more_in_batch mc_left_in_batch) (simp add: mc_left_def putBack_def)
qed

lemma put_back_next_witness:
  "mc_next (putBack [([97], VNull)] (sample_cursor [] [[]] [])) =
     Inr ([([97], VNull)], sample_cursor [] [[]] [])"
  using put_back_next [OF sample_ok [of "[]" "[[]]" "[]"], of "[([97], VNull)]"]
  by simp

end
