(* ===== verification/Doubles.thy ===== *)
theory Doubles
  imports Prelude
begin

text \<open>
  IEEE 754 doubles as the code uses them: a double is its 64-bit pattern, \<open>dbl_value\<close> is the
  number the pattern stands for (\<^verbatim>\<open>m * 2 ^ e\<close>, an infinity or not a number), and the
  comparisons, the conversion from an integer (rounding to nearest, ties to even) and the cast to
  an integer (truncating, undefined when the result does not fit) are those of C++. The tests of
  \<^verbatim>\<open>mongo/platform/float_utils.h\<close> are written over them.
\<close>

section \<open>Values\<close>

type_synonym double = "64 word"

datatype dbl = NaN | Inf bool | Fin int int

definition dbl_sign :: "double \<Rightarrow> bool" where
  "dbl_sign d \<longleftrightarrow> 2 ^ 63 \<le> uint d"

definition dbl_exponent :: "double \<Rightarrow> int" where
  "dbl_exponent d = uint d div 2 ^ 52 mod 2 ^ 11"

definition dbl_fraction :: "double \<Rightarrow> int" where
  "dbl_fraction d = uint d mod 2 ^ 52"

definition dbl_value :: "double \<Rightarrow> dbl" where
  "dbl_value d =
     (if dbl_exponent d = 2047 then (if dbl_fraction d = 0 then Inf (dbl_sign d) else NaN)
      else let m = (if dbl_exponent d = 0 then dbl_fraction d else 2 ^ 52 + dbl_fraction d);
               e = (if dbl_exponent d = 0 then - 1074 else dbl_exponent d - 1075)
           in Fin (if dbl_sign d then - m else m) e)"

definition scale :: "int \<Rightarrow> int \<Rightarrow> int" where
  "scale m k = m * 2 ^ nat k"

fun val_less :: "dbl \<Rightarrow> dbl \<Rightarrow> bool" where
  "val_less (Fin m e) (Fin n f) \<longleftrightarrow> scale m (e - min e f) < scale n (f - min e f)"
| "val_less (Fin m e) (Inf neg) \<longleftrightarrow> \<not> neg"
| "val_less (Inf neg) (Fin m e) \<longleftrightarrow> neg"
| "val_less (Inf neg) (Inf neg') \<longleftrightarrow> neg \<and> \<not> neg'"
| "val_less NaN _ \<longleftrightarrow> False"
| "val_less _ NaN \<longleftrightarrow> False"

fun val_eq :: "dbl \<Rightarrow> dbl \<Rightarrow> bool" where
  "val_eq (Fin m e) (Fin n f) \<longleftrightarrow> scale m (e - min e f) = scale n (f - min e f)"
| "val_eq (Inf neg) (Inf neg') \<longleftrightarrow> neg = neg'"
| "val_eq _ _ \<longleftrightarrow> False"

text \<open>The difference before rounding; rounding never makes a nonzero difference zero.\<close>

fun val_minus :: "dbl \<Rightarrow> dbl \<Rightarrow> dbl" where
  "val_minus (Fin m e) (Fin n f) = Fin (scale m (e - min e f) - scale n (f - min e f)) (min e f)"
| "val_minus (Fin m e) (Inf neg) = Inf (\<not> neg)"
| "val_minus (Inf neg) (Fin m e) = Inf neg"
| "val_minus (Inf neg) (Inf neg') = (if neg = neg' then NaN else Inf neg)"
| "val_minus _ _ = NaN"

definition dbl_less :: "double \<Rightarrow> double \<Rightarrow> bool" where
  "dbl_less a b = val_less (dbl_value a) (dbl_value b)"

definition dbl_eq :: "double \<Rightarrow> double \<Rightarrow> bool" where
  "dbl_eq a b = val_eq (dbl_value a) (dbl_value b)"

section \<open>Conversions\<close>

fun bit_length :: "nat \<Rightarrow> nat" where
  "bit_length n = (if n = 0 then 0 else Suc (bit_length (n div 2)))"

declare bit_length.simps [simp del]

text \<open>The significand of \<open>a\<close> whose top bit is bit \<open>k\<close>, rounded to 53 bits, ties to even.\<close>

definition round_significand :: "nat \<Rightarrow> nat \<Rightarrow> nat" where
  "round_significand a k =
     (if k \<le> 52 then a * 2 ^ (52 - k)
      else let s = k - 52; q = a div 2 ^ s; r = a mod 2 ^ s; half = 2 ^ (s - 1)
           in if half < r \<or> r = half \<and> odd q then q + 1 else q)"

definition int_to_double :: "int \<Rightarrow> double" where
  "int_to_double n =
     (if n = 0 then 0
      else let a = nat \<bar>n\<bar>; k = bit_length a - 1
           in word_of_int ((if n < 0 then 2 ^ 63 else 0) + (int k + 1023) * 2 ^ 52 +
                (int (round_significand a k) - 2 ^ 52)))"

text \<open>Truncation toward zero.\<close>

definition val_trunc :: "int \<Rightarrow> int \<Rightarrow> int" where
  "val_trunc m e =
     (if 0 \<le> e then m * 2 ^ nat e
      else if m < 0 then - (- m div 2 ^ nat (- e)) else m div 2 ^ nat (- e))"

definition cast_to_int :: "int \<Rightarrow> int \<Rightarrow> double \<Rightarrow> int res" where
  "cast_to_int lo hi d =
     (case dbl_value d of
        Fin m e \<Rightarrow>
          (let n = val_trunc m e in if lo \<le> n \<and> n \<le> hi then Inr n else Inl UndefinedCast)
      | _ \<Rightarrow> Inl UndefinedCast)"

definition LLONG_MAX :: int where "LLONG_MAX = 9223372036854775807"
definition LLONG_MIN :: int where "LLONG_MIN = - 9223372036854775808"

definition double_to_int :: "double \<Rightarrow> int res" where
  "double_to_int d = cast_to_int int32_min int32_max d"

definition double_to_long :: "double \<Rightarrow> int res" where
  "double_to_long d = cast_to_int LLONG_MIN LLONG_MAX d"

section \<open>The tests of float_utils.h\<close>

definition isNaN :: "double \<Rightarrow> bool" where
  "isNaN d \<longleftrightarrow> \<not> dbl_eq d d"

text \<open>\<open>isInf\<close> also reports the sign: -1, 1 or, for a number that is not infinite, 0.\<close>

definition isInf :: "double \<Rightarrow> bool \<times> int" where
  "isInf d =
     (let tmp = d in
      if dbl_eq tmp d \<and> \<not> val_eq (val_minus (dbl_value tmp) (dbl_value d)) (Fin 0 0)
      then (True, if dbl_less d 0 then -1 else 1)
      else (False, 0))"

section \<open>Lemmas\<close>

lemma isNaN_iff: "isNaN d \<longleftrightarrow> dbl_value d = NaN"
  by (cases "dbl_value d") (simp_all add: isNaN_def dbl_eq_def)

lemma dbl_value_0: "dbl_value 0 = Fin 0 (- 1074)"
  by (simp add: dbl_value_def dbl_exponent_def dbl_fraction_def dbl_sign_def)

lemma isInf_iff: "isInf d = (case dbl_value d of Inf neg \<Rightarrow> (True, if neg then -1 else 1) | _ \<Rightarrow> (False, 0))"
  by (cases "dbl_value d") (simp_all add: isInf_def dbl_eq_def dbl_less_def dbl_value_0 scale_def)

lemma bit_length_bounds:
  assumes "0 < n"
  shows "2 ^ (bit_length n - 1) \<le> n \<and> n < 2 ^ bit_length n \<and> 0 < bit_length n"
  using assms
proof (induction n rule: bit_length.induct)
  case (1 n)
  show ?case
  proof (cases "n div 2 = 0")
    case True
    with 1 have "n = 1" by auto
    then show ?thesis by (simp add: bit_length.simps)
  next
    case False
    then obtain k where k: "bit_length (n div 2) = Suc k" "2 ^ k \<le> n div 2" "n div 2 < 2 * 2 ^ k"
      using 1 by (cases "bit_length (n div 2)") auto
    then have "2 * 2 ^ k \<le> n \<and> n < 2 * (2 * 2 ^ k)" by linarith
    with 1 k show ?thesis by (subst (1 2 3) bit_length.simps) simp
  qed
qed

lemma uint_of_parts:
  assumes "0 \<le> ex" "ex < 2 ^ 11" "0 \<le> fr" "fr < 2 ^ 52"
  shows "uint (word_of_int ((if neg then 2 ^ 63 else 0) + ex * 2 ^ 52 + fr) :: double) =
    (if neg then 2 ^ 63 else 0) + ex * 2 ^ 52 + fr"
  unfolding uint_word_of_int by (rule mod_pos_pos_trivial) (use assms in auto)

lemma dbl_parts:
  assumes "0 \<le> ex" "ex < 2 ^ 11" "0 \<le> fr" "fr < 2 ^ 52"
    and "d = word_of_int ((if neg then 2 ^ 63 else 0) + ex * 2 ^ 52 + fr)"
  shows "dbl_sign d = neg" "dbl_exponent d = ex" "dbl_fraction d = fr"
proof -
  have u: "uint d = (if neg then 2 ^ 63 else 0) + ex * 2 ^ 52 + fr"
    unfolding assms(5) by (rule uint_of_parts [OF assms(1-4)])
  show "dbl_sign d = neg" using assms(1-4) by (auto simp: dbl_sign_def u)
  have q: "uint d = 2 ^ 52 * ((if neg then 2 ^ 11 else 0) + ex) + fr" by (simp add: u)
  have "uint d div 2 ^ 52 = (if neg then 2 ^ 11 else 0) + ex"
    unfolding q using assms(3,4) by (simp only: div_mult_self4 div_pos_pos_trivial)
  then show "dbl_exponent d = ex" using assms(1,2) by (auto simp: dbl_exponent_def)
  show "dbl_fraction d = fr"
    unfolding dbl_fraction_def q using assms(3,4) by (simp only: mod_mult_self4 mod_pos_pos_trivial)
qed

text \<open>Converting an integer of at most 53 bits is exact: its value is \<open>n\<close>.\<close>

lemma int_to_double_exact:
  assumes "\<bar>n\<bar> < 2 ^ 53"
  shows "val_eq (dbl_value (int_to_double n)) (Fin n 0)"
proof (cases "n = 0")
  case True
  then show ?thesis by (simp add: int_to_double_def dbl_value_0 scale_def)
next
  case False
  let ?a = "nat \<bar>n\<bar>" and ?k = "bit_length (nat \<bar>n\<bar>) - 1"
  have b: "2 ^ ?k \<le> ?a" "?a < 2 ^ (?k + 1)"
    using bit_length_bounds [of ?a] False by (auto simp del: power_Suc)
  have "int ?a < 2 ^ 53" using assms by simp
  then have "?a < 2 ^ 53" by (metis of_nat_less_iff of_nat_numeral of_nat_power)
  with b(1) have "(2::nat) ^ ?k < 2 ^ 53" by (rule order.strict_trans1)
  then have k: "?k \<le> 52" using power_less_imp_less_exp [of "2::nat" ?k 53] by simp
  let ?s = "round_significand ?a ?k"
  have s: "?s = ?a * 2 ^ (52 - ?k)" using k by (simp add: round_significand_def)
  have "2 ^ ?k * 2 ^ (52 - ?k) \<le> ?s" unfolding s by (rule mult_le_mono1 [OF b(1)])
  then have lo: "2 ^ 52 \<le> ?s" using k by (simp flip: power_add)
  have "?s < 2 ^ (?k + 1) * 2 ^ (52 - ?k)" unfolding s by (rule mult_less_mono1 [OF b(2)]) simp
  then have hi: "?s < 2 ^ 53" using k by (simp only: power_add [symmetric]) simp
  let ?f = "int ?s - 2 ^ 52"
  have f: "0 \<le> ?f" "?f < 2 ^ 52" using lo hi by simp_all
  have e: "0 \<le> int ?k + 1023" "int ?k + 1023 < 2 ^ 11" using k by simp_all
  have d: "int_to_double n =
      word_of_int ((if n < 0 then 2 ^ 63 else 0) + (int ?k + 1023) * 2 ^ 52 + ?f)"
    using False by (simp add: int_to_double_def Let_def)
  note p = dbl_parts [OF e f d]
  have v: "dbl_value (int_to_double n) =
      Fin (if n < 0 then - int ?s else int ?s) (int ?k - 52)"
    using k by (simp add: dbl_value_def p Let_def)
  have "int ?s = int ?a * 2 ^ (52 - ?k)" unfolding s by simp
  then have "(if n < 0 then - int ?s else int ?s) = n * 2 ^ (52 - ?k)"
    by (cases "n < 0") (simp_all only: if_True if_False nat_0_le abs_ge_zero abs_of_neg
        abs_of_nonneg not_less mult_minus_left minus_minus, simp)
  moreover have "nat (52 - int ?k) = 52 - ?k" by simp
  ultimately show ?thesis using k by (simp add: v scale_def min_def)
qed

lemma scale_sign: "scale m k < 0 \<longleftrightarrow> m < 0"
  by (simp add: scale_def mult_less_0_iff)

lemma scale_0: "scale 0 k = 0"
  by (simp add: scale_def)

lemma dbl_less_0: "dbl_value d = Fin m e \<Longrightarrow> dbl_less d 0 \<longleftrightarrow> m < 0"
  by (simp add: dbl_less_def dbl_value_0 scale_0 scale_sign)

lemma round_significand_bounds:
  assumes "2 ^ k \<le> a" and "a < 2 ^ (k + 1)"
  shows "2 ^ 52 \<le> round_significand a k \<and> round_significand a k \<le> 2 ^ 53"
proof (cases "k \<le> 52")
  case True
  have "2 ^ (k + (52 - k)) \<le> a * 2 ^ (52 - k)" "a * 2 ^ (52 - k) \<le> 2 ^ (k + 1 + (52 - k))"
    using assms by (simp_all only: power_add mult_le_mono1 less_imp_le)
  moreover have "k + (52 - k) = 52" "k + 1 + (52 - k) = 53" using True by simp_all
  ultimately show ?thesis using True by (simp only: round_significand_def if_True)
next
  case False
  define s where "s = k - 52"
  have k: "k = 52 + s" "52 < k" using False by (simp_all add: s_def)
  have "2 ^ 52 * 2 ^ s \<le> a" using assms(1) by (simp add: k(1) power_add)
  then have lo: "2 ^ 52 \<le> a div 2 ^ s" by (metis div_le_mono nonzero_mult_div_cancel_right power_not_zero zero_neq_numeral)
  have "a < 2 ^ 53 * 2 ^ s" using assms(2) by (simp add: k(1) power_add)
  then have hi: "a div 2 ^ s < 2 ^ 53" by (simp only: less_mult_imp_div_less)
  show ?thesis using lo hi k(2) by (simp add: round_significand_def Let_def s_def)
qed

text \<open>Rounding keeps the sign of every 64-bit integer.\<close>

lemma int_to_double_sign:
  assumes "\<bar>n\<bar> \<le> 2 ^ 63"
  shows "dbl_less (int_to_double n) 0 \<longleftrightarrow> n < 0"
proof (cases "n = 0")
  case True
  then show ?thesis using dbl_less_0 [OF dbl_value_0] by (simp add: int_to_double_def)
next
  case False
  let ?a = "nat \<bar>n\<bar>"
  define k where "k = bit_length ?a - 1"
  define s where "s = int (round_significand ?a k)"
  have b: "2 ^ k \<le> ?a" "?a < 2 ^ (k + 1)"
    using bit_length_bounds [of ?a] False by (auto simp: k_def simp del: power_Suc)
  have "?a \<le> 2 ^ 63" using assms by (simp add: nat_le_iff)
  with b(1) have "(2::nat) ^ k \<le> 2 ^ 63" by (rule order.trans)
  then have k63: "k \<le> 63" using power_le_imp_le_exp [of "2::nat" k 63] by simp
  have r: "2 ^ 52 \<le> s" "s \<le> 2 ^ 53"
    using round_significand_bounds [OF b] by (simp_all add: s_def)
  define ex where "ex = int k + (if s = 2 ^ 53 then 1024 else 1023)"
  define fr where "fr = (if s = 2 ^ 53 then 0 else s - 2 ^ 52)"
  have p: "0 \<le> ex" "ex < 2 ^ 11" "0 \<le> fr" "fr < 2 ^ 52" "0 < ex" "ex \<noteq> 2047"
    using k63 r by (auto simp: ex_def fr_def)
  have d: "int_to_double n = word_of_int ((if n < 0 then 2 ^ 63 else 0) + ex * 2 ^ 52 + fr)"
  proof -
    have "int_to_double n = word_of_int ((if n < 0 then 2 ^ 63 else 0) + (int k + 1023) * 2 ^ 52 + (s - 2 ^ 52))"
      using False by (simp only: int_to_double_def Let_def if_False k_def s_def)
    moreover have "(int k + 1023) * 2 ^ 52 + (s - 2 ^ 52) = ex * 2 ^ 52 + fr" by (simp add: ex_def fr_def)
    ultimately show ?thesis by (simp only: add.assoc)
  qed
  have "dbl_value (int_to_double n) = Fin (if n < 0 then - (2 ^ 52 + fr) else 2 ^ 52 + fr) (ex - 1075)"
    using p by (simp add: dbl_value_def dbl_parts [OF p(1-4) d] Let_def)
  from dbl_less_0 [OF this] show ?thesis using p(3) by auto
qed

section \<open>Comparison and truncation against integers\<close>

text \<open>\<open>n < m * 2 ^ f\<close> and \<open>m * 2 ^ f < n\<close>, cleared of the negative exponent.\<close>

definition int_less_fin :: "int \<Rightarrow> int \<Rightarrow> int \<Rightarrow> bool" where
  "int_less_fin n m f \<longleftrightarrow> n * 2 ^ nat (- f) < m * 2 ^ nat f"

definition fin_less_int :: "int \<Rightarrow> int \<Rightarrow> int \<Rightarrow> bool" where
  "fin_less_int m f n \<longleftrightarrow> m * 2 ^ nat f < n * 2 ^ nat (- f)"

lemma scale_shift:
  assumes "k \<le> min e f" and "x = e \<or> x = f"
  shows "m * 2 ^ nat (x - k) = scale m (x - min e f) * 2 ^ nat (min e f - k)"
proof -
  have "nat (x - k) = nat (x - min e f) + nat (min e f - k)" using assms by auto
  then show ?thesis by (simp add: scale_def power_add)
qed

lemma val_less_shift:
  assumes "k \<le> min e f"
  shows "val_less (Fin m e) (Fin n f) \<longleftrightarrow> m * 2 ^ nat (e - k) < n * 2 ^ nat (f - k)"
  using scale_shift [OF assms, of e m] scale_shift [OF assms, of f n] by simp

lemma val_less_int:
  assumes "0 \<le> j"
  shows "val_less (Fin n j) (Fin m f) \<longleftrightarrow> int_less_fin (n * 2 ^ nat j) m f"
    and "val_less (Fin m f) (Fin n j) \<longleftrightarrow> fin_less_int m f (n * 2 ^ nat j)"
proof -
  have k: "min 0 f \<le> min j f" "min 0 f \<le> min f j" using assms by auto
  have e: "nat (j - min 0 f) = nat j + nat (- f)" "nat (f - min 0 f) = nat f" using assms by auto
  show "val_less (Fin n j) (Fin m f) \<longleftrightarrow> int_less_fin (n * 2 ^ nat j) m f"
    unfolding val_less_shift [OF k(1)] e by (simp add: int_less_fin_def power_add mult.assoc)
  show "val_less (Fin m f) (Fin n j) \<longleftrightarrow> fin_less_int m f (n * 2 ^ nat j)"
    unfolding val_less_shift [OF k(2)] e by (simp add: fin_less_int_def power_add mult.assoc)
qed

lemma LLONG_doubles:
  "dbl_value (int_to_double LLONG_MAX) = Fin (2 ^ 52) 11"
  "dbl_value (int_to_double LLONG_MIN) = Fin (- (2 ^ 52)) 11"
  by (simp_all add: int_to_double_def LLONG_MAX_def LLONG_MIN_def bit_length.simps
      round_significand_def dbl_value_def dbl_exponent_def dbl_fraction_def dbl_sign_def Let_def)

lemma dbl_less_LLONG:
  assumes "dbl_value d = Fin m f"
  shows "dbl_less (int_to_double LLONG_MAX) d \<longleftrightarrow> int_less_fin (2 ^ 63) m f"
    and "dbl_less d (int_to_double LLONG_MIN) \<longleftrightarrow> fin_less_int m f (- (2 ^ 63))"
  unfolding dbl_less_def LLONG_doubles assms by (simp_all only: val_less_int) simp_all

lemma val_trunc_range:
  assumes "0 < n"
  shows "fin_less_int m f n \<Longrightarrow> val_trunc m f < n"
    and "\<not> fin_less_int m f (- n) \<Longrightarrow> - n \<le> val_trunc m f"
    and "\<not> fin_less_int m f n \<Longrightarrow> n \<le> val_trunc m f"
proof -
  let ?P = "2 ^ nat (- f) :: int"
  have P: "0 < ?P" by simp
  have ge: "(n \<le> a div ?P) = (n * ?P \<le> a)" for a n
  proof
    assume "n \<le> a div ?P"
    then have "n * ?P \<le> a div ?P * ?P" using P by (simp add: mult_right_mono)
    also have "\<dots> \<le> a" using P by (metis div_mult_mod_eq le_add_same_cancel1 pos_mod_sign)
    finally show "n * ?P \<le> a" .
  next
    assume "n * ?P \<le> a"
    then have "n * ?P div ?P \<le> a div ?P" using P by (rule zdiv_mono1)
    then show "n \<le> a div ?P" by simp
  qed
  have div: "(a div ?P < n) = (a < n * ?P)" "(n \<le> a div ?P) = (n * ?P \<le> a)" for a n
    using ge [of n a] by linarith+
  show "fin_less_int m f n \<Longrightarrow> val_trunc m f < n"
  proof (cases "m < 0 \<and> f < 0")
    case True
    then have "0 \<le> - m div ?P" by (simp add: pos_imp_zdiv_nonneg_iff)
    then show "val_trunc m f < n" using True assms by (simp add: val_trunc_def)
  qed (auto simp: val_trunc_def fin_less_int_def div)
  show "- n \<le> val_trunc m f" if lo: "\<not> fin_less_int m f (- n)"
  proof (cases "0 \<le> f")
    case True
    then show ?thesis using lo by (simp add: val_trunc_def fin_less_int_def)
  next
    case f: False
    show ?thesis
    proof (cases "m < 0")
      case True
      have "- m \<le> n * ?P" using lo f by (simp add: fin_less_int_def)
      also have "n * ?P < (n + 1) * ?P" using P by (simp add: algebra_simps)
      finally have "- m div ?P < n + 1" unfolding div .
      then show ?thesis using f True by (simp add: val_trunc_def)
    next
      case False
      then have "0 \<le> m div ?P" by (simp add: pos_imp_zdiv_nonneg_iff)
      then show ?thesis using f False assms by (simp add: val_trunc_def)
    qed
  qed
  show "n \<le> val_trunc m f" if hi: "\<not> fin_less_int m f n"
  proof (cases "0 \<le> f")
    case True
    then show ?thesis using hi by (simp add: val_trunc_def fin_less_int_def)
  next
    case f: False
    have "n * ?P \<le> m" using hi f by (simp add: fin_less_int_def)
    moreover from this have "\<not> m < 0" using assms P by (smt (verit) mult_pos_pos)
    ultimately show ?thesis using f div(2) by (simp add: val_trunc_def)
  qed
qed

end
