(* ===== verification/StrUtil.thy ===== *)
theory StrUtil
  imports StringData
begin

text \<open>
  \<^verbatim>\<open>mongo/util/mongoutils/str.h\<close>. A \<^verbatim>\<open>std::string\<close> is its bytes and may hold nulls; what
  the functions that go through \<^verbatim>\<open>c_str()\<close> see of it is the part before its first null. A
  \<^verbatim>\<open>const char*\<close> argument is given by the bytes before its terminator.
\<close>

definition c_str :: "bytes \<Rightarrow> bytes" where
  "c_str s = takeWhile (\<lambda>b. b \<noteq> 0) s"

text \<open>
  \<^verbatim>\<open>strchr\<close> also finds the terminator; \<open>strrchr\<close> searches backwards; \<open>strstr\<close> is the first
  occurrence of a C string.
\<close>

definition strchr :: "bytes \<Rightarrow> byte \<Rightarrow> nat option" where
  "strchr cs x = memchr (cs @ [0]) x"

definition strrchr :: "bytes \<Rightarrow> byte \<Rightarrow> nat option" where
  "strrchr cs x = rfind_loop (cs @ [0]) x (Suc (length cs))"

definition strstr :: "bytes \<Rightarrow> bytes \<Rightarrow> nat option" where
  "strstr cs x = find_str cs x"

fun str_startsWith :: "bytes \<Rightarrow> bytes \<Rightarrow> bool" where
  "str_startsWith s [] = True"
| "str_startsWith [] (p # ps) = False"
| "str_startsWith (c # s) (p # ps) = (if p \<noteq> c then False else str_startsWith s ps)"

definition str_startsWith_string :: "bytes \<Rightarrow> bytes \<Rightarrow> bool" where
  "str_startsWith_string s p = str_startsWith (c_str s) (c_str p)"

definition str_startsWith_char :: "bytes \<Rightarrow> byte \<Rightarrow> bool" where
  "str_startsWith_char p ch = ((p @ [0]) ! 0 = ch)"

text \<open>\<^verbatim>\<open>strncmp\<close> stops at a null; equality of the first \<open>n\<close> bytes of two C strings.\<close>

definition strncmp_eq :: "bytes \<Rightarrow> bytes \<Rightarrow> nat \<Rightarrow> bool" where
  "strncmp_eq a b n \<longleftrightarrow> take n (a @ [0]) = take n (b @ [0])"

definition str_endsWith_string :: "bytes \<Rightarrow> bytes \<Rightarrow> bool" where
  "str_endsWith_string s p =
     (let l = length p; x = length s in
      if x < l then False
      else strncmp_eq (c_str (drop (x - l) s)) (c_str p) l)"

definition str_endsWith_char :: "bytes \<Rightarrow> byte \<Rightarrow> bool" where
  "str_endsWith_char s p = (let len = length s in len \<noteq> 0 \<and> s ! (len - 1) = p)"

definition str_endsWith :: "bytes \<Rightarrow> bytes \<Rightarrow> bool" where
  "str_endsWith p sffx =
     (let a = length p; b = length sffx in
      if b > a then False else drop (a - b) p = sffx)"

definition str_equals :: "bytes \<Rightarrow> bytes \<Rightarrow> bool" where
  "str_equals a b \<longleftrightarrow> a = b"

text \<open>
  \<open>after\<close> with a null character finds the terminator, and the string it returns starts past
  it, outside the storage.
\<close>

definition after_char :: "bytes \<Rightarrow> byte \<Rightarrow> bytes res" where
  "after_char s x =
     (case strchr s x of None \<Rightarrow> Inr []
      | Some p \<Rightarrow> if p + 1 \<le> length s then Inr (drop (p + 1) s) else Inl BadAccess)"

definition after_char_string :: "bytes \<Rightarrow> byte \<Rightarrow> bytes res" where
  "after_char_string s x =
     (case strchr (c_str s) x of None \<Rightarrow> Inr []
      | Some p \<Rightarrow> if p + 1 \<le> length s then Inr (c_str (drop (p + 1) s)) else Inl BadAccess)"

definition after_str :: "bytes \<Rightarrow> bytes \<Rightarrow> bytes" where
  "after_str s x = (case strstr s x of None \<Rightarrow> [] | Some p \<Rightarrow> drop (p + length x) s)"

definition after_str_string :: "bytes \<Rightarrow> bytes \<Rightarrow> bytes res" where
  "after_str_string s x =
     (case strstr (c_str s) (c_str x) of None \<Rightarrow> Inr []
      | Some p \<Rightarrow>
          if p + length x \<le> length s then Inr (c_str (drop (p + length x) s)) else Inl BadAccess)"

definition str_contains :: "bytes \<Rightarrow> bytes \<Rightarrow> bool" where
  "str_contains s x \<longleftrightarrow> strstr (c_str s) (c_str x) \<noteq> None"

definition str_contains_char :: "bytes \<Rightarrow> byte \<Rightarrow> bool res" where
  "str_contains_char s x = bindE (verify (x \<noteq> 0)) (\<lambda>_. Inr (strchr (c_str s) x \<noteq> None))"

definition before_char :: "bytes \<Rightarrow> byte \<Rightarrow> bytes" where
  "before_char s x = (case strchr (c_str s) x of None \<Rightarrow> s | Some p \<Rightarrow> take p s)"

definition before_str :: "bytes \<Rightarrow> bytes \<Rightarrow> bytes" where
  "before_str s x = (case strstr (c_str s) (c_str x) of None \<Rightarrow> s | Some p \<Rightarrow> take p s)"

fun shareCommonPrefix_loop :: "bytes \<Rightarrow> bytes \<Rightarrow> int \<Rightarrow> int" where
  "shareCommonPrefix_loop (p # ps) (q # qs) ofs =
     (if p \<noteq> q then ofs else shareCommonPrefix_loop ps qs (ofs + 1))"
| "shareCommonPrefix_loop _ _ ofs = ofs"

definition shareCommonPrefix :: "bytes \<Rightarrow> bytes \<Rightarrow> int" where
  "shareCommonPrefix p q = shareCommonPrefix_loop p q 0"

definition isdigit :: "byte \<Rightarrow> bool" where
  "isdigit c \<longleftrightarrow> 48 \<le> c \<and> c \<le> 57"

fun toUnsigned_loop :: "bytes \<Rightarrow> 32 word \<Rightarrow> 32 word" where
  "toUnsigned_loop [] x = x"
| "toUnsigned_loop (p # ps) x =
     (if \<not> isdigit p then x else toUnsigned_loop ps (x * 10 + (ucast p - 48)))"

definition toUnsigned :: "bytes \<Rightarrow> 32 word" where
  "toUnsigned a = toUnsigned_loop (c_str a) 0"

text \<open>The result of a split is the flag, \<open>L\<close> and \<open>R\<close>.\<close>

definition splitOn :: "bytes \<Rightarrow> byte \<Rightarrow> (bool \<times> bytes \<times> bytes) res" where
  "splitOn s c =
     (let start = c_str s in
      case strchr start c of
        None \<Rightarrow> Inr (False, s, [])
      | Some p \<Rightarrow>
          if p + 1 \<le> length s
          then Inr (True, take p start, c_str (drop (p + 1) s)) else Inl BadAccess)"

definition rSplitOn :: "bytes \<Rightarrow> byte \<Rightarrow> (bool \<times> bytes \<times> bytes) res" where
  "rSplitOn s c =
     (let start = c_str s in
      case strrchr start c of
        None \<Rightarrow> Inr (False, s, [])
      | Some p \<Rightarrow>
          if p + 1 \<le> length s
          then Inr (True, take p start, c_str (drop (p + 1) s)) else Inl BadAccess)"

fun str_count_loop :: "bytes \<Rightarrow> byte \<Rightarrow> nat \<Rightarrow> nat" where
  "str_count_loop [] c n = n"
| "str_count_loop (x # s) c n = str_count_loop s c (if x = c then n + 1 else n)"

definition str_count :: "bytes \<Rightarrow> byte \<Rightarrow> nat" where
  "str_count s c = str_count_loop s c 0"

fun ltrim_loop :: "bytes \<Rightarrow> bytes" where
  "ltrim_loop [] = []"
| "ltrim_loop (p # ps) = (if p = 32 then ltrim_loop ps else p # ps)"

definition ltrim :: "bytes \<Rightarrow> bytes" where
  "ltrim s = ltrim_loop (c_str s)"

text \<open>
  The loop of \<open>stripTrailing\<close>, over the string it edits in place: \<open>i\<close> is the read position,
  \<open>t\<close> the write position, \<open>k\<close> the characters left to read.
\<close>

fun stripTrailing_loop :: "bytes \<Rightarrow> bytes \<Rightarrow> nat \<Rightarrow> nat \<Rightarrow> nat \<Rightarrow> (bytes \<times> nat) res" where
  "stripTrailing_loop chars s t i 0 = Inr (s, t)"
| "stripTrailing_loop chars s t i (Suc k) =
     bindE (str_contains_char chars (s ! i)) (\<lambda>found.
       if \<not> found then
         stripTrailing_loop chars (if i \<noteq> t then s[t := s ! i] else s) (t + 1) (i + 1) k
       else stripTrailing_loop chars s t (i + 1) k)"

definition stripTrailing :: "bytes \<Rightarrow> bytes \<Rightarrow> bytes res" where
  "stripTrailing s chars =
     bindE (stripTrailing_loop chars s 0 0 (length s)) (\<lambda>(s', t). Inr (take t s'))"

section \<open>What the functions compute\<close>

lemma c_str_no_null: "0 \<notin> set s \<Longrightarrow> c_str s = s"
  unfolding c_str_def by (rule takeWhile_eq_all_conv [THEN iffD2]) auto

lemma null_notin_c_str: "0 \<notin> set (c_str s)"
  by (auto simp: c_str_def dest: set_takeWhileD)

lemma length_c_str: "length (c_str s) \<le> length s"
  by (simp add: c_str_def length_takeWhile_le)

lemma strchr_Some:
  "strchr cs x = Some i \<longleftrightarrow>
     i \<le> length cs \<and> (cs @ [0]) ! i = x \<and> (\<forall>j<i. (cs @ [0]) ! j \<noteq> x)"
  by (auto simp: strchr_def memchr_Some)

lemma strchr_None: "strchr cs x = None \<longleftrightarrow> x \<noteq> 0 \<and> x \<notin> set cs"
  by (auto simp: strchr_def memchr_None)

lemma strchr_split:
  assumes "strchr cs x = Some i" and "x \<noteq> 0"
  shows "cs = take i cs @ x # drop (Suc i) cs \<and> x \<notin> set (take i cs)"
proof -
  from assms have i: "i < length cs" "cs ! i = x" "\<forall>j<i. cs ! j \<noteq> x"
    by (auto simp: strchr_Some nth_append le_less)
  then show ?thesis
    by (auto simp: in_set_conv_nth intro: id_take_nth_drop)
qed

lemma strrchr_split:
  assumes "strrchr cs x = Some i" and "x \<noteq> 0"
  shows "cs = take i cs @ x # drop (Suc i) cs \<and> x \<notin> set (drop (Suc i) cs)"
proof -
  from assms(1) have r: "i < Suc (length cs)" "(cs @ [0]) ! i = x"
    "\<And>j. i < j \<Longrightarrow> j < Suc (length cs) \<Longrightarrow> (cs @ [0]) ! j \<noteq> x"
    unfolding strrchr_def rfind_loop_Some by blast+
  with assms(2) have i: "i < length cs" "cs ! i = x"
    by (auto simp: nth_append less_Suc_eq)
  moreover have "x \<notin> set (drop (Suc i) cs)"
  proof
    assume "x \<in> set (drop (Suc i) cs)"
    then obtain k where k: "k < length cs - Suc i" "cs ! (Suc i + k) = x"
      by (auto simp: in_set_conv_nth)
    with r(3) [of "Suc i + k"] show False
      by (auto simp: nth_append less_diff_conv add.commute)
  qed
  ultimately show ?thesis using id_take_nth_drop [of i cs] by simp
qed

lemma str_startsWith_iff: "str_startsWith s p \<longleftrightarrow> prefix p s"
  by (induction s p rule: str_startsWith.induct) auto

lemma str_endsWith_iff: "str_endsWith p sffx \<longleftrightarrow> suffix sffx p"
  unfolding str_endsWith_def Let_def
  by (metis append_eq_conv_conj append_take_drop_id diff_diff_cancel length_append length_drop
      not_le suffix_def suffix_length_le append_eq_append_conv)

lemma shareCommonPrefix_loop_eq:
  "shareCommonPrefix_loop p q n = n + int (length (longest_common_prefix p q))"
  by (induction p q n rule: shareCommonPrefix_loop.induct) auto

lemma str_count_loop_eq: "str_count_loop s c n = n + count_list s c"
  by (induction s c n rule: str_count_loop.induct) auto

lemma ltrim_loop_eq: "ltrim_loop s = dropWhile (\<lambda>b. b = 32) s"
  by (induction s) auto

text \<open>The value of a decimal digit string.\<close>

definition digits_value :: "bytes \<Rightarrow> nat" where
  "digits_value ds = foldl (\<lambda>v d. v * 10 + (unat d - 48)) 0 ds"

lemma foldl_digits_mod:
  assumes "list_all isdigit ds"
  shows "toUnsigned_loop (ds @ rest) (of_nat v) =
    toUnsigned_loop rest (of_nat (foldl (\<lambda>v d. v * 10 + (unat d - 48)) v ds))"
  using assms
proof (induction ds arbitrary: v)
  case (Cons d ds)
  then have d: "isdigit d" by simp
  then have le: "48 \<le> unat d" by (simp add: isdigit_def word_le_nat_alt)
  have "ucast d - (48 :: 32 word) = of_nat (unat d - 48)"
    using le by (simp add: of_nat_diff)
  then have "of_nat v * 10 + (ucast d - (48 :: 32 word)) = of_nat (v * 10 + (unat d - 48))"
    by simp
  with d Cons.IH [of "v * 10 + (unat d - 48)"] Cons.prems show ?case by (simp del: of_nat_add)
qed simp

lemma strip_keeps:
  assumes "0 \<notin> set s" "0 \<notin> set chars"
    and "t \<le> i" and "i + k = length s"
  shows "\<exists>s'. stripTrailing_loop chars s t i k = Inr (s', t + length (filter (\<lambda>c. c \<notin> set chars) (drop i s))) \<and>
     take (t + length (filter (\<lambda>c. c \<notin> set chars) (drop i s))) s' =
       take t s @ filter (\<lambda>c. c \<notin> set chars) (drop i s)"
  using assms
proof (induction k arbitrary: s t i)
  case 0
  then show ?case by simp
next
  case (Suc k)
  then have i: "i < length s" by simp
  then have d: "drop i s = s ! i # drop (Suc i) s" by (simp add: Cons_nth_drop_Suc)
  have nz: "s ! i \<noteq> 0" using Suc.prems(1) i by (metis nth_mem)
  have f: "str_contains_char chars (s ! i) = Inr (s ! i \<in> set chars)"
    using nz Suc.prems(2) strchr_None [of chars "s ! i"]
    by (simp add: str_contains_char_def c_str_no_null)
  show ?case
  proof (cases "s ! i \<in> set chars")
    case True
    have "\<exists>s'. stripTrailing_loop chars s t (i + 1) k =
        Inr (s', t + length (filter (\<lambda>c. c \<notin> set chars) (drop (i + 1) s))) \<and>
       take (t + length (filter (\<lambda>c. c \<notin> set chars) (drop (i + 1) s))) s' =
         take t s @ filter (\<lambda>c. c \<notin> set chars) (drop (i + 1) s)"
      by (rule Suc.IH) (use Suc.prems in auto)
    with True f d show ?thesis by simp
  next
    case False
    let ?s = "if i \<noteq> t then s[t := s ! i] else s"
    have nz': "0 \<notin> set ?s"
      using nz Suc.prems(1) by (auto dest!: set_update_subset_insert [THEN subsetD])
    have dr: "drop (i + 1) ?s = drop (i + 1) s"
      using Suc.prems(3) by auto
    have tk: "take (t + 1) ?s = take t s @ [s ! i]"
      using Suc.prems(3) i by (auto simp: take_Suc_conv_app_nth)
    have "\<exists>s'. stripTrailing_loop chars ?s (t + 1) (i + 1) k =
        Inr (s', t + 1 + length (filter (\<lambda>c. c \<notin> set chars) (drop (i + 1) ?s))) \<and>
       take (t + 1 + length (filter (\<lambda>c. c \<notin> set chars) (drop (i + 1) ?s))) s' =
         take (t + 1) ?s @ filter (\<lambda>c. c \<notin> set chars) (drop (i + 1) ?s)"
      by (rule Suc.IH) (use nz' Suc.prems in auto)
    with False f d dr tk show ?thesis by simp
  qed
qed

section \<open>Properties\<close>

text \<open>\<open>stripTrailing\<close> removes every occurrence of the given characters, wherever it is in
  the string, and never fails on a string without nulls; the comment in the source promises the
  removal of trailing characters only.\<close>

theorem stripTrailing_filters:
  assumes "0 \<notin> set s" and "0 \<notin> set chars"
  shows "stripTrailing s chars = Inr (filter (\<lambda>c. c \<notin> set chars) s)"
  using strip_keeps [OF assms, of 0 0 "length s"] by (auto simp: stripTrailing_def)

theorem stripTrailing_filters_witness:
  "stripTrailing [97, 32, 98, 32] [32] = Inr [97, 98]"
  using stripTrailing_filters [of "[97, 32, 98, 32]" "[32]"] by simp

text \<open>Splitting on a character cuts a string without nulls at the first occurrence of it:
  the two parts joined by the character are the string again, and the left part has none.\<close>

theorem splitOn_roundtrip:
  assumes "0 \<notin> set s" and "splitOn s c = Inr (True, L, R)"
  shows "s = L @ c # R \<and> c \<notin> set L"
proof -
  from assms obtain p where p: "strchr s c = Some p" "p + 1 \<le> length s"
    and LR: "L = take p s" "R = c_str (drop (p + 1) s)"
    by (auto simp: splitOn_def c_str_no_null split: option.splits if_splits)
  from p have c0: "c \<noteq> 0"
    using assms(1) nth_mem [of p s] by (auto simp: strchr_Some nth_append split: if_splits)
  have "R = drop (Suc p) s"
    using assms(1) LR c_str_no_null [of "drop (Suc p) s"] in_set_dropD [of 0 "Suc p" s] by auto
  with strchr_split [OF p(1) c0] LR show ?thesis by simp
qed

theorem splitOn_roundtrip_witness:
  "[97, 61, 98] = [97] @ 61 # [98 :: byte] \<and> (61 :: byte) \<notin> set [97]"
  by (rule splitOn_roundtrip) (simp_all add: splitOn_def c_str_def strchr_def)

text \<open>Splitting from the right cuts at the last occurrence.\<close>

theorem rSplitOn_roundtrip:
  assumes "0 \<notin> set s" and "rSplitOn s c = Inr (True, L, R)"
  shows "s = L @ c # R \<and> c \<notin> set R"
proof -
  from assms obtain p where p: "strrchr s c = Some p" "p + 1 \<le> length s"
    and LR: "L = take p s" "R = c_str (drop (p + 1) s)"
    by (auto simp: rSplitOn_def c_str_no_null split: option.splits if_splits)
  from p(1) have "(s @ [0]) ! p = c"
    unfolding strrchr_def rfind_loop_Some by blast
  with p(2) have c0: "c \<noteq> 0"
    using assms(1) nth_mem [of p s] by (auto simp: nth_append split: if_splits)
  have "R = drop (Suc p) s"
    using assms(1) LR c_str_no_null [of "drop (Suc p) s"] in_set_dropD [of 0 "Suc p" s] by auto
  with strrchr_split [OF p(1) c0] LR show ?thesis by simp
qed

theorem rSplitOn_roundtrip_witness:
  "[97, 61, 98, 61, 99] = [97, 61, 98] @ 61 # [99 :: byte] \<and> (61 :: byte) \<notin> set [99]"
  by (rule rSplitOn_roundtrip) (simp_all add: rSplitOn_def c_str_def strrchr_def)

text \<open>\<open>toUnsigned\<close> reads the decimal value of the leading digits, modulo \<open>2 ^ 32\<close>.\<close>

theorem toUnsigned_value:
  assumes "list_all isdigit ds" and "rest = [] \<or> \<not> isdigit (hd rest)" and "0 \<notin> set rest"
  shows "unat (toUnsigned (ds @ rest)) = digits_value ds mod 2 ^ 32"
proof -
  have "0 \<notin> set ds" using assms(1) by (auto simp: list_all_iff isdigit_def)
  then have "toUnsigned (ds @ rest) = toUnsigned_loop (ds @ rest) (of_nat 0)"
    using assms(3) by (simp add: toUnsigned_def c_str_no_null)
  also have "\<dots> = toUnsigned_loop rest (of_nat (digits_value ds))"
    unfolding digits_value_def by (rule foldl_digits_mod [OF assms(1)])
  also have "\<dots> = of_nat (digits_value ds)"
    using assms(2) by (cases rest) auto
  finally show ?thesis by (simp add: unat_of_nat)
qed

theorem toUnsigned_value_witness:
  "unat (toUnsigned ([50, 55] @ [58, 49])) = digits_value [50, 55] mod 2 ^ 32"
  by (rule toUnsigned_value) (simp_all add: isdigit_def)

end
