(* ===== verification/Client.thy ===== *)
theory Client
  imports ConnString Cursor Doubles StrUtil
begin

text \<open>
  The inline operations of \<^verbatim>\<open>mongo/client/dbclientinterface.h\<close> (queries, the commands that the header
  builds itself, the connection), of \<^verbatim>\<open>dbclient_rs.h\<close>, \<^verbatim>\<open>exceptions.h\<close> and \<^verbatim>\<open>init.h\<close>. An object is its
  document. What is only declared (running a command, connecting, the parts of a namespace) is an
  argument; \<open>'s\<close> is the world it acts on, the client and its server.
\<close>

section \<open>Queries\<close>

record Query =
  q_obj :: doc

definition Query_new :: Query where
  "Query_new = \<lparr>q_obj = []\<rparr>"

definition Query_of :: "doc \<Rightarrow> Query" where
  "Query_of b = \<lparr>q_obj = b\<rparr>"

definition q_sort_field :: "(doc \<Rightarrow> Query \<Rightarrow> Query) \<Rightarrow> bytes \<Rightarrow> 32 word \<Rightarrow> Query \<Rightarrow> Query" where
  "q_sort_field sort_obj field asc q = sort_obj [(field, VInt asc)] q"

definition q_where :: "(bytes \<Rightarrow> doc \<Rightarrow> Query \<Rightarrow> Query) \<Rightarrow> bytes \<Rightarrow> Query \<Rightarrow> Query" where
  "q_where where_scope jscode q = where_scope jscode [] q"

definition q_string :: "(Query \<Rightarrow> bytes) \<Rightarrow> Query \<Rightarrow> bytes" where
  "q_string toString q = toString q"

text \<open>The builder copies the elements of the query and appends one; \<open>Builders\<close> has the builder itself.\<close>

definition appendComplex :: "(Query \<Rightarrow> Query) \<Rightarrow> bytes \<Rightarrow> bson_val \<Rightarrow> Query \<Rightarrow> Query" where
  "appendComplex makeComplex fname v q =
     (let q = makeComplex q in q\<lparr>q_obj := q_obj q @ [(fname, v)]\<rparr>)"

definition q_stream :: "(Query \<Rightarrow> bytes) \<Rightarrow> bytes \<Rightarrow> Query \<Rightarrow> bytes" where
  "q_stream toString s q = s @ toString q"

record QuerySpec =
  qs_ns :: bytes
  qs_ntoskip :: int
  qs_ntoreturn :: int
  qs_options :: int
  qs_query :: doc
  qs_fields :: doc
  qs_queryObj :: Query

definition QuerySpec_new :: "bytes \<Rightarrow> doc \<Rightarrow> doc \<Rightarrow> int \<Rightarrow> int \<Rightarrow> int \<Rightarrow> QuerySpec" where
  "QuerySpec_new ns query flds ntoskip ntoreturn options =
     \<lparr>qs_ns = ns, qs_ntoskip = ntoskip, qs_ntoreturn = ntoreturn, qs_options = options,
      qs_query = query, qs_fields = flds, qs_queryObj = Query_of query\<rparr>"

text \<open>The default constructor leaves the three \<^verbatim>\<open>int\<close> fields as they happen to be.\<close>

definition QuerySpec_default :: "int \<Rightarrow> int \<Rightarrow> int \<Rightarrow> QuerySpec" where
  "QuerySpec_default ntoskip ntoreturn options =
     \<lparr>qs_ns = [], qs_ntoskip = ntoskip, qs_ntoreturn = ntoreturn, qs_options = options,
      qs_query = [], qs_fields = [], qs_queryObj = Query_new\<rparr>"

definition qs_isEmpty :: "QuerySpec \<Rightarrow> bool" where
  "qs_isEmpty qs \<longleftrightarrow> length (qs_ns qs) = 0"

definition qs_isExplain :: "(Query \<Rightarrow> bool) \<Rightarrow> QuerySpec \<Rightarrow> bool" where
  "qs_isExplain isExplain qs = isExplain (qs_queryObj qs)"

definition qs_filter :: "(Query \<Rightarrow> doc) \<Rightarrow> QuerySpec \<Rightarrow> doc" where
  "qs_filter getFilter qs = getFilter (qs_queryObj qs)"

definition qs_hint :: "(Query \<Rightarrow> 'el) \<Rightarrow> QuerySpec \<Rightarrow> 'el" where
  "qs_hint getHint qs = getHint (qs_queryObj qs)"

definition qs_sort :: "(Query \<Rightarrow> doc) \<Rightarrow> QuerySpec \<Rightarrow> doc" where
  "qs_sort getSort qs = getSort (qs_queryObj qs)"

definition qs_get_query :: "QuerySpec \<Rightarrow> doc" where
  "qs_get_query qs = qs_query qs"

definition qs_get_fields :: "QuerySpec \<Rightarrow> doc" where
  "qs_get_fields qs = qs_fields qs"

definition qs_get_ns :: "QuerySpec \<Rightarrow> bytes" where
  "qs_get_ns qs = qs_ns qs"

definition qs_get_ntoskip :: "QuerySpec \<Rightarrow> int" where
  "qs_get_ntoskip qs = qs_ntoskip qs"

definition qs_get_ntoreturn :: "QuerySpec \<Rightarrow> int" where
  "qs_get_ntoreturn qs = qs_ntoreturn qs"

definition qs_get_options :: "QuerySpec \<Rightarrow> int" where
  "qs_get_options qs = qs_options qs"

definition qs_setFields :: "doc \<Rightarrow> QuerySpec \<Rightarrow> QuerySpec" where
  "qs_setFields o1 qs = qs\<lparr>qs_fields := o1\<rparr>"

definition qs_toString :: "(doc \<Rightarrow> bytes) \<Rightarrow> QuerySpec \<Rightarrow> bytes" where
  "qs_toString toString qs =
     lit ''QSpec '' @
     toString [(lit ''ns'', VString (qs_ns qs)), (lit ''n2skip'', VInt (of_int (qs_ntoskip qs))),
               (lit ''n2return'', VInt (of_int (qs_ntoreturn qs))), (lit ''options'', VInt (of_int (qs_options qs))),
               (lit ''query'', VObject (qs_query qs)), (lit ''fields'', VObject (qs_fields qs))]"

section \<open>Commands\<close>

text \<open>The base class's answers of a connector: nothing to receive, and no retry.\<close>

definition connector_recv :: "message \<Rightarrow> bool res" where
  "connector_recv m = bindE (verify False) (\<lambda>u. Inr False)"

definition connector_checkResponse :: "bool option \<Rightarrow> bytes option \<Rightarrow> bool option \<times> bytes option" where
  "connector_checkResponse retry targetHost =
     ((case retry of None \<Rightarrow> None | Some r \<Rightarrow> Some False),
      (case targetHost of None \<Rightarrow> None | Some h \<Rightarrow> Some []))"

record ('hook, 'posthook) DBClientWithCommands =
  wc_logLevel :: LogSeverity
  wc_runCommandHook :: "'hook option"
  wc_postRunCommandHook :: "'posthook option"
  wc_minWireVersion :: int
  wc_maxWireVersion :: int
  wc_cachedAvailableOptions :: "32 word"
  wc_haveCachedAvailableOptions :: bool

definition DBClientWithCommands_new :: "('hook, 'posthook) DBClientWithCommands" where
  "DBClientWithCommands_new =
     \<lparr>wc_logLevel = Log, wc_runCommandHook = None, wc_postRunCommandHook = None, wc_minWireVersion = 0,
      wc_maxWireVersion = 0, wc_cachedAvailableOptions = 0, wc_haveCachedAvailableOptions = False\<rparr>"

definition getRunCommandHook :: "('hook, 'posthook, 'a) DBClientWithCommands_scheme \<Rightarrow> 'hook option" where
  "getRunCommandHook c = wc_runCommandHook c"

definition getPostRunCommandHook :: "('hook, 'posthook, 'a) DBClientWithCommands_scheme \<Rightarrow> 'posthook option" where
  "getPostRunCommandHook c = wc_postRunCommandHook c"

text \<open>
  \<open>simpleCommand db info cmd\<close> and \<open>runCommand db cmd\<close> act on the world and answer; the object that
  \<open>info\<close> points to, if any, is passed and returned.
\<close>

type_synonym 's simple_command = "bytes \<Rightarrow> doc option \<Rightarrow> bytes \<Rightarrow> 's \<Rightarrow> (bool \<times> doc option \<times> 's) res"
type_synonym 's run_command = "bytes \<Rightarrow> doc \<Rightarrow> 's \<Rightarrow> (bool \<times> doc \<times> 's) res"

definition resetError :: "'s simple_command \<Rightarrow> 's \<Rightarrow> (bool \<times> 's) res" where
  "resetError simpleCommand w =
     bindE (simpleCommand (lit ''admin'') None (lit ''reseterror'') w) (\<lambda>(ok, info, w). Inr (ok, w))"

definition dropCollection ::
    "(bytes \<Rightarrow> bytes) \<Rightarrow> (bytes \<Rightarrow> bytes) \<Rightarrow> 's run_command \<Rightarrow> bytes \<Rightarrow> doc option \<Rightarrow> 's \<Rightarrow> (bool \<times> doc option \<times> 's) res" where
  "dropCollection nsGetDB nsGetCollection runCommand ns info w =
     (let db = nsGetDB ns; coll = nsGetCollection ns in
      bindE (uassert 10011 (length coll \<noteq> 0)) (\<lambda>u.
      bindE (runCommand (c_str db) [(lit ''drop'', VString coll)] w) (\<lambda>(r, reply, w).
        Inr (r, (case info of None \<Rightarrow> None | Some i \<Rightarrow> Some reply), w))))"

definition repairDatabase :: "'s simple_command \<Rightarrow> bytes \<Rightarrow> doc option \<Rightarrow> 's \<Rightarrow> (bool \<times> doc option \<times> 's) res" where
  "repairDatabase simpleCommand dbname info w = simpleCommand dbname info (lit ''repairDatabase'') w"

definition dropDatabase :: "'s simple_command \<Rightarrow> bytes \<Rightarrow> doc option \<Rightarrow> 's \<Rightarrow> (bool \<times> doc option \<times> 's) res" where
  "dropDatabase simpleCommand dbname info w = simpleCommand dbname info (lit ''dropDatabase'') w"

definition validate_ns ::
    "(bytes \<Rightarrow> bytes) \<Rightarrow> (bytes \<Rightarrow> bytes) \<Rightarrow> 's run_command \<Rightarrow> bytes \<Rightarrow> bool \<Rightarrow> 's \<Rightarrow> (bool \<times> 's) res" where
  "validate_ns nsGetDB nsGetCollection runCommand ns scandata w =
     (let cmd = [(lit ''validate'', VString (nsGetCollection ns)), (lit ''scandata'', VBool scandata)] in
      bindE (runCommand (c_str (nsGetDB ns)) cmd w) (\<lambda>(r, info, w). Inr (r, w)))"

definition createIndex_keys ::
    "(bytes \<Rightarrow> 'spec \<Rightarrow> 's \<Rightarrow> 's res) \<Rightarrow> 'spec \<Rightarrow> (doc \<Rightarrow> 'spec \<Rightarrow> 'spec) \<Rightarrow> bytes \<Rightarrow> doc \<Rightarrow> 's \<Rightarrow> 's res" where
  "createIndex_keys createIndex IndexSpec_new addKeys ns keys w = createIndex ns (addKeys keys IndexSpec_new) w"

text \<open>The output of a map/reduce: the object, or the collection to replace.\<close>

definition MROutput_collection :: "bytes \<Rightarrow> doc" where
  "MROutput_collection collection = [(lit ''replace'', VString collection)]"

definition MROutput_cstr :: "bytes \<Rightarrow> doc res" where
  "MROutput_cstr collection =
     bindE (strlen collection) (\<lambda>n. bindE (slice collection 0 n) (\<lambda>s. Inr [(lit ''replace'', VString s)]))"

definition MROutput_obj :: "doc \<Rightarrow> doc" where
  "MROutput_obj obj = obj"

section \<open>Server-side evaluation\<close>

text \<open>
  \<open>evalDeprecated db js args nolock\<close> is declared: it answers, with the reply and the value in it. The
  deprecated names only forward.
\<close>

type_synonym ('el, 's) eval = "bytes \<Rightarrow> bytes \<Rightarrow> doc option \<Rightarrow> bool \<Rightarrow> 's \<Rightarrow> (bool \<times> doc \<times> 'el \<times> 's) res"

definition eval_args :: "('el, 's) eval \<Rightarrow> bytes \<Rightarrow> bytes \<Rightarrow> doc option \<Rightarrow> bool \<Rightarrow> 's \<Rightarrow> (bool \<times> doc \<times> 'el \<times> 's) res" where
  "eval_args evalDeprecated dbname jscode args nolock w = evalDeprecated dbname jscode args nolock w"

definition eval_plain :: "(bytes \<Rightarrow> bytes \<Rightarrow> 's \<Rightarrow> (bool \<times> 's) res) \<Rightarrow> bytes \<Rightarrow> bytes \<Rightarrow> 's \<Rightarrow> (bool \<times> 's) res" where
  "eval_plain evalDeprecated dbname jscode w = evalDeprecated dbname jscode w"

definition evalDeprecated_param :: "('el, 's) eval \<Rightarrow> bytes \<Rightarrow> bytes \<Rightarrow> bson_val \<Rightarrow> 's \<Rightarrow> (bool \<times> 's) res" where
  "evalDeprecated_param evalDeprecated dbname jscode parm1 w =
     (let args = [(lit ''0'', parm1)] in
      bindE (eval_args evalDeprecated dbname jscode (Some args) False w) (\<lambda>(ok, info, retValue, w). Inr (ok, w)))"

definition eval_param :: "('el, 's) eval \<Rightarrow> bytes \<Rightarrow> bytes \<Rightarrow> bson_val \<Rightarrow> 's \<Rightarrow> (bool \<times> 's) res" where
  "eval_param evalDeprecated dbname jscode parm1 w = evalDeprecated_param evalDeprecated dbname jscode parm1 w"

text \<open>The result is a number that the caller's variable keeps when the call fails.\<close>

definition evalDeprecated_number ::
    "('el, 's) eval \<Rightarrow> ('el \<Rightarrow> double res) \<Rightarrow> (double \<Rightarrow> 'n res) \<Rightarrow> bytes \<Rightarrow> bytes \<Rightarrow> bson_val \<Rightarrow> 'n \<Rightarrow> 's \<Rightarrow>
      (bool \<times> 'n \<times> 's) res" where
  "evalDeprecated_number evalDeprecated number cast dbname jscode parm1 ret w =
     (let args = [(lit ''0'', parm1)] in
      bindE (eval_args evalDeprecated dbname jscode (Some args) False w) (\<lambda>(ok, info, retValue, w).
        if \<not> ok then Inr (False, ret, w)
        else bindE (number retValue) (\<lambda>d. bindE (cast d) (\<lambda>n. Inr (True, n, w)))))"

definition eval_number ::
    "('el, 's) eval \<Rightarrow> ('el \<Rightarrow> double res) \<Rightarrow> (double \<Rightarrow> 'n res) \<Rightarrow> bytes \<Rightarrow> bytes \<Rightarrow> bson_val \<Rightarrow> 'n \<Rightarrow> 's \<Rightarrow>
      (bool \<times> 'n \<times> 's) res" where
  "eval_number evalDeprecated number cast dbname jscode parm1 ret w =
     evalDeprecated_number evalDeprecated number cast dbname jscode parm1 ret w"

section \<open>Clients\<close>

record ('hook, 'posthook) DBClientBase = "('hook, 'posthook) DBClientWithCommands" +
  cb_connectionId :: int
  cb_writeConcern :: WriteConcern
  cb_maxBsonObjectSize :: int
  cb_maxMessageSizeBytes :: int
  cb_maxWriteBatchSize :: int

definition cb_getConnectionId :: "('hook, 'posthook, 'a) DBClientBase_scheme \<Rightarrow> int" where
  "cb_getConnectionId c = cb_connectionId c"

definition getWriteConcern :: "('hook, 'posthook, 'a) DBClientBase_scheme \<Rightarrow> WriteConcern" where
  "getWriteConcern c = cb_writeConcern c"

definition setWriteConcern ::
    "WriteConcern \<Rightarrow> ('hook, 'posthook, 'a) DBClientBase_scheme \<Rightarrow> ('hook, 'posthook, 'a) DBClientBase_scheme" where
  "setWriteConcern w c = c\<lparr>cb_writeConcern := w\<rparr>"

definition setWireVersions ::
    "int \<Rightarrow> int \<Rightarrow> ('hook, 'posthook, 'a) DBClientWithCommands_scheme \<Rightarrow> ('hook, 'posthook, 'a) DBClientWithCommands_scheme" where
  "setWireVersions minWireVersion maxWireVersion c =
     c\<lparr>wc_minWireVersion := minWireVersion, wc_maxWireVersion := maxWireVersion\<rparr>"

definition getMinWireVersion :: "('hook, 'posthook, 'a) DBClientWithCommands_scheme \<Rightarrow> int" where
  "getMinWireVersion c = wc_minWireVersion c"

definition getMaxWireVersion :: "('hook, 'posthook, 'a) DBClientWithCommands_scheme \<Rightarrow> int" where
  "getMaxWireVersion c = wc_maxWireVersion c"

definition getMaxBsonObjectSize :: "('hook, 'posthook, 'a) DBClientBase_scheme \<Rightarrow> int" where
  "getMaxBsonObjectSize c = cb_maxBsonObjectSize c"

definition getMaxMessageSizeBytes :: "('hook, 'posthook, 'a) DBClientBase_scheme \<Rightarrow> int" where
  "getMaxMessageSizeBytes c = cb_maxMessageSizeBytes c"

definition getMaxWriteBatchSize :: "('hook, 'posthook, 'a) DBClientBase_scheme \<Rightarrow> int" where
  "getMaxWriteBatchSize c = cb_maxWriteBatchSize c"

text \<open>\<open>INVALID_SOCK_CREATION_TIME\<close> is defined elsewhere.\<close>

definition cb_getSockCreationMicroSec :: "64 word \<Rightarrow> ('hook, 'posthook, 'a) DBClientBase_scheme \<Rightarrow> 64 word" where
  "cb_getSockCreationMicroSec INVALID_SOCK_CREATION_TIME c = INVALID_SOCK_CREATION_TIME"

definition cb_reset :: "('hook, 'posthook, 'a) DBClientBase_scheme \<Rightarrow> ('hook, 'posthook, 'a) DBClientBase_scheme" where
  "cb_reset c = c"

section \<open>Connections\<close>

record ('hook, 'posthook) DBClientConnection = "('hook, 'posthook) DBClientBase" +
  cn_p :: "MessagingPort option"
  cn_server :: "SockAddr option"
  cn_failed :: bool
  cn_autoReconnect :: bool
  cn_serverHost :: HostAndPort
  cn_serverString :: bytes
  cn_serverAddrString :: bytes
  cn_authCache :: "(bytes \<times> doc) list"
  cn_so_timeout :: double
  cn_parentReplSetName :: bytes

definition ConnectException_new :: "bytes \<Rightarrow> db_exception" where
  "ConnectException_new msg = UserException_new 9000 msg"

text \<open>The destructor gives the connection's place in the count of connections back.\<close>

definition cn_destroy :: "32 word intrinsics \<Rightarrow> 32 word shared \<Rightarrow> 32 word shared" where
  "cn_destroy I numConnections = snd (aw_fetchAndAdd I (- 1) numConnections)"

definition getNumConnections :: "32 word intrinsics \<Rightarrow> 32 word shared \<Rightarrow> 32 word \<times> 32 word shared" where
  "getNumConnections I numConnections = aw_load I numConnections"

definition cn_connect_string ::
    "(bytes \<Rightarrow> HostAndPort res) \<Rightarrow> (HostAndPort \<Rightarrow> bytes \<Rightarrow> 's \<Rightarrow> (bool \<times> bytes \<times> 's) res) \<Rightarrow>
      bytes \<Rightarrow> bytes \<Rightarrow> 's \<Rightarrow> (bool \<times> bytes \<times> 's) res" where
  "cn_connect_string HostAndPort_of connect server errmsg w =
     bindE (HostAndPort_of server) (\<lambda>hp. connect hp errmsg w)"

text \<open>The other form throws what the first one reports: the exception, or nothing.\<close>

definition cn_connect ::
    "(bytes \<Rightarrow> HostAndPort res) \<Rightarrow> (HostAndPort \<Rightarrow> bytes \<Rightarrow> 's \<Rightarrow> (bool \<times> bytes \<times> 's) res) \<Rightarrow>
      bytes \<Rightarrow> 's \<Rightarrow> (db_exception option \<times> 's) res" where
  "cn_connect HostAndPort_of connect serverHostname w =
     bindE (HostAndPort_of serverHostname) (\<lambda>hp.
     bindE (connect hp [] w) (\<lambda>(ok, errmsg, w).
       if \<not> ok then Inr (Some (ConnectException_new (lit ''can't connect '' @ errmsg)), w)
       else Inr (None, w)))"

definition isFailed :: "('hook, 'posthook, 'a) DBClientConnection_scheme \<Rightarrow> bool" where
  "isFailed c = cn_failed c"

definition isStillConnected ::
    "(Socket \<Rightarrow> (bool \<times> Socket) res) \<Rightarrow> ('hook, 'posthook, 'a) DBClientConnection_scheme \<Rightarrow> sockets \<Rightarrow>
      (bool \<times> sockets) res" where
  "isStillConnected sock_isStillConnected c socks =
     (case cn_p c of
        Some p \<Rightarrow> mp_isStillConnected sock_isStillConnected p socks
      | None \<Rightarrow> Inr (True, socks))"

definition cn_port :: "('hook, 'posthook, 'a) DBClientConnection_scheme \<Rightarrow> MessagingPort res" where
  "cn_port c = bindE (verify (cn_p c \<noteq> None)) (\<lambda>u. Inr (the (cn_p c)))"

definition cn_toString :: "('hook, 'posthook, 'a) DBClientConnection_scheme \<Rightarrow> bytes" where
  "cn_toString c =
     (let ss = cn_serverString c;
          ss = (if cn_serverAddrString c \<noteq> [] then ss @ lit '' ('' @ cn_serverAddrString c @ lit '')'' else ss);
          ss = (if cn_failed c then ss @ lit '' failed'' else ss) in
      ss)"

definition cn_getServerAddress :: "('hook, 'posthook, 'a) DBClientConnection_scheme \<Rightarrow> bytes" where
  "cn_getServerAddress c = cn_serverString c"

definition getServerHostAndPort :: "('hook, 'posthook, 'a) DBClientConnection_scheme \<Rightarrow> HostAndPort" where
  "getServerHostAndPort c = cn_serverHost c"

text \<open>A read goes through \<^verbatim>\<open>call\<close> with its default arguments: failures raise, nobody asks for the server.\<close>

definition callRead ::
    "(message \<Rightarrow> message \<Rightarrow> bool \<Rightarrow> bytes option \<Rightarrow> 's \<Rightarrow> (bool \<times> message \<times> 's) res) \<Rightarrow> message \<Rightarrow> message \<Rightarrow> 's \<Rightarrow>
      (bool \<times> message \<times> 's) res" where
  "callRead call toSend response w = call toSend response True None w"

definition cn_type :: ConnectionType where
  "cn_type = MASTER"

definition getSoTimeout :: "('hook, 'posthook, 'a) DBClientConnection_scheme \<Rightarrow> double" where
  "getSoTimeout c = cn_so_timeout c"

definition cn_lazySupported :: bool where
  "cn_lazySupported = True"

definition setLazyKillCursor :: "bool \<Rightarrow> bool \<Rightarrow> bool" where
  "setLazyKillCursor lazy lazyKillCursor = lazy"

definition getLazyKillCursor :: "bool \<Rightarrow> bool" where
  "getLazyKillCursor lazyKillCursor = lazyKillCursor"

definition checkConnection ::
    "(('hook, 'posthook, 'a) DBClientConnection_scheme \<Rightarrow> ('hook, 'posthook, 'a) DBClientConnection_scheme res) \<Rightarrow>
      ('hook, 'posthook, 'a) DBClientConnection_scheme \<Rightarrow> ('hook, 'posthook, 'a) DBClientConnection_scheme res" where
  "checkConnection checkConnection_impl c = (if cn_failed c then checkConnection_impl c else Inr c)"

section \<open>Replica sets\<close>

record TagSet =
  ts_tags :: doc

record ReadPreferenceSetting =
  rp_pref :: ReadPreference
  rp_tags :: TagSet

record LazyState =
  lz_lastClient :: "nat option"
  lz_lastOp :: int
  lz_secondaryQueryOk :: bool
  lz_retries :: int

definition LazyState_new :: LazyState where
  "LazyState_new = \<lparr>lz_lastClient = None, lz_lastOp = - 1, lz_secondaryQueryOk = False, lz_retries = 0\<rparr>"

record ('hook, 'posthook) DBClientReplicaSet = "('hook, 'posthook) DBClientBase" +
  rs_setName :: bytes
  rs_masterHost :: HostAndPort
  rs_master :: "('hook, 'posthook) DBClientConnection option"
  rs_lastSlaveOkHost :: HostAndPort
  rs_lastSlaveOkConn :: "('hook, 'posthook) DBClientConnection option"
  rs_lastReadPref :: "ReadPreferenceSetting option"
  rs_so_timeout :: double
  rs_auths :: "(bytes \<times> doc) list"
  rs_lazyState :: LazyState

definition rs_isFailed :: "('hook, 'posthook, 'a) DBClientReplicaSet_scheme \<Rightarrow> bool" where
  "rs_isFailed c \<longleftrightarrow> (case rs_master c of None \<Rightarrow> True | Some m \<Rightarrow> isFailed m)"

definition rs_getSoTimeout :: "('hook, 'posthook, 'a) DBClientReplicaSet_scheme \<Rightarrow> double" where
  "rs_getSoTimeout c = rs_so_timeout c"

definition rs_toString :: "('c \<Rightarrow> bytes) \<Rightarrow> 'c \<Rightarrow> bytes" where
  "rs_toString getServerAddress c = getServerAddress c"

definition rs_type :: ConnectionType where
  "rs_type = SET"

definition rs_lazySupported :: bool where
  "rs_lazySupported = True"

text \<open>
  \<open>checkMaster\<close> is declared: it finds and connects to the primary when it has to, and gives the
  connection \<open>'m\<close> to it in the new state of the set.
\<close>

definition rs_callRead ::
    "('s \<Rightarrow> ('m \<times> 's) res) \<Rightarrow> ('m \<Rightarrow> message \<Rightarrow> message \<Rightarrow> 's \<Rightarrow> (bool \<times> message \<times> 's) res) \<Rightarrow> message \<Rightarrow> message \<Rightarrow> 's \<Rightarrow>
      (bool \<times> message \<times> 's) res" where
  "rs_callRead checkMaster master_callRead toSend response w =
     bindE (checkMaster w) (\<lambda>(m, w). master_callRead m toSend response w)"

definition rs_getMaxWireVersion :: "('s \<Rightarrow> ('m \<times> 's) res) \<Rightarrow> ('m \<Rightarrow> int) \<Rightarrow> 's \<Rightarrow> (int \<times> 's) res" where
  "rs_getMaxWireVersion checkMaster master_version w =
     bindE (checkMaster w) (\<lambda>(m, w). Inr (master_version m, w))"

definition rs_getMinWireVersion :: "('s \<Rightarrow> ('m \<times> 's) res) \<Rightarrow> ('m \<Rightarrow> int) \<Rightarrow> 's \<Rightarrow> (int \<times> 's) res" where
  "rs_getMinWireVersion checkMaster master_version w =
     bindE (checkMaster w) (\<lambda>(m, w). Inr (master_version m, w))"

definition rs_sayPiggyBack ::
    "('s \<Rightarrow> ('m \<times> 's) res) \<Rightarrow> ('m \<Rightarrow> message \<Rightarrow> 's \<Rightarrow> 's res) \<Rightarrow> message \<Rightarrow> 's \<Rightarrow> 's res" where
  "rs_sayPiggyBack checkMaster say toSend w = bindE (checkMaster w) (\<lambda>(m, w). say m toSend w)"

definition TagSet_of :: "doc \<Rightarrow> TagSet" where
  "TagSet_of tags = \<lparr>ts_tags = tags\<rparr>"

definition getTagBSON :: "TagSet \<Rightarrow> doc" where
  "getTagBSON t = ts_tags t"

definition ts_eq :: "(doc \<Rightarrow> doc \<Rightarrow> bool) \<Rightarrow> TagSet \<Rightarrow> TagSet \<Rightarrow> bool" where
  "ts_eq objEqual this other = objEqual (ts_tags this) (ts_tags other)"

definition ReadPreferenceSetting_new :: "ReadPreference \<Rightarrow> TagSet \<Rightarrow> ReadPreferenceSetting" where
  "ReadPreferenceSetting_new p tag = \<lparr>rp_pref = p, rp_tags = tag\<rparr>"

definition rp_equals :: "(doc \<Rightarrow> doc \<Rightarrow> bool) \<Rightarrow> ReadPreferenceSetting \<Rightarrow> ReadPreferenceSetting \<Rightarrow> bool" where
  "rp_equals objEqual this other \<longleftrightarrow> rp_pref this = rp_pref other \<and> ts_eq objEqual (rp_tags this) (rp_tags other)"

section \<open>Errors and initialization\<close>

record OperationException = db_exception +
  oe_lastError :: doc
  oe_errorString :: bytes

definition oe_obj :: "OperationException \<Rightarrow> doc" where
  "oe_obj e = oe_lastError e"

record GlobalInstance =
  gi_terminateNeeded :: bool
  gi_status :: status

definition gi_get_status :: "GlobalInstance \<Rightarrow> status" where
  "gi_get_status g = gi_status g"

definition initialized :: "error_heap \<Rightarrow> GlobalInstance \<Rightarrow> bool res" where
  "initialized heap g = Status_isOK heap (gi_get_status g)"

section \<open>What a server is sent\<close>

text \<open>
  A server that records the commands it receives and answers as it likes. \<^verbatim>\<open>simpleCommand\<close> is documented
  to run \<^verbatim>\<open>{ command : 1 }\<close>.
\<close>

type_synonym server_log = "(bytes \<times> doc) list"

definition log_runCommand :: "(bytes \<Rightarrow> doc \<Rightarrow> bool \<times> doc) \<Rightarrow> server_log run_command" where
  "log_runCommand reply db cmd log = Inr (fst (reply db cmd), snd (reply db cmd), log @ [(db, cmd)])"

definition log_simpleCommand :: "(bytes \<Rightarrow> doc \<Rightarrow> bool \<times> doc) \<Rightarrow> server_log simple_command" where
  "log_simpleCommand reply db info command log =
     bindE (log_runCommand reply db [(command, VInt 1)] log) (\<lambda>(ok, r, log).
       Inr (ok, map_option (\<lambda>i. r) info, log))"

datatype client_cmd =
    CResetError
  | CDropCollection bytes "doc option"
  | CRepairDatabase bytes "doc option"
  | CDropDatabase bytes "doc option"
  | CValidate bytes bool

text \<open>A command that raises is caught by the program: the server saw what it saw.\<close>

definition log_after :: "('r \<times> server_log) res \<Rightarrow> server_log \<Rightarrow> server_log" where
  "log_after r log = (case r of Inl e \<Rightarrow> log | Inr (x, log') \<Rightarrow> log')"

fun client_step ::
    "(bytes \<Rightarrow> bytes) \<Rightarrow> (bytes \<Rightarrow> bytes) \<Rightarrow> (bytes \<Rightarrow> doc \<Rightarrow> bool \<times> doc) \<Rightarrow> client_cmd \<Rightarrow> server_log \<Rightarrow> server_log" where
  "client_step getDB getColl reply CResetError log = log_after (resetError (log_simpleCommand reply) log) log"
| "client_step getDB getColl reply (CDropCollection ns info) log =
     log_after (bindE (dropCollection getDB getColl (log_runCommand reply) ns info log)
       (\<lambda>(r, i, log). Inr ((r, i), log))) log"
| "client_step getDB getColl reply (CRepairDatabase db info) log =
     log_after (bindE (repairDatabase (log_simpleCommand reply) db info log) (\<lambda>(r, i, log). Inr ((r, i), log))) log"
| "client_step getDB getColl reply (CDropDatabase db info) log =
     log_after (bindE (dropDatabase (log_simpleCommand reply) db info log) (\<lambda>(r, i, log). Inr ((r, i), log))) log"
| "client_step getDB getColl reply (CValidate ns scandata) log =
     log_after (validate_ns getDB getColl (log_runCommand reply) ns scandata log) log"

text \<open>What each call is to send, and to which database.\<close>

fun sent :: "(bytes \<Rightarrow> bytes) \<Rightarrow> (bytes \<Rightarrow> bytes) \<Rightarrow> client_cmd \<Rightarrow> server_log" where
  "sent getDB getColl CResetError = [(lit ''admin'', [(lit ''reseterror'', VInt 1)])]"
| "sent getDB getColl (CDropCollection ns info) =
     (if getColl ns = [] then [] else [(c_str (getDB ns), [(lit ''drop'', VString (getColl ns))])])"
| "sent getDB getColl (CRepairDatabase db info) = [(db, [(lit ''repairDatabase'', VInt 1)])]"
| "sent getDB getColl (CDropDatabase db info) = [(db, [(lit ''dropDatabase'', VInt 1)])]"
| "sent getDB getColl (CValidate ns scandata) =
     [(c_str (getDB ns), [(lit ''validate'', VString (getColl ns)), (lit ''scandata'', VBool scandata)])]"

lemma client_step_sends: "client_step getDB getColl reply c log = log @ sent getDB getColl c"
  by (cases c) (simp_all add: log_after_def resetError_def dropCollection_def repairDatabase_def dropDatabase_def
      validate_ns_def log_simpleCommand_def log_runCommand_def Let_def)

lemma no_empty_drop: "(db, [(lit ''drop'', VString [])]) \<notin> set (sent getDB getColl c)"
  by (cases c) (simp_all add: lit_eq)


definition no_collection :: "bytes \<Rightarrow> bytes" where
  "no_collection ns = []"


text \<open>A read preference setting equals another exactly when both parts agree; \<open>equals\<close> inherits the laws
  of the comparison of the tag objects.\<close>

lemma rp_equals_equivp:
  assumes "equivp objEqual"
  shows "equivp (rp_equals objEqual)"
proof (rule equivpI)
  show "reflp (rp_equals objEqual)"
    using equivp_reflp [OF assms] by (auto intro!: reflpI simp: rp_equals_def ts_eq_def)
  show "symp (rp_equals objEqual)"
    using equivp_symp [OF assms] by (auto intro!: sympI simp: rp_equals_def ts_eq_def)
  show "transp (rp_equals objEqual)"
    using equivp_transp [OF assms] by (auto intro!: transpI simp: rp_equals_def ts_eq_def)
qed

end
