(* ===== verification/BsonElement.thy ===== *)
theory BsonElement
  imports BsonFormat Doubles Oid
begin

text \<open>
  \<^verbatim>\<open>mongo/bson/bsonelement.h\<close>: an element is a pointer to its bytes (the rest of the storage from
  there) with the cached size of its name and of itself, -1 while unknown. The size of an element,
  the comparison of elements and of their values are only declared in the header: they are the
  arguments \<open>esize\<close>, \<open>woCompare\<close> and \<open>compareValues\<close>. Little endian reads are \<open>load_le\<close>, see
  \<open>DataView\<close>. An assertion is its message id, without its text.
\<close>

section \<open>The element\<close>

record BSONElement =
  el_data :: bytes
  el_fieldNameSize :: int
  el_totalSize :: int

definition el_type :: "BSONElement \<Rightarrow> BSONType res" where
  "el_type e = bindE (load_le (el_data e) 0) (\<lambda>typeByte :: 8 word. Inr (type_of_code (sint typeByte)))"

definition eoo :: "BSONElement \<Rightarrow> bool res" where
  "eoo e = bindE (el_type e) (\<lambda>t. Inr (t = EOO))"

definition el_ok :: "BSONElement \<Rightarrow> bool res" where
  "el_ok e = bindE (eoo e) (\<lambda>z. Inr (\<not> z))"

definition canonicalType :: "BSONElement \<Rightarrow> int res" where
  "canonicalType e = bindE (el_type e) canonicalizeBSONType"

definition fieldName :: "BSONElement \<Rightarrow> bytes res" where
  "fieldName e = bindE (eoo e) (\<lambda>z. if z then Inr [0] else advance 1 (el_data e))"

text \<open>The value \<open>fieldNameSize\<close> returns, and the element after it has cached that value.\<close>

definition fieldNameSize :: "BSONElement \<Rightarrow> int res" where
  "fieldNameSize e =
     (if el_fieldNameSize e = -1
      then bindE (fieldName e) (\<lambda>p. bindE (strlen p) (\<lambda>n. chk32 (int_of_size n + 1)))
      else Inr (el_fieldNameSize e))"

definition fieldNameSize_caching :: "BSONElement \<Rightarrow> (int \<times> BSONElement) res" where
  "fieldNameSize_caching e = bindE (fieldNameSize e) (\<lambda>n. Inr (n, e\<lparr>el_fieldNameSize := n\<rparr>))"

definition StringData_ptr :: "bytes \<Rightarrow> int \<Rightarrow> string_data res" where
  "StringData_ptr p n = slice p 0 (size_of_int n)"

text \<open>\<^verbatim>\<open>std::string(p, n)\<close> with an \<^verbatim>\<open>int\<close> length, which is converted to \<^verbatim>\<open>size_t\<close>.\<close>

definition std_string :: "bytes \<Rightarrow> int \<Rightarrow> bytes res" where
  "std_string p n = (if n < 0 then Inl StdLengthError else slice p 0 (size_of_int n))"

definition fieldNameStringData :: "BSONElement \<Rightarrow> string_data res" where
  "fieldNameStringData e =
     bindE (fieldName e) (\<lambda>p. bindE (eoo e) (\<lambda>z.
       if z then StringData_ptr p 0
       else bindE (fieldNameSize e) (\<lambda>n. StringData_ptr p (n - 1))))"

definition el_value :: "BSONElement \<Rightarrow> bytes res" where
  "el_value e = bindE (fieldNameSize e) (\<lambda>n. advance (n + 1) (el_data e))"

definition valuesize :: "(bytes \<Rightarrow> int \<Rightarrow> int res) \<Rightarrow> BSONElement \<Rightarrow> int res" where
  "valuesize esize e =
     bindE (esize (el_data e) (-1)) (\<lambda>sz. bindE (fieldNameSize e) (\<lambda>n. chk32 (sz - n - 1)))"

definition rawdata :: "BSONElement \<Rightarrow> bytes" where
  "rawdata e = el_data e"

section \<open>Construction\<close>

text \<open>\<^verbatim>\<open>strnlen\<close>: the length of the string, or \<open>n\<close> when there is no null in its first \<open>n\<close> bytes.\<close>

fun strnlen :: "bytes \<Rightarrow> nat \<Rightarrow> nat res" where
  "strnlen bs n =
     (if n = 0 then Inr 0
      else case bs of [] \<Rightarrow> Inl BadAccess
           | b # bs' \<Rightarrow> if b = 0 then Inr 0 else bindE (strnlen bs' (n - 1)) (\<lambda>k. Inr (Suc k)))"

declare strnlen.simps [simp del]

definition BSONElement_empty :: BSONElement where
  "BSONElement_empty = \<lparr>el_data = [0], el_fieldNameSize = 0, el_totalSize = 1\<rparr>"

definition BSONElement_new :: "bytes \<Rightarrow> BSONElement res" where
  "BSONElement_new d =
     (let e = \<lparr>el_data = d, el_fieldNameSize = -1, el_totalSize = -1\<rparr> in
      bindE (eoo e) (\<lambda>z. Inr (if z then e\<lparr>el_fieldNameSize := 0, el_totalSize := 1\<rparr> else e)))"

definition BSONElement_max :: "bytes \<Rightarrow> int \<Rightarrow> BSONElement res" where
  "BSONElement_max d maxLen =
     (let e = \<lparr>el_data = d, el_fieldNameSize = -1, el_totalSize = -1\<rparr> in
      bindE (eoo e) (\<lambda>z.
        if z then Inr (e\<lparr>el_totalSize := 1, el_fieldNameSize := 0\<rparr>)
        else if maxLen \<noteq> -1 then
          bindE (chk32 (maxLen - 1)) (\<lambda>m.
          bindE (fieldName e) (\<lambda>p.
          bindE (strnlen p (size_of_int m)) (\<lambda>size.
          bindE (uassert 10333 (size < size_of_int m)) (\<lambda>_.
            Inr (e\<lparr>el_fieldNameSize := int_of_size (size + 1)\<rparr>)))))
        else Inr e))"

definition BSONElement_sized :: "bytes \<Rightarrow> int \<Rightarrow> BSONElement" where
  "BSONElement_sized d n = \<lparr>el_data = d, el_fieldNameSize = n, el_totalSize = -1\<rparr>"

section \<open>Values by type\<close>

definition read_int :: "bytes \<Rightarrow> int res" where
  "read_int p = bindE (load_le p 0) (\<lambda>w :: 32 word. Inr (sint w))"

definition read_byte :: "bytes \<Rightarrow> byte res" where
  "read_byte p = (case p of [] \<Rightarrow> Inl BadAccess | b # _ \<Rightarrow> Inr b)"

definition isBoolean :: "BSONElement \<Rightarrow> bool res" where
  "isBoolean e = bindE (el_type e) (\<lambda>t. Inr (t = Bool))"

definition boolean :: "BSONElement \<Rightarrow> bool res" where
  "boolean e = bindE (el_value e) (\<lambda>p. bindE (read_byte p) (\<lambda>b. Inr (b \<noteq> 0)))"

definition booleanSafe :: "BSONElement \<Rightarrow> bool res" where
  "booleanSafe e = bindE (isBoolean e) (\<lambda>z. if z then boolean e else Inr False)"

definition date :: "BSONElement \<Rightarrow> Date_t res" where
  "date e = bindE (el_value e) (\<lambda>p. bindE (load_le p 0) (\<lambda>w :: 64 word. Inr (Date_of w)))"

definition numberDouble_raw :: "BSONElement \<Rightarrow> double res" where
  "numberDouble_raw e = bindE (el_value e) (\<lambda>p. load_le p 0)"

definition numberInt_raw :: "BSONElement \<Rightarrow> int res" where
  "numberInt_raw e = bindE (el_value e) read_int"

definition numberLong_raw :: "BSONElement \<Rightarrow> int res" where
  "numberLong_raw e = bindE (el_value e) (\<lambda>p. bindE (load_le p 0) (\<lambda>w :: 64 word. Inr (sint w)))"

definition oid_raw :: "BSONElement \<Rightarrow> OID res" where
  "oid_raw e = bindE (el_value e) OID_from"

definition isNull :: "BSONElement \<Rightarrow> bool res" where
  "isNull e = bindE (el_type e) (\<lambda>t. Inr (t = jstNULL))"

definition valuestrsize :: "BSONElement \<Rightarrow> int res" where
  "valuestrsize e = bindE (el_value e) read_int"

definition el_objsize :: "BSONElement \<Rightarrow> nat res" where
  "el_objsize e = bindE (el_value e) (\<lambda>p. bindE (load_le p 0) (\<lambda>w :: 32 word. Inr (unat w)))"

definition valuestr :: "BSONElement \<Rightarrow> bytes res" where
  "valuestr e = bindE (el_value e) (advance 4)"

definition valuestrsafe :: "BSONElement \<Rightarrow> bytes res" where
  "valuestrsafe e = bindE (el_type e) (\<lambda>t. if t = String then valuestr e else Inr [0])"

definition str :: "BSONElement \<Rightarrow> bytes res" where
  "str e =
     bindE (el_type e) (\<lambda>t.
       if t = String
       then bindE (valuestr e) (\<lambda>p. bindE (valuestrsize e) (\<lambda>n. bindE (chk32 (n - 1)) (std_string p)))
       else Inr [])"

definition valueStringData :: "BSONElement \<Rightarrow> string_data res" where
  "valueStringData e =
     bindE (valuestr e) (\<lambda>p. bindE (valuestrsize e) (\<lambda>n. bindE (chk32 (n - 1)) (StringData_ptr p)))"

definition codeWScopeCode :: "BSONElement \<Rightarrow> bytes res" where
  "codeWScopeCode e =
     bindE (el_type e) (\<lambda>t.
     bindE (massert 16177 (t = CodeWScope)) (\<lambda>_.
     bindE (el_value e) (advance (4 + 4))))"

definition codeWScopeCodeLen :: "BSONElement \<Rightarrow> int res" where
  "codeWScopeCodeLen e =
     bindE (el_type e) (\<lambda>t.
     bindE (massert 16178 (t = CodeWScope)) (\<lambda>_.
     bindE (el_value e) (\<lambda>p. bindE (advance 4 p) read_int)))"

definition codeWScopeScopeDataUnsafe :: "BSONElement \<Rightarrow> bytes res" where
  "codeWScopeScopeDataUnsafe e =
     bindE (codeWScopeCode e) (\<lambda>c. bindE (strlen c) (\<lambda>n. advance (int n + 1) c))"

definition codeWScopeScopeData :: "BSONElement \<Rightarrow> bytes res" where
  "codeWScopeScopeData e =
     bindE (codeWScopeCode e) (\<lambda>c. bindE (codeWScopeCodeLen e) (\<lambda>n. advance n c))"

text \<open>The data and, the out parameter, its length.\<close>

definition binData :: "BSONElement \<Rightarrow> (bytes \<times> int) res" where
  "binData e =
     bindE (el_type e) (\<lambda>t.
     bindE (verify (t = BinData)) (\<lambda>_.
     bindE (valuestrsize e) (\<lambda>len.
     bindE (el_value e) (\<lambda>p. bindE (advance 5 p) (\<lambda>q. Inr (q, len))))))"

definition binDataType :: "BSONElement \<Rightarrow> BinDataType res" where
  "binDataType e =
     bindE (el_type e) (\<lambda>t.
     bindE (verify (t = BinData)) (\<lambda>_.
     bindE (el_value e) (\<lambda>p.
     bindE (advance 4 p) (\<lambda>q.
     bindE (read_byte q) (\<lambda>c. Inr (subtype_of_byte c))))))"

definition binDataClean :: "BSONElement \<Rightarrow> (bytes \<times> int) res" where
  "binDataClean e =
     bindE (binDataType e) (\<lambda>st.
       if st \<noteq> ByteArrayDeprecated then binData e
       else bindE (valuestrsize e) (\<lambda>n.
            bindE (chk32 (n - 4)) (\<lambda>len.
            bindE (el_value e) (\<lambda>p.
            bindE (advance (5 + 4) p) (\<lambda>q. Inr (q, len))))))"

definition regex :: "BSONElement \<Rightarrow> bytes res" where
  "regex e = bindE (el_type e) (\<lambda>t. bindE (verify (t = RegEx)) (\<lambda>_. el_value e))"

definition regexFlags :: "BSONElement \<Rightarrow> bytes res" where
  "regexFlags e = bindE (regex e) (\<lambda>p. bindE (strlen p) (\<lambda>n. advance (int n + 1) p))"

definition timestamp :: "BSONElement \<Rightarrow> Timestamp_t res" where
  "timestamp e =
     bindE (el_value e) (\<lambda>cursor.
     bindE (load_le cursor 0) (\<lambda>increment.
     bindE (advance 4 cursor) (\<lambda>cursor.
     bindE (load_le cursor 0) (\<lambda>seconds. Inr (Timestamp_of seconds increment)))))"

definition dbrefNS :: "BSONElement \<Rightarrow> bytes res" where
  "dbrefNS e =
     bindE (el_type e) (\<lambda>t. bindE (uassert 10063 (t = DBRef)) (\<lambda>_. bindE (el_value e) (advance 4)))"

definition dbrefOID :: "BSONElement \<Rightarrow> OID res" where
  "dbrefOID e =
     bindE (el_type e) (\<lambda>t.
     bindE (uassert 10064 (t = DBRef)) (\<lambda>_.
     bindE (el_value e) (\<lambda>start.
     bindE (read_int start) (\<lambda>n.
     bindE (advance (4 + n) start) OID_from))))"

section \<open>Classification\<close>

definition mayEncapsulate :: "BSONElement \<Rightarrow> bool res" where
  "mayEncapsulate e =
     bindE (el_type e) (\<lambda>t. Inr (case t of Object \<Rightarrow> True | Array \<Rightarrow> True | CodeWScope \<Rightarrow> True | _ \<Rightarrow> False))"

definition isABSONObj :: "BSONElement \<Rightarrow> bool res" where
  "isABSONObj e = bindE (el_type e) (\<lambda>t. Inr (case t of Object \<Rightarrow> True | Array \<Rightarrow> True | _ \<Rightarrow> False))"

definition isNumber :: "BSONElement \<Rightarrow> bool res" where
  "isNumber e =
     bindE (el_type e) (\<lambda>t.
       Inr (case t of NumberLong \<Rightarrow> True | NumberDouble \<Rightarrow> True | NumberInt \<Rightarrow> True | _ \<Rightarrow> False))"

definition isSimpleType :: "BSONElement \<Rightarrow> bool res" where
  "isSimpleType e =
     bindE (el_type e) (\<lambda>t.
       Inr (case t of NumberLong \<Rightarrow> True | NumberDouble \<Rightarrow> True | NumberInt \<Rightarrow> True | String \<Rightarrow> True
            | Bool \<Rightarrow> True | Date \<Rightarrow> True | jstOID \<Rightarrow> True | _ \<Rightarrow> False))"

definition trueValue :: "BSONElement \<Rightarrow> bool res" where
  "trueValue e =
     bindE (el_type e) (\<lambda>t.
       case t of
         NumberLong \<Rightarrow> bindE (numberLong_raw e) (\<lambda>n. Inr (n \<noteq> 0))
       | NumberDouble \<Rightarrow> bindE (numberDouble_raw e) (\<lambda>d. Inr (\<not> dbl_eq d 0))
       | NumberInt \<Rightarrow> bindE (numberInt_raw e) (\<lambda>n. Inr (n \<noteq> 0))
       | Bool \<Rightarrow> boolean e
       | EOO \<Rightarrow> Inr False
       | jstNULL \<Rightarrow> Inr False
       | Undefined \<Rightarrow> Inr False
       | _ \<Rightarrow> Inr True)"

section \<open>Numbers\<close>

definition numberDouble :: "BSONElement \<Rightarrow> double res" where
  "numberDouble e =
     bindE (el_type e) (\<lambda>t.
       case t of
         NumberDouble \<Rightarrow> numberDouble_raw e
       | NumberInt \<Rightarrow> bindE (numberInt_raw e) (\<lambda>n. Inr (int_to_double n))
       | NumberLong \<Rightarrow> bindE (numberLong_raw e) (\<lambda>n. Inr (int_to_double n))
       | _ \<Rightarrow> Inr 0)"

definition number :: "BSONElement \<Rightarrow> double res" where
  "number e = numberDouble e"

text \<open>\<^verbatim>\<open>(int)\<close> of a \<^verbatim>\<open>long long\<close> keeps the low 32 bits.\<close>

definition numberInt :: "BSONElement \<Rightarrow> int res" where
  "numberInt e =
     bindE (el_type e) (\<lambda>t.
       case t of
         NumberDouble \<Rightarrow> bindE (numberDouble_raw e) double_to_int
       | NumberInt \<Rightarrow> numberInt_raw e
       | NumberLong \<Rightarrow> bindE (numberLong_raw e) (\<lambda>n. Inr (sint (word_of_int n :: 32 word)))
       | _ \<Rightarrow> Inr 0)"

definition numberLong :: "BSONElement \<Rightarrow> int res" where
  "numberLong e =
     bindE (el_type e) (\<lambda>t.
       case t of
         NumberDouble \<Rightarrow> bindE (numberDouble_raw e) double_to_long
       | NumberInt \<Rightarrow> numberInt_raw e
       | NumberLong \<Rightarrow> numberLong_raw e
       | _ \<Rightarrow> Inr 0)"

definition safeNumberLong :: "BSONElement \<Rightarrow> int res" where
  "safeNumberLong e =
     bindE (el_type e) (\<lambda>t.
       case t of
         NumberDouble \<Rightarrow>
           bindE (numberDouble e) (\<lambda>d.
             if isNaN d then Inr 0
             else if dbl_less (int_to_double LLONG_MAX) d then Inr LLONG_MAX
             else if dbl_less d (int_to_double LLONG_MIN) then Inr LLONG_MIN
             else numberLong e)
       | _ \<Rightarrow> numberLong e)"

section \<open>Checked access\<close>

definition chk_type :: "BSONType \<Rightarrow> BSONElement \<Rightarrow> BSONElement res" where
  "chk_type t e = bindE (el_type e) (\<lambda>t'. bindE (massert 13111 (t = t')) (\<lambda>_. Inr e))"

definition chk_expr :: "bool \<Rightarrow> BSONElement \<Rightarrow> BSONElement res" where
  "chk_expr expr e = bindE (massert 13118 expr) (\<lambda>_. Inr e)"

definition el_String :: "BSONElement \<Rightarrow> bytes res" where
  "el_String e = bindE (chk_type String e) str"

definition checkAndGetStringData :: "BSONElement \<Rightarrow> string_data res" where
  "checkAndGetStringData e = bindE (chk_type String e) valueStringData"

definition el_Date :: "BSONElement \<Rightarrow> Date_t res" where
  "el_Date e = bindE (chk_type Date e) date"

definition el_Number :: "BSONElement \<Rightarrow> double res" where
  "el_Number e = bindE (isNumber e) (\<lambda>z. bindE (chk_expr z e) number)"

definition el_Double :: "BSONElement \<Rightarrow> double res" where
  "el_Double e = bindE (chk_type NumberDouble e) numberDouble_raw"

definition el_Long :: "BSONElement \<Rightarrow> int res" where
  "el_Long e = bindE (chk_type NumberLong e) numberLong_raw"

definition el_Int :: "BSONElement \<Rightarrow> int res" where
  "el_Int e = bindE (chk_type NumberInt e) numberInt_raw"

definition el_Bool :: "BSONElement \<Rightarrow> bool res" where
  "el_Bool e = bindE (chk_type Bool e) boolean"

definition el_OID :: "BSONElement \<Rightarrow> OID res" where
  "el_OID e = bindE (chk_type jstOID e) oid_raw"

definition el_Null :: "BSONElement \<Rightarrow> unit res" where
  "el_Null e = bindE (isNull e) (\<lambda>z. bindE (chk_expr z e) (\<lambda>_. Inr ()))"

definition el_OK :: "BSONElement \<Rightarrow> unit res" where
  "el_OK e = bindE (el_ok e) (\<lambda>z. bindE (chk_expr z e) (\<lambda>_. Inr ()))"

definition el_Timestamp :: "BSONElement \<Rightarrow> Timestamp_t res" where
  "el_Timestamp e = bindE (chk_type Timestamp e) timestamp"

text \<open>\<^verbatim>\<open>Val(v)\<close>, by the type of \<^verbatim>\<open>v\<close>: the new value of \<^verbatim>\<open>v\<close>, which stays as it is when the type does not match.\<close>

definition Val_Date :: "BSONElement \<Rightarrow> Date_t res" where
  "Val_Date e = bindE (el_Date e) Inr"

definition Val_longlong :: "BSONElement \<Rightarrow> int res" where
  "Val_longlong e = bindE (el_Long e) Inr"

definition Val_bool :: "BSONElement \<Rightarrow> bool res" where
  "Val_bool e = bindE (el_Bool e) Inr"

definition Val_OID :: "BSONElement \<Rightarrow> OID res" where
  "Val_OID e = bindE (el_OID e) Inr"

definition Val_int :: "BSONElement \<Rightarrow> int res" where
  "Val_int e = bindE (el_Int e) Inr"

definition Val_double :: "BSONElement \<Rightarrow> double res" where
  "Val_double e = bindE (el_Double e) Inr"

definition Val_string :: "BSONElement \<Rightarrow> bytes res" where
  "Val_string e = bindE (el_String e) Inr"

text \<open>Only one of them succeeds on an element.\<close>

lemma Val_types:
  assumes "el_type e = Inr t"
  shows "t \<noteq> Date \<Longrightarrow> Val_Date e = Inl (MsgAssertion 13111)" "t \<noteq> NumberLong \<Longrightarrow> Val_longlong e = Inl (MsgAssertion 13111)"
    "t \<noteq> Bool \<Longrightarrow> Val_bool e = Inl (MsgAssertion 13111)" "t \<noteq> jstOID \<Longrightarrow> Val_OID e = Inl (MsgAssertion 13111)"
    "t \<noteq> NumberInt \<Longrightarrow> Val_int e = Inl (MsgAssertion 13111)" "t \<noteq> NumberDouble \<Longrightarrow> Val_double e = Inl (MsgAssertion 13111)"
    "t \<noteq> String \<Longrightarrow> Val_string e = Inl (MsgAssertion 13111)"
  using assms
  by (simp_all add: Val_Date_def Val_longlong_def Val_bool_def Val_OID_def Val_int_def Val_double_def Val_string_def
      el_Date_def el_Long_def el_Bool_def el_OID_def el_Int_def el_Double_def el_String_def chk_type_def)

section \<open>Comparison\<close>

definition valuesEqual ::
    "(BSONElement \<Rightarrow> BSONElement \<Rightarrow> bool \<Rightarrow> int res) \<Rightarrow> BSONElement \<Rightarrow> BSONElement \<Rightarrow> bool res" where
  "valuesEqual woCompare l r = bindE (woCompare l r False) (\<lambda>c. Inr (c = 0))"

definition el_eq ::
    "(BSONElement \<Rightarrow> BSONElement \<Rightarrow> bool \<Rightarrow> int res) \<Rightarrow> BSONElement \<Rightarrow> BSONElement \<Rightarrow> bool res" where
  "el_eq woCompare l r = bindE (woCompare l r True) (\<lambda>c. Inr (c = 0))"

definition el_neq ::
    "(BSONElement \<Rightarrow> BSONElement \<Rightarrow> bool \<Rightarrow> int res) \<Rightarrow> BSONElement \<Rightarrow> BSONElement \<Rightarrow> bool res" where
  "el_neq woCompare l r = bindE (el_eq woCompare l r) (\<lambda>b. Inr (\<not> b))"

definition el_less ::
    "(BSONElement \<Rightarrow> BSONElement \<Rightarrow> int res) \<Rightarrow> BSONElement \<Rightarrow> BSONElement \<Rightarrow> bool res" where
  "el_less compareValues e other =
     bindE (canonicalType e) (\<lambda>c1. bindE (canonicalType other) (\<lambda>c2.
       let x = c1 - c2 in
       if x < 0 then Inr True
       else if x > 0 then Inr False
       else bindE (compareValues e other) (\<lambda>c. Inr (c < 0))))"

section \<open>Lemmas\<close>

text \<open>The element the constructor makes of a pointer to an encoded element.\<close>

definition el_at :: "elem \<Rightarrow> bytes \<Rightarrow> BSONElement" where
  "el_at nv rest = \<lparr>el_data = enc_elem nv @ rest, el_fieldNameSize = -1, el_totalSize = -1\<rparr>"

lemma load_le_byte [simp]: "load_le (b # bs) 0 = Inr (b :: 8 word)"
  using load_le_prefix [of b bs] by (simp add: le_bytes_8)

lemma el_type_at [simp]: "el_type (el_at nv rest) = Inr (val_type (snd nv))"
  by (simp add: el_type_def el_at_def enc_elem_def)

lemma eoo_at [simp]: "eoo (el_at nv rest) = Inr False"
  by (simp add: eoo_def)

lemma el_data_at [simp]: "el_data (el_at nv rest) = enc_elem nv @ rest"
  by (simp add: el_at_def)

lemma BSONElement_new_enc: "BSONElement_new (enc_elem nv @ rest) = Inr (el_at nv rest)"
  using eoo_at [of nv rest] by (simp add: BSONElement_new_def el_at_def)

definition name_ok :: "bytes \<Rightarrow> bool" where
  "name_ok n \<longleftrightarrow> cstring n \<and> int (length n) + 1 \<le> int32_max"

lemma strlen_name: "name_ok n \<Longrightarrow> strlen (n @ 0 # rest) = Inr (length n)"
  by (simp add: name_ok_def cstring_def strlen_append_null)

lemma fieldName_at: "fieldName (el_at nv rest) = Inr (fst nv @ 0 # enc_val (snd nv) @ rest)"
  by (simp add: fieldName_def enc_elem_def advance_def)

lemma fieldNameSize_at:
  assumes "name_ok (fst nv)"
  shows "fieldNameSize (el_at nv rest) = Inr (int (length (fst nv)) + 1)"
proof -
  have "int_of_size (length (fst nv)) = int (length (fst nv))"
    by (rule int_of_size_small) (use assms in \<open>simp add: name_ok_def int32_max_def\<close>)
  moreover have "in_int32 (int (length (fst nv)) + 1)"
    using assms by (simp add: name_ok_def in_int32_def int32_min_def)
  ultimately show ?thesis
    using strlen_name [OF assms] by (simp add: fieldNameSize_def fieldName_at) (simp add: el_at_def)
qed

lemma el_value_at:
  assumes "name_ok (fst nv)"
  shows "el_value (el_at nv rest) = Inr (enc_val (snd nv) @ rest)"
  by (simp add: el_value_def fieldNameSize_at [OF assms] enc_elem_def advance_def nat_add_distrib)

lemma slice_take: "n = length xs \<Longrightarrow> slice (xs @ ys) 0 n = Inr xs"
  by simp

lemma load_le_prefix_pair:
  "load_le (le_bytes (w :: 32 word) @ le_bytes (v :: 32 word) @ xs) 0 = Inr w"
  "advance 4 (le_bytes w @ xs) = Inr xs"
  by (simp_all add: advance_def)

lemma read_int_len [simp]: "n < 2 ^ 31 \<Longrightarrow> read_int (enc_len n @ xs) = Inr (int n)"
  by (simp add: read_int_def)

lemma read_int_word [simp]: "read_int (le_bytes (w :: 32 word) @ xs) = Inr (sint w)"
  by (simp add: read_int_def)

lemma advance_len [simp]: "advance 4 (enc_len n @ xs) = Inr xs"
  by (rule advance_append) simp

lemma size_of_int_len [simp]: "n < 2 ^ 31 \<Longrightarrow> size_of_int (int n) = n"
  by (simp add: size_of_int_small)

lemma in_int32_nat [simp]: "n < 2 ^ 31 \<Longrightarrow> in_int32 (int n)"
  by (simp add: in_int32_iff)

text \<open>Strings: the length field counts the null.\<close>

lemma string_at:
  assumes "name_ok n" and "length s + 1 < 2 ^ 31"
    and "enc_val v = enc_string s"
  shows "valuestrsize (el_at (n, v) rest) = Inr (int (length s) + 1)"
    and "valuestr (el_at (n, v) rest) = Inr (s @ 0 # rest)"
    and "valueStringData (el_at (n, v) rest) = Inr s"
proof -
  from assms(1) have val: "el_value (el_at (n, v) rest) = Inr (enc_string s @ rest)"
    using el_value_at [of "(n, v)" rest] assms(3) by simp
  show len: "valuestrsize (el_at (n, v) rest) = Inr (int (length s) + 1)"
    using assms(2) by (simp add: valuestrsize_def val enc_string_def)
  show p: "valuestr (el_at (n, v) rest) = Inr (s @ 0 # rest)"
    by (simp add: valuestr_def val enc_string_def)
  show "valueStringData (el_at (n, v) rest) = Inr s"
    using assms(2) by (simp add: valueStringData_def p len StringData_ptr_def)
qed

lemma fieldNameStringData_at:
  assumes "name_ok (fst nv)"
  shows "fieldNameStringData (el_at nv rest) = Inr (fst nv)"
proof -
  have "length (fst nv) < 2 ^ 31" using assms by (simp add: name_ok_def int32_max_def)
  then show ?thesis
    by (simp add: fieldNameStringData_def fieldName_at fieldNameSize_at [OF assms] StringData_ptr_def)
qed

text \<open>What the accessor of each type returns on an encoded value.\<close>

fun reads_back :: "BSONElement \<Rightarrow> bson_val \<Rightarrow> bytes \<Rightarrow> bool" where
  "reads_back e (VDouble d) rest \<longleftrightarrow> el_Double e = Inr d"
| "reads_back e (VString s) rest \<longleftrightarrow> el_String e = Inr s \<and> checkAndGetStringData e = Inr s"
| "reads_back e (VBool b) rest \<longleftrightarrow> el_Bool e = Inr b"
| "reads_back e (VInt i) rest \<longleftrightarrow> el_Int e = Inr (sint i)"
| "reads_back e (VLong l) rest \<longleftrightarrow> el_Long e = Inr (sint l)"
| "reads_back e (VOID oid) rest \<longleftrightarrow> el_OID e = Inr \<lparr>oid_data = oid\<rparr>"
| "reads_back e (VDate ms) rest \<longleftrightarrow> el_Date e = Inr (Date_of ms)"
| "reads_back e (VTimestamp sec inc) rest \<longleftrightarrow> el_Timestamp e = Inr (Timestamp_of sec inc)"
| "reads_back e VNull rest \<longleftrightarrow> el_Null e = Inr ()"
| "reads_back e (VRegEx pat opts) rest \<longleftrightarrow>
     regex e = Inr (pat @ 0 # opts @ 0 # rest) \<and> regexFlags e = Inr (opts @ 0 # rest)"
| "reads_back e (VBinData st bs) rest \<longleftrightarrow>
     binData e = Inr (bs @ rest, int (length bs)) \<and> binDataType e = Inr (subtype_of_byte st)"
| "reads_back e (VDBRef ns oid) rest \<longleftrightarrow>
     dbrefNS e = Inr (ns @ 0 # oid @ rest) \<and> dbrefOID e = Inr \<lparr>oid_data = oid\<rparr>"
| "reads_back e (VCodeWScope c es) rest \<longleftrightarrow>
     codeWScopeCode e = Inr (c @ 0 # enc_doc es @ rest) \<and> codeWScopeCodeLen e = Inr (int (length c) + 1) \<and>
     codeWScopeScopeData e = Inr (enc_doc es @ rest)"
| "reads_back e (VObject es) rest \<longleftrightarrow> el_value e = Inr (enc_doc es @ rest)"
| "reads_back e (VArray es) rest \<longleftrightarrow> el_value e = Inr (enc_doc es @ rest)"
| "reads_back e (VCode s) rest \<longleftrightarrow> valueStringData e = Inr s"
| "reads_back e (VSymbol s) rest \<longleftrightarrow> valueStringData e = Inr s"
| "reads_back e _ rest \<longleftrightarrow> True"

named_theorems el_ops "the accessors of an element, unfolded"

declare el_Double_def [el_ops] el_Bool_def [el_ops] el_Int_def [el_ops] el_Long_def [el_ops]
  el_OID_def [el_ops] el_Date_def [el_ops] el_Timestamp_def [el_ops] el_Null_def [el_ops]
  el_String_def [el_ops] checkAndGetStringData_def [el_ops] chk_type_def [el_ops]
  chk_expr_def [el_ops] numberDouble_raw_def [el_ops] numberInt_raw_def [el_ops]
  numberLong_raw_def [el_ops] boolean_def [el_ops] oid_raw_def [el_ops] date_def [el_ops]
  timestamp_def [el_ops] isNull_def [el_ops] regex_def [el_ops] regexFlags_def [el_ops]
  binData_def [el_ops] binDataType_def [el_ops] dbrefNS_def [el_ops] dbrefOID_def [el_ops]
  codeWScopeCode_def [el_ops] codeWScopeCodeLen_def [el_ops] codeWScopeScopeData_def [el_ops]
  valuestrsize_def [el_ops]

lemma OID_from_exact [simp]: "length oid = 12 \<Longrightarrow> OID_from (oid @ rest) = Inr \<lparr>oid_data = oid\<rparr>"
  by (simp add: OID_from_ok kOIDSize_def)

lemma reads_back_fixed:
  assumes n: "name_ok n" and wf: "wf_val v"
    and fixed: "\<not> (\<exists>s. v = VString s \<or> v = VCode s \<or> v = VSymbol s)"
      "\<not> (\<exists>st bs. v = VBinData st bs)" "\<not> (\<exists>ns oid. v = VDBRef ns oid)" "\<not> (\<exists>c es. v = VCodeWScope c es)"
  shows "reads_back (el_at (n, v) rest) v rest"
proof -
  have val: "el_value (el_at (n, v) rest) = Inr (enc_val v @ rest)"
    using el_value_at [of "(n, v)" rest] n by simp
  show ?thesis
    using wf fixed val by (cases v)
      (simp_all add: el_ops load_le_prefix_pair read_byte_def enc_doc_def cstring_def strlen_append_null
        advance_def nat_add_distrib)
qed

lemma reads_back_string:
  assumes n: "name_ok n" and len: "length s + 1 < 2 ^ 31"
    and v: "v = VString s \<or> v = VCode s \<or> v = VSymbol s"
  shows "reads_back (el_at (n, v) rest) v rest"
proof -
  have enc: "enc_val v = enc_string s" using v by auto
  note at = string_at [OF n len enc, of rest]
  have "std_string (s @ 0 # rest) (int (length s)) = Inr s"
    using len by (simp add: std_string_def)
  then have "v = VString s \<Longrightarrow> str (el_at (n, v) rest) = Inr s"
    using len at(1,2) by (simp add: str_def)
  then show ?thesis
    using v at(3) by (auto simp: el_String_def checkAndGetStringData_def chk_type_def)
qed

lemma reads_back_sized:
  assumes n: "name_ok n" and wf: "wf_val v" and len: "length (enc_val v) < 2 ^ 31"
    and v: "(\<exists>st bs. v = VBinData st bs) \<or> (\<exists>ns oid. v = VDBRef ns oid) \<or> (\<exists>c es. v = VCodeWScope c es)"
  shows "reads_back (el_at (n, v) rest) v rest"
proof -
  have val: "el_value (el_at (n, v) rest) = Inr (enc_val v @ rest)"
    using el_value_at [of "(n, v)" rest] n by simp
  have adv8: "advance 8 (enc_len a @ enc_len b @ xs) = Inr xs" for a b and xs :: bytes
    by (simp add: advance_def)
  have adv5: "advance 5 (enc_len a @ b # xs) = Inr xs" for a b and xs :: bytes
    by (simp add: advance_def numeral_eq_Suc)
  have skip: "advance (5 + int (length s)) (enc_len a @ s @ b # xs) = Inr xs"
    "advance (1 + int (length s)) (s @ b # xs) = Inr xs" for a b and s xs :: bytes
    by (simp_all add: advance_def nat_add_distrib)
  show ?thesis
    using wf val len v
    by (auto simp: el_ops enc_string_def Let_def adv8 adv5 skip read_byte_def enc_doc_def)
qed

section \<open>Properties\<close>



text \<open>C38: \<^verbatim>\<open>safeNumberLong\<close> of a double is 0 on NaN, saturates above \<open>2 ^ 63\<close> and below
  \<open>- 2 ^ 63\<close>, and truncates in between; at exactly \<open>2 ^ 63\<close>, where \<^verbatim>\<open>(double)LLONG_MAX\<close> has been
  rounded up to the same number, the test for very large doubles is false and the cast undefined.\<close>

theorem safeNumberLong_spec:
  assumes "el_type e = Inr NumberDouble" and "numberDouble_raw e = Inr d"
  shows "safeNumberLong e =
    (case dbl_value d of
       NaN \<Rightarrow> Inr 0
     | Inf neg \<Rightarrow> Inr (if neg then LLONG_MIN else LLONG_MAX)
     | Fin m f \<Rightarrow>
         (if int_less_fin (2 ^ 63) m f then Inr LLONG_MAX
          else if fin_less_int m f (- (2 ^ 63)) then Inr LLONG_MIN
          else if fin_less_int m f (2 ^ 63) then Inr (val_trunc m f)
          else Inl UndefinedCast))"
proof (cases "dbl_value d")
  case NaN
  then show ?thesis using assms by (simp add: safeNumberLong_def numberDouble_def isNaN_iff)
next
  case (Inf neg)
  then show ?thesis using assms
    by (simp add: safeNumberLong_def numberDouble_def isNaN_iff dbl_less_def LLONG_doubles)
next
  case (Fin m f)
  have cast: "double_to_long d =
      (if LLONG_MIN \<le> val_trunc m f \<and> val_trunc m f \<le> LLONG_MAX then Inr (val_trunc m f)
       else Inl UndefinedCast)"
    by (simp add: double_to_long_def cast_to_int_def Fin Let_def)
  have "safeNumberLong e =
      (if int_less_fin (2 ^ 63) m f then Inr LLONG_MAX
       else if fin_less_int m f (- (2 ^ 63)) then Inr LLONG_MIN else double_to_long d)"
    using assms Fin
    by (simp add: safeNumberLong_def numberDouble_def numberLong_def isNaN_iff dbl_less_LLONG)
  moreover have "\<not> fin_less_int m f (- (2 ^ 63)) \<Longrightarrow> LLONG_MIN \<le> val_trunc m f"
    "fin_less_int m f (2 ^ 63) \<Longrightarrow> val_trunc m f \<le> LLONG_MAX"
    "\<not> fin_less_int m f (2 ^ 63) \<Longrightarrow> \<not> val_trunc m f \<le> LLONG_MAX"
    using val_trunc_range [of "2 ^ 63" m f] by (auto simp: LLONG_MIN_def LLONG_MAX_def)
  ultimately show ?thesis by (auto simp: Fin cast)
qed

theorem safeNumberLong_spec_witness:
  "safeNumberLong (el_at ([97], VDouble 0x43E0000000000000) []) = Inl UndefinedCast \<and>
   safeNumberLong (el_at ([97], VDouble 0xC004000000000000) []) = Inr (- 2)"
proof -
  have raw: "numberDouble_raw (el_at ([97], VDouble d) []) = Inr d" for d
    using el_value_at [of "([97], VDouble d)" "[]"] load_le_prefix [where w = d and xs = "[]"]
    by (simp add: numberDouble_raw_def name_ok_def cstring_def int32_max_def)
  show ?thesis
    using safeNumberLong_spec [OF _ raw [of "0x43E0000000000000"]]
      safeNumberLong_spec [OF _ raw [of "0xC004000000000000"]]
    by (simp add: dbl_value_def dbl_exponent_def dbl_fraction_def dbl_sign_def Let_def
        int_less_fin_def fin_less_int_def val_trunc_def)
qed

text \<open>The double that \<^verbatim>\<open>numberDouble\<close> makes of an integer element is that integer, for every
  32-bit element and for 64-bit elements of at most 53 bits.\<close>

theorem numberDouble_exact:
  assumes "name_ok n" and "v = VInt i \<and> k = sint i \<or> v = VLong l \<and> k = sint l" and "\<bar>k\<bar> < 2 ^ 53"
  shows "\<exists>d. numberDouble (el_at (n, v) rest) = Inr d \<and> val_eq (dbl_value d) (Fin k 0)"
proof -
  have val: "el_value (el_at (n, v) rest) = Inr (enc_val v @ rest)"
    using el_value_at [of "(n, v)" rest] assms(1) by simp
  have "numberDouble (el_at (n, v) rest) = Inr (int_to_double k)"
    using assms(2) val
    by (auto simp: numberDouble_def numberInt_raw_def numberLong_raw_def)
  then show ?thesis using int_to_double_exact [OF assms(3)] by blast
qed

theorem numberDouble_exact_witness:
  "\<exists>d. numberDouble (el_at ([97], VInt (- 7)) []) = Inr d \<and> val_eq (dbl_value d) (Fin (- 7) 0)"
  by (rule numberDouble_exact [where i = "- 7"]) (simp_all add: name_ok_def cstring_def int32_max_def)

lemma dbl_zero_iff: "dbl_eq d 0 \<longleftrightarrow> d = 0 \<or> d = 0x8000000000000000"
proof
  assume "d = 0 \<or> d = 0x8000000000000000"
  then show "dbl_eq d 0"
    by (auto simp: dbl_eq_def dbl_value_def dbl_exponent_def dbl_fraction_def dbl_sign_def scale_def)
next
  assume z: "dbl_eq d 0"
  have e: "dbl_exponent d = 0 \<and> dbl_fraction d = 0"
    using z by (auto simp: dbl_eq_def dbl_value_def [of d] dbl_value_0 Let_def scale_def
        dbl_fraction_def split: if_splits)
  have u: "0 \<le> uint d" "uint d < 2 ^ 64" using uint_range_size [of d] by (auto simp: word_size)
  have "uint d div 2 ^ 52 mod 2 ^ 11 = 0" "uint d mod 2 ^ 52 = 0"
    using e by (simp_all add: dbl_exponent_def dbl_fraction_def)
  then obtain q r where "uint d = 2 ^ 52 * q" "q = 2 ^ 11 * r"
    by (metis dvd_eq_mod_eq_0 dvdE nonzero_mult_div_cancel_left power_not_zero zero_neq_numeral)
  then have q: "uint d = 2 ^ 63 * r" by simp
  with u have "0 \<le> r" "r < 2" by simp_all
  then have "uint d = 0 \<or> uint d = 2 ^ 63" using q by (cases "r = 0") auto
  then show "d = 0 \<or> d = 0x8000000000000000"
    unfolding word_uint_eq_iff by simp
qed

lemma sint_eq_0: "sint w = 0 \<longleftrightarrow> w = (0 :: 'a::len word)"
  by (rule signed_eq_0_iff)

text \<open>The truth value the header describes: zero, null and undefined count as false.\<close>

fun truthy :: "bson_val \<Rightarrow> bool" where
  "truthy (VInt i) \<longleftrightarrow> i \<noteq> 0"
| "truthy (VLong l) \<longleftrightarrow> l \<noteq> 0"
| "truthy (VDouble d) \<longleftrightarrow> d \<noteq> 0 \<and> d \<noteq> 0x8000000000000000"
| "truthy (VBool b) \<longleftrightarrow> b"
| "truthy VNull \<longleftrightarrow> False"
| "truthy VUndefined \<longleftrightarrow> False"
| "truthy _ \<longleftrightarrow> True"

text \<open>\<^verbatim>\<open>trueValue\<close> is false on zero of every numeric type (both zeros of a double), on false,
  null and undefined and on the end of object, and true on everything else.\<close>

theorem trueValue_spec:
  assumes "name_ok n"
  shows "trueValue (el_at (n, v) rest) = Inr (truthy v) \<and> trueValue BSONElement_empty = Inr False"
proof -
  have val: "el_value (el_at (n, v) rest) = Inr (enc_val v @ rest)"
    using el_value_at [of "(n, v)" rest] assms by simp
  have "trueValue (el_at (n, v) rest) = Inr (truthy v)"
    by (cases v) (use val in \<open>simp_all add: trueValue_def el_ops read_byte_def dbl_zero_iff sint_eq_0\<close>)
  moreover have "trueValue BSONElement_empty = Inr False"
    by (simp add: trueValue_def el_type_def BSONElement_empty_def type_of_code_def enumerators_def)
  ultimately show ?thesis by simp
qed

theorem trueValue_spec_witness:
  "trueValue (el_at ([97], VDouble 0x8000000000000000) []) = Inr False \<and>
   trueValue BSONElement_empty = Inr False"
  using trueValue_spec [of "[97]" "VDouble 0x8000000000000000" "[]"]
  by (simp add: name_ok_def cstring_def int32_max_def)

lemma type_of_code_EOO: "type_of_code c = EOO \<longleftrightarrow> c = 0"
proof
  assume "type_of_code c = EOO"
  then have "find (\<lambda>t. type_code t = c) enumerators = Some EOO"
    by (auto simp: type_of_code_def split: option.splits)
  then have "type_code EOO = c" by (auto simp: find_Some_iff)
  then show "c = 0" by simp
qed (simp add: type_of_code_def enumerators_def)

lemma eoo_byte: "el_data e = b # bs \<Longrightarrow> eoo e = Inr (b = 0)"
  by (simp add: eoo_def el_type_def type_of_code_EOO sint_eq_0)

lemma strnlen_spec:
  "n \<le> length bs \<Longrightarrow> strnlen bs n =
     Inr (if 0 \<in> set (take n bs) then length (takeWhile (\<lambda>b. b \<noteq> 0) bs) else n)"
proof (induction bs arbitrary: n)
  case Nil
  then show ?case by (simp add: strnlen.simps)
next
  case (Cons b bs)
  show ?case
  proof (cases n)
    case 0
    then show ?thesis by (simp add: strnlen.simps)
  next
    case (Suc m)
    then show ?thesis using Cons by (subst strnlen.simps) auto
  qed
qed

lemma takeWhile_less:
  "0 \<in> set (take n bs) \<Longrightarrow> length (takeWhile (\<lambda>b. b \<noteq> (0 :: byte)) bs) < n"
  by (induction bs arbitrary: n) (case_tac n; auto)+

text \<open>Construction with a bound reads no byte beyond it: a name that ends before the last byte
  of the bound is accepted and its size cached, any other is refused with message 10333.\<close>

theorem BSONElement_max_bounded:
  assumes "1 \<le> maxLen" and "maxLen \<le> int32_max" and "nat maxLen \<le> length d"
  shows "BSONElement_max d maxLen =
    (if hd d = 0 then Inr \<lparr>el_data = d, el_fieldNameSize = 0, el_totalSize = 1\<rparr>
     else if 0 \<in> set (take (nat maxLen - 1) (tl d))
     then Inr \<lparr>el_data = d,
            el_fieldNameSize = int (length (takeWhile (\<lambda>b. b \<noteq> 0) (tl d))) + 1, el_totalSize = -1\<rparr>
     else Inl (UserAssertion 10333))"
proof -
  from assms obtain b bs where d: "d = b # bs" by (cases d) auto
  let ?e = "\<lparr>el_data = d, el_fieldNameSize = -1, el_totalSize = -1\<rparr>"
  have z: "eoo ?e = Inr (b = 0)" by (rule eoo_byte) (simp add: d)
  show ?thesis
  proof (cases "b = 0")
    case True
    then show ?thesis using z by (simp add: BSONElement_max_def d)
  next
    case False
    have f: "fieldName ?e = Inr bs" using z False by (simp add: fieldName_def d advance_def)
    have m: "in_int32 (maxLen - 1)" "size_of_int (maxLen - 1) = nat maxLen - 1"
      using assms by (simp_all add: in_int32_iff int32_max_def size_of_int_small nat_diff_distrib)
    have small: "k < nat maxLen - 1 \<Longrightarrow> int_of_size (k + 1) = int k + 1" for k
      using assms by (subst int_of_size_small) (simp_all add: int32_max_def)
    have "strnlen bs (nat maxLen - 1) = Inr (if 0 \<in> set (take (nat maxLen - 1) bs)
        then length (takeWhile (\<lambda>b. b \<noteq> 0) bs) else nat maxLen - 1)"
      by (rule strnlen_spec) (use assms d in simp)
    then show ?thesis
      using z False f m assms(1) small takeWhile_less [of "nat maxLen - 1" bs]
      by (simp add: BSONElement_max_def d)
  qed
qed

theorem BSONElement_max_bounded_witness:
  "BSONElement_max [16, 97, 98] 3 = Inl (UserAssertion 10333)"
  using BSONElement_max_bounded [of 3 "[16, 97, 98]"] by (simp add: int32_max_def)

text \<open>Each checked accessor refuses an element of another type, with message 13111 (13118 for
  numbers, null and presence), before it reads the value.\<close>

theorem getters_check_type:
  assumes "el_type e = Inr t"
  shows "(t \<noteq> String \<longrightarrow> el_String e = Inl (MsgAssertion 13111) \<and>
            checkAndGetStringData e = Inl (MsgAssertion 13111)) \<and>
    (t \<noteq> Date \<longrightarrow> el_Date e = Inl (MsgAssertion 13111)) \<and>
    (t \<noteq> NumberDouble \<longrightarrow> el_Double e = Inl (MsgAssertion 13111)) \<and>
    (t \<noteq> NumberLong \<longrightarrow> el_Long e = Inl (MsgAssertion 13111)) \<and>
    (t \<noteq> NumberInt \<longrightarrow> el_Int e = Inl (MsgAssertion 13111)) \<and>
    (t \<noteq> Bool \<longrightarrow> el_Bool e = Inl (MsgAssertion 13111)) \<and>
    (t \<noteq> jstOID \<longrightarrow> el_OID e = Inl (MsgAssertion 13111)) \<and>
    (t \<noteq> Timestamp \<longrightarrow> el_Timestamp e = Inl (MsgAssertion 13111)) \<and>
    (t \<notin> {NumberInt, NumberLong, NumberDouble} \<longrightarrow> el_Number e = Inl (MsgAssertion 13118)) \<and>
    (t \<noteq> jstNULL \<longrightarrow> el_Null e = Inl (MsgAssertion 13118)) \<and>
    (t = EOO \<longrightarrow> el_OK e = Inl (MsgAssertion 13118))"
  using assms
  by (cases t)
    (simp_all add: el_ops el_Number_def isNumber_def el_OK_def el_ok_def eoo_def massert_def)

theorem getters_check_type_witness:
  "el_Int (el_at ([97], VNull) []) = Inl (MsgAssertion 13111) \<and>
   el_Number (el_at ([97], VNull) []) = Inl (MsgAssertion 13118)"
  using getters_check_type [of "el_at ([97], VNull) []" jstNULL] by simp

end
