(* ===== verification/SharedBuffer.thy ===== *)
theory SharedBuffer
  imports AtomicWord RefCount
begin

text \<open>
  \<^verbatim>\<open>mongo/util/shared_buffer.h\<close>: reference-counted buffers. A \<open>SharedBuffer\<close> is the intrusive
  pointer it wraps, null or the address of a \<open>Holder\<close>; the heap maps the addresses of live holders
  to their count and data. Every operation reads or changes a count by one atomic access, so the
  steps of several threads interleave as whole operations. That copying a pointer calls
  \<open>intrusive_ptr_add_ref\<close> and destroying it \<open>intrusive_ptr_release\<close> is the documented behaviour of
  \<^verbatim>\<open>boost::intrusive_ptr\<close>; the address of a new block is the allocator's choice.
\<close>

section \<open>Holders and handles\<close>

record Holder =
  h_refCount :: "32 word"
  h_data :: bytes

type_synonym shared_heap = "nat \<Rightarrow> Holder option"
type_synonym shared_buffer = "nat option"

definition Holder_new :: "32 word \<Rightarrow> bytes \<Rightarrow> Holder" where
  "Holder_new initial d = \<lparr>h_refCount = initial, h_data = d\<rparr>"

definition SharedBuffer_new :: shared_buffer where
  "SharedBuffer_new = None"

definition intrusive_ptr_add_ref :: "nat \<Rightarrow> shared_heap \<Rightarrow> shared_heap res" where
  "intrusive_ptr_add_ref h heap =
     (case heap h of None \<Rightarrow> Inl BadAccess
      | Some hol \<Rightarrow>
          (let (r, w) = cxx11_fetchAndAdd 1 (AtomicWord_new (h_refCount hol) []) in
           Inr (heap(h \<mapsto> hol\<lparr>h_refCount := sh_val w\<rparr>))))"

definition intrusive_ptr_release :: "nat \<Rightarrow> shared_heap \<Rightarrow> shared_heap res" where
  "intrusive_ptr_release h heap =
     (case heap h of None \<Rightarrow> Inl BadAccess
      | Some hol \<Rightarrow>
          (let (r, w) = cxx11_subtractAndFetch 1 (AtomicWord_new (h_refCount hol) []) in
           if r = 0 then Inr (heap(h := None))
           else Inr (heap(h \<mapsto> hol\<lparr>h_refCount := sh_val w\<rparr>))))"

definition sb_takeOwnership :: "nat \<Rightarrow> bytes \<Rightarrow> shared_heap \<Rightarrow> shared_buffer \<times> shared_heap" where
  "sb_takeOwnership p d heap = (Some p, heap(p \<mapsto> Holder_new 1 d))"

text \<open>\<open>allocate\<close>: \<open>d\<close> is what the new block of the requested size happens to hold.\<close>

definition sb_allocate :: "nat \<Rightarrow> bytes \<Rightarrow> shared_heap \<Rightarrow> shared_buffer \<times> shared_heap" where
  "sb_allocate p d heap = sb_takeOwnership p d heap"

definition sb_get :: "shared_buffer \<Rightarrow> shared_heap \<Rightarrow> bytes option res" where
  "sb_get sb heap =
     (case sb of None \<Rightarrow> Inr None
      | Some h \<Rightarrow> (case heap h of None \<Rightarrow> Inl BadAccess | Some hol \<Rightarrow> Inr (Some (h_data hol))))"

definition sb_swap :: "shared_buffer \<Rightarrow> shared_buffer \<Rightarrow> shared_buffer \<times> shared_buffer" where
  "sb_swap this other = (other, this)"

text \<open>\<open>moveFrom\<close>: what is left in this buffer, and the buffer returned.\<close>

definition sb_moveFrom :: "shared_buffer \<Rightarrow> shared_buffer \<times> shared_buffer" where
  "sb_moveFrom this = (let out = SharedBuffer_new; (this, out) = sb_swap this out in (this, out))"

definition sb_copy :: "shared_buffer \<Rightarrow> shared_heap \<Rightarrow> shared_heap res" where
  "sb_copy sb heap = (case sb of None \<Rightarrow> Inr heap | Some h \<Rightarrow> intrusive_ptr_add_ref h heap)"

definition sb_destroy :: "shared_buffer \<Rightarrow> shared_heap \<Rightarrow> shared_heap res" where
  "sb_destroy sb heap = (case sb of None \<Rightarrow> Inr heap | Some h \<Rightarrow> intrusive_ptr_release h heap)"

section \<open>Runs\<close>

text \<open>
  The live \<open>SharedBuffer\<close> objects of all threads, and the commands on them. A command that names no
  live object, or an address that is in use, is not a command of a program: \<open>StdOutOfRange\<close>.
\<close>

record shared_state =
  st_heap :: shared_heap
  st_handles :: "shared_buffer list"

datatype shared_cmd =
    Allocate nat bytes
  | Default
  | Copy nat
  | Destroy nat
  | MoveFrom nat
  | Swap nat nat
  | Get nat

fun shared_step :: "shared_cmd \<Rightarrow> shared_state \<Rightarrow> shared_state res" where
  "shared_step (Allocate p d) s =
     (if st_heap s p \<noteq> None then Inl StdOutOfRange
      else let (sb, heap) = sb_allocate p d (st_heap s) in
        Inr \<lparr>st_heap = heap, st_handles = st_handles s @ [sb]\<rparr>)"
| "shared_step Default s = Inr (s\<lparr>st_handles := st_handles s @ [SharedBuffer_new]\<rparr>)"
| "shared_step (Copy i) s =
     (if i < length (st_handles s)
      then bindE (sb_copy (st_handles s ! i) (st_heap s)) (\<lambda>heap.
             Inr \<lparr>st_heap = heap, st_handles = st_handles s @ [st_handles s ! i]\<rparr>)
      else Inl StdOutOfRange)"
| "shared_step (Destroy i) s =
     (if i < length (st_handles s)
      then bindE (sb_destroy (st_handles s ! i) (st_heap s)) (\<lambda>heap.
             Inr \<lparr>st_heap = heap, st_handles = remove_nth i (st_handles s)\<rparr>)
      else Inl StdOutOfRange)"
| "shared_step (MoveFrom i) s =
     (if i < length (st_handles s)
      then let (this, out) = sb_moveFrom (st_handles s ! i) in
           Inr (s\<lparr>st_handles := (st_handles s)[i := this] @ [out]\<rparr>)
      else Inl StdOutOfRange)"
| "shared_step (Swap i j) s =
     (if i < length (st_handles s) \<and> j < length (st_handles s)
      then let (a, b) = sb_swap (st_handles s ! i) (st_handles s ! j) in
           Inr (s\<lparr>st_handles := (st_handles s)[i := a, j := b]\<rparr>)
      else Inl StdOutOfRange)"
| "shared_step (Get i) s =
     (if i < length (st_handles s)
      then bindE (sb_get (st_handles s ! i) (st_heap s)) (\<lambda>p. Inr s)
      else Inl StdOutOfRange)"

fun shared_run :: "shared_cmd list \<Rightarrow> shared_state \<Rightarrow> shared_state res" where
  "shared_run [] s = Inr s"
| "shared_run (c # cs) s = bindE (shared_step c s) (shared_run cs)"

definition shared_init :: shared_state where
  "shared_init = \<lparr>st_heap = (\<lambda>p. None), st_handles = []\<rparr>"

section \<open>The counting invariant\<close>

interpretation shb: ref_counted h_refCount intrusive_ptr_add_ref intrusive_ptr_release
proof unfold_locales
  fix heap :: shared_heap and p h
  assume h: "heap p = Some h"
  show "\<exists>h'. intrusive_ptr_add_ref p heap = Inr (heap(p \<mapsto> h')) \<and> h_refCount h' = h_refCount h + 1"
    by (intro exI [of _ "h\<lparr>h_refCount := h_refCount h + 1\<rparr>"])
      (simp add: intrusive_ptr_add_ref_def cxx11_count h)
  show "h_refCount h - 1 = 0 \<Longrightarrow> intrusive_ptr_release p heap = Inr (heap(p := None))"
    by (simp add: intrusive_ptr_release_def cxx11_count h)
  show "h_refCount h - 1 \<noteq> 0 \<Longrightarrow>
      \<exists>h'. intrusive_ptr_release p heap = Inr (heap(p \<mapsto> h')) \<and> h_refCount h' = h_refCount h - 1"
    by (intro exI [of _ "h\<lparr>h_refCount := h_refCount h - 1\<rparr>"])
      (simp add: intrusive_ptr_release_def cxx11_count h)
qed

definition shared_inv :: "shared_state \<Rightarrow> bool" where
  "shared_inv s \<longleftrightarrow> rc_counted h_refCount (st_heap s) (st_handles s)"

text \<open>One step keeps the count and never touches a freed holder.\<close>

lemma shared_step_inv:
  assumes "shared_inv s" and "length (st_handles s) + 1 < 2 ^ 32"
  shows "shared_step c s = Inl StdOutOfRange \<or>
    (\<exists>s'. shared_step c s = Inr s' \<and> shared_inv s' \<and> length (st_handles s') \<le> length (st_handles s) + 1)"
proof (cases c)
  case (Allocate p d)
  show ?thesis
    using rc_counted_alloc [OF assms(1) [unfolded shared_inv_def], of p "Holder_new 1 d"]
    by (auto simp: Allocate sb_allocate_def sb_takeOwnership_def shared_inv_def Holder_new_def)
next
  case Default
  have "rc_counted h_refCount (st_heap s) (st_handles s @ [None])"
    by (rule rc_counted_same [OF assms(1) [unfolded shared_inv_def]]) (simp add: count_snoc)
  then show ?thesis by (simp add: Default shared_inv_def SharedBuffer_new_def)
next
  case (Copy i)
  have "count_list (st_handles s @ [st_handles s ! i]) (Some q) =
      count_list (st_handles s) (Some q) + (if st_handles s ! i = Some q then 1 else 0)" for q
    by (rule count_snoc)
  from shb.counted_copy [OF assms(1) [unfolded shared_inv_def] nth_mem assms(2) this]
  show ?thesis by (fastforce simp: Copy sb_copy_def shared_inv_def)
next
  case (Destroy i)
  show ?thesis
  proof (cases "i < length (st_handles s)")
    case True
    from shb.counted_drop [OF assms(1) [unfolded shared_inv_def] nth_mem [OF True] count_remove_nth [OF True]]
    show ?thesis using length_remove_nth [of i "st_handles s"]
      by (fastforce simp: Destroy True sb_destroy_def shared_inv_def)
  qed (simp add: Destroy)
next
  case (MoveFrom i)
  have "rc_counted h_refCount (st_heap s) ((st_handles s)[i := None] @ [st_handles s ! i])"
    if "i < length (st_handles s)"
    by (rule rc_counted_same [OF assms(1) [unfolded shared_inv_def] count_moved [OF that]])
  then show ?thesis
    by (simp add: MoveFrom sb_moveFrom_def sb_swap_def SharedBuffer_new_def shared_inv_def)
next
  case (Swap i j)
  have "rc_counted h_refCount (st_heap s) ((st_handles s)[i := st_handles s ! j, j := st_handles s ! i])"
    if ij: "i < length (st_handles s)" "j < length (st_handles s)"
  proof -
    have "count_list ((st_handles s)[i := st_handles s ! j, j := st_handles s ! i]) (Some p) =
        count_list (st_handles s) (Some p)" for p
      using count_update [OF ij(1), of "st_handles s ! j" "Some p"] ij
        count_update [of j "(st_handles s)[i := st_handles s ! j]" "st_handles s ! i" "Some p"]
      by (auto simp: nth_list_update split: if_splits)
    then show ?thesis by (intro rc_counted_same [OF assms(1) [unfolded shared_inv_def]])
  qed
  then show ?thesis by (simp add: Swap sb_swap_def shared_inv_def)
next
  case (Get i)
  show ?thesis
  proof (cases "i < length (st_handles s) \<and> st_handles s ! i \<noteq> None")
    case True
    then obtain p where "Some p \<in> set (st_handles s)" "st_handles s ! i = Some p" by (metis nth_mem option.exhaust)
    with rc_counted_live [OF assms(1) [unfolded shared_inv_def]] assms(1) show ?thesis
      by (fastforce simp: Get sb_get_def)
  qed (use assms(1) in \<open>auto simp: Get sb_get_def\<close>)
qed

interpretation shm: counted_machine shared_step shared_run "\<lambda>s. length (st_handles s)" shared_inv
  by unfold_locales (simp_all only: shared_run.simps, rule shared_step_inv)

section \<open>Properties\<close>

text \<open>C11: however the copies, moves, swaps and destructions of shared buffers interleave, no holder is
  used after it was freed, and in every reachable state a block is allocated exactly while some
  buffer points to it, its count being the number of those buffers.\<close>

theorem shared_buffer_counts:
  assumes "length cs < 2 ^ 32"
  shows "shared_run cs shared_init \<noteq> Inl BadAccess \<and>
    (case shared_run cs shared_init of Inl e \<Rightarrow> e = StdOutOfRange
     | Inr s \<Rightarrow> (\<forall>p. (st_heap s p = None) = (Some p \<notin> set (st_handles s)) \<and>
         (\<forall>h. st_heap s p = Some h \<longrightarrow> unat (h_refCount h) = count_list (st_handles s) (Some p))))"
proof -
  have "shared_inv shared_init" by (simp add: shared_inv_def shared_init_def)
  from shm.run_inv [OF this, of cs] assms
  consider "shared_run cs shared_init = Inl StdOutOfRange"
    | s where "shared_run cs shared_init = Inr s" "rc_counted h_refCount (st_heap s) (st_handles s)"
    by (auto simp: shared_init_def shared_inv_def)
  then show ?thesis
  proof cases
    case (2 s)
    then show ?thesis using rc_counted_holder [OF 2(2)] by simp
  qed simp
qed

theorem shared_buffer_counts_witness:
  "shared_run [Allocate 7 [1], Copy 0, Destroy 0, MoveFrom 0, Destroy 1] shared_init \<noteq> Inl BadAccess"
  using shared_buffer_counts [of "[Allocate 7 [1], Copy 0, Destroy 0, MoveFrom 0, Destroy 1]"] by simp

end
