(* ===== verification/StringBuilder.thy ===== *)
theory StringBuilder
  imports BufBuilder
begin

text \<open>
  \<^verbatim>\<open>StringBuilderImpl\<close> of \<^verbatim>\<open>mongo/bson/util/builder.h\<close>. The integer conversions of
  \<^verbatim>\<open>snprintf\<close> are the decimal and hexadecimal numerals below; what \<^verbatim>\<open>"%g"\<close> and
  \<^verbatim>\<open>"%.16g"\<close> print for a double is an argument.
\<close>

section \<open>Numerals\<close>

fun dec_nat :: "nat \<Rightarrow> bytes" where
  "dec_nat n = (if n < 10 then [48 + of_nat n] else dec_nat (n div 10) @ [48 + of_nat (n mod 10)])"

declare dec_nat.simps [simp del]

definition dec_int :: "int \<Rightarrow> bytes" where
  "dec_int i = (if i < 0 then 45 # dec_nat (nat (- i)) else dec_nat (nat i))"

definition hex_digit :: "nat \<Rightarrow> byte" where
  "hex_digit d = (if d < 10 then 48 + of_nat d else 55 + of_nat d)"

fun hex_nat :: "nat \<Rightarrow> bytes" where
  "hex_nat n = (if n < 16 then [hex_digit n] else hex_nat (n div 16) @ [hex_digit (n mod 16)])"

declare hex_nat.simps [simp del]

section \<open>StringBuilderImpl\<close>

definition MONGO_DBL_SIZE :: int where "MONGO_DBL_SIZE = 3 + 53 - (- 1021) + 1"
definition MONGO_S32_SIZE :: int where "MONGO_S32_SIZE = 12"
definition MONGO_U32_SIZE :: int where "MONGO_U32_SIZE = 11"
definition MONGO_S64_SIZE :: int where "MONGO_S64_SIZE = 23"
definition MONGO_U64_SIZE :: int where "MONGO_U64_SIZE = 22"
definition MONGO_S16_SIZE :: int where "MONGO_S16_SIZE = 7"
definition MONGO_PTR_SIZE :: int where "MONGO_PTR_SIZE = 19"

lemmas mongo_sizes = MONGO_DBL_SIZE_def MONGO_S32_SIZE_def MONGO_U32_SIZE_def MONGO_S64_SIZE_def
  MONGO_U64_SIZE_def MONGO_S16_SIZE_def MONGO_PTR_SIZE_def

text \<open>
  \<open>SBNUM\<close> prints into room for \<open>maxSize\<close> bytes: \<^verbatim>\<open>snprintf\<close> stores at most
  \<open>maxSize - 1\<close> characters and a null, and returns the length of the whole text.
\<close>

definition SBNUM :: "(int \<Rightarrow> bool) \<Rightarrow> bytes \<Rightarrow> int \<Rightarrow> buf_builder \<Rightarrow> buf_builder res" where
  "SBNUM env txt maxSize b =
     (let prev = bb_l b; z = int (length txt) in
      bindE (grow env maxSize b) (\<lambda>(p, b).
      bindE (poke p (take (nat maxSize - 1) txt @ [0]) b) (\<lambda>b.
      bindE (verify (z \<ge> 0)) (\<lambda>_.
      bindE (verify (z < maxSize)) (\<lambda>_.
        Inr (b\<lparr>bb_l := prev + z\<rparr>))))))"

definition sb_double :: "(int \<Rightarrow> bool) \<Rightarrow> (64 word \<Rightarrow> bytes) \<Rightarrow> 64 word \<Rightarrow> buf_builder \<Rightarrow> buf_builder res" where
  "sb_double env print_g x b = SBNUM env (print_g x) MONGO_DBL_SIZE b"

definition sb_int :: "(int \<Rightarrow> bool) \<Rightarrow> 32 word \<Rightarrow> buf_builder \<Rightarrow> buf_builder res" where
  "sb_int env x b = SBNUM env (dec_int (sint x)) MONGO_S32_SIZE b"

definition sb_unsigned :: "(int \<Rightarrow> bool) \<Rightarrow> 32 word \<Rightarrow> buf_builder \<Rightarrow> buf_builder res" where
  "sb_unsigned env x b = SBNUM env (dec_int (uint x)) MONGO_U32_SIZE b"

definition sb_long :: "(int \<Rightarrow> bool) \<Rightarrow> 64 word \<Rightarrow> buf_builder \<Rightarrow> buf_builder res" where
  "sb_long env x b = SBNUM env (dec_int (sint x)) MONGO_S64_SIZE b"

definition sb_ulong :: "(int \<Rightarrow> bool) \<Rightarrow> 64 word \<Rightarrow> buf_builder \<Rightarrow> buf_builder res" where
  "sb_ulong env x b = SBNUM env (dec_int (uint x)) MONGO_U64_SIZE b"

definition sb_longlong :: "(int \<Rightarrow> bool) \<Rightarrow> 64 word \<Rightarrow> buf_builder \<Rightarrow> buf_builder res" where
  "sb_longlong env x b = SBNUM env (dec_int (sint x)) MONGO_S64_SIZE b"

definition sb_ulonglong :: "(int \<Rightarrow> bool) \<Rightarrow> 64 word \<Rightarrow> buf_builder \<Rightarrow> buf_builder res" where
  "sb_ulonglong env x b = SBNUM env (dec_int (uint x)) MONGO_U64_SIZE b"

definition sb_short :: "(int \<Rightarrow> bool) \<Rightarrow> 16 word \<Rightarrow> buf_builder \<Rightarrow> buf_builder res" where
  "sb_short env x b = SBNUM env (dec_int (sint x)) MONGO_S16_SIZE b"

text \<open>A 64-bit pointer, with the prefix \<^verbatim>\<open>0x\<close>.\<close>

definition sb_pointer :: "(int \<Rightarrow> bool) \<Rightarrow> 64 word \<Rightarrow> buf_builder \<Rightarrow> buf_builder res" where
  "sb_pointer env x b = SBNUM env (48 # 120 # hex_nat (unat x)) MONGO_PTR_SIZE b"

definition sb_char :: "(int \<Rightarrow> bool) \<Rightarrow> byte \<Rightarrow> buf_builder \<Rightarrow> buf_builder res" where
  "sb_char env c b = bindE (grow env 1 b) (\<lambda>(p, b). poke p [c] b)"

definition sb_append :: "(int \<Rightarrow> bool) \<Rightarrow> string_data \<Rightarrow> buf_builder \<Rightarrow> buf_builder res" where
  "sb_append env str b =
     bindE (grow env (int_of_size (length str)) b) (\<lambda>(p, b). poke p str b)"

definition sb_cstr :: "(int \<Rightarrow> bool) \<Rightarrow> bytes option \<Rightarrow> buf_builder \<Rightarrow> buf_builder res" where
  "sb_cstr env str b = bindE (StringData_cstr str) (\<lambda>s. sb_append env s b)"

definition sb_string_data :: "(int \<Rightarrow> bool) \<Rightarrow> string_data \<Rightarrow> buf_builder \<Rightarrow> buf_builder res" where
  "sb_string_data env str b = sb_append env str b"

definition sb_write :: "(int \<Rightarrow> bool) \<Rightarrow> bytes \<Rightarrow> buf_builder \<Rightarrow> buf_builder res" where
  "sb_write env buf b =
     bindE (grow env (int_of_size (length buf)) b) (\<lambda>(p, b). poke p buf b)"

definition appendDoubleNice ::
    "(int \<Rightarrow> bool) \<Rightarrow> (64 word \<Rightarrow> bytes) \<Rightarrow> 64 word \<Rightarrow> buf_builder \<Rightarrow> buf_builder res" where
  "appendDoubleNice env print_16g x b =
     (let prev = bb_l b; maxSize = 32; txt = print_16g x; z = int (length txt) in
      bindE (grow env maxSize b) (\<lambda>(start, b).
      bindE (poke start (take (nat maxSize - 1) txt @ [0]) b) (\<lambda>b.
      bindE (verify (z \<ge> 0)) (\<lambda>_.
      bindE (verify (z < maxSize)) (\<lambda>_.
      let b = b\<lparr>bb_l := prev + z\<rparr> in
      if 46 \<notin> set txt \<and> 69 \<notin> set txt \<and> 78 \<notin> set txt
      then sb_write env [46, 48] b else Inr b)))))"

definition sb_reset :: "(int \<Rightarrow> bool) \<Rightarrow> int \<Rightarrow> buf_builder \<Rightarrow> buf_builder res" where
  "sb_reset env maxSize b = bb_reset_max env maxSize b"

text \<open>Reading a cell that was never written is \<open>BadAccess\<close>.\<close>

definition read_cells :: "cells \<Rightarrow> bytes res" where
  "read_cells cs = (if None \<in> set cs then Inl BadAccess else Inr (map the cs))"

definition sb_str :: "buf_builder \<Rightarrow> bytes res" where
  "sb_str b = read_cells (contents b)"

definition sb_len :: "buf_builder \<Rightarrow> int" where
  "sb_len b = bb_l b"

text \<open>\<^verbatim>\<open>str::stream\<close> of \<^verbatim>\<open>util/mongoutils/str.h\<close>: a builder that converts to the string it holds.\<close>

definition stream_insert ::
    "('v \<Rightarrow> buf_builder \<Rightarrow> buf_builder res) \<Rightarrow> 'v \<Rightarrow> buf_builder \<Rightarrow> buf_builder res" where
  "stream_insert app v ss = app v ss"

definition stream_string :: "buf_builder \<Rightarrow> bytes res" where
  "stream_string ss = sb_str ss"

section \<open>Lemmas\<close>

lemma length_dec_nat: "n < 10 ^ k \<Longrightarrow> 0 < k \<Longrightarrow> length (dec_nat n) \<le> k"
proof (induction k arbitrary: n)
  case (Suc k)
  show ?case
  proof (cases "n < 10")
    case True
    then show ?thesis by (simp add: dec_nat.simps [of n])
  next
    case False
    with Suc.prems have k: "0 < k" by (cases k) auto
    from Suc.prems have "n div 10 < 10 ^ k" by (simp add: less_mult_imp_div_less mult.commute)
    with Suc.IH k have "length (dec_nat (n div 10)) \<le> k" by blast
    with False show ?thesis by (simp add: dec_nat.simps [of n])
  qed
qed simp

lemma length_dec_int:
  assumes "\<bar>i\<bar> < 10 ^ k" "0 < k"
  shows "length (dec_int i) \<le> Suc k" and "0 \<le> i \<Longrightarrow> length (dec_int i) \<le> k"
proof -
  have "nat \<bar>i\<bar> < 10 ^ k" using assms(1) by (simp add: nat_less_iff)
  from length_dec_nat [OF this assms(2)]
  show "length (dec_int i) \<le> Suc k" and "0 \<le> i \<Longrightarrow> length (dec_int i) \<le> k"
    by (auto simp: dec_int_def split: if_splits)
qed

lemma length_hex_nat: "n < 16 ^ k \<Longrightarrow> 0 < k \<Longrightarrow> length (hex_nat n) \<le> k"
proof (induction k arbitrary: n)
  case (Suc k)
  show ?case
  proof (cases "n < 16")
    case True
    then show ?thesis by (simp add: hex_nat.simps [of n])
  next
    case False
    with Suc.prems have k: "0 < k" by (cases k) auto
    from Suc.prems have "n div 16 < 16 ^ k" by (simp add: less_mult_imp_div_less mult.commute)
    with Suc.IH k have "length (hex_nat (n div 16)) \<le> k" by blast
    with False show ?thesis by (simp add: hex_nat.simps [of n])
  qed
qed simp

text \<open>Decimal numerals are read back by \<open>dec_value\<close>, so they are distinct.\<close>

definition dec_value :: "bytes \<Rightarrow> nat" where
  "dec_value ds = foldl (\<lambda>v d. v * 10 + (unat d - 48)) 0 ds"

lemma unat_digit: "d < 10 \<Longrightarrow> unat (48 + of_nat d :: byte) = 48 + d"
proof -
  assume d: "d < 10"
  have "(48 :: byte) + of_nat d = of_nat (48 + d)" by simp
  then show ?thesis using d by (simp only: unat_of_nat) simp
qed

lemma dec_value_dec_nat: "dec_value (dec_nat n) = n"
proof (induction n rule: dec_nat.induct)
  case (1 n)
  show ?case
  proof (cases "n < 10")
    case True
    then show ?thesis by (simp add: dec_nat.simps [of n] dec_value_def unat_digit)
  next
    case False
    with 1 show ?thesis
      by (simp add: dec_nat.simps [of n] dec_value_def unat_digit)
  qed
qed

lemma dec_nat_inject [simp]: "dec_nat m = dec_nat n \<longleftrightarrow> m = n"
  by (metis dec_value_dec_nat)

lemma dec_nat_digits: "d \<in> set (dec_nat n) \<Longrightarrow> 48 \<le> d \<and> d \<le> 57"
proof (induction n rule: dec_nat.induct)
  case (1 n)
  have digit: "48 \<le> (48 + of_nat k :: byte) \<and> (48 + of_nat k :: byte) \<le> 57" if "k < 10" for k
    using that by (simp add: word_le_nat_alt unat_digit)
  show ?case
  proof (cases "n < 10")
    case True
    with 1 digit [of n] show ?thesis by (simp add: dec_nat.simps [of n])
  next
    case False
    with 1 digit [of "n mod 10"] show ?thesis by (auto simp: dec_nat.simps [of n])
  qed
qed

lemma dec_nat_no_null: "0 \<notin> set (dec_nat n)"
  using dec_nat_digits [of 0 n] by auto

lemma SBNUM_spec:
  assumes b: "bb_ok b" and z: "int (length txt) < maxSize"
    and room: "bb_l b + maxSize + bb_reserved b \<le> BufferMaxSize" and env: "mallocs env"
  shows "\<exists>b'. SBNUM env txt maxSize b = Inr b' \<and> bb_ok b' \<and> contents b' = contents b @ map Some txt \<and>
    bb_l b' = bb_l b + int (length txt) \<and> bb_reserved b' = bb_reserved b \<and> bb_al b' = bb_al b"
proof -
  have m: "0 \<le> maxSize" using z by linarith
  from grow_total [OF b m room env] obtain b1 where
    g: "grow env maxSize b = Inr (bb_l b, b1)" and b1: "bb_ok b1" "bb_l b1 = bb_l b + maxSize"
      "bb_reserved b1 = bb_reserved b" "bb_al b1 = bb_al b" "take (nat (bb_l b)) (contents b1) = contents b"
    by auto
  have t: "take (nat maxSize - 1) txt = txt" using z by simp
  have l0: "0 \<le> bb_l b" using b by (simp add: bb_ok_def)
  from poke_spec [OF b1(1), of "bb_l b" "txt @ [0]"] b1 z l0 obtain b2 where
    p: "poke (bb_l b) (txt @ [0]) b1 = Inr b2" "bb_ok b2" "bb_l b2 = bb_l b1"
      "bb_reserved b2 = bb_reserved b1" "bb_al b2 = bb_al b1"
      "contents b2 = contents b @ map Some (txt @ [0]) @ drop (nat (bb_l b) + length (txt @ [0])) (contents b1)"
    by auto
  let ?b = "b2\<lparr>bb_l := bb_l b + int (length txt)\<rparr>"
  have ok: "bb_ok ?b" using p(2,3) b1(2) z l0
    by (auto simp: bb_ok_def block_ok_def split: option.splits)
  have "contents ?b = take (nat (bb_l b + int (length txt))) (contents b2)"
    using p(3) b1(2) z by (simp add: contents_def min_def split: option.split)
  also have "\<dots> = contents b @ map Some txt"
    unfolding p(6) using length_contents [OF b] l0 by (simp add: nat_add_distrib)
  finally have "contents ?b = contents b @ map Some txt" .
  with g p(1,4,5) ok b1 t z show ?thesis
    by (intro exI [of _ ?b]) (simp add: SBNUM_def)
qed

lemma sb_append_emits [emit]: "mallocs env \<Longrightarrow> emits (sb_append env s) s"
  using appendBuf_emits [of env s] by (simp add: sb_append_def [abs_def] appendBuf_def [abs_def])

lemma sb_write_emits [emit]: "mallocs env \<Longrightarrow> emits (sb_write env s) s"
  using appendBuf_emits [of env s] by (simp add: sb_write_def [abs_def] appendBuf_def [abs_def])

lemma sb_str_contents: "contents b = map Some bs \<Longrightarrow> sb_str b = Inr bs"
  by (auto simp: sb_str_def read_cells_def)

section \<open>Properties\<close>

lemma sint_bounds:
  "\<bar>sint (x :: 16 word)\<bar> < 10 ^ 5" "\<bar>sint (y :: 32 word)\<bar> < 10 ^ 10" "\<bar>sint (z :: 64 word)\<bar> < 10 ^ 19"
  using sint_lt [of x] sint_ge [of x] sint_lt [of y] sint_ge [of y] sint_lt [of z] sint_ge [of z]
  by auto

lemma uint_bounds: "\<bar>uint (y :: 32 word)\<bar> < 10 ^ 10" "\<bar>uint (z :: 64 word)\<bar> < 10 ^ 20"
  using uint_lt2p [of y] uint_lt2p [of z] by auto

lemma unat_less64: "unat (z :: 64 word) < 16 ^ 16"
  using unsigned_less [of z, where 'a = nat] by simp

lemma SBNUM_texts_fit:
  "int (length (dec_int (sint (x :: 16 word)))) < MONGO_S16_SIZE"
  "int (length (dec_int (sint (y :: 32 word)))) < MONGO_S32_SIZE"
  "int (length (dec_int (uint y))) < MONGO_U32_SIZE"
  "int (length (dec_int (sint (z :: 64 word)))) < MONGO_S64_SIZE"
  "int (length (dec_int (uint z))) < MONGO_U64_SIZE"
  "int (length (48 # 120 # hex_nat (unat z))) < MONGO_PTR_SIZE"
  using length_dec_int(1) [OF sint_bounds(1) [of x]] length_dec_int(1) [OF sint_bounds(2) [of y]]
    length_dec_int(2) [OF uint_bounds(1) [of y]] length_dec_int(1) [OF sint_bounds(3) [of z]]
    length_dec_int(2) [OF uint_bounds(2) [of z]] length_hex_nat [of "unat z" 16] unat_less64 [of z]
  by (simp_all add: mongo_sizes)

text \<open>The room that the string builder sets aside for a number is enough for every value of
  its type: streaming any \<^verbatim>\<open>int\<close>, \<^verbatim>\<open>unsigned\<close>, \<^verbatim>\<open>long long\<close>, \<^verbatim>\<open>unsigned long long\<close>,
  \<^verbatim>\<open>short\<close> or pointer succeeds and appends exactly its numeral.\<close>

theorem sb_numbers_fit:
  assumes "bb_ok b" and "bb_l b + MONGO_S64_SIZE + bb_reserved b \<le> BufferMaxSize" and "mallocs env"
  shows "(\<exists>b'. sb_int env y b = Inr b' \<and> contents b' = contents b @ map Some (dec_int (sint y))) \<and>
    (\<exists>b'. sb_unsigned env y b = Inr b' \<and> contents b' = contents b @ map Some (dec_int (uint y))) \<and>
    (\<exists>b'. sb_longlong env z b = Inr b' \<and> contents b' = contents b @ map Some (dec_int (sint z))) \<and>
    (\<exists>b'. sb_ulonglong env z b = Inr b' \<and> contents b' = contents b @ map Some (dec_int (uint z))) \<and>
    (\<exists>b'. sb_short env x b = Inr b' \<and> contents b' = contents b @ map Some (dec_int (sint x))) \<and>
    (\<exists>b'. sb_pointer env z b = Inr b' \<and> contents b' = contents b @ map Some (48 # 120 # hex_nat (unat z)))"
proof -
  have spec: "\<exists>b'. SBNUM env t m b = Inr b' \<and> contents b' = contents b @ map Some t"
    if "int (length t) < m" "m \<le> MONGO_S64_SIZE" for t m
    using SBNUM_spec [OF assms(1) that(1) _ assms(3)] assms(2) that(2) by fastforce
  show ?thesis
    unfolding sb_int_def sb_unsigned_def sb_longlong_def sb_ulonglong_def sb_short_def sb_pointer_def
    by (intro conjI spec SBNUM_texts_fit) (simp_all add: mongo_sizes)
qed

theorem sb_numbers_fit_witness:
  "\<exists>b'. sb_int (\<lambda>_. True) (- 7)
      \<lparr>bb_al = TrivialAllocator, bb_data = None, bb_l = 0, bb_size = 0, bb_reserved = 0\<rparr> = Inr b' \<and>
    contents b' = contents \<lparr>bb_al = TrivialAllocator, bb_data = None, bb_l = 0, bb_size = 0, bb_reserved = 0\<rparr> @
      map Some (dec_int (sint (- 7 :: 32 word)))"
  by (rule sb_numbers_fit [THEN conjunct1])
    (simp_all add: bb_ok_def block_ok_def mallocs_def size_consts mongo_sizes)

lemma appendDoubleNice_SBNUM:
  "appendDoubleNice env pr x b = bindE (SBNUM env (pr x) 32 b) (\<lambda>b.
     if 46 \<notin> set (pr x) \<and> 69 \<notin> set (pr x) \<and> 78 \<notin> set (pr x) then sb_write env [46, 48] b else Inr b)"
  by (simp add: appendDoubleNice_def SBNUM_def Let_def bindE_assoc case_prod_beta')

text \<open>\<open>appendDoubleNice\<close> decides that a text needs a trailing \<open>.0\<close> by looking for a dot or
  an upper case E or N only, while \<^verbatim>\<open>"%.16g"\<close> prints a lower case exponent (and a lower case
  nan): after a text such as \<open>1e+20\<close> it still writes \<open>.0\<close>.\<close>

theorem appendDoubleNice_exponent:
  assumes "bb_ok b" and "bb_l b + 34 + bb_reserved b \<le> BufferMaxSize" and "mallocs env"
    and "length (print_16g x) < 32"
    and "46 \<notin> set (print_16g x)" and "69 \<notin> set (print_16g x)" and "78 \<notin> set (print_16g x)"
  shows "\<exists>b'. appendDoubleNice env print_16g x b = Inr b' \<and>
    contents b' = contents b @ map Some (print_16g x @ [46, 48])"
proof -
  from SBNUM_spec [OF assms(1), of "print_16g x" 32 env] assms(2-4) obtain b1 where
    b1: "SBNUM env (print_16g x) 32 b = Inr b1" "bb_ok b1"
      "contents b1 = contents b @ map Some (print_16g x)"
      "bb_l b1 = bb_l b + int (length (print_16g x))" "bb_reserved b1 = bb_reserved b"
    by auto
  from sb_write_emits [OF assms(3), of "[46, 48]"] b1 assms(2,4) obtain b2 where
    "sb_write env [46, 48] b1 = Inr b2" "contents b2 = contents b1 @ map Some [46, 48]"
    unfolding emits_def by force
  with b1 assms show ?thesis by (simp add: appendDoubleNice_SBNUM)
qed

theorem appendDoubleNice_exponent_witness:
  "\<exists>b'. appendDoubleNice (\<lambda>_. True) (\<lambda>_. [49, 101, 43, 50, 48]) 0x4415AF1D78B58C40
      \<lparr>bb_al = TrivialAllocator, bb_data = None, bb_l = 0, bb_size = 0, bb_reserved = 0\<rparr> = Inr b' \<and>
    contents b' = contents \<lparr>bb_al = TrivialAllocator, bb_data = None, bb_l = 0, bb_size = 0, bb_reserved = 0\<rparr> @
      map Some ([49, 101, 43, 50, 48] @ [46, 48])"
  by (rule appendDoubleNice_exponent)
    (simp_all add: bb_ok_def block_ok_def mallocs_def size_consts)

end
