(* ===== verification/BsonObj.thy ===== *)
theory BsonObj
  imports BsonElement SharedBuffer StringBuilder
begin

text \<open>
  \<^verbatim>\<open>mongo/bson/bsonobj.h\<close> (its inline part) and \<^verbatim>\<open>mongo/bson/bsonobjiterator.h\<close>. An object is
  the pointer to its bytes and the shared buffer that owns them, if any. Functions that the header
  only declares are arguments: \<open>assertInvalid\<close>, \<open>getField\<close>, \<open>woCompareObj\<close>, \<open>objEqual\<close>,
  \<open>okForStorageImpl\<close>, and the size \<open>esize\<close> of an element.
\<close>

section \<open>Objects\<close>

record BSONObj =
  od_objdata :: bytes
  od_ownedBuffer :: shared_buffer

definition kEmptyObjectPrototype :: bytes where
  "kEmptyObjectPrototype = [5, 0, 0, 0, 0]"

definition BSONObj_empty :: BSONObj where
  "BSONObj_empty = \<lparr>od_objdata = kEmptyObjectPrototype, od_ownedBuffer = SharedBuffer_new\<rparr>"

definition obj_objsize :: "BSONObj \<Rightarrow> int res" where
  "obj_objsize b = read_int (od_objdata b)"

definition obj_isValid :: "BSONObj \<Rightarrow> bool res" where
  "obj_isValid b = bindE (obj_objsize b) (\<lambda>x. Inr (x > 0 \<and> x \<le> BSONObjMaxInternalSize))"

definition obj_init :: "(BSONObj \<Rightarrow> unit res) \<Rightarrow> bytes \<Rightarrow> BSONObj \<Rightarrow> BSONObj res" where
  "obj_init assertInvalid d b =
     (let b = b\<lparr>od_objdata := d\<rparr> in
      bindE (obj_isValid b) (\<lambda>z. if z then Inr b else bindE (assertInvalid b) (\<lambda>_. Inr b)))"

definition BSONObj_unowned :: "(BSONObj \<Rightarrow> unit res) \<Rightarrow> bytes \<Rightarrow> BSONObj res" where
  "BSONObj_unowned assertInvalid bsonData =
     obj_init assertInvalid bsonData \<lparr>od_objdata = [], od_ownedBuffer = SharedBuffer_new\<rparr>"

definition BSONObj_shared :: "shared_heap \<Rightarrow> shared_buffer \<Rightarrow> BSONObj res" where
  "BSONObj_shared heap ownedBuffer =
     bindE (sb_get ownedBuffer heap) (\<lambda>p.
       let (rest, buf) = sb_moveFrom ownedBuffer in
       Inr \<lparr>od_objdata = (case p of Some d \<Rightarrow> d | None \<Rightarrow> od_objdata BSONObj_empty), od_ownedBuffer = buf\<rparr>)"

text \<open>Move construction: the new object, and the other one, returned to an empty state.\<close>

definition BSONObj_move :: "BSONObj \<Rightarrow> BSONObj \<times> BSONObj" where
  "BSONObj_move other =
     (\<lparr>od_objdata = od_objdata other, od_ownedBuffer = od_ownedBuffer other\<rparr>,
      other\<lparr>od_objdata := od_objdata BSONObj_empty, od_ownedBuffer := None\<rparr>)"

definition obj_swap :: "BSONObj \<Rightarrow> BSONObj \<Rightarrow> BSONObj \<times> BSONObj" where
  "obj_swap this other =
     (let (b1, b2) = sb_swap (od_ownedBuffer this) (od_ownedBuffer other) in
      (\<lparr>od_objdata = od_objdata other, od_ownedBuffer = b1\<rparr>,
       \<lparr>od_objdata = od_objdata this, od_ownedBuffer = b2\<rparr>))"

text \<open>Assignment by copy and swap: this object afterwards, and the copy that is destroyed.\<close>

definition obj_assign :: "BSONObj \<Rightarrow> BSONObj \<Rightarrow> BSONObj \<times> BSONObj" where
  "obj_assign this otherCopy = obj_swap this otherCopy"

definition obj_isOwned :: "shared_heap \<Rightarrow> BSONObj \<Rightarrow> bool res" where
  "obj_isOwned heap b = bindE (sb_get (od_ownedBuffer b) heap) (\<lambda>p. Inr (p \<noteq> None))"

definition obj_takeOwnership :: "nat \<Rightarrow> bytes \<Rightarrow> shared_heap \<Rightarrow> (BSONObj \<times> shared_heap) res" where
  "obj_takeOwnership p d heap =
     (let (sb, heap) = sb_takeOwnership p d heap in
      bindE (BSONObj_shared heap sb) (\<lambda>b. Inr (b, heap)))"

definition obj_isEmpty :: "BSONObj \<Rightarrow> bool res" where
  "obj_isEmpty b = bindE (obj_objsize b) (\<lambda>n. Inr (n \<le> 5))"

definition obj_binaryEqual :: "BSONObj \<Rightarrow> BSONObj \<Rightarrow> bool res" where
  "obj_binaryEqual b r =
     bindE (obj_objsize b) (\<lambda>os.
     bindE (obj_objsize r) (\<lambda>os'.
       if os = os' then
         (if os = 0 then Inr True
          else bindE (slice (od_objdata b) 0 (size_of_int os)) (\<lambda>x.
               bindE (slice (od_objdata r) 0 (size_of_int os)) (\<lambda>y.
                 Inr (memcmp x y (size_of_int os) = 0))))
       else Inr False))"

definition firstElement :: "BSONObj \<Rightarrow> BSONElement res" where
  "firstElement b = bindE (advance 4 (od_objdata b)) BSONElement_new"

definition firstElementFieldName :: "BSONObj \<Rightarrow> bytes res" where
  "firstElementFieldName b =
     bindE (advance 4 (od_objdata b)) (\<lambda>p.
     bindE (read_byte p) (\<lambda>c. if sint c = type_code EOO then Inr [0] else advance 1 p))"

definition firstElementType :: "BSONObj \<Rightarrow> BSONType res" where
  "firstElementType b =
     bindE (advance 4 (od_objdata b)) (\<lambda>p. bindE (read_byte p) (\<lambda>c. Inr (type_of_code (sint c))))"

definition appendSelfToBufBuilder :: "(int \<Rightarrow> bool) \<Rightarrow> BSONObj \<Rightarrow> buf_builder \<Rightarrow> buf_builder res" where
  "appendSelfToBufBuilder env o1 b =
     bindE (obj_objsize o1) (\<lambda>n.
     bindE (verify (n \<noteq> 0)) (\<lambda>_.
     bindE (slice (od_objdata o1) 0 (size_of_int n)) (\<lambda>d. appendBuf env d b)))"

section \<open>Fields, storage and comparison, over declared functions\<close>

definition obj_field :: "(BSONObj \<Rightarrow> string_data \<Rightarrow> BSONElement res) \<Rightarrow> BSONObj \<Rightarrow> string_data \<Rightarrow> BSONElement res" where
  "obj_field getField b field = getField b field"

definition obj_field_int ::
    "(int \<Rightarrow> bool) \<Rightarrow> (BSONObj \<Rightarrow> string_data \<Rightarrow> BSONElement res) \<Rightarrow> BSONObj \<Rightarrow> 32 word \<Rightarrow> BSONElement res" where
  "obj_field_int env getField b field =
     bindE (BufBuilder_new env TrivialAllocator 512) (\<lambda>ss.
     bindE (sb_int env field ss) (\<lambda>ss.
     bindE (sb_str ss) (\<lambda>s. getField b s)))"

definition hasField :: "(BSONObj \<Rightarrow> string_data \<Rightarrow> BSONElement res) \<Rightarrow> BSONObj \<Rightarrow> string_data \<Rightarrow> bool res" where
  "hasField getField b name = bindE (getField b name) (\<lambda>e. bindE (eoo e) (\<lambda>z. Inr (\<not> z)))"

definition hasElement :: "(BSONObj \<Rightarrow> string_data \<Rightarrow> BSONElement res) \<Rightarrow> BSONObj \<Rightarrow> string_data \<Rightarrow> bool res" where
  "hasElement getField b name = hasField getField b name"

text \<open>A status is its code here, 0 for OK.\<close>

definition okForStorage :: "(BSONObj \<Rightarrow> bool \<Rightarrow> bool \<Rightarrow> int) \<Rightarrow> BSONObj \<Rightarrow> bool" where
  "okForStorage okForStorageImpl b \<longleftrightarrow> okForStorageImpl b False True = 0"

definition okForStorageAsRoot :: "(BSONObj \<Rightarrow> bool \<Rightarrow> bool \<Rightarrow> int) \<Rightarrow> BSONObj \<Rightarrow> bool" where
  "okForStorageAsRoot okForStorageImpl b \<longleftrightarrow> okForStorageImpl b True True = 0"

definition storageValidEmbedded :: "(BSONObj \<Rightarrow> bool \<Rightarrow> bool \<Rightarrow> int) \<Rightarrow> BSONObj \<Rightarrow> bool \<Rightarrow> int" where
  "storageValidEmbedded okForStorageImpl b deep = okForStorageImpl b False deep"

definition storageValid :: "(BSONObj \<Rightarrow> bool \<Rightarrow> bool \<Rightarrow> int) \<Rightarrow> BSONObj \<Rightarrow> bool \<Rightarrow> int" where
  "storageValid okForStorageImpl b deep = okForStorageImpl b True deep"

definition obj_less :: "(BSONObj \<Rightarrow> BSONObj \<Rightarrow> int res) \<Rightarrow> BSONObj \<Rightarrow> BSONObj \<Rightarrow> bool res" where
  "obj_less woCompareObj l r = bindE (woCompareObj l r) (\<lambda>c. Inr (c < 0))"

definition obj_less_eq :: "(BSONObj \<Rightarrow> BSONObj \<Rightarrow> int res) \<Rightarrow> BSONObj \<Rightarrow> BSONObj \<Rightarrow> bool res" where
  "obj_less_eq woCompareObj l r = bindE (woCompareObj l r) (\<lambda>c. Inr (c \<le> 0))"

definition obj_greater :: "(BSONObj \<Rightarrow> BSONObj \<Rightarrow> int res) \<Rightarrow> BSONObj \<Rightarrow> BSONObj \<Rightarrow> bool res" where
  "obj_greater woCompareObj l r = bindE (woCompareObj l r) (\<lambda>c. Inr (c > 0))"

definition obj_greater_eq :: "(BSONObj \<Rightarrow> BSONObj \<Rightarrow> int res) \<Rightarrow> BSONObj \<Rightarrow> BSONObj \<Rightarrow> bool res" where
  "obj_greater_eq woCompareObj l r = bindE (woCompareObj l r) (\<lambda>c. Inr (c \<ge> 0))"

text \<open>The function objects that order sets of elements and of objects.\<close>

definition BSONElementCmpWithoutField ::
    "(BSONElement \<Rightarrow> BSONElement \<Rightarrow> bool \<Rightarrow> int res) \<Rightarrow> BSONElement \<Rightarrow> BSONElement \<Rightarrow> bool res" where
  "BSONElementCmpWithoutField woCompare l r = bindE (woCompare l r False) (\<lambda>c. Inr (c < 0))"

record BSONObjCmp =
  cmp_order :: BSONObj

definition BSONObjCmp_new :: "BSONObj \<Rightarrow> BSONObjCmp" where
  "BSONObjCmp_new order = \<lparr>cmp_order = order\<rparr>"

definition cmp_call :: "(BSONObj \<Rightarrow> BSONObj \<Rightarrow> BSONObj \<Rightarrow> int res) \<Rightarrow> BSONObjCmp \<Rightarrow> BSONObj \<Rightarrow> BSONObj \<Rightarrow> bool res" where
  "cmp_call woCompare cmp l r = bindE (woCompare l r (cmp_order cmp)) (\<lambda>c. Inr (c < 0))"

definition cmp_get_order :: "BSONObjCmp \<Rightarrow> BSONObj" where
  "cmp_get_order cmp = cmp_order cmp"

definition swap_objs :: "BSONObj \<Rightarrow> BSONObj \<Rightarrow> BSONObj \<times> BSONObj" where
  "swap_objs l r = obj_swap l r"

definition obj_eq :: "(BSONObj \<Rightarrow> BSONObj \<Rightarrow> bool res) \<Rightarrow> BSONObj \<Rightarrow> BSONObj \<Rightarrow> bool res" where
  "obj_eq objEqual l r = objEqual l r"

definition obj_neq :: "(BSONObj \<Rightarrow> BSONObj \<Rightarrow> bool res) \<Rightarrow> BSONObj \<Rightarrow> BSONObj \<Rightarrow> bool res" where
  "obj_neq objEqual l r = bindE (obj_eq objEqual l r) (\<lambda>b. Inr (\<not> b))"

datatype MatchType =
    Equality | MT_LT | MT_LTE | MT_GTE | MT_GT | opIN | NE | opSIZE | opALL | NIN | opEXISTS | opMOD
  | opTYPE | opREGEX | opOPTIONS | opELEM_MATCH | opNEAR | opWITHIN | opMAX_DISTANCE | opGEO_INTERSECTS

fun match_code :: "MatchType \<Rightarrow> int" where
  "match_code Equality = 0"
| "match_code MT_LT = 0x1"
| "match_code MT_LTE = 0x3"
| "match_code MT_GTE = 0x6"
| "match_code MT_GT = 0x4"
| "match_code opIN = 0x8"
| "match_code NE = 0x9"
| "match_code opSIZE = 0x0A"
| "match_code opALL = 0x0B"
| "match_code NIN = 0x0C"
| "match_code opEXISTS = 0x0D"
| "match_code opMOD = 0x0E"
| "match_code opTYPE = 0x0F"
| "match_code opREGEX = 0x10"
| "match_code opOPTIONS = 0x11"
| "match_code opELEM_MATCH = 0x12"
| "match_code opNEAR = 0x13"
| "match_code opWITHIN = 0x14"
| "match_code opMAX_DISTANCE = 0x15"
| "match_code opGEO_INTERSECTS = 0x16"

section \<open>Iterators\<close>

text \<open>Positions are offsets from the object's first byte; the null pointers are offset 0 of nothing.\<close>

record BSONObjIterator =
  it_mem :: bytes
  it_pos :: int
  it_theend :: int

definition BSONObjIterator_new :: "BSONObj \<Rightarrow> BSONObjIterator res" where
  "BSONObjIterator_new jso =
     bindE (obj_objsize jso) (\<lambda>sz.
       if sz = 0 then Inr \<lparr>it_mem = [], it_pos = 0, it_theend = 0\<rparr>
       else Inr \<lparr>it_mem = od_objdata jso, it_pos = 4, it_theend = sz - 1\<rparr>)"

text \<open>From \<open>start\<close> to \<open>end\<close>, an offset from it.\<close>

definition BSONObjIterator_range :: "bytes \<Rightarrow> int \<Rightarrow> BSONObjIterator" where
  "BSONObjIterator_range start e = \<lparr>it_mem = start, it_pos = 4, it_theend = e - 1\<rparr>"

definition it_more :: "BSONObjIterator \<Rightarrow> bool" where
  "it_more it \<longleftrightarrow> it_pos it < it_theend it"

definition moreWithEOO :: "BSONObjIterator \<Rightarrow> bool" where
  "moreWithEOO it \<longleftrightarrow> it_pos it \<le> it_theend it"

definition it_next_checked ::
    "(bytes \<Rightarrow> int \<Rightarrow> int res) \<Rightarrow> bool \<Rightarrow> BSONObjIterator \<Rightarrow> (BSONElement \<times> BSONObjIterator) res" where
  "it_next_checked esize checkEnd it =
     bindE (verify (it_pos it \<le> it_theend it)) (\<lambda>_.
     bindE (if checkEnd
            then let maxLen = it_theend it + 1 - it_pos it in bindE (verify (maxLen > 0)) (\<lambda>_. Inr maxLen)
            else Inr (-1)) (\<lambda>maxLen.
     bindE (advance (it_pos it) (it_mem it)) (\<lambda>p.
     bindE (BSONElement_max p maxLen) (\<lambda>e.
     bindE (esize (el_data e) maxLen) (\<lambda>sz.
     bindE (massert 16446 (sz > 0)) (\<lambda>_.
       Inr (e, it\<lparr>it_pos := it_pos it + sz\<rparr>)))))))"

definition it_next :: "(bytes \<Rightarrow> int \<Rightarrow> int res) \<Rightarrow> BSONObjIterator \<Rightarrow> (BSONElement \<times> BSONObjIterator) res" where
  "it_next esize it =
     bindE (verify (it_pos it \<le> it_theend it)) (\<lambda>_.
     bindE (advance (it_pos it) (it_mem it)) (\<lambda>p.
     bindE (BSONElement_new p) (\<lambda>e.
     bindE (esize (el_data e) (-1)) (\<lambda>sz.
       Inr (e, it\<lparr>it_pos := it_pos it + sz\<rparr>)))))"

definition it_increment :: "(bytes \<Rightarrow> int \<Rightarrow> int res) \<Rightarrow> BSONObjIterator \<Rightarrow> BSONObjIterator res" where
  "it_increment esize it = bindE (it_next esize it) (\<lambda>(e, it). Inr it)"

definition it_post_increment :: "(bytes \<Rightarrow> int \<Rightarrow> int res) \<Rightarrow> BSONObjIterator \<Rightarrow> BSONObjIterator res" where
  "it_post_increment esize it = bindE (it_next esize it) (\<lambda>(e, it). Inr it)"

definition it_deref :: "BSONObjIterator \<Rightarrow> BSONElement res" where
  "it_deref it =
     bindE (verify (it_pos it \<le> it_theend it)) (\<lambda>_.
     bindE (advance (it_pos it) (it_mem it)) BSONElement_new)"

text \<open>
  The loop of \<^verbatim>\<open>BSONForEach\<close>, collecting what its body sees. A size that is not positive lets the
  loop run forever; \<open>fuel\<close> bounds its rounds and \<open>Diverges\<close> is running out of it.
\<close>

fun BSONForEach :: "nat \<Rightarrow> (bytes \<Rightarrow> int \<Rightarrow> int res) \<Rightarrow> BSONObjIterator \<Rightarrow> BSONElement list res" where
  "BSONForEach 0 esize it = (if it_more it then Inl Diverges else Inr [])"
| "BSONForEach (Suc fuel) esize it =
     (if it_more it
      then bindE (it_next esize it) (\<lambda>(e, it).
           bindE (BSONForEach fuel esize it) (\<lambda>es. Inr (e # es)))
      else Inr [])"

text \<open>The iterators in sorted order; the sorting constructor is only declared.\<close>

record BSONIteratorSorted =
  is_fields :: "bytes list option"
  is_nfields :: int
  is_cur :: int

definition is_more :: "BSONIteratorSorted \<Rightarrow> bool" where
  "is_more it \<longleftrightarrow> is_cur it < is_nfields it"

definition is_next :: "BSONIteratorSorted \<Rightarrow> (BSONElement \<times> BSONIteratorSorted) res" where
  "is_next it =
     (case is_fields it of None \<Rightarrow> Inl VerifyFailed
      | Some fs \<Rightarrow>
          if is_cur it < is_nfields it
          then (if 0 \<le> is_cur it \<and> is_cur it < int (length fs)
                then bindE (BSONElement_new (fs ! nat (is_cur it))) (\<lambda>e.
                       Inr (e, it\<lparr>is_cur := is_cur it + 1\<rparr>))
                else Inl BadAccess)
          else Inr (BSONElement_empty, it))"

definition is_destroy :: "BSONIteratorSorted \<Rightarrow> BSONIteratorSorted res" where
  "is_destroy it = bindE (verify (is_fields it \<noteq> None)) (\<lambda>_. Inr (it\<lparr>is_fields := None\<rparr>))"

section \<open>Lemmas\<close>

lemma read_int_frame: "length body + 5 < 2 ^ 31 \<Longrightarrow> read_int (frame_doc body @ rest) = Inr (int (length body + 5))"
  unfolding frame_doc_def append_assoc by (rule read_int_len)

definition obj_at :: "doc \<Rightarrow> bytes \<Rightarrow> BSONObj" where
  "obj_at es rest = \<lparr>od_objdata = enc_doc es @ rest, od_ownedBuffer = None\<rparr>"

lemma obj_objsize_at:
  "length (enc_doc es) < 2 ^ 31 \<Longrightarrow> obj_objsize (obj_at es rest) = Inr (int (length (enc_doc es)))"
  unfolding obj_objsize_def obj_at_def enc_doc_def using read_int_frame by simp

lemma BSONObj_empty_at: "BSONObj_empty = obj_at [] []"
  by (simp add: BSONObj_empty_def obj_at_def kEmptyObjectPrototype_def enc_doc_def frame_doc_def
      enc_len_def len_word_def le_bytes_def SharedBuffer_new_def upt_rec)

lemma iterator_at:
  assumes "length (enc_doc es) < 2 ^ 31"
  shows "BSONObjIterator_new (obj_at es rest) =
    Inr \<lparr>it_mem = enc_doc es @ rest, it_pos = 4, it_theend = int (length (enc_doc es)) - 1\<rparr>"
proof -
  have "int (length (enc_doc es)) \<noteq> 0" by (simp add: enc_doc_def frame_doc_def)
  then show ?thesis using obj_objsize_at [OF assms, of rest]
    by (simp add: BSONObjIterator_new_def obj_at_def)
qed

context element_size
begin

lemma next_at:
  assumes "it_mem it = xs @ enc_elem e @ ys" and "it_pos it = int (length xs)"
    and "it_pos it \<le> it_theend it" and "wf_elem e" and "length (enc_elem e) < 2 ^ 31"
  shows "it_next esize it = Inr (el_at e ys, it\<lparr>it_pos := it_pos it + int (length (enc_elem e))\<rparr>)"
proof -
  have "advance (it_pos it) (it_mem it) = Inr (enc_elem e @ ys)"
    unfolding assms(1) by (rule advance_append) (rule assms(2))
  moreover have "esize (enc_elem e @ ys) (-1) = Inr (int (length (enc_elem e)))"
    by (rule size_elem) (use assms in simp_all)
  ultimately show ?thesis using assms(3) by (simp add: it_next_def BSONElement_new_enc)
qed

lemma length_enc_elem_pos: "0 < length (enc_elem e)"
  by (simp add: enc_elem_def)

lemma forEach_from:
  assumes "it_mem it = xs @ enc_elems es @ ys" and "it_pos it = int (length xs)"
    and "it_theend it = int (length xs) + int (length (enc_elems es))"
    and "wf_doc es" and "length (enc_elems es) < 2 ^ 31" and "length es \<le> fuel"
  shows "\<exists>els. BSONForEach fuel esize it = Inr els \<and> list_all2 (\<lambda>el e. \<exists>r. el = el_at e r) els es"
  using assms
proof (induction es arbitrary: xs it fuel)
  case Nil
  then show ?case by (cases fuel) (simp_all add: it_more_def)
next
  case (Cons e es)
  from Cons.prems(6) obtain fuel' where fuel: "fuel = Suc fuel'" "length es \<le> fuel'"
    by (cases fuel) auto
  from Cons.prems(4,5) have e: "wf_elem e" "wf_doc es" "length (enc_elem e) < 2 ^ 31"
    "length (enc_elems es) < 2 ^ 31"
    by (auto simp: wf_doc_iff enc_elems_Cons)
  let ?it = "it\<lparr>it_pos := it_pos it + int (length (enc_elem e))\<rparr>"
  have mem: "it_mem it = xs @ enc_elem e @ enc_elems es @ ys"
    using Cons.prems(1) by (simp add: enc_elems_Cons)
  have more: "it_more it"
    using Cons.prems(2,3) length_enc_elem_pos [of e]
    unfolding it_more_def enc_elems_Cons length_append of_nat_add by linarith
  have nxt: "it_next esize it = Inr (el_at e (enc_elems es @ ys), ?it)"
    by (rule next_at [OF mem Cons.prems(2) _ e(1,3)]) (use more in \<open>simp add: it_more_def\<close>)
  have "\<exists>els. BSONForEach fuel' esize ?it = Inr els \<and> list_all2 (\<lambda>el e. \<exists>r. el = el_at e r) els es"
    by (rule Cons.IH [of _ "xs @ enc_elem e"])
      (use mem Cons.prems(2,3) e fuel in \<open>simp_all add: enc_elems_Cons\<close>)
  then show ?case using more nxt by (auto simp: fuel)
qed

lemma forEach_doc:
  assumes "wf_doc es" and "length (enc_doc es) < 2 ^ 31" and "length es \<le> fuel"
  shows "\<exists>els. bindE (BSONObjIterator_new (obj_at es rest)) (BSONForEach fuel esize) = Inr els \<and>
    list_all2 (\<lambda>el e. \<exists>r. el = el_at e r) els es"
proof -
  let ?it = "\<lparr>it_mem = enc_doc es @ rest, it_pos = 4, it_theend = int (length (enc_doc es)) - 1\<rparr>"
  have "\<exists>els. BSONForEach fuel esize ?it = Inr els \<and> list_all2 (\<lambda>el e. \<exists>r. el = el_at e r) els es"
    by (rule forEach_from [of _ "enc_len (length (enc_elems es) + 5)" _ "[0] @ rest"])
      (use assms in \<open>simp_all add: enc_doc_def frame_doc_def\<close>)
  then show ?thesis using iterator_at [OF assms(2), of rest] by simp
qed

lemma next_eoo:
  assumes "it_mem it = xs @ 0 # ys" and "it_pos it = int (length xs)" and "it_pos it \<le> it_theend it"
  shows "\<exists>e. it_next esize it = Inr (e, it\<lparr>it_pos := it_pos it + 1\<rparr>) \<and> eoo e = Inr True"
proof -
  have adv: "advance (it_pos it) (it_mem it) = Inr (0 # ys)"
    unfolding assms(1) by (rule advance_append) (rule assms(2))
  have z: "eoo \<lparr>el_data = 0 # ys, el_fieldNameSize = m, el_totalSize = n\<rparr> = Inr True" for m n
    by (subst eoo_byte [of _ 0 ys]) simp_all
  show ?thesis using assms(3) size_eoo [of "-1" ys]
    by (simp add: it_next_def adv BSONElement_new_def z)
qed

end

lemma memcmp_exact:
  "length a = n \<Longrightarrow> length b = n \<Longrightarrow> memcmp a b n = 0 \<longleftrightarrow> a = b"
  using memcmp_eq_0 [of n a b] by simp

text \<open>A size that a bound limits: what the checked iteration needs of the element size.\<close>

locale bounded_size =
  fixes esize :: "bytes \<Rightarrow> int \<Rightarrow> int res"
  assumes size_le: "esize mem maxLen = Inr n \<Longrightarrow> maxLen \<noteq> -1 \<Longrightarrow> n \<le> maxLen"
begin

lemma next_checked_bounds:
  assumes "it_next_checked esize True it = Inr (e, it')"
  shows "it_pos it < it_pos it' \<and> it_pos it' \<le> it_theend it + 1 \<and> it_theend it' = it_theend it \<and>
    it_mem it' = it_mem it"
  using assms
  by (auto simp: it_next_checked_def bindE_eq_Inr Let_def dest!: size_le)

end

lemma format_esize_le: "format_esize mem maxLen = Inr n \<Longrightarrow> maxLen \<noteq> -1 \<Longrightarrow> n \<le> maxLen"
  by (auto simp: format_esize_def bindE_eq_Inr split: if_splits)

interpretation fmt_bounded: bounded_size format_esize
  by unfold_locales (rule format_esize_le)

section \<open>Properties\<close>

text \<open>C17: iterating over an object in the documented format visits its elements, all of them, in order,
  and stops: for any element size that meets the contract, the loop's elements are the encoded ones.\<close>

theorem forEach_enumerates:
  assumes "element_size esize" and "wf_doc es" and "length (enc_doc es) < 2 ^ 31"
  shows "\<exists>els. bindE (BSONObjIterator_new (obj_at es rest)) (BSONForEach (length es) esize) = Inr els \<and>
    list_all2 (\<lambda>el e. \<exists>r. el = el_at e r) els es"
  by (rule element_size.forEach_doc [OF assms order_refl])

theorem forEach_enumerates_witness:
  "\<exists>els. bindE (BSONObjIterator_new (obj_at [([97], VInt 7), ([], VObject [([98], VNull)])] [1, 2]))
      (BSONForEach (Suc (Suc 0)) format_esize) = Inr els \<and>
    list_all2 (\<lambda>el e. \<exists>r. el = el_at e r) els [([97], VInt 7), ([], VObject [([98], VNull)])]"
  using forEach_enumerates [of format_esize "[([97], VInt 7), ([], VObject [([98], VNull)])]" "[1, 2]",
      OF fmt.element_size_axioms]
  by (simp add: cstring_def enc_doc_def)

text \<open>The iterator of the empty object has no more elements, but for the end of object: \<^verbatim>\<open>more()\<close>
  is false and \<^verbatim>\<open>moreWithEOO()\<close> true on it.\<close>

theorem empty_object_iteration:
  "\<exists>it e. BSONObjIterator_new BSONObj_empty = Inr it \<and> \<not> it_more it \<and> moreWithEOO it \<and>
    it_deref it = Inr e \<and> eoo e = Inr True \<and> BSONForEach 0 esize it = Inr []"
proof -
  have "BSONObjIterator_new (obj_at [] []) = Inr \<lparr>it_mem = enc_doc [], it_pos = 4, it_theend = 4\<rparr>"
    using iterator_at [of "[]" "[]"] by (simp add: enc_doc_def)
  moreover have "eoo \<lparr>el_data = [0], el_fieldNameSize = m, el_totalSize = n\<rparr> = Inr True" for m n
    by (subst eoo_byte [of _ 0 "[]"]) simp_all
  ultimately show ?thesis
    by (simp add: BSONObj_empty_at it_more_def moreWithEOO_def it_deref_def enc_doc_def frame_doc_def
        BSONElement_new_def)
qed



text \<open>C39: \<^verbatim>\<open>binaryEqual\<close> of two objects in the documented format is equality of the documents: the format
  is unambiguous, and bytes after an object do not matter.\<close>

theorem binaryEqual_same_document:
  assumes "wf_doc es" and "wf_doc fs" and "length (enc_doc es) < 2 ^ 31" and "length (enc_doc fs) < 2 ^ 31"
  shows "obj_binaryEqual (obj_at es r) (obj_at fs r') = Inr (es = fs)"
proof -
  have z: "int (length (enc_doc es)) \<noteq> 0" by (simp add: enc_doc_def frame_doc_def)
  have d: "od_objdata (obj_at gs q) = enc_doc gs @ q" for gs q by (simp add: obj_at_def)
  have l: "size_of_int (int (length (enc_doc es))) = length (enc_doc es)"
    using assms(3) by simp
  show ?thesis
    using obj_objsize_at [OF assms(3), of r] obj_objsize_at [OF assms(4), of r'] z l
      enc_doc_inject [OF assms] memcmp_exact [of "enc_doc es" "length (enc_doc es)" "enc_doc fs"]
    by (auto simp: obj_binaryEqual_def d simp del: length_frame_doc)
qed

theorem binaryEqual_same_document_witness:
  "obj_binaryEqual (obj_at [([97], VInt 7)] []) (obj_at [([97], VLong 7)] [9]) = Inr False"
  using binaryEqual_same_document [of "[([97], VInt 7)]" "[([97], VLong 7)]" "[]" "[9]"]
  by (simp add: cstring_def enc_doc_def)

end
