(* ===== verification/ObjBuilder.thy ===== *)
theory ObjBuilder
  imports BsonObj
begin

text \<open>
  The append operations of \<^verbatim>\<open>BSONObjBuilder\<close> (\<^verbatim>\<open>mongo/bson/bsonobjbuilder.h\<close>), on the buffer
  that a builder writes to, and the wrapper types of \<^verbatim>\<open>mongo/bson/bsonmisc.h\<close> they take. Generating
  an object id and \<open>appendDate\<close> are only declared in the header; a generated id is an argument.
\<close>

section \<open>Wrapper types\<close>

record BSONSymbol =
  sym_symbol :: string_data

record BSONCode =
  code_code :: string_data

record BSONCodeWScope =
  cws_code :: string_data
  cws_scope :: BSONObj

record BSONRegEx =
  re_pattern :: string_data
  re_flags :: string_data

record BSONBinData =
  bd_data :: bytes
  bd_length :: int
  bd_type :: BinDataType

record BSONDBRef =
  dbr_ns :: string_data
  dbr_oid :: OID

section \<open>Names and headers\<close>

definition checkFieldName :: "string_data \<Rightarrow> unit res" where
  "checkFieldName name = uassert 0 (find_char name 0 0 = None)"

text \<open>\<^verbatim>\<open>appendBuf(p, n)\<close> of a pointer and an \<^verbatim>\<open>int\<close> length.\<close>

definition appendBuf_ptr :: "(int \<Rightarrow> bool) \<Rightarrow> bytes \<Rightarrow> int \<Rightarrow> buf_builder \<Rightarrow> buf_builder res" where
  "appendBuf_ptr env p n b = bindE (slice p 0 (size_of_int n)) (\<lambda>d. appendBuf env d b)"

text \<open>\<^verbatim>\<open>appendNum((int)s.size() + 1)\<close>.\<close>

definition append_size1 :: "(int \<Rightarrow> bool) \<Rightarrow> string_data \<Rightarrow> buf_builder \<Rightarrow> buf_builder res" where
  "append_size1 env s b =
     bindE (chk32 (int_of_size (length s) + 1)) (\<lambda>n. appendNum_int env (word_of_int n) b)"

section \<open>Elements and subobjects\<close>

definition append_element ::
    "(int \<Rightarrow> bool) \<Rightarrow> (bytes \<Rightarrow> int \<Rightarrow> int res) \<Rightarrow> BSONElement \<Rightarrow> buf_builder \<Rightarrow> buf_builder res" where
  "append_element env esize e b =
     bindE (eoo e) (\<lambda>z.
     bindE (verify (\<not> z)) (\<lambda>_.
     bindE (esize (el_data e) (-1)) (\<lambda>n. appendBuf_ptr env (rawdata e) n b)))"

definition appendAs ::
    "(int \<Rightarrow> bool) \<Rightarrow> (bytes \<Rightarrow> int \<Rightarrow> int res) \<Rightarrow> BSONElement \<Rightarrow> string_data \<Rightarrow> buf_builder \<Rightarrow> buf_builder res" where
  "appendAs env esize e name b =
     bindE (eoo e) (\<lambda>z.
     bindE (verify (\<not> z)) (\<lambda>_.
     bindE (el_type e) (\<lambda>t.
     bindE (appendNum_char env (type_byte t) b) (\<lambda>b.
     bindE (appendStr env name True b) (\<lambda>b.
     bindE (el_value e) (\<lambda>p.
     bindE (valuesize esize e) (\<lambda>n. appendBuf_ptr env p n b)))))))"

definition append_obj :: "(int \<Rightarrow> bool) \<Rightarrow> string_data \<Rightarrow> BSONObj \<Rightarrow> buf_builder \<Rightarrow> buf_builder res" where
  "append_obj env name subObj b =
     bindE (checkFieldName name) (\<lambda>_.
     bindE (appendNum_char env (type_byte Object) b) (\<lambda>b.
     bindE (appendStr env name True b) (\<lambda>b.
     bindE (obj_objsize subObj) (\<lambda>n. appendBuf_ptr env (od_objdata subObj) n b))))"

definition appendObject ::
    "(int \<Rightarrow> bool) \<Rightarrow> string_data \<Rightarrow> bytes option \<Rightarrow> int \<Rightarrow> buf_builder \<Rightarrow> buf_builder res" where
  "appendObject env name objdata sz b =
     bindE (checkFieldName name) (\<lambda>_.
     (case objdata of None \<Rightarrow> Inl VerifyFailed
      | Some p \<Rightarrow>
          bindE (if sz = 0 then read_int p else Inr sz) (\<lambda>sz.
          bindE (verify (sz > 4 \<and> sz < 100000000)) (\<lambda>_.
          bindE (appendNum_char env (type_byte Object) b) (\<lambda>b.
          bindE (appendStr env name True b) (\<lambda>b. appendBuf_ptr env p sz b))))))"

definition subobjStart :: "(int \<Rightarrow> bool) \<Rightarrow> string_data \<Rightarrow> buf_builder \<Rightarrow> buf_builder res" where
  "subobjStart env name b =
     bindE (checkFieldName name) (\<lambda>_.
     bindE (appendNum_char env (type_byte Object) b) (\<lambda>b. appendStr env name True b))"

definition appendArray :: "(int \<Rightarrow> bool) \<Rightarrow> string_data \<Rightarrow> BSONObj \<Rightarrow> buf_builder \<Rightarrow> buf_builder res" where
  "appendArray env name subObj b =
     bindE (checkFieldName name) (\<lambda>_.
     bindE (appendNum_char env (type_byte Array) b) (\<lambda>b.
     bindE (appendStr env name True b) (\<lambda>b.
     bindE (obj_objsize subObj) (\<lambda>n. appendBuf_ptr env (od_objdata subObj) n b))))"

definition append_array :: "(int \<Rightarrow> bool) \<Rightarrow> string_data \<Rightarrow> BSONObj \<Rightarrow> buf_builder \<Rightarrow> buf_builder res" where
  "append_array env name arr b = appendArray env name arr b"

definition subarrayStart :: "(int \<Rightarrow> bool) \<Rightarrow> string_data \<Rightarrow> buf_builder \<Rightarrow> buf_builder res" where
  "subarrayStart env name b =
     bindE (checkFieldName name) (\<lambda>_.
     bindE (appendNum_char env (type_byte Array) b) (\<lambda>b. appendStr env name True b))"

section \<open>Numbers and booleans\<close>

definition appendBool :: "(int \<Rightarrow> bool) \<Rightarrow> string_data \<Rightarrow> 32 word \<Rightarrow> buf_builder \<Rightarrow> buf_builder res" where
  "appendBool env name val b =
     bindE (checkFieldName name) (\<lambda>_.
     bindE (appendNum_char env (type_byte Bool) b) (\<lambda>b.
     bindE (appendStr env name True b) (\<lambda>b.
       appendNum_char env (if val \<noteq> 0 then 1 else 0) b)))"

definition append_bool :: "(int \<Rightarrow> bool) \<Rightarrow> string_data \<Rightarrow> bool \<Rightarrow> buf_builder \<Rightarrow> buf_builder res" where
  "append_bool env name val b =
     bindE (checkFieldName name) (\<lambda>_.
     bindE (appendNum_char env (type_byte Bool) b) (\<lambda>b.
     bindE (appendStr env name True b) (\<lambda>b.
       appendNum_char env (if val then 1 else 0) b)))"

definition append_int :: "(int \<Rightarrow> bool) \<Rightarrow> string_data \<Rightarrow> 32 word \<Rightarrow> buf_builder \<Rightarrow> buf_builder res" where
  "append_int env name n b =
     bindE (checkFieldName name) (\<lambda>_.
     bindE (appendNum_char env (type_byte NumberInt) b) (\<lambda>b.
     bindE (appendStr env name True b) (\<lambda>b. appendNum_int env n b)))"

definition append_unsigned :: "(int \<Rightarrow> bool) \<Rightarrow> string_data \<Rightarrow> 32 word \<Rightarrow> buf_builder \<Rightarrow> buf_builder res" where
  "append_unsigned env name n b = append_int env name n b"

definition append_longlong :: "(int \<Rightarrow> bool) \<Rightarrow> string_data \<Rightarrow> 64 word \<Rightarrow> buf_builder \<Rightarrow> buf_builder res" where
  "append_longlong env name n b =
     bindE (checkFieldName name) (\<lambda>_.
     bindE (appendNum_char env (type_byte NumberLong) b) (\<lambda>b.
     bindE (appendStr env name True b) (\<lambda>b. appendNum_longlong env n b)))"

definition append_double :: "(int \<Rightarrow> bool) \<Rightarrow> string_data \<Rightarrow> double \<Rightarrow> buf_builder \<Rightarrow> buf_builder res" where
  "append_double env name n b =
     bindE (checkFieldName name) (\<lambda>_.
     bindE (appendNum_char env (type_byte NumberDouble) b) (\<lambda>b.
     bindE (appendStr env name True b) (\<lambda>b. appendNum_double env n b)))"

definition appendIntOrLL :: "(int \<Rightarrow> bool) \<Rightarrow> string_data \<Rightarrow> 64 word \<Rightarrow> buf_builder \<Rightarrow> buf_builder res" where
  "appendIntOrLL env name n b =
     (let maxInt = int32_max div 2; minInt = - maxInt in
      if minInt < sint n \<and> sint n < maxInt then append_int env name (ucast n) b
      else append_longlong env name n b)"

definition appendNumber_int :: "(int \<Rightarrow> bool) \<Rightarrow> string_data \<Rightarrow> 32 word \<Rightarrow> buf_builder \<Rightarrow> buf_builder res" where
  "appendNumber_int env name n b = append_int env name n b"

definition appendNumber_double :: "(int \<Rightarrow> bool) \<Rightarrow> string_data \<Rightarrow> double \<Rightarrow> buf_builder \<Rightarrow> buf_builder res" where
  "appendNumber_double env name d b = append_double env name d b"

definition appendNumber_size :: "(int \<Rightarrow> bool) \<Rightarrow> string_data \<Rightarrow> 64 word \<Rightarrow> buf_builder \<Rightarrow> buf_builder res" where
  "appendNumber_size env name n b =
     (let maxInt = push_bit 30 1 in
      if n < maxInt then append_int env name (ucast n) b
      else append_longlong env name n b)"

definition appendNumber_longlong :: "(int \<Rightarrow> bool) \<Rightarrow> string_data \<Rightarrow> 64 word \<Rightarrow> buf_builder \<Rightarrow> buf_builder res" where
  "appendNumber_longlong env name llNumber b =
     (let maxInt = push_bit 30 1; minInt = - maxInt; maxDouble = push_bit 40 1; minDouble = - maxDouble;
          n = sint llNumber in
      if minInt < n \<and> n < maxInt then append_int env name (ucast llNumber) b
      else if minDouble < n \<and> n < maxDouble then append_double env name (int_to_double n) b
      else append_longlong env name llNumber b)"

section \<open>Object ids and dates\<close>

definition appendOID ::
    "(int \<Rightarrow> bool) \<Rightarrow> OID \<Rightarrow> string_data \<Rightarrow> OID option \<Rightarrow> bool \<Rightarrow> buf_builder \<Rightarrow> buf_builder res" where
  "appendOID env generated name oid generateIfBlank b =
     bindE (checkFieldName name) (\<lambda>_.
     bindE (appendNum_char env (type_byte jstOID) b) (\<lambda>b.
     bindE (appendStr env name True b) (\<lambda>b.
       case oid of
         Some oid \<Rightarrow> appendBuf_ptr env (oid_view oid) (int kOIDSize) b
       | None \<Rightarrow>
           (let tmp = OID_new; tmp = (if generateIfBlank then generated else oid_clear tmp) in
            appendBuf_ptr env (oid_view tmp) (int kOIDSize) b))))"

definition append_oid :: "(int \<Rightarrow> bool) \<Rightarrow> string_data \<Rightarrow> OID \<Rightarrow> buf_builder \<Rightarrow> buf_builder res" where
  "append_oid env name oid b =
     bindE (checkFieldName name) (\<lambda>_.
     bindE (appendNum_char env (type_byte jstOID) b) (\<lambda>b.
     bindE (appendStr env name True b) (\<lambda>b.
       appendBuf_ptr env (oid_view oid) (int kOIDSize) b)))"

text \<open>The name \<^verbatim>\<open>_id\<close>.\<close>

definition genOID :: "(int \<Rightarrow> bool) \<Rightarrow> OID \<Rightarrow> buf_builder \<Rightarrow> buf_builder res" where
  "genOID env generated b = append_oid env [95, 105, 100] generated b"

definition appendTimeT :: "(int \<Rightarrow> bool) \<Rightarrow> string_data \<Rightarrow> 64 word \<Rightarrow> buf_builder \<Rightarrow> buf_builder res" where
  "appendTimeT env name dt b =
     bindE (checkFieldName name) (\<lambda>_.
     bindE (appendNum_char env (type_byte Date) b) (\<lambda>b.
     bindE (appendStr env name True b) (\<lambda>b. appendNum_ulonglong env (dt * 1000) b)))"

section \<open>Strings, code and the rest\<close>

definition appendRegex ::
    "(int \<Rightarrow> bool) \<Rightarrow> string_data \<Rightarrow> string_data \<Rightarrow> string_data \<Rightarrow> buf_builder \<Rightarrow> buf_builder res" where
  "appendRegex env name rx options b =
     bindE (checkFieldName name) (\<lambda>_.
     bindE (uassert 0 (find_char rx 0 0 = None)) (\<lambda>_.
     bindE (appendNum_char env (type_byte RegEx) b) (\<lambda>b.
     bindE (appendStr env name True b) (\<lambda>b.
     bindE (appendStr env rx True b) (\<lambda>b. appendStr env options True b)))))"

definition append_regex :: "(int \<Rightarrow> bool) \<Rightarrow> string_data \<Rightarrow> BSONRegEx \<Rightarrow> buf_builder \<Rightarrow> buf_builder res" where
  "append_regex env name rx b = appendRegex env name (re_pattern rx) (re_flags rx) b"

definition appendCode :: "(int \<Rightarrow> bool) \<Rightarrow> string_data \<Rightarrow> string_data \<Rightarrow> buf_builder \<Rightarrow> buf_builder res" where
  "appendCode env name code b =
     bindE (checkFieldName name) (\<lambda>_.
     bindE (appendNum_char env (type_byte Code) b) (\<lambda>b.
     bindE (appendStr env name True b) (\<lambda>b.
     bindE (append_size1 env code b) (\<lambda>b. appendStr env code True b))))"

definition append_code :: "(int \<Rightarrow> bool) \<Rightarrow> string_data \<Rightarrow> BSONCode \<Rightarrow> buf_builder \<Rightarrow> buf_builder res" where
  "append_code env name code b = appendCode env name (code_code code) b"

text \<open>\<open>sz\<close> includes the terminating null, which the pointer's storage must hold.\<close>

definition append_cstr_sz :: "(int \<Rightarrow> bool) \<Rightarrow> string_data \<Rightarrow> bytes \<Rightarrow> int \<Rightarrow> buf_builder \<Rightarrow> buf_builder res" where
  "append_cstr_sz env name s sz b =
     bindE (checkFieldName name) (\<lambda>_.
     bindE (appendNum_char env (type_byte String) b) (\<lambda>b.
     bindE (appendStr env name True b) (\<lambda>b.
     bindE (appendNum_int env (word_of_int sz) b) (\<lambda>b. appendBuf_ptr env s sz b))))"

definition append_cstr :: "(int \<Rightarrow> bool) \<Rightarrow> string_data \<Rightarrow> bytes \<Rightarrow> buf_builder \<Rightarrow> buf_builder res" where
  "append_cstr env name s b =
     bindE (strlen s) (\<lambda>n. bindE (chk32 (int_of_size n + 1)) (\<lambda>sz. append_cstr_sz env name s sz b))"

text \<open>\<^verbatim>\<open>str.c_str()\<close> is the characters followed by a null.\<close>

definition append_string :: "(int \<Rightarrow> bool) \<Rightarrow> string_data \<Rightarrow> bytes \<Rightarrow> buf_builder \<Rightarrow> buf_builder res" where
  "append_string env name s b =
     bindE (chk32 (int_of_size (length s) + 1)) (\<lambda>sz. append_cstr_sz env name (s @ [0]) sz b)"

definition append_string_data :: "(int \<Rightarrow> bool) \<Rightarrow> string_data \<Rightarrow> string_data \<Rightarrow> buf_builder \<Rightarrow> buf_builder res" where
  "append_string_data env name s b =
     bindE (checkFieldName name) (\<lambda>_.
     bindE (appendNum_char env (type_byte String) b) (\<lambda>b.
     bindE (appendStr env name True b) (\<lambda>b.
     bindE (append_size1 env s b) (\<lambda>b. appendStr env s True b))))"

definition appendSymbol :: "(int \<Rightarrow> bool) \<Rightarrow> string_data \<Rightarrow> string_data \<Rightarrow> buf_builder \<Rightarrow> buf_builder res" where
  "appendSymbol env name symbol b =
     bindE (checkFieldName name) (\<lambda>_.
     bindE (appendNum_char env (type_byte Symbol) b) (\<lambda>b.
     bindE (appendStr env name True b) (\<lambda>b.
     bindE (append_size1 env symbol b) (\<lambda>b. appendStr env symbol True b))))"

definition append_symbol :: "(int \<Rightarrow> bool) \<Rightarrow> string_data \<Rightarrow> BSONSymbol \<Rightarrow> buf_builder \<Rightarrow> buf_builder res" where
  "append_symbol env name symbol b = appendSymbol env name (sym_symbol symbol) b"

definition appendNull_noarg :: "buf_builder \<Rightarrow> buf_builder res" where
  "appendNull_noarg b = bindE (massert 16234 False) (\<lambda>_. Inr b)"

definition appendNull :: "(int \<Rightarrow> bool) \<Rightarrow> string_data \<Rightarrow> buf_builder \<Rightarrow> buf_builder res" where
  "appendNull env name b =
     bindE (checkFieldName name) (\<lambda>_.
     bindE (appendNum_char env (type_byte jstNULL) b) (\<lambda>b. appendStr env name True b))"

definition appendMinKey :: "(int \<Rightarrow> bool) \<Rightarrow> string_data \<Rightarrow> buf_builder \<Rightarrow> buf_builder res" where
  "appendMinKey env name b =
     bindE (checkFieldName name) (\<lambda>_.
     bindE (appendNum_char env (type_byte MinKey) b) (\<lambda>b. appendStr env name True b))"

definition appendMaxKey :: "(int \<Rightarrow> bool) \<Rightarrow> string_data \<Rightarrow> buf_builder \<Rightarrow> buf_builder res" where
  "appendMaxKey env name b =
     bindE (checkFieldName name) (\<lambda>_.
     bindE (appendNum_char env (type_byte MaxKey) b) (\<lambda>b. appendStr env name True b))"

text \<open>The eight bytes are written through a cursor on a local array; see \<open>writeLEAndAdvance_eq\<close>.\<close>

definition appendTimestamp :: "(int \<Rightarrow> bool) \<Rightarrow> string_data \<Rightarrow> Timestamp_t \<Rightarrow> buf_builder \<Rightarrow> buf_builder res" where
  "appendTimestamp env name ts b =
     bindE (checkFieldName name) (\<lambda>_.
     bindE (appendNum_char env (type_byte Timestamp) b) (\<lambda>b.
     bindE (appendStr env name True b) (\<lambda>b.
       let buf = replicate 8 0 in
       bindE (splice buf 0 (le_bytes (increment ts))) (\<lambda>buf.
       bindE (splice buf 4 (le_bytes (seconds ts))) (\<lambda>buf. appendBuf env buf b)))))"

definition append_timestamp :: "(int \<Rightarrow> bool) \<Rightarrow> string_data \<Rightarrow> Timestamp_t \<Rightarrow> buf_builder \<Rightarrow> buf_builder res" where
  "append_timestamp env name ts b = appendTimestamp env name ts b"

definition appendDBRef ::
    "(int \<Rightarrow> bool) \<Rightarrow> string_data \<Rightarrow> string_data \<Rightarrow> OID \<Rightarrow> buf_builder \<Rightarrow> buf_builder res" where
  "appendDBRef env name ns oid b =
     bindE (checkFieldName name) (\<lambda>_.
     bindE (appendNum_char env (type_byte DBRef) b) (\<lambda>b.
     bindE (appendStr env name True b) (\<lambda>b.
     bindE (append_size1 env ns b) (\<lambda>b.
     bindE (appendStr env ns True b) (\<lambda>b.
       appendBuf_ptr env (oid_view oid) (int kOIDSize) b)))))"

definition append_dbref :: "(int \<Rightarrow> bool) \<Rightarrow> string_data \<Rightarrow> BSONDBRef \<Rightarrow> buf_builder \<Rightarrow> buf_builder res" where
  "append_dbref env name dbref b = appendDBRef env name (dbr_ns dbref) (dbr_oid dbref) b"

definition appendBinData ::
    "(int \<Rightarrow> bool) \<Rightarrow> string_data \<Rightarrow> int \<Rightarrow> BinDataType \<Rightarrow> bytes \<Rightarrow> buf_builder \<Rightarrow> buf_builder res" where
  "appendBinData env name len type d b =
     bindE (checkFieldName name) (\<lambda>_.
     bindE (appendNum_char env (type_byte BinData) b) (\<lambda>b.
     bindE (appendStr env name True b) (\<lambda>b.
     bindE (appendNum_int env (word_of_int len) b) (\<lambda>b.
     bindE (appendNum_char env (subtype_byte type) b) (\<lambda>b. appendBuf_ptr env d len b)))))"

definition append_bindata :: "(int \<Rightarrow> bool) \<Rightarrow> string_data \<Rightarrow> BSONBinData \<Rightarrow> buf_builder \<Rightarrow> buf_builder res" where
  "append_bindata env name bd b = appendBinData env name (bd_length bd) (bd_type bd) (bd_data bd) b"

definition appendBinDataArrayDeprecated ::
    "(int \<Rightarrow> bool) \<Rightarrow> string_data \<Rightarrow> bytes \<Rightarrow> int \<Rightarrow> buf_builder \<Rightarrow> buf_builder res" where
  "appendBinDataArrayDeprecated env name d len b =
     bindE (checkFieldName name) (\<lambda>_.
     bindE (appendNum_char env (type_byte BinData) b) (\<lambda>b.
     bindE (appendStr env name True b) (\<lambda>b.
     bindE (chk32 (len + 4)) (\<lambda>n.
     bindE (appendNum_int env (word_of_int n) b) (\<lambda>b.
     bindE (appendNum_char env 2 b) (\<lambda>b.
     bindE (appendNum_int env (word_of_int len) b) (\<lambda>b. appendBuf_ptr env d len b)))))))"

text \<open>The total is a sum of \<^verbatim>\<open>size_t\<close>, cast to \<^verbatim>\<open>int\<close>.\<close>

definition appendCodeWScope ::
    "(int \<Rightarrow> bool) \<Rightarrow> string_data \<Rightarrow> string_data \<Rightarrow> BSONObj \<Rightarrow> buf_builder \<Rightarrow> buf_builder res" where
  "appendCodeWScope env name code scope b =
     bindE (checkFieldName name) (\<lambda>_.
     bindE (appendNum_char env (type_byte CodeWScope) b) (\<lambda>b.
     bindE (appendStr env name True b) (\<lambda>b.
     bindE (obj_objsize scope) (\<lambda>n.
     bindE (appendNum_int env (word_of_int (4 + 4 + int (length code) + 1 + n)) b) (\<lambda>b.
     bindE (append_size1 env code b) (\<lambda>b.
     bindE (appendStr env code True b) (\<lambda>b. appendBuf_ptr env (od_objdata scope) n b)))))))"

definition append_codewscope ::
    "(int \<Rightarrow> bool) \<Rightarrow> string_data \<Rightarrow> BSONCodeWScope \<Rightarrow> buf_builder \<Rightarrow> buf_builder res" where
  "append_codewscope env name cws b = appendCodeWScope env name (cws_code cws) (cws_scope cws) b"

definition appendUndefined :: "(int \<Rightarrow> bool) \<Rightarrow> string_data \<Rightarrow> buf_builder \<Rightarrow> buf_builder res" where
  "appendUndefined env name b =
     bindE (appendNum_char env (type_byte Undefined) b) (\<lambda>b. appendStr env name True b)"

text \<open>The name \<^verbatim>\<open>$where\<close>.\<close>

definition appendWhere :: "(int \<Rightarrow> bool) \<Rightarrow> string_data \<Rightarrow> BSONObj \<Rightarrow> buf_builder \<Rightarrow> buf_builder res" where
  "appendWhere env code scope b = appendCodeWScope env [36, 119, 104, 101, 114, 101] code scope b"

section \<open>What the operations emit\<close>

lemma checkFieldName_ok [simp]: "cstring n \<Longrightarrow> checkFieldName n = Inr ()"
  by (simp add: checkFieldName_def cstring_def find_char_npos)

lemma checkFieldName_null: "\<not> cstring n \<Longrightarrow> checkFieldName n = Inl (UserAssertion 0)"
  by (simp add: checkFieldName_def cstring_def find_char_npos)

lemma emits_num_char [emit]: "mallocs env \<Longrightarrow> emits (appendNum_char env c) [c]"
  using appendNumImpl_emits [of env c] by (simp add: appendNum_char_def [abs_def] le_bytes_8)

lemma emits_num_int [emit]: "mallocs env \<Longrightarrow> emits (appendNum_int env w) (le_bytes w)"
  using appendNumImpl_emits [of env w] by (simp add: appendNum_int_def [abs_def])

lemma emits_num_64 [emit]:
  "mallocs env \<Longrightarrow> emits (appendNum_longlong env w) (le_bytes w)"
  "mallocs env \<Longrightarrow> emits (appendNum_ulonglong env w) (le_bytes w)"
  "mallocs env \<Longrightarrow> emits (appendNum_double env w) (le_bytes w)"
  using appendNumImpl_emits [of env w]
  by (simp_all add: appendNum_longlong_def [abs_def] appendNum_ulonglong_def [abs_def]
      appendNum_double_def [abs_def])

lemma emits_cstr [emit]: "mallocs env \<Longrightarrow> emits (appendStr env s True) (s @ [0])"
  using appendStr_emits [of env s True] by simp

lemma emits_size1 [emit]:
  assumes "mallocs env" and "length s + 1 < 2 ^ 31"
  shows "emits (append_size1 env s) (enc_len (length s + 1))"
proof -
  have "int_of_size (length s) = int (length s)" using assms by (intro int_of_size_small) simp
  moreover have "word_of_int (int (length s) + 1) = len_word (length s + 1)"
    by (simp add: len_word_def)
  moreover have "in_int32 (int (length s) + 1)" using assms(2) by (simp add: in_int32_iff)
  ultimately have "append_size1 env s = appendNum_int env (len_word (length s + 1))"
    by (simp add: append_size1_def fun_eq_iff)
  then show ?thesis using emits_num_int [OF assms(1)] by (simp add: enc_len_def)
qed

lemma emits_ptr:
  assumes "mallocs env" and "n = int (length d)" and "length d < 2 ^ 31"
  shows "emits (appendBuf_ptr env (d @ rest) n) d"
  using appendBuf_emits [OF assms(1), of d] assms(3)
  by (simp add: appendBuf_ptr_def [abs_def] assms(2))

lemma emits_len: "mallocs env \<Longrightarrow> n = int k \<Longrightarrow> emits (appendNum_int env (word_of_int n)) (enc_len k)"
  using emits_num_int [of env "len_word k"] by (simp add: enc_len_def len_word_def)

lemma emits_cong: "emits f xs \<Longrightarrow> xs = ys \<Longrightarrow> emits f ys"
  by simp

text \<open>Every operation on a valid name writes the type, the name and the value.\<close>

lemma emits_header:
  assumes "mallocs env" and "cstring n" and "emits f bs"
  shows "emits (\<lambda>b. bindE (checkFieldName n) (\<lambda>_. bindE (appendNum_char env c b) (\<lambda>b.
      bindE (appendStr env n True b) f))) (c # n @ [0] @ bs)"
  using emits_comp [OF emits_num_char [OF assms(1)] emits_comp [OF emits_cstr [OF assms(1)] assms(3)], of c n]
    assms(2) by simp

lemma emits_header_only:
  assumes "mallocs env" and "cstring n"
  shows "emits (\<lambda>b. bindE (checkFieldName n) (\<lambda>_. bindE (appendNum_char env c b) (\<lambda>b.
      appendStr env n True b))) (c # n @ [0])"
  using emits_comp [OF emits_num_char [OF assms(1)] emits_cstr [OF assms(1)], of c n] assms(2) by simp

lemma emits_string_body:
  assumes "mallocs env" and "length s + 1 < 2 ^ 31"
  shows "emits (\<lambda>b. bindE (append_size1 env s b) (\<lambda>b. appendStr env s True b)) (enc_string s)"
  using emits_comp [OF emits_size1 [OF assms] emits_cstr [OF assms(1), of s]] by (simp add: enc_string_def)

lemma enc_elem_split: "enc_elem (n, v) = type_byte (val_type v) # n @ [0] @ enc_val v"
  by (simp add: enc_elem_def)

text \<open>
  The operation for each kind of value. The only one here that writes a date is \<open>appendTimeT\<close>, in
  whole seconds.
\<close>

fun append_val :: "(int \<Rightarrow> bool) \<Rightarrow> elem \<Rightarrow> buf_builder \<Rightarrow> buf_builder res" where
  "append_val env (n, VMinKey) = appendMinKey env n"
| "append_val env (n, VDouble d) = append_double env n d"
| "append_val env (n, VString s) = append_string_data env n s"
| "append_val env (n, VObject es) = append_obj env n (obj_at es [])"
| "append_val env (n, VArray es) = appendArray env n (obj_at es [])"
| "append_val env (n, VBinData st bs) = appendBinData env n (int (length bs)) (subtype_of_byte st) bs"
| "append_val env (n, VUndefined) = appendUndefined env n"
| "append_val env (n, VOID oid) = append_oid env n \<lparr>oid_data = oid\<rparr>"
| "append_val env (n, VBool v) = append_bool env n v"
| "append_val env (n, VDate ms) = appendTimeT env n (ms div 1000)"
| "append_val env (n, VNull) = appendNull env n"
| "append_val env (n, VRegEx pat opts) = appendRegex env n pat opts"
| "append_val env (n, VDBRef ns oid) = appendDBRef env n ns \<lparr>oid_data = oid\<rparr>"
| "append_val env (n, VCode c) = appendCode env n c"
| "append_val env (n, VSymbol s) = appendSymbol env n s"
| "append_val env (n, VCodeWScope c es) = appendCodeWScope env n c (obj_at es [])"
| "append_val env (n, VInt i) = append_int env n i"
| "append_val env (n, VTimestamp sec inc) = appendTimestamp env n (Timestamp_of sec inc)"
| "append_val env (n, VLong l) = append_longlong env n l"
| "append_val env (n, VMaxKey) = appendMaxKey env n"

fun appendable :: "bson_val \<Rightarrow> bool" where
  "appendable (VDate ms) \<longleftrightarrow> ms div 1000 * 1000 = ms"
| "appendable v \<longleftrightarrow> True"

lemma emits_frame:
  assumes "mallocs env" and "length (enc_doc es) < 2 ^ 31"
  shows "emits (\<lambda>b. bindE (obj_objsize (obj_at es r)) (\<lambda>n. appendBuf_ptr env (od_objdata (obj_at es r)) n b))
    (enc_doc es)"
  using emits_ptr [OF assms(1) refl assms(2), of r] obj_objsize_at [OF assms(2), of r]
  by (simp add: obj_at_def)

lemma emits_timestamp_body:
  assumes "mallocs env"
  shows "emits (\<lambda>b. let buf = replicate 8 0 in
      bindE (splice buf 0 (le_bytes (inc :: 32 word))) (\<lambda>buf.
      bindE (splice buf 4 (le_bytes (sec :: 32 word))) (\<lambda>buf. appendBuf env buf b)))
    (le_bytes inc @ le_bytes sec)"
proof -
  have "splice (replicate 8 0) 0 (le_bytes inc) = Inr (le_bytes inc @ replicate 4 0)"
    by (simp add: splice_def)
  moreover have "splice (le_bytes inc @ replicate 4 0) 4 (le_bytes sec) = Inr (le_bytes inc @ le_bytes sec)"
    by (simp add: splice_def)
  ultimately show ?thesis
    using appendBuf_emits [OF assms, of "le_bytes inc @ le_bytes sec"] by (simp add: Let_def)
qed

lemma of_subtype [simp]: "subtype_byte (subtype_of_byte b) = b"
  by (auto simp: subtype_of_byte_def find_Some_iff split: option.splits)

lemmas append_defs = appendMinKey_def append_double_def append_string_data_def append_obj_def
  appendArray_def appendBinData_def append_oid_def append_bool_def appendTimeT_def appendNull_def
  appendRegex_def appendDBRef_def appendCode_def appendSymbol_def appendCodeWScope_def append_int_def
  appendTimestamp_def append_longlong_def appendMaxKey_def

lemma emits_oid:
  assumes "mallocs env" and "length oid = 12"
  shows "emits (appendBuf_ptr env (oid_view \<lparr>oid_data = oid\<rparr>) (int kOIDSize)) oid"
  using emits_ptr [OF assms(1), of 12 oid "[]"] assms(2) by (simp add: oid_view_def kOIDSize_def)

lemma emits_append_fixed:
  assumes env: "mallocs env" and n: "cstring n" and v: "wf_val v" "appendable v"
    and k: "v \<in> {VMinKey, VMaxKey, VNull, VUndefined} \<or> (\<exists>d. v = VDouble d) \<or> (\<exists>oid. v = VOID oid) \<or>
      (\<exists>c. v = VBool c) \<or> (\<exists>ms. v = VDate ms) \<or> (\<exists>i. v = VInt i) \<or> (\<exists>l. v = VLong l) \<or>
      (\<exists>s i. v = VTimestamp s i)"
  shows "emits (append_val env (n, v)) (enc_elem (n, v))"
proof -
  note h = emits_header [OF env n] and h0 = emits_header_only [OF env n]
  have undef: "emits (appendUndefined env n) (enc_elem (n, VUndefined))"
    using emits_comp [OF emits_num_char [OF env] emits_cstr [OF env], of "type_byte Undefined" n]
    by (simp add: appendUndefined_def [abs_def] enc_elem_split)
  show ?thesis
    using k v h0 [of "type_byte MinKey"] h0 [of "type_byte MaxKey"] h0 [of "type_byte jstNULL"] undef
      h [OF emits_num_64(3) [OF env], of "type_byte NumberDouble"]
      h [OF emits_num_64(1) [OF env], of "type_byte NumberLong"]
      h [OF emits_num_64(2) [OF env], of "type_byte Date"]
      h [OF emits_num_int [OF env], of "type_byte NumberInt"]
      h [OF emits_num_char [OF env], of "type_byte Bool"]
      h [OF emits_timestamp_body [OF env], of "type_byte Timestamp"]
      h [OF emits_oid [OF env], of _ "type_byte jstOID"]
    by (elim disjE insertE exE)
      (simp_all add: append_defs [abs_def] enc_elem_split Timestamp_of_def increment_def seconds_def
        split: if_splits)
qed

lemma emits_append_string:
  assumes env: "mallocs env" and n: "cstring n" and len: "length s + 1 < 2 ^ 31"
    and k: "v = VString s \<or> v = VCode s \<or> v = VSymbol s"
  shows "emits (append_val env (n, v)) (enc_elem (n, v))"
  using k emits_header [OF env n emits_string_body [OF env len]]
  by (elim disjE) (simp_all add: append_defs [abs_def] enc_elem_split)

lemma emits_append_frame:
  assumes env: "mallocs env" and n: "cstring n" and len: "length (enc_doc es) < 2 ^ 31"
    and k: "v = VObject es \<or> v = VArray es"
  shows "emits (append_val env (n, v)) (enc_elem (n, v))"
  using k emits_header [OF env n emits_frame [OF env len]]
  by (elim disjE) (simp_all add: append_defs [abs_def] enc_elem_split enc_doc_def)

lemma emits_append_sized:
  assumes env: "mallocs env" and n: "cstring n" and wf: "wf_val v" and len: "length (enc_val v) < 2 ^ 31"
    and k: "(\<exists>st bs. v = VBinData st bs) \<or> (\<exists>p q. v = VRegEx p q) \<or> (\<exists>ns oid. v = VDBRef ns oid)"
  shows "emits (append_val env (n, v)) (enc_elem (n, v))"
proof -
  note h = emits_header [OF env n]
  from k consider st bs where "v = VBinData st bs" | p q where "v = VRegEx p q"
    | ns oid where "v = VDBRef ns oid" by blast
  then show ?thesis
  proof cases
    case (1 st bs)
    have "length bs < 2 ^ 31" using len 1 by simp
    with emits_ptr [OF env refl, of bs "[]"] have "emits (appendBuf_ptr env bs (int (length bs))) bs" by simp
    from h [OF emits_comp [OF emits_len [OF env refl] emits_comp [OF emits_num_char [OF env] this]],
        of "type_byte BinData" "length bs" st]
    show ?thesis by (simp add: 1 append_defs [abs_def] enc_elem_split)
  next
    case (2 p q)
    have c: "find_char p 0 0 = None" using wf 2 by (simp add: cstring_def find_char_npos)
    from h [OF emits_comp [OF emits_cstr [OF env] emits_cstr [OF env]], of "type_byte RegEx" p q]
    show ?thesis by (simp add: 2 append_defs [abs_def] enc_elem_split c)
  next
    case (3 ns oid)
    have l: "length ns + 1 < 2 ^ 31" "length oid = 12" using len wf 3 by simp_all
    from h [OF emits_comp [OF emits_size1 [OF env l(1)] emits_comp [OF emits_cstr [OF env]
          emits_oid [OF env l(2)]]], of "type_byte DBRef" ns]
    show ?thesis by (simp add: 3 append_defs [abs_def] enc_elem_split enc_string_def)
  qed
qed

lemma emits_append_codewscope:
  assumes env: "mallocs env" and n: "cstring n" and len: "length (enc_val (VCodeWScope c es)) < 2 ^ 31"
  shows "emits (append_val env (n, VCodeWScope c es)) (enc_elem (n, VCodeWScope c es))"
proof -
  have l: "length (enc_doc es) < 2 ^ 31" "length c + 1 < 2 ^ 31"
    using len by (simp_all add: Let_def enc_doc_def)
  let ?total = "4 + 4 + length c + 1 + length (enc_doc es)"
  have obj: "obj_objsize (obj_at es []) = Inr (int (length (enc_doc es)))"
    "od_objdata (obj_at es []) = enc_doc es"
    using obj_objsize_at [OF l(1), of "[]"] by (simp_all add: obj_at_def)
  have d: "emits (appendBuf_ptr env (enc_doc es) (int (length (enc_doc es)))) (enc_doc es)"
    using emits_ptr [OF env refl l(1), of "[]"] by simp
  have t: "emits (appendNum_int env (word_of_int (4 + 4 + int (length c) + 1 + int (length (enc_doc es)))))
      (enc_len ?total)"
    by (rule emits_len [OF env]) simp
  from emits_header [OF env n emits_comp [OF t emits_comp [OF emits_size1 [OF env l(2)]
        emits_comp [OF emits_cstr [OF env] d]]], of "type_byte CodeWScope"]
  show ?thesis
    by (simp add: append_defs [abs_def] enc_elem_split obj Let_def enc_doc_def enc_string_def
        del: of_nat_add of_int_add)
qed

text \<open>Each append operation implements the format of its element.\<close>

lemma append_val_emits:
  assumes "mallocs env" and "wf_elem e" and "appendable (snd e)" and "length (enc_elem e) < 2 ^ 31"
  shows "emits (append_val env e) (enc_elem e)"
proof (cases e)
  case (Pair n v)
  have n: "cstring n" and v: "wf_val v" "appendable v" "length (enc_val v) < 2 ^ 31"
    using assms(2-4) by (auto simp: Pair wf_elem_def enc_elem_def)
  show ?thesis
  proof (cases v)
    case (VString s)
    then show ?thesis using emits_append_string [OF assms(1) n, of s v] v by (simp add: Pair)
  next
    case (VCode s)
    then show ?thesis using emits_append_string [OF assms(1) n, of s v] v by (simp add: Pair)
  next
    case (VSymbol s)
    then show ?thesis using emits_append_string [OF assms(1) n, of s v] v by (simp add: Pair)
  next
    case (VObject es)
    then show ?thesis using emits_append_frame [OF assms(1) n, of es v] v by (simp add: Pair enc_doc_def)
  next
    case (VArray es)
    then show ?thesis using emits_append_frame [OF assms(1) n, of es v] v by (simp add: Pair enc_doc_def)
  next
    case (VCodeWScope c es)
    then show ?thesis using emits_append_codewscope [OF assms(1) n, of c es] v(3) by (simp add: Pair)
  qed (use emits_append_fixed [OF assms(1) n v(1,2)] emits_append_sized [OF assms(1) n v(1,3)]
      in \<open>auto simp only: Pair bson_val.distinct simp_thms insert_iff\<close>)
qed



end
