(* ===== verification/SplTypes.thy ===== *)
theory SplTypes
  imports Client ObjBuilder "HOL-Library.FSet" "HOL-Library.Finite_Map"
begin

text \<open>
  What the code generator of the Streams operators (\<^verbatim>\<open>Common/BSONCommon.pm\<close>, \<^verbatim>\<open>Common/QueryCommon.pm\<close>)
  works on: the types and values of the Streams language, and what the generated code may raise. The
  runtime of Streams and the compiled part of the database driver are not in the repository: their
  functions are the fields of \<open>spl_env\<close>, and \<open>env_ok\<close> states what their documentation says of them.
  Bounded strings and bounded collections are left out.
\<close>

section \<open>Results of the generated code\<close>

text \<open>
  An exception of the driver, an assertion of a builder, the exception the operators throw, a conversion
  of the runtime that fails, and two kinds of undefined behaviour: a null pointer that is dereferenced,
  and an attribute that is read from a tuple of another port.
\<close>

datatype op_exn =
    Driver db_exception
  | Asserted mongo_exn
  | SPLRuntimeOperator bytes
  | CastFailed
  | NullPointer
  | WrongPort

definition bindX :: "'e + 'a \<Rightarrow> ('a \<Rightarrow> 'e + 'b) \<Rightarrow> 'e + 'b" where
  "bindX m f = (case m of Inl e \<Rightarrow> Inl e | Inr x \<Rightarrow> f x)"

lemma bindX_simps [simp]: "bindX (Inl e) f = Inl e" "bindX (Inr x) f = f x"
  by (simp_all add: bindX_def)

lemma bindX_eq_Inr: "bindX m f = Inr y \<longleftrightarrow> (\<exists>x. m = Inr x \<and> f x = Inr y)"
  by (cases m) auto

lemma bindX_cong [fundef_cong]:
  "m = m' \<Longrightarrow> (\<And>x. m' = Inr x \<Longrightarrow> f x = f' x) \<Longrightarrow> bindX m f = bindX m' f'"
  by (cases m') auto

definition asserted :: "'a res \<Rightarrow> op_exn + 'a" where
  "asserted r = map_sum Asserted id r"

lemma asserted_simps [simp]: "asserted (Inl e) = Inl (Asserted e)" "asserted (Inr x) = Inr x"
  by (simp_all add: asserted_def)

text \<open>A loop over the members of a collection.\<close>

fun foldX :: "('x \<Rightarrow> 'a \<Rightarrow> 'e + 'a) \<Rightarrow> 'x list \<Rightarrow> 'a \<Rightarrow> 'e + 'a" where
  "foldX f [] a = Inr a"
| "foldX f (x # xs) a = bindX (f x a) (foldX f xs)"

lemma foldX_cong [fundef_cong]:
  "xs = ys \<Longrightarrow> a = b \<Longrightarrow> (\<And>x s. x \<in> set ys \<Longrightarrow> f x s = g x s) \<Longrightarrow> foldX f xs a = foldX g ys b"
  by (induction ys arbitrary: xs a b) (auto intro!: bindX_cong)

lemma foldX_append: "foldX f (xs @ ys) a = bindX (foldX f xs a) (foldX f ys)"
  by (induction xs arbitrary: a) (auto simp: bindX_def split: sum.splits)

section \<open>Types\<close>

datatype int_kind = Int8 | Int16 | Int32 | Int64 | Uint8 | Uint16 | Uint32 | Uint64

datatype spl_type =
    TBoolean
  | TIntegral int_kind
  | TFloat32
  | TFloat64
  | TDecimal nat
  | TComplex
  | TTimestamp
  | TRString
  | TUString
  | TXml
  | TBlob
  | TEnum "bytes list"
  | TList spl_type
  | TSet spl_type
  | TMap spl_type spl_type
  | TTuple "(bytes \<times> spl_type) list"

fun int_bits :: "int_kind \<Rightarrow> nat" where
  "int_bits Int8 = 8" | "int_bits Int16 = 16" | "int_bits Int32 = 32" | "int_bits Int64 = 64"
| "int_bits Uint8 = 8" | "int_bits Uint16 = 16" | "int_bits Uint32 = 32" | "int_bits Uint64 = 64"

fun int_signed :: "int_kind \<Rightarrow> bool" where
  "int_signed Uint8 = False" | "int_signed Uint16 = False" | "int_signed Uint32 = False"
| "int_signed Uint64 = False" | "int_signed k = True"

text \<open>Assigning an integer to an attribute keeps its low bits.\<close>

definition wrap_kind :: "int_kind \<Rightarrow> int \<Rightarrow> int" where
  "wrap_kind k i = (if int_signed k then signed_take_bit (int_bits k - 1) i else take_bit (int_bits k) i)"

definition in_kind :: "int_kind \<Rightarrow> int \<Rightarrow> bool" where
  "in_kind k i \<longleftrightarrow>
     (if int_signed k then - (2 ^ (int_bits k - 1)) \<le> i \<and> i < 2 ^ (int_bits k - 1) else 0 \<le> i \<and> i < 2 ^ int_bits k)"

section \<open>Values\<close>

text \<open>
  A value of \<^verbatim>\<open>float32\<close> is its bits; a \<^verbatim>\<open>decimal\<close>, a \<^verbatim>\<open>ustring\<close> and an \<^verbatim>\<open>xml\<close> are the bytes that represent them.
  A timestamp has seconds, nanoseconds and the id of a machine. A set and a map have no order.
\<close>

datatype spl_val =
    SBool bool
  | SInt int
  | SFloat32 "32 word"
  | SFloat64 double
  | SDecimal bytes
  | SComplex double double
  | STimestamp int int int
  | SRString bytes
  | SUString bytes
  | SXml bytes
  | SBlob bytes
  | SEnum bytes
  | SList "spl_val list"
  | SSet "spl_val fset"
  | SMap "(bytes, spl_val) fmap"
  | STuple "(bytes \<times> spl_val) list"

type_synonym stuple = "(bytes \<times> spl_val) list"

fun has_type :: "spl_type \<Rightarrow> spl_val \<Rightarrow> bool"
  and has_types :: "(bytes \<times> spl_type) list \<Rightarrow> stuple \<Rightarrow> bool" where
  "has_type TBoolean v \<longleftrightarrow> (\<exists>b. v = SBool b)"
| "has_type (TIntegral k) v \<longleftrightarrow> (\<exists>i. v = SInt i \<and> in_kind k i)"
| "has_type TFloat32 v \<longleftrightarrow> (\<exists>x. v = SFloat32 x)"
| "has_type TFloat64 v \<longleftrightarrow> (\<exists>d. v = SFloat64 d)"
| "has_type (TDecimal b) v \<longleftrightarrow> (\<exists>d. v = SDecimal d)"
| "has_type TComplex v \<longleftrightarrow> (\<exists>re im. v = SComplex re im)"
| "has_type TTimestamp v \<longleftrightarrow> (\<exists>s n m. v = STimestamp s n m \<and> in_kind Int64 s \<and> 0 \<le> n \<and> n < 1000000000)"
| "has_type TRString v \<longleftrightarrow> (\<exists>s. v = SRString s)"
| "has_type TUString v \<longleftrightarrow> (\<exists>s. v = SUString s)"
| "has_type TXml v \<longleftrightarrow> (\<exists>s. v = SXml s)"
| "has_type TBlob v \<longleftrightarrow> (\<exists>s. v = SBlob s)"
| "has_type (TEnum names) v \<longleftrightarrow> (\<exists>n. v = SEnum n \<and> n \<in> set names)"
| "has_type (TList t) v \<longleftrightarrow> (\<exists>vs. v = SList vs \<and> (\<forall>x \<in> set vs. has_type t x))"
| "has_type (TSet t) v \<longleftrightarrow> (\<exists>vs. v = SSet vs \<and> (\<forall>x \<in> fset vs. has_type t x))"
| "has_type (TMap kt t) v \<longleftrightarrow> (\<exists>m. v = SMap m \<and> kt = TRString \<and> (\<forall>x \<in> fmran' m. has_type t x))"
| "has_type (TTuple ts) v \<longleftrightarrow> (\<exists>avs. v = STuple avs \<and> has_types ts avs)"
| "has_types [] avs \<longleftrightarrow> avs = []"
| "has_types ((n, t) # ts) avs \<longleftrightarrow> (\<exists>v avs'. avs = (n, v) # avs' \<and> has_type t v \<and> has_types ts avs')"

text \<open>The parts of a value that code for its type works on. Code of one type never sees a value of another.\<close>

definition as_list :: "spl_val \<Rightarrow> op_exn + spl_val list" where
  "as_list v = (case v of SList vs \<Rightarrow> Inr vs | _ \<Rightarrow> Inl (Asserted BadAccess))"

definition as_set :: "spl_val \<Rightarrow> op_exn + spl_val fset" where
  "as_set v = (case v of SSet vs \<Rightarrow> Inr vs | _ \<Rightarrow> Inl (Asserted BadAccess))"

definition as_map :: "spl_val \<Rightarrow> op_exn + (bytes, spl_val) fmap" where
  "as_map v = (case v of SMap m \<Rightarrow> Inr m | _ \<Rightarrow> Inl (Asserted BadAccess))"

definition as_tuple :: "spl_val \<Rightarrow> op_exn + stuple" where
  "as_tuple v = (case v of STuple avs \<Rightarrow> Inr avs | _ \<Rightarrow> Inl (Asserted BadAccess))"

named_theorems parts "the parts of a value"

lemma as_simps [simp, parts]:
  "as_list (SList vs) = Inr vs" "as_set (SSet s) = Inr s" "as_map (SMap m) = Inr m" "as_tuple (STuple avs) = Inr avs"
  by (simp_all add: as_list_def as_set_def as_map_def as_tuple_def)

text \<open>\<^verbatim>\<open>get_name()\<close> and \<^verbatim>\<open>set_name(v)\<close> of a generated tuple class.\<close>

definition get_attr :: "bytes \<Rightarrow> stuple \<Rightarrow> op_exn + spl_val" where
  "get_attr n avs = (case map_of avs n of Some v \<Rightarrow> Inr v | None \<Rightarrow> Inl (Asserted BadAccess))"

definition set_attr :: "bytes \<Rightarrow> spl_val \<Rightarrow> stuple \<Rightarrow> stuple" where
  "set_attr n v avs = map (\<lambda>(m, w). (m, if m = n then v else w)) avs"

section \<open>The runtime and the driver\<close>

record spl_env =
  env_decimal_to_double :: "bytes \<Rightarrow> double"
  env_double_to_decimal :: "nat \<Rightarrow> double \<Rightarrow> bytes"
  env_double_to_int :: "int_kind \<Rightarrow> double \<Rightarrow> int"
  env_float32_to_double :: "32 word \<Rightarrow> double"
  env_double_to_float32 :: "double \<Rightarrow> 32 word"
  env_ustring_to_rstring :: "bytes \<Rightarrow> bytes"
  env_rstring_to_ustring :: "bytes \<Rightarrow> bytes"
  env_xml_to_rstring :: "bytes \<Rightarrow> bytes"
  env_rstring_to_xml :: "bytes \<Rightarrow> bytes option"
  env_createTimestamp :: "int \<Rightarrow> 32 word \<Rightarrow> spl_val"
  env_set_order :: "spl_val fset \<Rightarrow> spl_val list"
  env_map_order :: "(bytes, spl_val) fmap \<Rightarrow> (bytes \<times> spl_val) list"
  env_map_add :: "(bytes, spl_val) fmap \<Rightarrow> bytes \<Rightarrow> spl_val \<Rightarrow> (bytes, spl_val) fmap"
  env_default :: "spl_type \<Rightarrow> spl_val"
  env_hashCode :: "stuple \<Rightarrow> nat"
  env_getField :: "doc \<Rightarrow> bytes \<Rightarrow> bson_val option"
  env_getFieldDotted :: "doc \<Rightarrow> bytes \<Rightarrow> bson_val option"
  env_jsonString :: "doc \<Rightarrow> bytes"
  env_fromjson :: "bytes \<Rightarrow> db_exception + doc"

text \<open>A value whose collections are empty, as a default constructor and \<^verbatim>\<open>clear()\<close> leave it.\<close>

fun blank :: "spl_type \<Rightarrow> spl_val \<Rightarrow> bool"
  and blanks :: "(bytes \<times> spl_type) list \<Rightarrow> stuple \<Rightarrow> bool" where
  "blank (TList t) v \<longleftrightarrow> v = SList []"
| "blank (TSet t) v \<longleftrightarrow> v = SSet {||}"
| "blank (TMap kt t) v \<longleftrightarrow> v = SMap fmempty"
| "blank (TTuple ts) v \<longleftrightarrow> (\<exists>avs. v = STuple avs \<and> blanks ts avs)"
| "blank t v \<longleftrightarrow> True"
| "blanks [] avs \<longleftrightarrow> avs = []"
| "blanks ((n, t) # ts) avs \<longleftrightarrow> (\<exists>v avs'. avs = (n, v) # avs' \<and> blank t v \<and> blanks ts avs')"

definition float32_nan :: "32 word \<Rightarrow> bool" where
  "float32_nan x \<longleftrightarrow> take_bit 8 (drop_bit 23 x) = 255 \<and> take_bit 23 x \<noteq> 0"

text \<open>
  What is documented: widening a float is exact, a string keeps its text through the conversions, a
  timestamp is made of the seconds and nanoseconds given, iteration visits every member once, adding a
  fresh key to a map adds it, default values have empty collections, and \<^verbatim>\<open>getField\<close> gets the field of the
  name, if there is one.
\<close>

definition env_ok :: "'a spl_env_scheme \<Rightarrow> bool" where
  "env_ok env \<longleftrightarrow>
     (\<forall>x. \<not> float32_nan x \<longrightarrow> env_double_to_float32 env (env_float32_to_double env x) = x) \<and>
     (\<forall>s. env_rstring_to_ustring env (env_ustring_to_rstring env s) = s) \<and>
     (\<forall>s. env_rstring_to_xml env (env_xml_to_rstring env s) = Some s) \<and>
     (\<forall>s n. env_createTimestamp env s n = STimestamp s (uint n) 0) \<and>
     (\<forall>s. distinct (env_set_order env s) \<and> set (env_set_order env s) = fset s) \<and>
     (\<forall>m. distinct (map fst (env_map_order env m)) \<and> fmap_of_list (env_map_order env m) = m) \<and>
     (\<forall>m k v. fmlookup m k = None \<longrightarrow> env_map_add env m k v = fmupd k v m) \<and>
     (\<forall>t. blank t (env_default env t)) \<and>
     (\<forall>d n. (env_getField env d n = None \<longleftrightarrow> n \<notin> fst ` set d) \<and>
            (\<forall>v. env_getField env d n = Some v \<longrightarrow> (n, v) \<in> set d))"

lemma env_okD:
  assumes "env_ok env"
  shows "\<not> float32_nan x \<Longrightarrow> env_double_to_float32 env (env_float32_to_double env x) = x"
    and "env_rstring_to_ustring env (env_ustring_to_rstring env s) = s"
    and "env_rstring_to_xml env (env_xml_to_rstring env s) = Some s"
    and "env_createTimestamp env sec n = STimestamp sec (uint n) 0"
    and "set (env_set_order env ss) = fset ss"
    and "distinct (map fst (env_map_order env m))"
    and "fmap_of_list (env_map_order env m) = m"
    and "fmlookup m k = None \<Longrightarrow> env_map_add env m k v = fmupd k v m"
    and "blank t (env_default env t)"
  using assms by (simp_all add: env_ok_def)

lemma getField_cases:
  assumes "env_ok env"
  shows "env_getField env d n = None \<longleftrightarrow> n \<notin> fst ` set d"
    and "env_getField env d n = Some v \<Longrightarrow> (n, v) \<in> set d"
  using assms unfolding env_ok_def by blast+

lemma getField_distinct:
  assumes "env_ok env" and "distinct (map fst d)"
  shows "env_getField env d n = map_of d n"
proof (cases "env_getField env d n")
  case None
  then have "n \<notin> fst ` set d" by (simp add: getField_cases(1) [OF assms(1)])
  then show ?thesis using None map_of_eq_None_iff [of d n] by simp
next
  case (Some w)
  then show ?thesis using getField_cases(2) [OF assms(1) Some] assms(2) by simp
qed

lemma map_of_set_attr: "map_of (set_attr n v avs) m = (if m = n then map_option (\<lambda>w. v) (map_of avs n) else map_of avs m)"
  by (induction avs) (auto simp: set_attr_def)

lemma fst_set_attr [simp]: "map fst (set_attr n v avs) = map fst avs"
  by (induction avs) (auto simp: set_attr_def)

lemma wrap_in_kind [simp]: "in_kind k i \<Longrightarrow> wrap_kind k i = i"
  by (cases k) (simp_all add: in_kind_def wrap_kind_def signed_take_bit_int_eq_self take_bit_int_eq_self)

section \<open>A runtime\<close>

text \<open>
  An instance with the documented behaviour, for the examples: what the documentation leaves open is
  chosen, the order in which a set or a map is visited among them.
\<close>

fun default_val :: "spl_type \<Rightarrow> spl_val" where
  "default_val TBoolean = SBool False"
| "default_val (TIntegral k) = SInt 0"
| "default_val TFloat32 = SFloat32 0"
| "default_val TFloat64 = SFloat64 0"
| "default_val (TDecimal b) = SDecimal []"
| "default_val TComplex = SComplex 0 0"
| "default_val TTimestamp = STimestamp 0 0 0"
| "default_val TRString = SRString []"
| "default_val TUString = SUString []"
| "default_val TXml = SXml []"
| "default_val TBlob = SBlob []"
| "default_val (TEnum names) = SEnum (case names of [] \<Rightarrow> [] | n # ns \<Rightarrow> n)"
| "default_val (TList t) = SList []"
| "default_val (TSet t) = SSet {||}"
| "default_val (TMap kt t) = SMap fmempty"
| "default_val (TTuple ts) = STuple (map (\<lambda>(n, t). (n, default_val t)) ts)"

lemma blank_default: "blank t (default_val t)"
proof (induction t)
  case (TTuple ts)
  have "\<forall>nt \<in> set ts. blank (snd nt) (default_val (snd nt))"
    using TTuple by (metis prod_set_simps(2) singletonI prod.exhaust_sel)
  then have "blanks ts (map (\<lambda>(n, t). (n, default_val t)) ts)"
    by (induction ts) auto
  then show ?case by simp
qed simp_all

definition sample_env :: "(bytes \<Rightarrow> db_exception + doc) \<Rightarrow> spl_env" where
  "sample_env parse =
     \<lparr>env_decimal_to_double = (\<lambda>d. 0), env_double_to_decimal = (\<lambda>b d. []), env_double_to_int = (\<lambda>k d. 0),
      env_float32_to_double = ucast, env_double_to_float32 = ucast,
      env_ustring_to_rstring = id, env_rstring_to_ustring = id, env_xml_to_rstring = id, env_rstring_to_xml = Some,
      env_createTimestamp = (\<lambda>s n. STimestamp s (uint n) 0),
      env_set_order = (\<lambda>s. SOME xs. distinct xs \<and> set xs = fset s),
      env_map_order = (\<lambda>m. SOME xs. distinct (map fst xs) \<and> fmap_of_list xs = m),
      env_map_add = (\<lambda>m k v. fmupd k v m), env_default = default_val,
      env_hashCode = (\<lambda>t. length (filter (\<lambda>(n, v). v \<noteq> SRString []) t)),
      env_getField = map_of, env_getFieldDotted = map_of, env_jsonString = (\<lambda>d. []), env_fromjson = parse\<rparr>"

lemma fmap_listing: "\<exists>xs. distinct (map fst xs) \<and> fmap_of_list xs = m"
proof -
  obtain ks where ks: "distinct ks" "set ks = fset (fmdom m)"
    using finite_distinct_list [of "fset (fmdom m)"] by auto
  let ?xs = "map (\<lambda>k. (k, the (fmlookup m k))) ks"
  have "fmlookup (fmap_of_list ?xs) k = fmlookup m k" for k
  proof (cases "k \<in> set ks")
    case True
    then have "fmlookup m k \<noteq> None" using ks(2) by (simp add: fmlookup_dom_iff)
    then show ?thesis using True ks(1) by (simp add: fmlookup_of_list map_of_map_restrict)
  next
    case False
    then have "fmlookup m k = None" using ks(2) by (metis fmdom_notD)
    then show ?thesis using False by (simp add: fmlookup_of_list map_of_map_restrict)
  qed
  then show ?thesis using ks(1) by (intro exI [of _ ?xs]) (simp add: fmap_ext o_def)
qed

lemma sample_env_ok: "env_ok (sample_env parse)"
proof -
  have s: "distinct (SOME xs. distinct xs \<and> set xs = fset s) \<and> set (SOME xs. distinct xs \<and> set xs = fset s) = fset s" for s :: "spl_val fset"
    by (rule someI_ex) (metis finite_distinct_list finite_fset)
  have m: "distinct (map fst (SOME xs. distinct (map fst xs) \<and> fmap_of_list xs = m)) \<and>
      fmap_of_list (SOME xs. distinct (map fst xs) \<and> fmap_of_list xs = m) = m" for m :: "(bytes, spl_val) fmap"
    by (rule someI_ex) (rule fmap_listing)
  have g: "(map_of d n = None \<longleftrightarrow> n \<notin> fst ` set d) \<and> (\<forall>v. map_of d n = Some v \<longrightarrow> (n, v) \<in> set d)" for d :: doc and n
    using map_of_eq_None_iff [of d n] by (auto dest: map_of_SomeD)
  have w: "(ucast (ucast x :: 64 word) :: 32 word) = x" for x
    by transfer simp
  show ?thesis
    unfolding env_ok_def sample_env_def spl_env.simps
    by (intro conjI allI impI s [THEN conjunct1] s [THEN conjunct2] m [THEN conjunct1] m [THEN conjunct2]
        g [THEN conjunct1] g [THEN conjunct2, rule_format] blank_default) (simp_all add: w)
qed

end
