(* ===== verification/BsonCommon.thy ===== *)
theory BsonCommon
  imports SplTypes
begin

text \<open>
  \<^verbatim>\<open>Common/BSONCommon.pm\<close>: the code that the generator emits to turn a value of the Streams language into an
  object of the database, and the errors with which the generator refuses a type. What the generator
  decides from the type, and what the emitted code does to a value of it, are one function on both. An
  object under construction is its document; the refinement of the builders to it is in \<open>Builders\<close>.
\<close>

section \<open>What the generator refuses\<close>

datatype codegen_error =
    ComplexNotSupported
  | MapKeyNotString
  | KeyRequired
  | MultiplePorts
  | PasswordRequired
  | UsernameRequired
  | FindQueryType

definition isString :: "spl_type \<Rightarrow> bool" where
  "isString t \<longleftrightarrow> t = TRString \<or> t = TUString"

definition keyLess :: "spl_type \<Rightarrow> bool" where
  "keyLess t = (case t of TMap kt vt \<Rightarrow> False | TTuple ts \<Rightarrow> False | _ \<Rightarrow> True)"

fun gen_errors :: "spl_type \<Rightarrow> codegen_error list" where
  "gen_errors TComplex = [ComplexNotSupported]"
| "gen_errors (TList t) = gen_errors t"
| "gen_errors (TSet t) = gen_errors t"
| "gen_errors (TMap kt t) = (if isString kt then [] else [MapKeyNotString]) @ gen_errors t"
| "gen_errors (TTuple ts) = concat (map (\<lambda>(n, t). gen_errors t) ts)"
| "gen_errors t = []"

section \<open>Primitive values\<close>

definition ill_typed :: "op_exn + 'a" where
  "ill_typed = Inl (Asserted BadAccess)"

text \<open>The arithmetic of \<^verbatim>\<open>getSeconds() * 1000 + getNanoseconds() / 1000000\<close> is on signed 64-bit integers.\<close>

definition chk64 :: "int \<Rightarrow> op_exn + int" where
  "chk64 i = (if in_kind Int64 i then Inr i else Inl (Asserted SignedOverflow))"

definition timestamp_millis :: "int \<Rightarrow> int \<Rightarrow> op_exn + int" where
  "timestamp_millis secs nanos = bindX (chk64 (secs * 1000)) (\<lambda>ms. chk64 (ms + nanos div 1000000))"

text \<open>The overload of \<^verbatim>\<open>append\<close> that C++ picks: the integers up to 32 bits are appended as an \<^verbatim>\<open>int\<close>.\<close>

fun handlePrimitive :: "'a spl_env_scheme \<Rightarrow> spl_type \<Rightarrow> spl_val \<Rightarrow> op_exn + bson_val" where
  "handlePrimitive env TBlob v =
     (case v of SBlob bs \<Rightarrow> Inr (VBinData (subtype_byte BinDataGeneral) bs) | _ \<Rightarrow> ill_typed)"
| "handlePrimitive env (TDecimal bits) v =
     (case v of SDecimal d \<Rightarrow> Inr (VDouble (env_decimal_to_double env d)) | _ \<Rightarrow> ill_typed)"
| "handlePrimitive env (TEnum names) v = (case v of SEnum n \<Rightarrow> Inr (VString n) | _ \<Rightarrow> ill_typed)"
| "handlePrimitive env (TIntegral k) v =
     (case v of
        SInt i \<Rightarrow> Inr (if k = Int64 \<or> k = Uint64 then VLong (word_of_int i) else VInt (word_of_int i))
      | _ \<Rightarrow> ill_typed)"
| "handlePrimitive env TTimestamp v =
     (case v of
        STimestamp secs nanos machine \<Rightarrow> bindX (timestamp_millis secs nanos) (\<lambda>ms. Inr (VDate (word_of_int ms)))
      | _ \<Rightarrow> ill_typed)"
| "handlePrimitive env TUString v =
     (case v of SUString s \<Rightarrow> Inr (VString (env_ustring_to_rstring env s)) | _ \<Rightarrow> ill_typed)"
| "handlePrimitive env TXml v = (case v of SXml s \<Rightarrow> Inr (VString (env_xml_to_rstring env s)) | _ \<Rightarrow> ill_typed)"
| "handlePrimitive env TBoolean v = (case v of SBool b \<Rightarrow> Inr (VBool b) | _ \<Rightarrow> ill_typed)"
| "handlePrimitive env TFloat32 v =
     (case v of SFloat32 x \<Rightarrow> Inr (VDouble (env_float32_to_double env x)) | _ \<Rightarrow> ill_typed)"
| "handlePrimitive env TFloat64 v = (case v of SFloat64 d \<Rightarrow> Inr (VDouble d) | _ \<Rightarrow> ill_typed)"
| "handlePrimitive env TRString v = (case v of SRString s \<Rightarrow> Inr (VString s) | _ \<Rightarrow> ill_typed)"
| "handlePrimitive env t v = ill_typed"

section \<open>Collections and tuples\<close>

text \<open>\<^verbatim>\<open>append\<close> and \<^verbatim>\<open>appendArray\<close> of an object builder, and \<^verbatim>\<open>append\<close> of an array builder.\<close>

definition append_field :: "bytes \<Rightarrow> bson_val \<Rightarrow> doc \<Rightarrow> op_exn + doc" where
  "append_field name v d = bindX (asserted (checkFieldName name)) (\<lambda>_. Inr (d @ [(name, v)]))"

definition append_item :: "bson_val \<Rightarrow> doc \<Rightarrow> op_exn + doc" where
  "append_item v d = Inr (d @ [(dec_nat (length d), v)])"

fun buildBSONObject :: "'a spl_env_scheme \<Rightarrow> spl_type \<Rightarrow> spl_val \<Rightarrow> op_exn + bson_val" where
  "buildBSONObject env (TList t) v =
     bindX (as_list v) (\<lambda>vs.
     bindX (foldX (\<lambda>x d. bindX (buildBSONObject env t x) (\<lambda>w. append_item w d)) vs []) (\<lambda>d. Inr (VArray d)))"
| "buildBSONObject env (TSet t) v =
     bindX (as_set v) (\<lambda>vs.
     bindX (foldX (\<lambda>x d. bindX (buildBSONObject env t x) (\<lambda>w. append_item w d)) (env_set_order env vs) [])
       (\<lambda>d. Inr (VArray d)))"
| "buildBSONObject env (TMap kt t) v =
     bindX (as_map v) (\<lambda>m.
     bindX (foldX (\<lambda>(k, x) d. bindX (buildBSONObject env t x) (\<lambda>w. append_field k w d)) (env_map_order env m) [])
       (\<lambda>d. Inr (VObject d)))"
| "buildBSONObject env (TTuple ts) v =
     bindX (as_tuple v) (\<lambda>avs.
     bindX (foldX (\<lambda>(n, t) d.
         bindX (get_attr n avs) (\<lambda>x. bindX (buildBSONObject env t x) (\<lambda>w. append_field n w d))) ts [])
       (\<lambda>d. Inr (VObject d)))"
| "buildBSONObject env t v = handlePrimitive env t v"

definition buildBSONObjectFromJson :: "'a spl_env_scheme \<Rightarrow> spl_val \<Rightarrow> op_exn + bson_val" where
  "buildBSONObjectFromJson env v =
     (case v of
        SRString s \<Rightarrow> (case env_fromjson env s of Inl e \<Rightarrow> Inl (Driver e) | Inr d \<Rightarrow> Inr (VObject d))
      | _ \<Rightarrow> ill_typed)"

text \<open>\<^verbatim>\<open>const BSONObj & bsonObj = ...\<close>: what has no object does not compile, and is refused before (\<open>KeyRequired\<close>).\<close>

definition buildBSONObjectWithKey ::
    "'a spl_env_scheme \<Rightarrow> bytes option \<Rightarrow> spl_type \<Rightarrow> bool \<Rightarrow> spl_val \<Rightarrow> op_exn + doc" where
  "buildBSONObjectWithKey env key t isJson v =
     bindX (if isJson then buildBSONObjectFromJson env v else buildBSONObject env t v) (\<lambda>w.
       case key of
         Some k \<Rightarrow> append_field k w []
       | None \<Rightarrow> (case w of VObject d \<Rightarrow> Inr d | _ \<Rightarrow> ill_typed))"

text \<open>\<^verbatim>\<open>b0.obj()\<close> after the code of \<open>buildBSONObject\<close>.\<close>

definition build_b0 :: "'a spl_env_scheme \<Rightarrow> spl_type \<Rightarrow> spl_val \<Rightarrow> op_exn + doc" where
  "build_b0 env t v =
     bindX (buildBSONObject env t v) (\<lambda>w. case w of VObject d \<Rightarrow> Inr d | VArray d \<Rightarrow> Inr d | _ \<Rightarrow> ill_typed)"

section \<open>What is built\<close>

text \<open>The type of the element for each type of the language.\<close>

fun bson_type :: "spl_type \<Rightarrow> BSONType" where
  "bson_type TBoolean = Bool"
| "bson_type (TIntegral k) = (if k = Int64 \<or> k = Uint64 then NumberLong else NumberInt)"
| "bson_type TFloat32 = NumberDouble"
| "bson_type TFloat64 = NumberDouble"
| "bson_type (TDecimal b) = NumberDouble"
| "bson_type TTimestamp = Date"
| "bson_type TBlob = BinData"
| "bson_type (TList t) = Array"
| "bson_type (TSet t) = Array"
| "bson_type (TMap kt t) = Object"
| "bson_type (TTuple ts) = Object"
| "bson_type t = String"

text \<open>A name with a null byte is refused, and the seconds of a timestamp may overflow.\<close>

definition build_exn :: "op_exn \<Rightarrow> bool" where
  "build_exn e \<longleftrightarrow> e = Asserted (UserAssertion 0) \<or> e = Asserted SignedOverflow"

definition built :: "('a \<Rightarrow> bool) \<Rightarrow> op_exn + 'a \<Rightarrow> bool" where
  "built P r = (case r of Inl e \<Rightarrow> build_exn e | Inr x \<Rightarrow> P x)"

lemma built_simps [simp]: "built P (Inl e) \<longleftrightarrow> build_exn e" "built P (Inr x) \<longleftrightarrow> P x"
  by (simp_all add: built_def)

lemma built_bind: "built P m \<Longrightarrow> (\<And>x. P x \<Longrightarrow> built Q (f x)) \<Longrightarrow> built Q (bindX m f)"
  by (cases m) auto

lemma built_fold:
  assumes "\<And>x a. x \<in> set xs \<Longrightarrow> P a \<Longrightarrow> built P (f x a)" and "P a"
  shows "built P (foldX f xs a)"
  using assms
proof (induction xs arbitrary: a)
  case (Cons x xs)
  have "built P (f x a)" using Cons.prems by simp
  then show ?case unfolding foldX.simps by (rule built_bind) (rule Cons.IH, use Cons.prems in auto)
qed simp

lemma wf_doc_snoc: "wf_doc (d @ [(n, v)]) \<longleftrightarrow> wf_doc d \<and> cstring n \<and> wf_val v"
  by (auto simp: wf_doc_iff wf_elem_def)

lemma append_field_cases:
  "append_field n v d = (if cstring n then Inr (d @ [(n, v)]) else Inl (Asserted (UserAssertion 0)))"
  by (simp add: append_field_def checkFieldName_null)

lemma append_field_ok [simp]: "cstring n \<Longrightarrow> append_field n v d = Inr (d @ [(n, v)])"
  by (simp add: append_field_cases)

lemma cstring_dec [simp]: "cstring (dec_nat n)"
  unfolding cstring_def using dec_nat_digits [of 0 n] by auto

lemma built_append_field: "wf_doc d \<Longrightarrow> wf_val v \<Longrightarrow> built wf_doc (append_field n v d)"
  by (simp add: append_field_cases wf_doc_snoc build_exn_def)

lemma built_append_item: "wf_doc d \<Longrightarrow> wf_val v \<Longrightarrow> built wf_doc (append_item v d)"
  by (simp add: append_item_def wf_doc_snoc)

lemma has_types_attr:
  "has_types ts avs \<Longrightarrow> distinct (map fst ts) \<Longrightarrow> (n, t) \<in> set ts \<Longrightarrow> \<exists>v. get_attr n avs = Inr v \<and> has_type t v"
  by (induction ts arbitrary: avs) (force simp: get_attr_def)+


text \<open>The names of the attributes of a tuple are distinct identifiers.\<close>

fun type_ok :: "spl_type \<Rightarrow> bool" where
  "type_ok (TList t) \<longleftrightarrow> type_ok t"
| "type_ok (TSet t) \<longleftrightarrow> type_ok t"
| "type_ok (TMap kt t) \<longleftrightarrow> type_ok t"
| "type_ok (TTuple ts) \<longleftrightarrow> distinct (map fst ts) \<and> (\<forall>(n, t) \<in> set ts. cstring n \<and> type_ok t)"
| "type_ok t \<longleftrightarrow> True"

lemma built_timestamp: "(\<And>ms. built P (f ms)) \<Longrightarrow> built P (bindX (timestamp_millis secs nanos) f)"
  by (simp add: timestamp_millis_def chk64_def build_exn_def)

lemma build_collection:
  assumes t: "\<And>x. x \<in> set xs \<Longrightarrow> built (\<lambda>w. wf_val w \<and> val_type w = bson_type t) (f x)"
  shows "built wf_doc (foldX (\<lambda>x d. bindX (f x) (\<lambda>w. append_item w d)) xs [])"
  using t by (intro built_fold) (auto intro!: built_bind [OF t] built_append_item)

lemma build_fields:
  assumes t: "\<And>x. x \<in> set xs \<Longrightarrow> built wf_val (f x)"
  shows "built wf_doc (foldX (\<lambda>x d. bindX (f x) (\<lambda>w. append_field (n x) w d)) xs [])"
  using t by (intro built_fold) (auto intro!: built_bind [OF t] built_append_field)

lemma built_weaken: "built P m \<Longrightarrow> (\<And>x. P x \<Longrightarrow> Q x) \<Longrightarrow> built Q m"
  by (cases m) auto

lemma map_order_ran:
  assumes "env_ok env" and "(k, x) \<in> set (env_map_order env m)"
  shows "x \<in> fmran' m"
proof -
  have "map_of (env_map_order env m) k = Some x"
    using assms env_okD(6) [OF assms(1), of m] by simp
  then have "fmlookup (fmap_of_list (env_map_order env m)) k = Some x" by (simp add: fmlookup_of_list)
  then show ?thesis using env_okD(7) [OF assms(1), of m] by (metis fmran'I)
qed

lemma build_typed_lemma:
  assumes "env_ok env" and "has_type t v" and "type_ok t" and "gen_errors t = []"
  shows "built (\<lambda>w. wf_val w \<and> val_type w = bson_type t) (buildBSONObject env t v)"
  using assms(2-)
proof (induction t arbitrary: v)
  case (TList t)
  then obtain vs where v: "v = SList vs" "\<forall>x \<in> set vs. has_type t x" by auto
  show ?case unfolding v(1) buildBSONObject.simps as_simps bindX_simps
    by (rule built_bind [OF build_collection]) (use TList v in auto)
next
  case (TSet t)
  then obtain vs where v: "v = SSet vs" "\<forall>x \<in> fset vs. has_type t x" by auto
  show ?case unfolding v(1) buildBSONObject.simps as_simps bindX_simps
    by (rule built_bind [OF build_collection]) (use TSet v env_okD(5) [OF assms(1)] in auto)
next
  case (TMap kt t)
  then obtain m where v: "v = SMap m" "\<forall>x \<in> fmran' m. has_type t x" by auto
  have IH: "built wf_val (buildBSONObject env t (snd kx))" if "kx \<in> set (env_map_order env m)" for kx
    using that TMap v(2) map_order_ran [OF assms(1), of "fst kx" "snd kx" m]
    by (intro built_weaken [OF TMap.IH(2)]) auto
  show ?case unfolding v(1) buildBSONObject.simps as_simps bindX_simps case_prod_beta
    by (rule built_bind [OF build_fields]) (use IH in auto)
next
  case (TTuple ts)
  then obtain avs where v: "v = STuple avs" "has_types ts avs" by auto
  have IH: "built wf_val (bindX (get_attr (fst nt) avs) (buildBSONObject env (snd nt)))" if nt: "nt \<in> set ts" for nt
  proof -
    obtain x where x: "get_attr (fst nt) avs = Inr x" "has_type (snd nt) x"
      using has_types_attr [OF v(2), of "fst nt" "snd nt"] TTuple.prems nt by auto
    have "type_ok (snd nt)" "gen_errors (snd nt) = []" using TTuple.prems nt by (auto simp: split_beta)
    then show ?thesis
      using TTuple.IH [of nt "snd nt" x] nt x by (cases nt) (auto intro: built_weaken)
  qed
  have assoc: "bindX (bindX m f) g = bindX m (\<lambda>x. bindX (f x) g)" for m :: "op_exn + spl_val" and f g
    by (cases m) auto
  show ?case unfolding v(1) buildBSONObject.simps as_simps bindX_simps case_prod_beta assoc [symmetric]
    by (rule built_bind [OF build_fields]) (use IH in auto)
qed (auto intro!: built_timestamp)


text \<open>For a type that the generator accepts and a value of that type, the object that the emitted code
  builds is well-formed, and under a key it is that key with an element of the type's BSON type; the code
  can only fail on a map key with a null byte, which the builder refuses, or on a timestamp whose
  milliseconds overflow.\<close>

lemma build_typed:
  assumes "env_ok env" and "has_type t v" and "type_ok t" and "gen_errors t = []" and "key \<noteq> None \<or> \<not> keyLess t"
  shows "(\<exists>d. buildBSONObjectWithKey env key t False v = Inr d \<and> wf_doc d \<and>
            (\<forall>k. key = Some k \<longrightarrow> (\<exists>w. d = [(k, w)] \<and> val_type w = bson_type t))) \<or>
         buildBSONObjectWithKey env key t False v = Inl (Asserted (UserAssertion 0)) \<or>
         buildBSONObjectWithKey env key t False v = Inl (Asserted SignedOverflow)"
proof (cases "buildBSONObject env t v")
  case (Inl e)
  then show ?thesis using build_typed_lemma [OF assms(1-4)]
    by (auto simp: buildBSONObjectWithKey_def build_exn_def)
next
  case (Inr w)
  then have w: "wf_val w" "val_type w = bson_type t" using build_typed_lemma [OF assms(1-4)] by auto
  show ?thesis
  proof (cases key)
    case None
    then have "bson_type t = Object" using assms(5) by (auto simp: keyLess_def split: spl_type.splits)
    then show ?thesis using Inr w None by (cases w) (auto simp: buildBSONObjectWithKey_def)
  next
    case (Some k)
    then show ?thesis using Inr w by (auto simp: buildBSONObjectWithKey_def append_field_cases)
  qed
qed

text \<open>A tuple type and a value of it.\<close>

definition person_type :: spl_type where
  "person_type = TTuple [(lit ''id'', TIntegral Uint32), (lit ''tags'', TList TRString)]"

definition person :: spl_val where
  "person = STuple [(lit ''id'', SInt 7), (lit ''tags'', SList [SRString (lit ''a'')])]"

lemma person_typed:
  "has_type person_type person" "type_ok person_type" "gen_errors person_type = []" "\<not> keyLess person_type"
  by (simp_all add: person_type_def person_def in_kind_def lit_eq keyLess_def cstring_def)
    (simp_all add: lit_def of_char_def)

lemma person_built:
  "buildBSONObject (sample_env (\<lambda>s. Inr [])) person_type person =
     Inr (VObject [(lit ''id'', VInt 7), (lit ''tags'', VArray [([48], VString (lit ''a''))])])"
  by (simp add: person_type_def person_def get_attr_def lit_eq append_field_cases append_item_def cstring_def
      dec_nat.simps) (simp add: lit_def of_char_def)

lemma build_typed_example:
  "\<exists>d. buildBSONObjectWithKey (sample_env (\<lambda>s. Inr [])) (Some (lit ''p'')) person_type False person = Inr d \<and> wf_doc d"
proof -
  have "(\<exists>d. buildBSONObjectWithKey (sample_env (\<lambda>s. Inr [])) (Some (lit ''p'')) person_type False person = Inr d \<and> wf_doc d \<and>
            (\<forall>k. Some (lit ''p'') = Some k \<longrightarrow> (\<exists>w. d = [(k, w)] \<and> val_type w = bson_type person_type))) \<or>
         buildBSONObjectWithKey (sample_env (\<lambda>s. Inr [])) (Some (lit ''p'')) person_type False person = Inl (Asserted (UserAssertion 0)) \<or>
         buildBSONObjectWithKey (sample_env (\<lambda>s. Inr [])) (Some (lit ''p'')) person_type False person = Inl (Asserted SignedOverflow)"
    by (rule build_typed [OF sample_env_ok person_typed(1-3)]) simp
  moreover have "cstring (lit ''p'')" by (simp add: cstring_def lit_def of_char_def)
  ultimately show ?thesis using person_built by (auto simp: buildBSONObjectWithKey_def)
qed

end
