(* ===== verification/QueryCommon.thy ===== *)
theory QueryCommon
  imports BsonCommon
begin

text \<open>
  \<^verbatim>\<open>Common/QueryCommon.pm\<close>: the code that the generator emits to fill an attribute of the output tuple from
  a document of the database, again as one function on the type and the document. The attribute is a
  reference into the tuple: what the code does to it before it gives up stays. \<open>valueApplied\<close> is the flag
  of the emitted code.
\<close>

section \<open>Reading a primitive\<close>

text \<open>\<^verbatim>\<open>isSimpleType()\<close> and \<^verbatim>\<open>isNumber()\<close> of an element, on its value.\<close>

definition simple_val :: "bson_val \<Rightarrow> bool" where
  "simple_val w = (case val_type w of
     NumberLong \<Rightarrow> True | NumberDouble \<Rightarrow> True | NumberInt \<Rightarrow> True | String \<Rightarrow> True
   | Bool \<Rightarrow> True | Date \<Rightarrow> True | jstOID \<Rightarrow> True | _ \<Rightarrow> False)"

lemma simple_val_element: "isSimpleType (el_at (n, w) rest) = Inr (simple_val w)"
  by (simp add: isSimpleType_def simple_val_def)

definition number_val :: "bson_val \<Rightarrow> double option" where
  "number_val w = (case w of
     VDouble d \<Rightarrow> Some d | VInt i \<Rightarrow> Some (int_to_double (sint i)) | VLong i \<Rightarrow> Some (int_to_double (sint i))
   | _ \<Rightarrow> None)"

type_synonym filled = "op_exn + bool \<times> spl_val"

definition applied :: "spl_val \<Rightarrow> filled" where
  "applied v = Inr (True, v)"

definition handleBlob :: "bson_val \<Rightarrow> spl_val \<Rightarrow> filled" where
  "handleBlob w attr = (case w of VBinData st bs \<Rightarrow> applied (SBlob bs) | _ \<Rightarrow> Inr (False, attr))"

definition handleBoolean :: "bson_val \<Rightarrow> spl_val \<Rightarrow> filled" where
  "handleBoolean w attr = (case w of VBool b \<Rightarrow> applied (SBool b) | _ \<Rightarrow> Inr (False, attr))"

definition handleEnum :: "bytes list \<Rightarrow> bson_val \<Rightarrow> spl_val \<Rightarrow> filled" where
  "handleEnum names w attr =
     (case w of VString s \<Rightarrow> if s \<in> set names then applied (SEnum s) else Inr (False, attr) | _ \<Rightarrow> Inr (False, attr))"

definition handleDecimal :: "'a spl_env_scheme \<Rightarrow> nat \<Rightarrow> bson_val \<Rightarrow> spl_val \<Rightarrow> filled" where
  "handleDecimal env bits w attr =
     (case number_val w of
        Some d \<Rightarrow> applied (SDecimal (env_double_to_decimal env bits d)) | None \<Rightarrow> Inr (False, attr))"

definition handleFloat :: "'a spl_env_scheme \<Rightarrow> spl_type \<Rightarrow> bson_val \<Rightarrow> spl_val \<Rightarrow> filled" where
  "handleFloat env t w attr =
     (case number_val w of
        Some d \<Rightarrow> applied (if t = TFloat32 then SFloat32 (env_double_to_float32 env d) else SFloat64 d)
      | None \<Rightarrow> Inr (False, attr))"

definition handleInt :: "'a spl_env_scheme \<Rightarrow> int_kind \<Rightarrow> bson_val \<Rightarrow> spl_val \<Rightarrow> filled" where
  "handleInt env k w attr =
     (case w of
        VDouble d \<Rightarrow> applied (SInt (env_double_to_int env k d))
      | VInt i \<Rightarrow> applied (SInt (wrap_kind k (sint i)))
      | VLong i \<Rightarrow> applied (SInt (wrap_kind k (sint i)))
      | _ \<Rightarrow> Inr (False, attr))"

definition handleRString :: "bson_val \<Rightarrow> spl_val \<Rightarrow> filled" where
  "handleRString w attr = (case w of VString s \<Rightarrow> applied (SRString s) | _ \<Rightarrow> Inr (False, attr))"

definition handleUString :: "'a spl_env_scheme \<Rightarrow> bson_val \<Rightarrow> spl_val \<Rightarrow> filled" where
  "handleUString env w attr =
     (case w of VString s \<Rightarrow> applied (SUString (env_rstring_to_ustring env s)) | _ \<Rightarrow> Inr (False, attr))"

text \<open>
  Division and remainder of C++ round to zero; the nanoseconds are converted to the unsigned 32 bits that
  \<^verbatim>\<open>createTimestamp\<close> takes.
\<close>

definition c_div :: "int \<Rightarrow> int \<Rightarrow> int" where
  "c_div a b = sgn a * sgn b * (\<bar>a\<bar> div \<bar>b\<bar>)"

definition c_mod :: "int \<Rightarrow> int \<Rightarrow> int" where
  "c_mod a b = a - c_div a b * b"

definition handleTimestamp :: "'a spl_env_scheme \<Rightarrow> bson_val \<Rightarrow> spl_val \<Rightarrow> filled" where
  "handleTimestamp env w attr =
     (case w of
        VDate ms \<Rightarrow>
          (let tsInMillis = asInt64 (Date_of ms) in
           applied (env_createTimestamp env (c_div tsInMillis 1000) (word_of_int (c_mod tsInMillis 1000 * 1000000))))
      | VTimestamp secs inc \<Rightarrow> applied (env_createTimestamp env (uint secs) inc)
      | _ \<Rightarrow> Inr (False, attr))"

definition handleXml :: "'a spl_env_scheme \<Rightarrow> bson_val \<Rightarrow> spl_val \<Rightarrow> filled" where
  "handleXml env w attr =
     (case w of
        VString s \<Rightarrow> (case env_rstring_to_xml env s of Some x \<Rightarrow> applied (SXml x) | None \<Rightarrow> Inl CastFailed)
      | _ \<Rightarrow> Inr (False, attr))"

fun read_primitive :: "'a spl_env_scheme \<Rightarrow> spl_type \<Rightarrow> bson_val \<Rightarrow> spl_val \<Rightarrow> filled" where
  "read_primitive env TBlob w attr = handleBlob w attr"
| "read_primitive env TBoolean w attr = handleBoolean w attr"
| "read_primitive env (TEnum names) w attr = handleEnum names w attr"
| "read_primitive env (TDecimal bits) w attr = handleDecimal env bits w attr"
| "read_primitive env TFloat32 w attr = handleFloat env TFloat32 w attr"
| "read_primitive env TFloat64 w attr = handleFloat env TFloat64 w attr"
| "read_primitive env (TIntegral k) w attr = handleInt env k w attr"
| "read_primitive env TRString w attr = handleRString w attr"
| "read_primitive env TUString w attr = handleUString env w attr"
| "read_primitive env TTimestamp w attr = handleTimestamp env w attr"
| "read_primitive env TXml w attr = handleXml env w attr"
| "read_primitive env t w attr = Inr (False, attr)"

definition query_handlePrimitive :: "'a spl_env_scheme \<Rightarrow> spl_type \<Rightarrow> bson_val \<Rightarrow> spl_val \<Rightarrow> filled" where
  "query_handlePrimitive env t w attr =
     (if simple_val w then read_primitive env t w attr else Inr (False, attr))"

section \<open>Reading collections and tuples\<close>

definition list_add :: "spl_val \<Rightarrow> spl_val \<Rightarrow> op_exn + spl_val" where
  "list_add attr v = bindX (as_list attr) (\<lambda>vs. Inr (SList (vs @ [v])))"

definition set_add :: "spl_val \<Rightarrow> spl_val \<Rightarrow> op_exn + spl_val" where
  "set_add attr v = bindX (as_set attr) (\<lambda>vs. Inr (SSet (finsert v vs)))"

definition map_add :: "'a spl_env_scheme \<Rightarrow> spl_val \<Rightarrow> bytes \<Rightarrow> spl_val \<Rightarrow> op_exn + spl_val" where
  "map_add env attr k v = bindX (as_map attr) (\<lambda>m. Inr (SMap (env_map_add env m k v)))"

definition getSize :: "spl_val \<Rightarrow> nat" where
  "getSize v = (case v of SList vs \<Rightarrow> length vs | SSet vs \<Rightarrow> fcard vs | SMap m \<Rightarrow> fcard (fmdom m) | _ \<Rightarrow> 0)"

definition embedded :: "bson_val \<Rightarrow> doc" where
  "embedded w = (case w of VObject d \<Rightarrow> d | VArray d \<Rightarrow> d | _ \<Rightarrow> [])"

text \<open>The element is read into a new value of the element type, and added if something was applied.\<close>

definition add_if :: "(spl_val \<Rightarrow> spl_val \<Rightarrow> op_exn + spl_val) \<Rightarrow> spl_val \<Rightarrow> bool \<times> spl_val \<Rightarrow> op_exn + spl_val" where
  "add_if add attr r = (case r of (valueApplied, v) \<Rightarrow> if valueApplied then add attr v else Inr attr)"

fun handleBSONObject :: "'a spl_env_scheme \<Rightarrow> spl_type \<Rightarrow> bson_val \<Rightarrow> spl_val \<Rightarrow> filled" where
  "handleBSONObject env (TList t) w attr =
     (if val_type w = Array then
        bindX (foldX (\<lambda>(n, x) attr.
            bindX (handleBSONObject env t x (env_default env t)) (add_if list_add attr)) (embedded w) attr)
          (\<lambda>attr. Inr (0 < getSize attr, attr))
      else Inr (False, attr))"
| "handleBSONObject env (TSet t) w attr =
     (if val_type w = Array then
        bindX (foldX (\<lambda>(n, x) attr.
            bindX (handleBSONObject env t x (env_default env t)) (add_if set_add attr)) (embedded w) attr)
          (\<lambda>attr. Inr (0 < getSize attr, attr))
      else Inr (False, attr))"
| "handleBSONObject env (TMap kt t) w attr =
     (if val_type w = Object then
        bindX (foldX (\<lambda>(n, x) attr.
            bindX (handleBSONObject env t x (env_default env t)) (add_if (\<lambda>attr v. map_add env attr n v) attr))
              (embedded w) attr)
          (\<lambda>attr. Inr (0 < getSize attr, attr))
      else Inr (False, attr))"
| "handleBSONObject env (TTuple ts) w attr =
     (if val_type w = Object then
        bindX (foldX (\<lambda>(n, t) attr.
            bindX (as_tuple attr) (\<lambda>avs.
            bindX (get_attr n avs) (\<lambda>v.
              case env_getField env (embedded w) n of
                None \<Rightarrow> Inr attr
              | Some x \<Rightarrow> bindX (handleBSONObject env t x v) (\<lambda>(valueApplied, v). Inr (STuple (set_attr n v avs))))))
            ts attr)
          (\<lambda>attr. Inr (True, attr))
      else Inr (False, attr))"
| "handleBSONObject env t w attr = query_handlePrimitive env t w attr"

section \<open>Filling an attribute\<close>

text \<open>
  \<^verbatim>\<open>initBSONObject\<close>: the object in which the attribute's name is looked up; \<open>None\<close> is the \<^verbatim>\<open>break\<close> on a path
  that is not there. \<^verbatim>\<open>be.wrap(name)\<close> is documented as the object of this element renamed.
\<close>

definition initBSONObject :: "'a spl_env_scheme \<Rightarrow> bytes \<Rightarrow> bool \<Rightarrow> bytes option \<Rightarrow> doc \<Rightarrow> doc option" where
  "initBSONObject env attrName attrNameNotInBO findPath queryResultBO =
     (case findPath of
        Some p \<Rightarrow>
          (case env_getFieldDotted env queryResultBO p of
             None \<Rightarrow> None
           | Some be \<Rightarrow>
               Some (if attrNameNotInBO then [(attrName, be)]
                     else (if val_type be = Object then embedded be else [])))
      | None \<Rightarrow> Some (if attrNameNotInBO then [(attrName, VObject queryResultBO)] else queryResultBO))"

definition fill_attribute ::
    "'a spl_env_scheme \<Rightarrow> bytes \<Rightarrow> spl_type \<Rightarrow> bool \<Rightarrow> bytes option \<Rightarrow> doc \<Rightarrow> stuple \<Rightarrow> op_exn + stuple" where
  "fill_attribute env attrName attrType attrNameNotInBO findPath queryResultBO otuple =
     (case initBSONObject env attrName attrNameNotInBO findPath queryResultBO of
        None \<Rightarrow> Inr otuple
      | Some bo0 \<Rightarrow>
          (case env_getField env bo0 attrName of
             None \<Rightarrow> Inr otuple
           | Some be0 \<Rightarrow>
               bindX (get_attr attrName otuple) (\<lambda>attr0.
               bindX (handleBSONObject env attrType be0 attr0) (\<lambda>(valueApplied, attr0).
                 Inr (set_attr attrName attr0 otuple)))))"

definition handleBSONObjectAsJson ::
    "'a spl_env_scheme \<Rightarrow> bytes \<Rightarrow> spl_type \<Rightarrow> doc \<Rightarrow> stuple \<Rightarrow> op_exn + stuple" where
  "handleBSONObjectAsJson env attrName valueType queryResultBO otuple =
     (let s = env_jsonString env queryResultBO in
      Inr (set_attr attrName
        (if valueType = TUString then SUString (env_rstring_to_ustring env s) else SRString s) otuple))"

section \<open>What comes back\<close>

text \<open>
  The values that come back as they were: no blob, no decimal (which is stored as a double), no value in a
  collection that is an empty collection, whole milliseconds in a timestamp without a machine, and none
  with a fraction of a second before 1970.
\<close>

definition empty_coll :: "spl_val \<Rightarrow> bool" where
  "empty_coll v \<longleftrightarrow> v = SList [] \<or> v = SSet {||} \<or> v = SMap fmempty"

fun exact :: "spl_type \<Rightarrow> spl_val \<Rightarrow> bool"
  and exacts :: "(bytes \<times> spl_type) list \<Rightarrow> stuple \<Rightarrow> bool" where
  "exact (TDecimal b) v \<longleftrightarrow> False"
| "exact TComplex v \<longleftrightarrow> False"
| "exact TBlob v \<longleftrightarrow> False"
| "exact TFloat32 v \<longleftrightarrow> (\<exists>x. v = SFloat32 x \<and> \<not> float32_nan x)"
| "exact TTimestamp v \<longleftrightarrow>
     (\<exists>s n. v = STimestamp s n 0 \<and> 1000000 dvd n \<and> (0 \<le> s \<or> n = 0) \<and>
        in_kind Int64 (s * 1000) \<and> in_kind Int64 (s * 1000 + 999))"
| "exact (TList t) v \<longleftrightarrow> (\<exists>vs. v = SList vs \<and> (\<forall>x \<in> set vs. exact t x \<and> \<not> empty_coll x))"
| "exact (TSet t) v \<longleftrightarrow> (\<exists>vs. v = SSet vs \<and> (\<forall>x \<in> fset vs. exact t x \<and> \<not> empty_coll x))"
| "exact (TMap kt t) v \<longleftrightarrow>
     (\<exists>m. v = SMap m \<and> (\<forall>k \<in> fset (fmdom m). cstring k) \<and> (\<forall>x \<in> fmran' m. exact t x \<and> \<not> empty_coll x))"
| "exact (TTuple ts) v \<longleftrightarrow> (\<exists>avs. v = STuple avs \<and> exacts ts avs)"
| "exact t v \<longleftrightarrow> True"
| "exacts [] avs \<longleftrightarrow> avs = []"
| "exacts ((n, t) # ts) avs \<longleftrightarrow> (\<exists>v avs'. avs = (n, v) # avs' \<and> exact t v \<and> exacts ts avs')"

lemma wrap_stored:
  "in_kind k i \<Longrightarrow> wrap_kind k (sint (word_of_int i :: 32 word)) = i \<or> k = Int64 \<or> k = Uint64"
  "in_kind k i \<Longrightarrow> wrap_kind k (sint (word_of_int i :: 64 word)) = i"
  by (cases k; simp add: in_kind_def wrap_kind_def signed_take_bit_int_eq_self take_bit_int_eq_self
      signed_of_int signed_take_bit_signed_take_bit take_bit_signed_take_bit)+

lemma read_integral:
  assumes "in_kind k i" and "handlePrimitive env (TIntegral k) (SInt i) = Inr w"
  shows "query_handlePrimitive env (TIntegral k) w attr = Inr (True, SInt i)"
  using assms wrap_stored [OF assms(1)]
  by (auto simp: query_handlePrimitive_def simple_val_def handleInt_def applied_def split: if_splits)

lemma read_timestamp:
  assumes "env_ok env" and "exact TTimestamp v" and "has_type TTimestamp v"
  shows "\<exists>w. handlePrimitive env TTimestamp v = Inr w \<and> query_handlePrimitive env TTimestamp w attr = Inr (True, v)"
proof -
  obtain s k where v: "v = STimestamp s (k * 1000000) 0" "0 \<le> s \<or> k = 0"
    "in_kind Int64 (s * 1000)" "in_kind Int64 (s * 1000 + 999)" "0 \<le> k" "k < 1000"
    using assms(2,3) by (auto simp: dvd_def mult.commute)
  obtain ms where eq: "ms = s * 1000 + k" by blast
  have ms: "in_kind Int64 ms" using v(3-6) by (simp add: in_kind_def eq)
  then have sint: "sint (word_of_int ms :: 64 word) = ms"
    by (simp add: in_kind_def signed_of_int signed_take_bit_int_eq_self)
  have "c_div ms 1000 = s"
  proof (cases "0 \<le> s")
    case True
    then show ?thesis using v(5,6) by (auto simp: eq c_div_def sgn_if)
  next
    case False
    then show ?thesis using v(2) by (auto simp: eq c_div_def sgn_if abs_mult)
  qed
  then have div: "c_div ms 1000 = s" "c_mod ms 1000 = k" by (simp_all add: c_mod_def eq)
  have "0 \<le> n \<Longrightarrow> n < 2 ^ 32 \<Longrightarrow> uint (word_of_int n :: 32 word) = n" for n
    by (simp add: unsigned_of_int take_bit_int_eq_self)
  from this [of "k * 1000000"] have n: "uint (word_of_int (k * 1000000) :: 32 word) = k * 1000000"
    using v(5,6) by simp
  have "handlePrimitive env TTimestamp v = Inr (VDate (word_of_int ms))"
    using v(3) ms by (simp add: v(1) timestamp_millis_def chk64_def eq)
  moreover have "query_handlePrimitive env TTimestamp (VDate (word_of_int ms)) attr = Inr (True, v)"
    using sint div n by (simp add: query_handlePrimitive_def simple_val_def handleTimestamp_def asInt64_def Date_of_def
        applied_def env_okD(4) [OF assms(1)] v(1))
  ultimately show ?thesis by blast
qed

text \<open>The loops over the members of an array: the reader adds what the writer appended.\<close>

lemma add_if_simps [simp]: "add_if add a (True, v) = add a v" "add_if add a (False, v) = Inr a"
  by (simp_all add: add_if_def)

lemma bind_append_item [simp]: "bindX (append_item w d) h = h (d @ [(dec_nat (length d), w)])"
  by (simp add: append_item_def)

lemma fmlookup_add_cases:
  "fmlookup (m ++\<^sub>f n) k = (case fmlookup n k of Some v \<Rightarrow> Some v | None \<Rightarrow> fmlookup m k)"
  by (auto split: option.splits intro: fmdomI dest: fmdom_notI)

lemma array_roundtrip:
  assumes "\<And>x. x \<in> set vs \<Longrightarrow> \<exists>w. f x = Inr w \<and> g w = Inr (True, x)"
  shows "\<exists>items. foldX (\<lambda>x d. bindX (f x) (\<lambda>w. append_item w d)) vs d = Inr (d @ items) \<and>
           foldX (\<lambda>(n, y) attr. bindX (g y) (add_if add attr)) items = foldX (\<lambda>x attr. add attr x) vs"
  using assms
proof (induction vs arbitrary: d)
  case (Cons x vs)
  obtain w where w: "f x = Inr w" "g w = Inr (True, x)" using Cons.prems by auto
  obtain items where i: "foldX (\<lambda>x d. bindX (f x) (\<lambda>w. append_item w d)) vs (d @ [(dec_nat (length d), w)]) =
      Inr ((d @ [(dec_nat (length d), w)]) @ items)"
    "foldX (\<lambda>(n, y) attr. bindX (g y) (add_if add attr)) items = foldX (\<lambda>x attr. add attr x) vs"
    using Cons.IH [of "d @ [(dec_nat (length d), w)]"] Cons.prems by auto
  show ?case
    by (intro exI [of _ "(dec_nat (length d), w) # items"] conjI ext) (use w i in \<open>simp_all\<close>)
qed (simp add: fun_eq_iff)

lemma map_roundtrip:
  assumes "\<And>k x. (k, x) \<in> set xs \<Longrightarrow> cstring k \<and> (\<exists>w. f x = Inr w \<and> g w = Inr (True, x))"
  shows "\<exists>items. foldX (\<lambda>(k, x) d. bindX (f x) (\<lambda>w. append_field k w d)) xs d = Inr (d @ items) \<and>
           foldX (\<lambda>(n, y) attr. bindX (g y) (add_if (\<lambda>attr v. add attr n v) attr)) items =
           foldX (\<lambda>(k, x) attr. add attr k x) xs"
  using assms
proof (induction xs arbitrary: d)
  case (Cons kx xs)
  obtain k x where kx: "kx = (k, x)" by (cases kx)
  obtain w where w: "cstring k" "f x = Inr w" "g w = Inr (True, x)" using Cons.prems kx by auto
  obtain items where i: "foldX (\<lambda>(k, x) d. bindX (f x) (\<lambda>w. append_field k w d)) xs (d @ [(k, w)]) =
      Inr ((d @ [(k, w)]) @ items)"
    "foldX (\<lambda>(n, y) attr. bindX (g y) (add_if (\<lambda>attr v. add attr n v) attr)) items =
       foldX (\<lambda>(k, x) attr. add attr k x) xs"
    using Cons.IH [of "d @ [(k, w)]"] Cons.prems by auto
  show ?case
    by (intro exI [of _ "(k, w) # items"] conjI ext) (use kx w i in \<open>simp_all\<close>)
qed (simp add: fun_eq_iff)

lemma foldX_list_add: "foldX (\<lambda>x attr. list_add attr x) vs (SList pre) = Inr (SList (pre @ vs))"
  by (induction vs arbitrary: pre) (simp_all add: list_add_def)

lemma foldX_set_add: "foldX (\<lambda>x attr. set_add attr x) vs (SSet s) = Inr (SSet (s |\<union>| fset_of_list vs))"
  by (induction vs arbitrary: s) (simp_all add: set_add_def)

lemma foldX_map_add:
  assumes "env_ok env" and "distinct (map fst xs)" and "\<And>k. k \<in> fst ` set xs \<Longrightarrow> fmlookup m k = None"
  shows "foldX (\<lambda>(k, x) attr. map_add env attr k x) xs (SMap m) = Inr (SMap (m ++\<^sub>f fmap_of_list xs))"
  using assms(2,3)
proof (induction xs arbitrary: m)
  case (Cons kx xs)
  obtain k x where kx: "kx = (k, x)" by (cases kx)
  have add: "map_add env (SMap m) k x = Inr (SMap (fmupd k x m))"
    using Cons.prems(2) kx by (simp add: map_add_def env_okD(8) [OF assms(1)])
  have "foldX (\<lambda>(k, x) attr. map_add env attr k x) xs (SMap (fmupd k x m)) = Inr (SMap (fmupd k x m ++\<^sub>f fmap_of_list xs))"
    using Cons.prems kx by (intro Cons.IH) auto
  moreover have "fmupd k x m ++\<^sub>f fmap_of_list xs = m ++\<^sub>f fmap_of_list (kx # xs)"
  proof (rule fmap_ext)
    have "map_of xs k = None" using Cons.prems(1) kx by (simp add: map_of_eq_None_iff)
    then show "fmlookup (fmupd k x m ++\<^sub>f fmap_of_list xs) k' = fmlookup (m ++\<^sub>f fmap_of_list (kx # xs)) k'" for k'
      using kx by (cases "k' = k") (simp_all add: fmlookup_add_cases fmlookup_of_list del: fmlookup_add split: option.split)
  qed
  ultimately show ?case using add kx by simp
qed simp


text \<open>The attributes of a tuple: what was built is looked up by name and put in place.\<close>

lemma tuple_build:
  assumes "\<And>n t. (n, t) \<in> set ts \<Longrightarrow> cstring n \<and> (\<exists>v. get_attr n avs = Inr v \<and> f t v = Inr (val n))"
  shows "foldX (\<lambda>(n, t) d. bindX (get_attr n avs) (\<lambda>x. bindX (f t x) (\<lambda>w. append_field n w d))) ts d =
           Inr (d @ map (\<lambda>(n, t). (n, val n)) ts)"
  using assms
proof (induction ts arbitrary: d)
  case (Cons nt ts)
  obtain n t where nt: "nt = (n, t)" by (cases nt)
  obtain v where "cstring n" "get_attr n avs = Inr v" "f t v = Inr (val n)"
    using Cons.prems [of n t] nt by auto
  moreover have "\<And>m u. (m, u) \<in> set ts \<Longrightarrow> cstring m \<and> (\<exists>v. get_attr m avs = Inr v \<and> f u v = Inr (val m))"
    using Cons.prems by auto
  note Cons.IH [OF this]
  ultimately show ?case using nt by simp
qed simp

lemma tuple_read:
  assumes "\<And>n t. (n, t) \<in> set ts \<Longrightarrow>
      \<exists>w v b a. env_getField env d n = Some w \<and> map_of avs n = Some v \<and> map_of cur n = Some b \<and>
        handleBSONObject env t w b = Inr (a, v)"
    and "distinct (map fst ts)"
  shows "\<exists>cur'. foldX (\<lambda>(n, t) attr.
            bindX (as_tuple attr) (\<lambda>avs.
            bindX (get_attr n avs) (\<lambda>v.
              case env_getField env d n of
                None \<Rightarrow> Inr attr
              | Some x \<Rightarrow> bindX (handleBSONObject env t x v) (\<lambda>(valueApplied, v). Inr (STuple (set_attr n v avs))))))
            ts (STuple cur) = Inr (STuple cur') \<and>
          map fst cur' = map fst cur \<and>
          (\<forall>n. map_of cur' n = (if n \<in> fst ` set ts then map_of avs n else map_of cur n))"
  using assms
proof (induction ts arbitrary: cur)
  case (Cons nt ts)
  obtain n t where nt: "nt = (n, t)" by (cases nt)
  obtain w v b a where r: "env_getField env d n = Some w" "map_of avs n = Some v" "map_of cur n = Some b"
    "handleBSONObject env t w b = Inr (a, v)" using Cons.prems(1) [of n t] nt by auto
  let ?cur = "set_attr n v cur"
  have "(m, u) \<in> set ts \<Longrightarrow> \<exists>w v b a. env_getField env d m = Some w \<and> map_of avs m = Some v \<and>
      map_of ?cur m = Some b \<and> handleBSONObject env u w b = Inr (a, v)" for m u
    using Cons.prems(1) [of m u] Cons.prems(2) nt by (force simp: map_of_set_attr)
  from Cons.IH [OF this] Cons.prems(2) obtain cur' where c: "foldX (\<lambda>(n, t) attr.
            bindX (as_tuple attr) (\<lambda>avs.
            bindX (get_attr n avs) (\<lambda>v.
              case env_getField env d n of
                None \<Rightarrow> Inr attr
              | Some x \<Rightarrow> bindX (handleBSONObject env t x v) (\<lambda>(valueApplied, v). Inr (STuple (set_attr n v avs))))))
            ts (STuple ?cur) = Inr (STuple cur')" "map fst cur' = map fst cur"
      "\<And>m. map_of cur' m = (if m \<in> fst ` set ts then map_of avs m else map_of ?cur m)" by auto
  show ?case
    by (intro exI [of _ cur'] conjI allI) (use nt r c in \<open>auto simp: get_attr_def map_of_set_attr\<close>)
qed simp

lemma alist_eq:
  "map fst xs = map fst ys \<Longrightarrow> distinct (map fst xs) \<Longrightarrow> map_of xs = map_of ys \<Longrightarrow> xs = ys"
proof (induction xs arbitrary: ys)
  case (Cons x xs)
  then obtain y ys' where ys: "ys = y # ys'" "fst y = fst x" "map fst xs = map fst ys'" by (cases ys) auto
  have same: "map_of (x # xs) n = map_of ys n" for n by (rule fun_cong [OF Cons.prems(3)])
  have "snd x = snd y" using same [of "fst x"] ys by (cases x; cases y) auto
  moreover have "map_of xs n = map_of ys' n" for n
  proof (cases "n = fst x")
    case True
    moreover have "fst x \<notin> fst ` set xs" "fst x \<notin> fst ` set ys'"
      using Cons.prems(2) ys(3) by (auto simp flip: set_map)
    ultimately show ?thesis by (simp add: map_of_eq_None_iff [THEN iffD2])
  next
    case False
    then show ?thesis using same [of n] ys by (cases x; cases y) auto
  qed
  ultimately show ?case using Cons.IH [of ys'] Cons.prems(2) ys by (cases x; cases y) auto
qed simp

lemma exacts_attr:
  assumes "exacts ts avs" and "has_types ts avs" and "distinct (map fst ts)" and "(n, t) \<in> set ts"
  shows "\<exists>v. map_of avs n = Some v \<and> exact t v \<and> has_type t v"
  using assms by (induction ts arbitrary: avs) force+

lemma blanks_attr:
  "blanks ts avs \<Longrightarrow> distinct (map fst ts) \<Longrightarrow> (n, t) \<in> set ts \<Longrightarrow> \<exists>v. map_of avs n = Some v \<and> blank t v"
  by (induction ts arbitrary: avs) force+

lemma has_types_names: "has_types ts avs \<Longrightarrow> map fst avs = map fst ts"
  by (induction ts arbitrary: avs) auto

lemma blanks_names: "blanks ts avs \<Longrightarrow> map fst avs = map fst ts"
  by (induction ts arbitrary: avs) auto


lemma read_primitive_exact:
  assumes "env_ok env" and "has_type t v" and "exact t v" and "bson_type t \<noteq> Array" and "bson_type t \<noteq> Object"
  shows "\<exists>w. handlePrimitive env t v = Inr w \<and> query_handlePrimitive env t w attr = Inr (True, v)"
proof (cases t)
  case (TIntegral k)
  then show ?thesis using assms(2) read_integral [of k _ env] by auto
next
  case TTimestamp
  then show ?thesis using read_timestamp [OF assms(1)] assms(2,3) by blast
qed (use assms in \<open>auto simp: query_handlePrimitive_def simple_val_def applied_def handleBoolean_def handleEnum_def
      handleFloat_def number_val_def handleRString_def handleUString_def handleXml_def env_okD [OF assms(1)]\<close>)

lemma empty_coll_simps [simp]:
  "empty_coll (SList vs) \<longleftrightarrow> vs = []" "empty_coll (SSet s) \<longleftrightarrow> s = {||}" "empty_coll (SMap m) \<longleftrightarrow> m = fmempty"
  "\<not> empty_coll (STuple avs)" "\<not> empty_coll (SBool b)" "\<not> empty_coll (SInt i)" "\<not> empty_coll (SFloat32 x)"
  "\<not> empty_coll (SFloat64 d)" "\<not> empty_coll (STimestamp sec n m')" "\<not> empty_coll (SRString s')"
  "\<not> empty_coll (SUString s')" "\<not> empty_coll (SXml s')" "\<not> empty_coll (SEnum s')"
  by (simp_all add: empty_coll_def)

lemma primitive_not_empty: "has_type t v \<Longrightarrow> bson_type t \<noteq> Array \<Longrightarrow> bson_type t \<noteq> Object \<Longrightarrow> \<not> empty_coll v"
  by (cases t) (auto simp: empty_coll_def)

lemma getSize_pos:
  "0 < getSize (SList vs) \<longleftrightarrow> vs \<noteq> []" "0 < getSize (SSet s) \<longleftrightarrow> s \<noteq> {||}" "0 < getSize (SMap m) \<longleftrightarrow> m \<noteq> fmempty"
proof -
  have "fmdom m = {||} \<longleftrightarrow> m = fmempty" by (metis fmdom_empty fmrestrict_fset_dom fmrestrict_fset_null)
  then have "0 < fcard (fmdom m) \<longleftrightarrow> m \<noteq> fmempty" by (metis fcard_0_eq neq0_conv)
  moreover have "0 < fcard s \<longleftrightarrow> s \<noteq> {||}" by (metis fcard_0_eq neq0_conv)
  ultimately show "0 < getSize (SList vs) \<longleftrightarrow> vs \<noteq> []" "0 < getSize (SSet s) \<longleftrightarrow> s \<noteq> {||}"
    "0 < getSize (SMap m) \<longleftrightarrow> m \<noteq> fmempty"
    by (simp_all add: getSize_def)
qed


lemma array_stored:
  assumes "\<And>x. x \<in> set vs \<Longrightarrow> \<exists>w. buildBSONObject env t x = Inr w \<and>
      handleBSONObject env t w (env_default env t) = Inr (True, x)"
  shows "\<exists>d. foldX (\<lambda>x d. bindX (buildBSONObject env t x) (\<lambda>w. append_item w d)) vs [] = Inr d \<and>
      foldX (\<lambda>(n, x) attr. bindX (handleBSONObject env t x (env_default env t)) (add_if add attr)) d =
      foldX (\<lambda>x attr. add attr x) vs"
  using array_roundtrip [where f = "buildBSONObject env t" and d = "[]" and add = add, OF assms] by simp

lemma map_stored:
  assumes "\<And>k x. (k, x) \<in> set xs \<Longrightarrow> cstring k \<and> (\<exists>w. buildBSONObject env t x = Inr w \<and>
      handleBSONObject env t w (env_default env t) = Inr (True, x))"
  shows "\<exists>d. foldX (\<lambda>(k, x) d. bindX (buildBSONObject env t x) (\<lambda>w. append_field k w d)) xs [] = Inr d \<and>
      foldX (\<lambda>(n, x) attr. bindX (handleBSONObject env t x (env_default env t))
        (add_if (\<lambda>attr v. map_add env attr n v) attr)) d =
      foldX (\<lambda>(k, x) attr. map_add env attr k x) xs"
  using map_roundtrip [where f = "buildBSONObject env t" and d = "[]" and add = "\<lambda>attr. map_add env attr", OF assms]
  by simp

lemma getField_map:
  assumes "env_ok env" and "distinct (map fst ts)" and "(n, t) \<in> set ts"
  shows "env_getField env (map (\<lambda>(n, t). (n, f n)) ts) n = Some (f n)"
proof -
  let ?d = "map (\<lambda>(n, t). (n, f n)) ts"
  have "map fst ?d = map fst ts" by (induction ts) auto
  then have d: "distinct (map fst ?d)" using assms(2) by (simp only:)
  have "(n, f n) \<in> set ?d" using assms(3) by force
  then show ?thesis
    by (simp only: getField_distinct [OF assms(1) d] map_of_is_SomeI [OF d])
qed

lemma map_of_cong_names:
  assumes "\<And>n. map_of cur' n = (if n \<in> fst ` set ts then map_of avs n else map_of cur n)"
    and "map fst avs = map fst ts" and "map fst cur = map fst ts" and "map fst cur' = map fst cur"
    and "distinct (map fst ts)"
  shows "cur' = avs"
proof (rule alist_eq)
  show "map_of cur' = map_of avs"
  proof
    fix n show "map_of cur' n = map_of avs n"
    proof (cases "n \<in> set (map fst ts)")
      case True
      then show ?thesis using assms(1) [of n] by simp
    next
      case False
      then have "n \<notin> set (map fst avs)" "n \<notin> set (map fst cur)" using assms(2,3) by simp_all
      then have "map_of avs n = None" "map_of cur n = None" by (simp_all add: map_of_eq_None_iff)
      then show ?thesis using assms(1) [of n] by simp
    qed
  qed
qed (use assms in simp_all)

lemma tuple_stored:
  assumes env: "env_ok env" and ts: "distinct (map fst ts)" "\<forall>(n, t) \<in> set ts. cstring n"
    and avs: "has_types ts avs" "exacts ts avs" and cur: "blanks ts cur"
    and IH: "\<And>n t v b. (n, t) \<in> set ts \<Longrightarrow> has_type t v \<Longrightarrow> exact t v \<Longrightarrow> blank t b \<Longrightarrow>
      \<exists>w a. buildBSONObject env t v = Inr w \<and> handleBSONObject env t w b = Inr (a, v)"
  shows "\<exists>w. buildBSONObject env (TTuple ts) (STuple avs) = Inr w \<and>
      handleBSONObject env (TTuple ts) w (STuple cur) = Inr (True, STuple avs)"
proof -
  have attrs: "\<exists>v. map_of avs n = Some v \<and> exact t v \<and> has_type t v" if "(n, t) \<in> set ts" for n t
    using exacts_attr [OF avs(2,1) ts(1) that] .
  let ?type = "\<lambda>n. the (map_of ts n)"
  let ?val = "\<lambda>n. projr (buildBSONObject env (?type n) (the (map_of avs n)))"
  have type: "?type n = t" if "(n, t) \<in> set ts" for n t using ts(1) that by simp
  have read: "buildBSONObject env t v = Inr (?val n) \<and> (\<exists>a. handleBSONObject env t (?val n) b = Inr (a, v))"
    if n: "(n, t) \<in> set ts" and "map_of avs n = Some v" and "blank t b" for n t v b
  proof -
    obtain v' where "map_of avs n = Some v'" "exact t v'" "has_type t v'" using attrs [OF n] by blast
    then show ?thesis using IH [OF n, of v b] that type [OF n] by auto
  qed
  have build: "foldX (\<lambda>(n, t) d. bindX (get_attr n avs) (\<lambda>x. bindX (buildBSONObject env t x) (\<lambda>w. append_field n w d))) ts []
      = Inr ([] @ map (\<lambda>(n, t). (n, ?val n)) ts)"
  proof (rule tuple_build)
    fix n t assume n: "(n, t) \<in> set ts"
    obtain v where v: "map_of avs n = Some v" using attrs [OF n] by blast
    obtain b where "map_of cur n = Some b" "blank t b" using blanks_attr [OF cur ts(1) n] by blast
    then show "cstring n \<and> (\<exists>v. get_attr n avs = Inr v \<and> buildBSONObject env t v = Inr (?val n))"
      using read [OF n v] ts(2) n v by (auto simp: get_attr_def)
  qed
  let ?d = "map (\<lambda>(n, t). (n, ?val n)) ts"
  note look = getField_map [OF env ts(1), where f = ?val]
  have "\<exists>w v b a. env_getField env ?d n = Some w \<and> map_of avs n = Some v \<and> map_of cur n = Some b \<and>
        handleBSONObject env t w b = Inr (a, v)" if n: "(n, t) \<in> set ts" for n t
  proof -
    obtain v where v: "map_of avs n = Some v" using attrs [OF n] by blast
    obtain b where "map_of cur n = Some b" "blank t b" using blanks_attr [OF cur ts(1) n] by blast
    then show ?thesis using read [OF n v] look [OF n] v by blast
  qed
  from tuple_read [OF this ts(1)] obtain cur' where c: "foldX (\<lambda>(n, t) attr.
            bindX (as_tuple attr) (\<lambda>avs.
            bindX (get_attr n avs) (\<lambda>v.
              case env_getField env ?d n of
                None \<Rightarrow> Inr attr
              | Some x \<Rightarrow> bindX (handleBSONObject env t x v) (\<lambda>(valueApplied, v). Inr (STuple (set_attr n v avs))))))
            ts (STuple cur) = Inr (STuple cur')"
      "map fst cur' = map fst cur" "\<And>n. map_of cur' n = (if n \<in> fst ` set ts then map_of avs n else map_of cur n)"
    by blast
  have "cur' = avs"
    using map_of_cong_names [OF c(3) has_types_names [OF avs(1)] blanks_names [OF cur] c(2) ts(1)] .
  then show ?thesis using build c(1) by (simp add: embedded_def)
qed


lemma array_of_exact:
  assumes env: "env_ok env"
    and IH: "\<And>v cur. has_type t v \<Longrightarrow> exact t v \<Longrightarrow> blank t cur \<Longrightarrow>
      \<exists>w. buildBSONObject env t v = Inr w \<and> handleBSONObject env t w cur = Inr (\<not> empty_coll v, v)"
    and vs: "\<And>x. x \<in> set vs \<Longrightarrow> has_type t x \<and> exact t x \<and> \<not> empty_coll x"
  shows "\<exists>d. foldX (\<lambda>x d. bindX (buildBSONObject env t x) (\<lambda>w. append_item w d)) vs [] = Inr d \<and>
      foldX (\<lambda>(n, x) attr. bindX (handleBSONObject env t x (env_default env t)) (add_if add attr)) d =
      foldX (\<lambda>x attr. add attr x) vs"
proof (rule array_stored)
  fix x assume "x \<in> set vs"
  then show "\<exists>w. buildBSONObject env t x = Inr w \<and> handleBSONObject env t w (env_default env t) = Inr (True, x)"
    using IH [of x "env_default env t"] vs env_okD(9) [OF env] by simp
qed

lemma map_of_exact:
  assumes env: "env_ok env"
    and IH: "\<And>v cur. has_type t v \<Longrightarrow> exact t v \<Longrightarrow> blank t cur \<Longrightarrow>
      \<exists>w. buildBSONObject env t v = Inr w \<and> handleBSONObject env t w cur = Inr (\<not> empty_coll v, v)"
    and m: "\<And>x. x \<in> fmran' m \<Longrightarrow> has_type t x \<and> exact t x \<and> \<not> empty_coll x"
    and k: "\<And>k. k \<in> fset (fmdom m) \<Longrightarrow> cstring k"
  shows "\<exists>d. foldX (\<lambda>(k, x) d. bindX (buildBSONObject env t x) (\<lambda>w. append_field k w d)) (env_map_order env m) [] = Inr d \<and>
      foldX (\<lambda>(n, x) attr. bindX (handleBSONObject env t x (env_default env t))
        (add_if (\<lambda>attr v. map_add env attr n v) attr)) d (SMap fmempty) = Inr (SMap m)"
proof -
  let ?xs = "env_map_order env m"
  have "cstring k \<and> (\<exists>w. buildBSONObject env t x = Inr w \<and>
      handleBSONObject env t w (env_default env t) = Inr (True, x))" if kx: "(k, x) \<in> set ?xs" for k x
  proof -
    have "k \<in> fset (fmdom (fmap_of_list ?xs))" using kx by (force simp: fset_of_list.rep_eq)
    then have "k \<in> fset (fmdom m)" by (simp only: env_okD(7) [OF env])
    then show ?thesis
      using k m [OF map_order_ran [OF env kx]] IH [of x "env_default env t"] env_okD(9) [OF env] by simp
  qed
  from map_stored [where xs = "env_map_order env m", OF this] show ?thesis
    by (auto simp: foldX_map_add [OF env env_okD(6) [OF env]] env_okD(7) [OF env])
qed

lemma prim_simps:
  assumes "bson_type t \<noteq> Array" and "bson_type t \<noteq> Object"
  shows "buildBSONObject env t v = handlePrimitive env t v"
    and "handleBSONObject env t w attr = query_handlePrimitive env t w attr"
  using assms by (cases t; simp)+

lemma primitive_roundtrip:
  assumes "env_ok env" and "has_type t v" and "exact t v" and "bson_type t \<noteq> Array" and "bson_type t \<noteq> Object"
  shows "\<exists>w. buildBSONObject env t v = Inr w \<and> handleBSONObject env t w cur = Inr (\<not> empty_coll v, v)"
  using read_primitive_exact [OF assms] primitive_not_empty [OF assms(2,4,5)] prim_simps [OF assms(4,5)] by metis

lemma exact_roundtrip:
  assumes env: "env_ok env" and "has_type t v" and "exact t v" and "type_ok t" and "blank t cur"
  shows "\<exists>w. buildBSONObject env t v = Inr w \<and> handleBSONObject env t w cur = Inr (\<not> empty_coll v, v)"
  using assms(2-)
proof (induction t arbitrary: v cur)
  case (TList t)
  then obtain vs where v: "v = SList vs" "\<And>x. x \<in> set vs \<Longrightarrow> has_type t x \<and> exact t x \<and> \<not> empty_coll x" by auto
  have ok: "type_ok t" using TList.prems by simp
  from array_of_exact [where vs = vs and add = list_add, OF env TList.IH [OF _ _ ok] v(2)] obtain d where
    "foldX (\<lambda>x d. bindX (buildBSONObject env t x) (\<lambda>w. append_item w d)) vs [] = Inr d"
    "foldX (\<lambda>(n, x) attr. bindX (handleBSONObject env t x (env_default env t)) (add_if list_add attr)) d =
      foldX (\<lambda>x attr. list_add attr x) vs" by blast
  then show ?case using TList.prems by (simp add: v(1) embedded_def foldX_list_add getSize_pos)
next
  case (TSet t)
  then obtain s where v: "v = SSet s" "\<And>x. x \<in> fset s \<Longrightarrow> has_type t x \<and> exact t x \<and> \<not> empty_coll x" by auto
  have ok: "type_ok t" using TSet.prems by simp
  have vs: "x \<in> set (env_set_order env s) \<Longrightarrow> has_type t x \<and> exact t x \<and> \<not> empty_coll x" for x
    using v(2) env_okD(5) [OF env] by simp
  have "fset_of_list (env_set_order env s) = s"
    using env_okD(5) [OF env, of s] by (simp add: fset_eq_iff fset_of_list.rep_eq)
  moreover from array_of_exact [where vs = "env_set_order env s" and add = set_add, OF env TSet.IH [OF _ _ ok] vs]
  obtain d where
    "foldX (\<lambda>x d. bindX (buildBSONObject env t x) (\<lambda>w. append_item w d)) (env_set_order env s) [] = Inr d"
    "foldX (\<lambda>(n, x) attr. bindX (handleBSONObject env t x (env_default env t)) (add_if set_add attr)) d =
      foldX (\<lambda>x attr. set_add attr x) (env_set_order env s)" by blast
  ultimately show ?case using TSet.prems by (simp add: v(1) embedded_def foldX_set_add getSize_pos)
next
  case (TMap kt t)
  then obtain m where v: "v = SMap m" "\<And>x. x \<in> fmran' m \<Longrightarrow> has_type t x \<and> exact t x \<and> \<not> empty_coll x"
    "\<And>k. k \<in> fset (fmdom m) \<Longrightarrow> cstring k" by auto
  have ok: "type_ok t" using TMap.prems by simp
  from map_of_exact [where m = m, OF env TMap.IH(2) [OF _ _ ok] v(2,3)] obtain d where
    "foldX (\<lambda>(k, x) d. bindX (buildBSONObject env t x) (\<lambda>w. append_field k w d)) (env_map_order env m) [] = Inr d"
    "foldX (\<lambda>(n, x) attr. bindX (handleBSONObject env t x (env_default env t))
        (add_if (\<lambda>attr v. map_add env attr n v) attr)) d (SMap fmempty) = Inr (SMap m)" by blast
  then show ?case using TMap.prems by (simp add: v(1) embedded_def getSize_pos)
next
  case (TTuple ts)
  then obtain avs cur' where v: "v = STuple avs" "has_types ts avs" "exacts ts avs" "cur = STuple cur'" "blanks ts cur'"
    by auto
  have IH: "\<exists>w a. buildBSONObject env t v = Inr w \<and> handleBSONObject env t w b = Inr (a, v)"
    if "(n, t) \<in> set ts" "has_type t v" "exact t v" "blank t b" for n t v b
    using TTuple.IH [of "(n, t)" t v b] TTuple.prems(3) that by fastforce
  show ?case using tuple_stored [OF env _ _ v(2,3,5) IH] TTuple.prems(3) v(1,4) by (auto simp: split_beta)
qed (rule primitive_roundtrip [OF env]; (assumption | simp))+

text \<open>An attribute that Insert stores under its name comes back: the document that is built, with the
  object id that the server puts in front, fills the attribute of that name and type with the very value,
  for every type but blob, decimal and complex, lists, sets, maps and tuples included, as long as no
  collection inside a collection is empty and timestamps are whole milliseconds.\<close>

lemma stored_attribute:
  assumes "env_ok env" and "has_type t v" and "exact t v" and "type_ok t" and "cstring k" and "k \<noteq> lit ''_id''"
    and "map_of otuple k = Some cur" and "blank t cur"
  shows "\<exists>d. buildBSONObjectWithKey env (Some k) t False v = Inr d \<and>
           fill_attribute env k t False None ((lit ''_id'', VOID oid) # d) otuple = Inr (set_attr k v otuple)"
proof -
  obtain w where w: "buildBSONObject env t v = Inr w" "handleBSONObject env t w cur = Inr (\<not> empty_coll v, v)"
    using exact_roundtrip [OF assms(1-4,8)] by blast
  have "env_getField env [(lit ''_id'', VOID oid), (k, w)] k = Some w"
    using assms(6) by (subst getField_distinct [OF assms(1)]) auto
  then show ?thesis
    using w assms(5,7) by (simp add: buildBSONObjectWithKey_def fill_attribute_def initBSONObject_def get_attr_def)
qed

text \<open>A list of timestamps, whole milliseconds each.\<close>

lemma stored_attribute_example:
  "\<exists>d. buildBSONObjectWithKey (sample_env (\<lambda>s. Inr [])) (Some (lit ''ts'')) (TList TTimestamp) False
           (SList [STimestamp 5 7000000 0]) = Inr d \<and>
       fill_attribute (sample_env (\<lambda>s. Inr [])) (lit ''ts'') (TList TTimestamp) False None ((lit ''_id'', VOID []) # d)
           [(lit ''ts'', SList [])] = Inr (set_attr (lit ''ts'') (SList [STimestamp 5 7000000 0]) [(lit ''ts'', SList [])])"
  by (rule stored_attribute [OF sample_env_ok])
    (simp_all add: in_kind_def lit_eq, simp add: cstring_def lit_def of_char_def)

section \<open>Properties\<close>



end
