(* ===== verification/OperatorCommon.thy ===== *)
theory OperatorCommon
  imports QueryCommon
begin

text \<open>
  What the operators share: \<^verbatim>\<open>Common/MongoInclude_h.cgt\<close>, \<^verbatim>\<open>Common/MongoOperator_cpp.cgt\<close>,
  \<^verbatim>\<open>Common/ThreadCommon_cpp.cgt\<close> and \<^verbatim>\<open>Common/QueryCommon_cpp.cgt\<close>. The state of an operator is its connection
  per thread, its metric, what it logged and what it submitted, with the world behind the driver. The
  driver's operations have no body in the repository: they are the fields of \<open>client\<close>. Each may change the
  world and throw.
\<close>

section \<open>The state of an operator\<close>

datatype out_item = Submit stuple | WindowMarker

record 'w op_state =
  os_world :: 'w
  os_conns :: "nat \<Rightarrow> nat option"
  os_otuple :: "nat \<Rightarrow> stuple option"
  os_metric :: int
  os_log :: "(bytes \<times> bytes) list"
  os_out :: "out_item list"

type_synonym ('w, 'a) act = "'w op_state \<Rightarrow> (op_exn + 'a) \<times> 'w op_state"

definition retS :: "'a \<Rightarrow> ('w, 'a) act" where
  "retS x s = (Inr x, s)"

definition throwS :: "op_exn \<Rightarrow> ('w, 'a) act" where
  "throwS e s = (Inl e, s)"

definition bindS :: "('w, 'a) act \<Rightarrow> ('a \<Rightarrow> ('w, 'b) act) \<Rightarrow> ('w, 'b) act" where
  "bindS m f s = (case m s of (Inl e, s) \<Rightarrow> (Inl e, s) | (Inr x, s) \<Rightarrow> f x s)"

text \<open>A computation without effects, and an operation of the driver.\<close>

definition pureS :: "op_exn + 'a \<Rightarrow> ('w, 'a) act" where
  "pureS r s = (r, s)"

definition driver :: "('w \<Rightarrow> (db_exception + 'a) \<times> 'w) \<Rightarrow> ('w, 'a) act" where
  "driver op s = (case op (os_world s) of (r, w) \<Rightarrow> (map_sum Driver id r, s\<lparr>os_world := w\<rparr>))"

definition splapplog :: "bytes \<Rightarrow> bytes \<Rightarrow> ('w, unit) act" where
  "splapplog msg aspect s = (Inr (), s\<lparr>os_log := os_log s @ [(msg, aspect)]\<rparr>)"

definition submit :: "out_item \<Rightarrow> ('w, unit) act" where
  "submit t s = (Inr (), s\<lparr>os_out := os_out s @ [t]\<rparr>)"

definition incrementValue :: "('w, unit) act" where
  "incrementValue s = (Inr (), s\<lparr>os_metric := os_metric s + 1\<rparr>)"

fun foldS :: "('x \<Rightarrow> 'a \<Rightarrow> ('w, 'a) act) \<Rightarrow> 'x list \<Rightarrow> 'a \<Rightarrow> ('w, 'a) act" where
  "foldS f [] a = retS a"
| "foldS f (x # xs) a = bindS (f x a) (foldS f xs)"

section \<open>Names\<close>

definition buildConnUrl :: "bytes \<Rightarrow> 32 word \<Rightarrow> bytes" where
  "buildConnUrl dbHost dbPort =
     (let connUrl = dbHost; connUrl = connUrl @ lit '':''; connUrl = connUrl @ dec_nat (unat dbPort) in connUrl)"

definition buildDbCollection :: "bytes \<Rightarrow> bytes \<Rightarrow> bytes" where
  "buildDbCollection db collection =
     (let dbCollection = db; dbCollection = dbCollection @ lit ''.''; dbCollection = dbCollection @ collection in
      dbCollection)"

section \<open>The driver and the parameters of an operator\<close>

text \<open>
  A connection is known by a number. \<^verbatim>\<open>auth\<close> with a password answers whether it succeeded, with a message if
  not; \<^verbatim>\<open>query\<close> returns a pointer to a cursor that may be null.
\<close>

record ('w, 'c) client =
  cl_new :: "bool \<Rightarrow> double \<Rightarrow> 'w \<Rightarrow> nat \<times> 'w"
  cl_connect :: "nat \<Rightarrow> bytes \<Rightarrow> 'w \<Rightarrow> (db_exception + unit) \<times> 'w"
  cl_auth_params :: "nat \<Rightarrow> doc \<Rightarrow> 'w \<Rightarrow> (db_exception + unit) \<times> 'w"
  cl_auth :: "nat \<Rightarrow> bytes \<Rightarrow> bytes \<Rightarrow> bytes \<Rightarrow> 'w \<Rightarrow> (db_exception + bool \<times> bytes) \<times> 'w"
  cl_isFailed :: "nat \<Rightarrow> 'w \<Rightarrow> bool"
  cl_isStillConnected :: "nat \<Rightarrow> 'w \<Rightarrow> (db_exception + bool) \<times> 'w"
  cl_setDbProfilingLevel :: "nat \<Rightarrow> bytes \<Rightarrow> ProfilingLevel \<Rightarrow> 'w \<Rightarrow> (db_exception + bool) \<times> 'w"
  cl_insert :: "nat \<Rightarrow> bytes \<Rightarrow> doc \<Rightarrow> 'w \<Rightarrow> (db_exception + unit) \<times> 'w"
  cl_update :: "nat \<Rightarrow> bytes \<Rightarrow> doc \<Rightarrow> doc \<Rightarrow> bool \<Rightarrow> bool \<Rightarrow> 'w \<Rightarrow> (db_exception + unit) \<times> 'w"
  cl_remove :: "nat \<Rightarrow> bytes \<Rightarrow> doc \<Rightarrow> bool \<Rightarrow> 'w \<Rightarrow> (db_exception + unit) \<times> 'w"
  cl_query :: "nat \<Rightarrow> bytes \<Rightarrow> doc \<Rightarrow> int \<Rightarrow> doc \<Rightarrow> 'w \<Rightarrow> (db_exception + 'c option) \<times> 'w"
  cl_getLastError :: "nat \<Rightarrow> 'w \<Rightarrow> (db_exception + bytes) \<times> 'w"

record op_config =
  cf_dbHost :: bytes
  cf_dbPort :: "32 word"
  cf_timeout :: double
  cf_autoReconnect :: bool
  cf_authentication :: "(spl_type \<times> spl_val) option"
  cf_credentials :: "(bytes \<times> bytes) option"
  cf_profiling :: ProfilingLevel

text \<open>The generator's check of the parameters: are \<^verbatim>\<open>authentication\<close>, \<^verbatim>\<open>username\<close>, \<^verbatim>\<open>password\<close> given?\<close>

definition credential_errors :: "bool \<Rightarrow> bool \<Rightarrow> bool \<Rightarrow> codegen_error list" where
  "credential_errors authentication username password =
     (if \<not> authentication then
        (if username \<and> \<not> password then [PasswordRequired]
         else if \<not> username \<and> password then [UsernameRequired]
         else [])
      else [])"

section \<open>Constructor and start\<close>

definition operator_new :: "error_heap \<Rightarrow> status \<Rightarrow> op_exn + unit" where
  "operator_new heap mongoInit_status =
     bindX (asserted (Status_isOK heap mongoInit_status)) (\<lambda>ok.
       if \<not> ok then Inl (SPLRuntimeOperator (lit ''MongoDB initialization failed'')) else Inr ())"

text \<open>\<^verbatim>\<open>catch (const DBException &e)\<close>: logged, or thrown again as an exception of the operator.\<close>

definition on_DBException :: "op_config \<Rightarrow> ('w, unit) act \<Rightarrow> ('w, unit) act" where
  "on_DBException cfg body s =
     (case body s of
        (Inl (Driver e), s) \<Rightarrow>
          (if cf_autoReconnect cfg then splapplog (ex_what e) (lit ''MongoDB Connect'') s
           else throwS (SPLRuntimeOperator (ex_what e)) s)
      | r \<Rightarrow> r)"

definition allPortsReady :: "('w, 'c) client \<Rightarrow> op_config \<Rightarrow> ('w, unit) act" where
  "allPortsReady cl cfg =
     on_DBException cfg (\<lambda>s.
       case cl_new cl False 0 (os_world s) of (conn, w) \<Rightarrow>
         driver (cl_connect cl conn (buildConnUrl (cf_dbHost cfg) (cf_dbPort cfg))) (s\<lparr>os_world := w\<rparr>))"

section \<open>The connection of a thread\<close>

definition authenticate :: "'a spl_env_scheme \<Rightarrow> ('w, 'c) client \<Rightarrow> op_config \<Rightarrow> nat \<Rightarrow> bytes \<Rightarrow> ('w, unit) act" where
  "authenticate env cl cfg connPtr db =
     (case cf_authentication cfg of
        Some (t, v) \<Rightarrow> bindS (pureS (build_b0 env t v)) (\<lambda>params. driver (cl_auth_params cl connPtr params))
      | None \<Rightarrow>
          (case cf_credentials cfg of
             Some (username, password) \<Rightarrow>
               bindS (driver (cl_auth cl connPtr db username password)) (\<lambda>(ok, errmsg).
                 if \<not> ok then throwS (Driver (DBException_new errmsg 9999)) else retS ())
           | None \<Rightarrow> retS ()))"

text \<open>
  The new connection is stored for the thread before it is connected. The tuple of the \<^verbatim>\<open>authentication\<close>
  parameter has no map and no timestamp, so building its object does not raise.
\<close>

definition getDBClientConnection ::
    "'a spl_env_scheme \<Rightarrow> ('w, 'c) client \<Rightarrow> op_config \<Rightarrow> nat \<Rightarrow> bytes \<Rightarrow> ('w, nat) act" where
  "getDBClientConnection env cl cfg thread db s =
     (case os_conns s thread of
        Some connPtr \<Rightarrow> (Inr connPtr, s)
      | None \<Rightarrow>
          (case cl_new cl (cf_autoReconnect cfg) (cf_timeout cfg) (os_world s) of (connPtr, w) \<Rightarrow>
             bindS
               (on_DBException cfg
                 (bindS (driver (cl_connect cl connPtr (buildConnUrl (cf_dbHost cfg) (cf_dbPort cfg)))) (\<lambda>_.
                    authenticate env cl cfg connPtr db)))
               (\<lambda>_. retS connPtr)
               (s\<lparr>os_world := w, os_conns := (os_conns s)(thread := Some connPtr)\<rparr>)))"

definition check_connection :: "('w, 'c) client \<Rightarrow> op_config \<Rightarrow> nat \<Rightarrow> ('w, unit) act" where
  "check_connection cl cfg connPtr s =
     (if cl_isFailed cl connPtr (os_world s) then
        (if cf_autoReconnect cfg then
           bindS (splapplog (lit ''Trying to reconnect to '' @ buildConnUrl (cf_dbHost cfg) (cf_dbPort cfg))
                    (lit ''MongoDB Connect'')) (\<lambda>_.
           bindS (driver (cl_isStillConnected cl connPtr)) (\<lambda>_. retS ())) s
         else
           throwS (SPLRuntimeOperator
             (lit ''Connection to '' @ buildConnUrl (cf_dbHost cfg) (cf_dbPort cfg) @ lit '' aborted'')) s)
      else retS () s)"

definition set_profiling :: "('w, 'c) client \<Rightarrow> op_config \<Rightarrow> nat \<Rightarrow> bytes \<Rightarrow> ('w, unit) act" where
  "set_profiling cl cfg connPtr db =
     (case cf_profiling cfg of
        ProfileOff \<Rightarrow> retS ()
      | level \<Rightarrow> bindS (driver (cl_setDbProfilingLevel cl connPtr db level)) (\<lambda>_. retS ()))"

section \<open>Expressions and the query parameter\<close>

text \<open>
  An expression of the program: its value on an input tuple, its type, whether it uses attributes of the
  stream, and the input ports whose tuples its text names. The generated code casts the tuple at hand to
  the type of every port: an attribute read from a tuple of another port is undefined.
\<close>

record spl_expr =
  ex_eval :: "stuple \<Rightarrow> spl_val"
  ex_type :: spl_type
  ex_stream :: bool
  ex_ports :: "nat list"

definition eval_on :: "nat \<Rightarrow> stuple \<Rightarrow> spl_expr \<Rightarrow> op_exn + spl_val" where
  "eval_on port tup e =
     (if ex_stream e \<and> port \<notin> set (ex_ports e) then Inl WrongPort else Inr (ex_eval e tup))"

definition rstring_of :: "spl_val \<Rightarrow> op_exn + bytes" where
  "rstring_of v = (case v of SRString s \<Rightarrow> Inr s | _ \<Rightarrow> ill_typed)"

definition find_query_errors :: "spl_expr option \<Rightarrow> codegen_error list" where
  "find_query_errors findQuery =
     (case findQuery of
        Some e \<Rightarrow> if keyLess (ex_type e) \<and> \<not> isString (ex_type e) then [FindQueryType] else []
      | None \<Rightarrow> [])"

text \<open>A query given as a string is parsed; only the parser's \<^verbatim>\<open>MsgAssertionException\<close> is caught.\<close>

definition buildFindQueryBO :: "'a spl_env_scheme \<Rightarrow> nat \<Rightarrow> stuple \<Rightarrow> spl_expr \<Rightarrow> op_exn + doc" where
  "buildFindQueryBO env port tup e =
     bindX (eval_on port tup e) (\<lambda>v.
       if isString (ex_type e) then
         bindX (rstring_of v) (\<lambda>s.
           case env_fromjson env (c_str s) of
             Inr d \<Rightarrow> Inr d
           | Inl x \<Rightarrow>
               Inl (if ex_class x = MsgAssertionException
                    then SPLRuntimeOperator (lit ''FindQuery JSON string is not valid'' @ [10] @ ex_what x)
                    else Driver x))
       else build_b0 env (ex_type e) v)"

definition buildFindFieldsBO :: "'a spl_env_scheme \<Rightarrow> nat \<Rightarrow> stuple \<Rightarrow> spl_expr \<Rightarrow> op_exn + doc" where
  "buildFindFieldsBO env port tup e = bindX (eval_on port tup e) (build_b0 env (ex_type e))"

text \<open>
  The object of a parameter: built once, in the constructor, when it uses no attribute of the stream, and
  for every tuple when it does.
\<close>

definition init_member :: "(nat \<Rightarrow> stuple \<Rightarrow> spl_expr \<Rightarrow> op_exn + doc) \<Rightarrow> spl_expr option \<Rightarrow> op_exn + doc" where
  "init_member build param =
     (case param of Some e \<Rightarrow> if \<not> ex_stream e then build 0 [] e else Inr [] | None \<Rightarrow> Inr [])"

definition current_object ::
    "(nat \<Rightarrow> stuple \<Rightarrow> spl_expr \<Rightarrow> op_exn + doc) \<Rightarrow> spl_expr option \<Rightarrow> doc \<Rightarrow> nat \<Rightarrow> stuple \<Rightarrow> op_exn + doc" where
  "current_object build param member port tup =
     (case param of Some e \<Rightarrow> if ex_stream e then build port tup e else Inr member | None \<Rightarrow> Inr member)"

section \<open>What a step leaves alone\<close>

text \<open>
  Nothing in front of a write touches the metric, the output or the tuple of a query, or ends in undefined
  behaviour: \<open>x\<close> is the null pointer, or, where the tuple is one of the right port, the wrong port.
\<close>

definition ub :: "op_exn \<Rightarrow> bool" where
  "ub u \<longleftrightarrow> u = NullPointer \<or> u = WrongPort"

definition on_port :: "op_exn \<Rightarrow> nat \<Rightarrow> spl_expr \<Rightarrow> bool" where
  "on_port u port e \<longleftrightarrow> u = WrongPort \<longrightarrow> ex_stream e \<longrightarrow> port \<in> set (ex_ports e)"

definition tame :: "op_exn \<Rightarrow> ('w, 'a) act \<Rightarrow> bool" where
  "tame u m \<longleftrightarrow>
     (\<forall>s. os_metric (snd (m s)) = os_metric s \<and> os_out (snd (m s)) = os_out s \<and>
          os_otuple (snd (m s)) = os_otuple s \<and> fst (m s) \<noteq> Inl u)"

definition sound :: "op_exn \<Rightarrow> op_exn + 'a \<Rightarrow> bool" where
  "sound u r \<longleftrightarrow> r \<noteq> Inl u"

lemma tameD: "tame u m \<Longrightarrow> fst (m s) \<noteq> Inl u"
  by (simp add: tame_def)

named_theorems tame_intros "what is tame"

lemma ub_simps [simp]: "ub NullPointer" "ub WrongPort"
  by (simp_all add: ub_def)

lemma on_port_null [tame_intros]: "on_port NullPointer port e"
  by (simp add: on_port_def)

lemma sound_bindX [tame_intros]: "sound u m \<Longrightarrow> (\<And>x. sound u (f x)) \<Longrightarrow> sound u (bindX m f)"
  by (cases m) (auto simp: sound_def)

lemma sound_foldX [tame_intros]: "(\<And>x a. x \<in> set xs \<Longrightarrow> sound u (f x a)) \<Longrightarrow> sound u (foldX f xs a)"
proof (induction xs arbitrary: a)
  case (Cons x xs)
  have "sound u (f x a)" using Cons.prems by simp
  moreover have "sound u (foldX f xs b)" for b by (rule Cons.IH) (use Cons.prems in simp)
  ultimately show ?case by (simp add: sound_bindX)
qed (simp add: sound_def)

lemma sound_values [tame_intros]:
  "sound u (Inr x)" "ub u \<Longrightarrow> \<not> ub e \<Longrightarrow> sound u (Inl e)" "ub u \<Longrightarrow> sound u (asserted r)" "ub u \<Longrightarrow> sound u ill_typed"
  by (auto simp: ub_def sound_def asserted_def ill_typed_def map_sum_def split: sum.splits)

lemma sound_parts [tame_intros]:
  assumes "ub u"
  shows "sound u (as_list v)" "sound u (as_set v)" "sound u (as_map v)" "sound u (as_tuple v)" "sound u (get_attr n avs)"
    "sound u (chk64 i)" "sound u (append_field n w d)" "sound u (append_item w d)" "sound u (rstring_of v)"
  using assms
  by (auto simp: ub_def sound_def as_list_def as_set_def as_map_def as_tuple_def get_attr_def chk64_def
      append_field_cases append_item_def rstring_of_def ill_typed_def split: spl_val.splits option.splits)

lemma sound_eval_on [tame_intros]: "ub u \<Longrightarrow> on_port u port e \<Longrightarrow> sound u (eval_on port tup e)"
  by (auto simp: ub_def sound_def eval_on_def on_port_def)

lemma sound_handlePrimitive [tame_intros]: "ub u \<Longrightarrow> sound u (handlePrimitive env t v)"
  by (cases t; cases v) (auto simp: ub_def timestamp_millis_def chk64_def sound_def ill_typed_def)

lemma sound_build [tame_intros]: "ub u \<Longrightarrow> sound u (buildBSONObject env t v)"
  by (induction t arbitrary: v) (auto simp del: handlePrimitive.simps intro!: tame_intros split: prod.splits)

lemma sound_b0 [tame_intros]: "ub u \<Longrightarrow> sound u (build_b0 env t v)"
  by (auto simp: build_b0_def split: bson_val.splits intro!: tame_intros)

lemma sound_with_key [tame_intros]: "ub u \<Longrightarrow> sound u (buildBSONObjectWithKey env key t isJson v)"
  by (auto simp: ub_def buildBSONObjectWithKey_def buildBSONObjectFromJson_def
      split: option.splits bson_val.splits spl_val.splits sum.splits intro!: tame_intros)

lemma sound_find_query [tame_intros]: "ub u \<Longrightarrow> on_port u port e \<Longrightarrow> sound u (buildFindQueryBO env port tup e)"
  by (auto simp: ub_def buildFindQueryBO_def split: sum.splits intro!: tame_intros)

lemma sound_find_fields [tame_intros]: "ub u \<Longrightarrow> on_port u port e \<Longrightarrow> sound u (buildFindFieldsBO env port tup e)"
  by (auto simp: buildFindFieldsBO_def intro!: tame_intros)

lemma sound_current [tame_intros]:
  "(\<And>e. param = Some e \<Longrightarrow> sound u (build port tup e)) \<Longrightarrow> sound u (current_object build param member port tup)"
  by (auto simp: current_object_def sound_values split: option.splits)

lemma tame_ret [tame_intros]: "tame u (retS x)"
  by (simp add: tame_def retS_def)

lemma tame_throw [tame_intros]: "ub u \<Longrightarrow> \<not> ub e \<Longrightarrow> tame u (throwS e)"
  by (auto simp: tame_def throwS_def)

lemma tame_pure [tame_intros]: "sound u r \<Longrightarrow> tame u (pureS r)"
  by (simp add: tame_def pureS_def sound_def)

lemma tame_bind [tame_intros]: "tame u m \<Longrightarrow> (\<And>x. tame u (f x)) \<Longrightarrow> tame u (bindS m f)"
  by (auto simp: tame_def bindS_def split: prod.splits sum.splits) (metis fst_conv snd_conv)+

lemma tame_driver [tame_intros]: "ub u \<Longrightarrow> tame u (driver op)"
  by (auto simp: ub_def tame_def driver_def map_sum_def split: prod.splits sum.splits)

lemma tame_log [tame_intros]: "tame u (splapplog msg aspect)"
  by (simp add: tame_def splapplog_def)

lemma tame_on_DBException [tame_intros]:
  assumes "ub u" and "tame u m"
  shows "tame u (on_DBException cfg m)"
  unfolding tame_def
proof
  fix s
  obtain r s' where m: "m s = (r, s')" by fastforce
  have *: "os_metric s' = os_metric s" "os_out s' = os_out s" "os_otuple s' = os_otuple s" "r \<noteq> Inl u"
    using assms(2) by (metis fst_conv m snd_conv tame_def)+
  then show "os_metric (snd (on_DBException cfg m s)) = os_metric s \<and> os_out (snd (on_DBException cfg m s)) = os_out s \<and>
      os_otuple (snd (on_DBException cfg m s)) = os_otuple s \<and> fst (on_DBException cfg m s) \<noteq> Inl u"
    using assms(1)
    by (auto simp: ub_def m on_DBException_def splapplog_def throwS_def split: sum.splits op_exn.splits)
qed

lemma tame_authenticate [tame_intros]: "ub u \<Longrightarrow> tame u (authenticate env cl cfg connPtr db)"
  by (auto simp: ub_def authenticate_def split: option.splits intro!: tame_intros)

lemma tame_connection [tame_intros]:
  assumes "ub u"
  shows "tame u (getDBClientConnection env cl cfg thread db)"
proof -
  let ?body = "\<lambda>connPtr. bindS (on_DBException cfg
      (bindS (driver (cl_connect cl connPtr (buildConnUrl (cf_dbHost cfg) (cf_dbPort cfg)))) (\<lambda>_.
        authenticate env cl cfg connPtr db))) (\<lambda>_. retS connPtr)"
  have "tame u (?body c)" for c by (intro tame_intros assms)
  then show ?thesis
    unfolding tame_def getDBClientConnection_def by (auto split: option.splits prod.splits)
qed

lemma tame_check [tame_intros]:
  assumes "ub u"
  shows "tame u (check_connection cl cfg connPtr)"
proof -
  have "tame u (bindS (splapplog m a) (\<lambda>_. bindS (driver d) (\<lambda>_. retS ())))" for m a and d :: "'a \<Rightarrow> (db_exception + bool) \<times> 'a"
    by (intro tame_intros assms)
  then show ?thesis
    using assms by (auto simp: ub_def tame_def check_connection_def throwS_def retS_def)
qed

lemma tame_profiling [tame_intros]: "ub u \<Longrightarrow> tame u (set_profiling cl cfg connPtr db)"
  by (auto simp: set_profiling_def split: ProfilingLevel.splits intro!: tame_intros)

section \<open>A login that failed\<close>

lemma connection_cached: "os_conns s thread = Some connPtr \<Longrightarrow> getDBClientConnection env cl cfg thread db s = (Inr connPtr, s)"
  by (simp add: getDBClientConnection_def)

text \<open>The first call for a thread, with the login as one step.\<close>

definition login :: "'a spl_env_scheme \<Rightarrow> ('w, 'c) client \<Rightarrow> op_config \<Rightarrow> nat \<Rightarrow> bytes \<Rightarrow> ('w, unit) act" where
  "login env cl cfg connPtr db =
     bindS (driver (cl_connect cl connPtr (buildConnUrl (cf_dbHost cfg) (cf_dbPort cfg)))) (\<lambda>_.
       authenticate env cl cfg connPtr db)"

definition with_connection :: "nat \<Rightarrow> nat \<Rightarrow> 'w \<Rightarrow> 'w op_state \<Rightarrow> 'w op_state" where
  "with_connection thread connPtr w s = s\<lparr>os_world := w, os_conns := (os_conns s)(thread := Some connPtr)\<rparr>"

definition keeps_conns :: "('w, 'a) act \<Rightarrow> bool" where
  "keeps_conns m \<longleftrightarrow> (\<forall>s. os_conns (snd (m s)) = os_conns s)"

lemma keeps_bind: "keeps_conns m \<Longrightarrow> (\<And>x. keeps_conns (f x)) \<Longrightarrow> keeps_conns (bindS m f)"
  by (auto simp: keeps_conns_def bindS_def split: prod.splits sum.splits) (metis snd_conv)+

lemma keeps_simps: "keeps_conns (driver op)" "keeps_conns (retS x)" "keeps_conns (throwS e)" "keeps_conns (pureS r)"
  by (auto simp: keeps_conns_def driver_def retS_def throwS_def pureS_def split: prod.splits)

lemma keeps_login: "keeps_conns (login env cl cfg connPtr db)"
  by (auto simp: login_def authenticate_def split: option.splits intro!: keeps_bind keeps_simps)

lemma login_failed:
  assumes "os_conns s thread = None" and "cl_new cl (cf_autoReconnect cfg) (cf_timeout cfg) (os_world s) = (connPtr, w)"
    and "login env cl cfg connPtr db (with_connection thread connPtr w s) = (Inl (Driver e), s')"
  shows "getDBClientConnection env cl cfg thread db s =
      (if cf_autoReconnect cfg then (Inr connPtr, s'\<lparr>os_log := os_log s' @ [(ex_what e, lit ''MongoDB Connect'')]\<rparr>)
       else (Inl (SPLRuntimeOperator (ex_what e)), s'))"
    and "os_conns s' thread = Some connPtr"
proof -
  show "os_conns s' thread = Some connPtr"
    using keeps_login [of env cl cfg connPtr db] assms(3)
    by (auto simp: keeps_conns_def with_connection_def dest!: spec [of _ "with_connection thread connPtr w s"])
  show "getDBClientConnection env cl cfg thread db s =
      (if cf_autoReconnect cfg then (Inr connPtr, s'\<lparr>os_log := os_log s' @ [(ex_what e, lit ''MongoDB Connect'')]\<rparr>)
       else (Inl (SPLRuntimeOperator (ex_what e)), s'))"
    using assms by (simp add: getDBClientConnection_def login_def [symmetric] with_connection_def [symmetric] bindS_def
        on_DBException_def splapplog_def throwS_def retS_def)
qed

section \<open>A server for the examples\<close>

text \<open>
  One that always connects, rejects every password and reports a document that it already has in the
  collection as an error of the last operation.
\<close>

type_synonym sample_world = "(bytes \<times> doc) list \<times> bytes"

definition sample_insert :: "bytes \<Rightarrow> doc \<Rightarrow> sample_world \<Rightarrow> sample_world" where
  "sample_insert ns d w =
     (if (ns, d) \<in> set (fst w) then (fst w, lit ''E11000 duplicate key'') else (fst w @ [(ns, d)], []))"

definition sample_client :: "('c) \<Rightarrow> (sample_world, 'c) client" where
  "sample_client cursor =
     \<lparr>cl_new = (\<lambda>auto timeout w. (0, w)), cl_connect = (\<lambda>c url w. (Inr (), w)),
      cl_auth_params = (\<lambda>c d w. (Inr (), w)), cl_auth = (\<lambda>c db user pw w. (Inr (False, lit ''auth fails''), w)),
      cl_isFailed = (\<lambda>c w. False), cl_isStillConnected = (\<lambda>c w. (Inr True, w)),
      cl_setDbProfilingLevel = (\<lambda>c db level w. (Inr True, w)),
      cl_insert = (\<lambda>c ns d w. (Inr (), sample_insert ns d w)),
      cl_update = (\<lambda>c ns q d upsert multi w. (Inr (), w)),
      cl_remove = (\<lambda>c ns q justOne w. (Inr (), w)),
      cl_query = (\<lambda>c ns q n fields w. (Inr (Some cursor), w)),
      cl_getLastError = (\<lambda>c w. (Inr (snd w), w))\<rparr>"

definition sample_config :: "bool \<Rightarrow> (bytes \<times> bytes) option \<Rightarrow> op_config" where
  "sample_config autoReconnect credentials =
     \<lparr>cf_dbHost = lit ''localhost'', cf_dbPort = 27017, cf_timeout = 0, cf_autoReconnect = autoReconnect,
      cf_authentication = None, cf_credentials = credentials, cf_profiling = ProfileOff\<rparr>"

definition start_state :: "'w \<Rightarrow> 'w op_state" where
  "start_state w =
     \<lparr>os_world = w, os_conns = (\<lambda>t. None), os_otuple = (\<lambda>t. None), os_metric = 0, os_log = [], os_out = []\<rparr>"

text \<open>C28: The connection of a thread is stored before it is connected and authenticated, so that a login that
  fails is not repeated: the call logs the error and answers the connection, or raises it when the
  operator does not reconnect by itself, and in both cases every later call of the thread answers the same
  connection at once, without an error, in whatever state the login left it.
\<close>

theorem failed_login_is_kept:
  assumes "os_conns s thread = None" and "cl_new cl (cf_autoReconnect cfg) (cf_timeout cfg) (os_world s) = (connPtr, w)"
    and "login env cl cfg connPtr db (with_connection thread connPtr w s) = (Inl (Driver e), s')"
  shows "\<exists>s''. getDBClientConnection env cl cfg thread db s =
            (if cf_autoReconnect cfg then Inr connPtr else Inl (SPLRuntimeOperator (ex_what e)), s'') \<and>
          os_world s'' = os_world s' \<and>
          (\<forall>db'. getDBClientConnection env cl cfg thread db' s'' = (Inr connPtr, s''))"
proof (cases "cf_autoReconnect cfg")
  case True
  then show ?thesis
    by (intro exI [of _ "s'\<lparr>os_log := os_log s' @ [(ex_what e, lit ''MongoDB Connect'')]\<rparr>"])
      (simp add: login_failed [OF assms] connection_cached)
next
  case False
  then show ?thesis by (intro exI [of _ s']) (simp add: login_failed [OF assms] connection_cached)
qed

theorem failed_login_is_kept_witness:
  "\<exists>s''. getDBClientConnection (sample_env (\<lambda>s. Inr [])) (sample_client ()) (sample_config False (Some (lit ''u'', lit ''p''))) 1
       (lit ''db'') (start_state ([], [])) = (Inl (SPLRuntimeOperator (ex_what (DBException_new (lit ''auth fails'') 9999))), s'') \<and>
     getDBClientConnection (sample_env (\<lambda>s. Inr [])) (sample_client ()) (sample_config False (Some (lit ''u'', lit ''p''))) 1
       (lit ''db'') s'' = (Inr 0, s'')"
  using failed_login_is_kept [of "start_state ([], [])" 1 "sample_client ()" "sample_config False (Some (lit ''u'', lit ''p''))"
      0 "([], [])" "sample_env (\<lambda>s. Inr [])" "lit ''db''" "DBException_new (lit ''auth fails'') 9999"
      "with_connection 1 0 ([], []) (start_state ([], []))"]
  by (auto simp: start_state_def sample_client_def sample_config_def login_def authenticate_def driver_def bindS_def
      throwS_def with_connection_def)

end
