(* ===== verification/WriteOperators.thy ===== *)
theory WriteOperators
  imports OperatorCommon
begin

text \<open>
  \<^verbatim>\<open>Insert/Insert_cpp.cgt\<close>, \<^verbatim>\<open>Update/Update_cpp.cgt\<close> and \<^verbatim>\<open>Delete/Delete_cpp.cgt\<close>: one write of the database per
  attribute of the output port that is assigned with an output function, an error tuple at the end if a
  write reported an error. The three templates share their loop, which is here once, over the write.
\<close>

section \<open>The loop over the output attributes\<close>

text \<open>\<^verbatim>\<open>wa_fun\<close> is the output function of the attribute and its arguments, if it has one.\<close>

record write_attr =
  wa_name :: bytes
  wa_fun :: "(string \<times> spl_expr list) option"

record write_locals =
  wl_otuplePtr :: "stuple option"
  wl_errorFound :: bool

text \<open>
  After a write: the metric counts it, or the error is logged and put into the attribute. \<open>fresh\<close> is the
  tuple \<^verbatim>\<open>new OPort0Type()\<close>.
\<close>

definition report :: "stuple \<Rightarrow> bytes \<Rightarrow> bytes \<Rightarrow> bytes \<Rightarrow> write_locals \<Rightarrow> ('w, write_locals) act" where
  "report fresh aspect name errorMsg l =
     (if errorMsg = [] then bindS incrementValue (\<lambda>_. retS l)
      else bindS (splapplog errorMsg aspect) (\<lambda>_.
        let l = l\<lparr>wl_errorFound := True\<rparr>;
            otuple = (case wl_otuplePtr l of None \<Rightarrow> fresh | Some t \<Rightarrow> t) in
        retS (l\<lparr>wl_otuplePtr := Some (set_attr name (SRString errorMsg) otuple)\<rparr>)))"

text \<open>\<^verbatim>\<open>otuplePtr->set_name(init)\<close> of \<^verbatim>\<open>AsIs\<close> dereferences the pointer as it is.\<close>

definition process_attr ::
    "(string \<Rightarrow> spl_expr list \<Rightarrow> ('w, bytes option) act) \<Rightarrow> stuple \<Rightarrow> bytes \<Rightarrow> nat \<Rightarrow> stuple \<Rightarrow>
      write_attr \<Rightarrow> write_locals \<Rightarrow> ('w, write_locals) act" where
  "process_attr write fresh aspect port tup a l =
     (case wa_fun a of
        None \<Rightarrow> retS l
      | Some (operation, params) \<Rightarrow>
          if operation = ''AsIs'' then
            bindS (pureS (eval_on port tup (params ! 0))) (\<lambda>v.
              case wl_otuplePtr l of
                None \<Rightarrow> throwS NullPointer
              | Some t \<Rightarrow> retS (l\<lparr>wl_otuplePtr := Some (set_attr (wa_name a) v t)\<rparr>))
          else
            bindS (write operation params) (\<lambda>done.
              case done of
                None \<Rightarrow> retS l
              | Some errorMsg \<Rightarrow> report fresh aspect (wa_name a) errorMsg l))"

definition write_process ::
    "(string \<Rightarrow> spl_expr list \<Rightarrow> ('w, bytes option) act) \<Rightarrow> stuple \<Rightarrow> bytes \<Rightarrow> nat \<Rightarrow> stuple \<Rightarrow>
      write_attr list \<Rightarrow> ('w, unit) act" where
  "write_process write fresh aspect port tup attrs =
     bindS (foldS (process_attr write fresh aspect port tup) attrs \<lparr>wl_otuplePtr = None, wl_errorFound = False\<rparr>) (\<lambda>l.
       if wl_errorFound l then
         (case wl_otuplePtr l of None \<Rightarrow> throwS NullPointer | Some t \<Rightarrow> submit (Submit t))
       else retS ())"

section \<open>The names of the operations\<close>

definition isJson_name :: "string \<Rightarrow> bool" where
  "isJson_name operation \<longleftrightarrow> suffix ''AsJson'' operation"

definition upsert_name :: "string \<Rightarrow> bool" where
  "upsert_name operation \<longleftrightarrow> prefix ''Upsert'' operation"

definition multi_name :: "string \<Rightarrow> bool" where
  "multi_name operation \<longleftrightarrow> sublist ''Documents'' operation"

definition justOne_name :: "string \<Rightarrow> bool" where
  "justOne_name operation \<longleftrightarrow> suffix ''Document'' operation"

section \<open>Arguments and the input port\<close>

text \<open>With more than three arguments the third is the key.\<close>

definition key_and_expr :: "spl_expr list \<Rightarrow> spl_expr option \<times> spl_expr" where
  "key_and_expr params = (if length params > 3 then (Some (params ! 2), params ! 3) else (None, params ! 2))"

text \<open>
  With several input ports a write whose data uses a stream runs only for tuples of its port. The port is
  the one whose tuple the text names, \<^verbatim>\<open>-1\<close> (no port) if it names none; two are an error.
\<close>

definition portNumber :: "nat list \<Rightarrow> nat option" where
  "portNumber ports = (case ports of [] \<Rightarrow> None | p # ps \<Rightarrow> Some p)"

definition port_guard :: "nat \<Rightarrow> spl_expr \<Rightarrow> nat \<Rightarrow> bool" where
  "port_guard numberOfInputPorts e port \<longleftrightarrow>
     \<not> (numberOfInputPorts > 1 \<and> ex_stream e) \<or> portNumber (ex_ports e) = Some port"

definition write_attr_errors :: "nat \<Rightarrow> write_attr \<Rightarrow> codegen_error list" where
  "write_attr_errors numberOfInputPorts a =
     (case wa_fun a of
        None \<Rightarrow> []
      | Some (operation, params) \<Rightarrow>
          if operation = ''AsIs'' then []
          else (case key_and_expr params of (key, e) \<Rightarrow>
            (if key = None \<and> \<not> isJson_name operation \<and> keyLess (ex_type e) then [KeyRequired] else []) @
            (if numberOfInputPorts > 1 \<and> ex_stream e \<and> length (ex_ports e) > 1 then [MultiplePorts] else []) @
            (if isJson_name operation then [] else gen_errors (ex_type e))))"

definition eval_key :: "nat \<Rightarrow> stuple \<Rightarrow> spl_expr option \<Rightarrow> op_exn + bytes option" where
  "eval_key port tup key =
     (case key of
        None \<Rightarrow> Inr None
      | Some k \<Rightarrow> bindX (eval_on port tup k) (\<lambda>v. bindX (rstring_of v) (\<lambda>s. Inr (Some s))))"

text \<open>\<^verbatim>\<open>bsonObj\<close>, the object that a write sends.\<close>

definition bson_obj :: "'a spl_env_scheme \<Rightarrow> string \<Rightarrow> spl_expr list \<Rightarrow> nat \<Rightarrow> stuple \<Rightarrow> op_exn + doc" where
  "bson_obj env operation params port tup =
     (case key_and_expr params of (key, e) \<Rightarrow>
        bindX (eval_key port tup key) (\<lambda>key.
        bindX (eval_on port tup e) (\<lambda>v.
          buildBSONObjectWithKey env key (ex_type e) (isJson_name operation) v)))"

definition eval_rstring :: "nat \<Rightarrow> stuple \<Rightarrow> spl_expr \<Rightarrow> op_exn + bytes" where
  "eval_rstring port tup e = bindX (eval_on port tup e) rstring_of"

text \<open>The connection of the thread, checked, with the profiling level set.\<close>

definition ready_connection ::
    "'a spl_env_scheme \<Rightarrow> ('w, 'c) client \<Rightarrow> op_config \<Rightarrow> nat \<Rightarrow> bytes \<Rightarrow> ('w, nat) act" where
  "ready_connection env cl cfg thread db =
     bindS (getDBClientConnection env cl cfg thread db) (\<lambda>connPtr.
     bindS (check_connection cl cfg connPtr) (\<lambda>_.
     bindS (set_profiling cl cfg connPtr db) (\<lambda>_. retS connPtr)))"

section \<open>Insert\<close>

definition insert_write ::
    "'a spl_env_scheme \<Rightarrow> ('w, 'c) client \<Rightarrow> op_config \<Rightarrow> nat \<Rightarrow> nat \<Rightarrow> nat \<Rightarrow> stuple \<Rightarrow>
      string \<Rightarrow> spl_expr list \<Rightarrow> ('w, bytes option) act" where
  "insert_write env cl cfg numberOfInputPorts thread port tup operation params =
     (if \<not> port_guard numberOfInputPorts (snd (key_and_expr params)) port then retS None
      else
        bindS (pureS (bson_obj env operation params port tup)) (\<lambda>bsonObj.
        bindS (pureS (eval_rstring port tup (params ! 0))) (\<lambda>db.
        bindS (ready_connection env cl cfg thread db) (\<lambda>connPtr.
        bindS (pureS (eval_rstring port tup (params ! 1))) (\<lambda>collection.
        bindS (driver (cl_insert cl connPtr (buildDbCollection db collection) bsonObj)) (\<lambda>_.
        bindS (driver (cl_getLastError cl connPtr)) (\<lambda>errorMsg. retS (Some errorMsg))))))))"

definition Insert_process ::
    "'a spl_env_scheme \<Rightarrow> ('w, 'c) client \<Rightarrow> op_config \<Rightarrow> stuple \<Rightarrow> nat \<Rightarrow> write_attr list \<Rightarrow> nat \<Rightarrow> stuple \<Rightarrow> nat \<Rightarrow>
      ('w, unit) act" where
  "Insert_process env cl cfg fresh numberOfInputPorts attrs thread tup port =
     write_process (insert_write env cl cfg numberOfInputPorts thread port tup) fresh (lit ''MongoDB Insert'') port tup attrs"

section \<open>Update\<close>

text \<open>\<^verbatim>\<open>cachedBO\<close> is the member that the constructor initialised.\<close>

definition update_write ::
    "'a spl_env_scheme \<Rightarrow> ('w, 'c) client \<Rightarrow> op_config \<Rightarrow> spl_expr option \<Rightarrow> doc \<Rightarrow> nat \<Rightarrow> nat \<Rightarrow> nat \<Rightarrow> stuple \<Rightarrow>
      string \<Rightarrow> spl_expr list \<Rightarrow> ('w, bytes option) act" where
  "update_write env cl cfg findQuery cachedBO numberOfInputPorts thread port tup operation params =
     (if \<not> port_guard numberOfInputPorts (snd (key_and_expr params)) port then retS None
      else
        bindS (pureS (bson_obj env operation params port tup)) (\<lambda>bsonObj.
        bindS (pureS (current_object (buildFindQueryBO env) findQuery cachedBO port tup)) (\<lambda>findQueryBO.
        bindS (pureS (eval_rstring port tup (params ! 0))) (\<lambda>db.
        bindS (ready_connection env cl cfg thread db) (\<lambda>connPtr.
        bindS (pureS (eval_rstring port tup (params ! 1))) (\<lambda>collection.
        bindS (driver (cl_update cl connPtr (buildDbCollection db collection) findQueryBO bsonObj
                 (upsert_name operation) (multi_name operation))) (\<lambda>_.
        bindS (driver (cl_getLastError cl connPtr)) (\<lambda>errorMsg. retS (Some errorMsg)))))))))"

definition Update_process ::
    "'a spl_env_scheme \<Rightarrow> ('w, 'c) client \<Rightarrow> op_config \<Rightarrow> spl_expr option \<Rightarrow> doc \<Rightarrow> stuple \<Rightarrow> nat \<Rightarrow> write_attr list \<Rightarrow>
      nat \<Rightarrow> stuple \<Rightarrow> nat \<Rightarrow> ('w, unit) act" where
  "Update_process env cl cfg findQuery cachedBO fresh numberOfInputPorts attrs thread tup port =
     write_process (update_write env cl cfg findQuery cachedBO numberOfInputPorts thread port tup) fresh
       (lit ''MongoDB Update'') port tup attrs"

section \<open>Delete\<close>

text \<open>
  There is no guard on the port here. The code of one write is not in braces of its own: two writes would
  declare the same variables twice, which does not compile.
\<close>

definition delete_write ::
    "'a spl_env_scheme \<Rightarrow> ('w, 'c) client \<Rightarrow> op_config \<Rightarrow> spl_expr option \<Rightarrow> doc \<Rightarrow> nat \<Rightarrow> nat \<Rightarrow> stuple \<Rightarrow>
      string \<Rightarrow> spl_expr list \<Rightarrow> ('w, bytes option) act" where
  "delete_write env cl cfg findQuery cachedBO thread port tup operation params =
     bindS (pureS (current_object (buildFindQueryBO env) findQuery cachedBO port tup)) (\<lambda>findQueryBO.
     bindS (pureS (eval_rstring port tup (params ! 0))) (\<lambda>db.
     bindS (ready_connection env cl cfg thread db) (\<lambda>connPtr.
     bindS (pureS (eval_rstring port tup (params ! 1))) (\<lambda>collection.
     bindS (driver (cl_remove cl connPtr (buildDbCollection db collection) findQueryBO (justOne_name operation))) (\<lambda>_.
     bindS (driver (cl_getLastError cl connPtr)) (\<lambda>errorMsg. retS (Some errorMsg)))))))"

definition Delete_process ::
    "'a spl_env_scheme \<Rightarrow> ('w, 'c) client \<Rightarrow> op_config \<Rightarrow> spl_expr option \<Rightarrow> doc \<Rightarrow> stuple \<Rightarrow> write_attr list \<Rightarrow>
      nat \<Rightarrow> stuple \<Rightarrow> nat \<Rightarrow> ('w, unit) act" where
  "Delete_process env cl cfg findQuery cachedBO fresh attrs thread tup port =
     write_process (delete_write env cl cfg findQuery cachedBO thread port tup) fresh
       (lit ''MongoDB Delete'') port tup attrs"

section \<open>What is reported\<close>

text \<open>
  The messages of the writes that ran, by attribute, along the run of the operator; an empty message is a
  write that succeeded. \<open>reported\<close> is the state after a message was noted.
\<close>

definition reported :: "bytes \<Rightarrow> bytes \<Rightarrow> 'w op_state \<Rightarrow> 'w op_state" where
  "reported aspect m s =
     (if m = [] then s\<lparr>os_metric := os_metric s + 1\<rparr> else s\<lparr>os_log := os_log s @ [(m, aspect)]\<rparr>)"

fun messages ::
    "(string \<Rightarrow> spl_expr list \<Rightarrow> ('w, bytes option) act) \<Rightarrow> bytes \<Rightarrow> write_attr list \<Rightarrow> 'w op_state \<Rightarrow>
      (bytes \<times> bytes) list" where
  "messages write aspect [] s = []"
| "messages write aspect (a # ats) s =
     (case wa_fun a of
        None \<Rightarrow> messages write aspect ats s
      | Some (operation, params) \<Rightarrow>
          (case write operation params s of
             (Inl e, s) \<Rightarrow> []
           | (Inr None, s) \<Rightarrow> messages write aspect ats s
           | (Inr (Some m), s) \<Rightarrow> (wa_name a, m) # messages write aspect ats (reported aspect m s)))"

definition succeeded :: "(bytes \<times> bytes) list \<Rightarrow> int" where
  "succeeded ms = int (length (filter (\<lambda>(n, m). m = []) ms))"

definition failures :: "(bytes \<times> bytes) list \<Rightarrow> (bytes \<times> bytes) list" where
  "failures ms = filter (\<lambda>(n, m). m \<noteq> []) ms"

text \<open>The tuple that the operator submits: a fresh one with the message in every attribute that failed.\<close>

definition error_output :: "stuple \<Rightarrow> (bytes \<times> bytes) list \<Rightarrow> out_item list" where
  "error_output fresh ms =
     (if failures ms = [] then []
      else [Submit (foldl (\<lambda>t (n, m). set_attr n (SRString m) t) fresh (failures ms))])"

definition no_as_is :: "write_attr list \<Rightarrow> bool" where
  "no_as_is attrs \<longleftrightarrow> (\<forall>a \<in> set attrs. \<forall>params. wa_fun a \<noteq> Some (''AsIs'', params))"

text \<open>The contract of a write operator.\<close>

definition reports ::
    "(string \<Rightarrow> spl_expr list \<Rightarrow> ('w, bytes option) act) \<Rightarrow> stuple \<Rightarrow> bytes \<Rightarrow> write_attr list \<Rightarrow> ('w, unit) act \<Rightarrow> bool" where
  "reports write fresh aspect attrs process \<longleftrightarrow>
     (\<forall>s. case process s of (r, s') \<Rightarrow>
        os_metric s' = os_metric s + succeeded (messages write aspect attrs s) \<and>
        os_out s' = os_out s @ (if isl r then [] else error_output fresh (messages write aspect attrs s)) \<and>
        r \<noteq> Inl NullPointer)"

definition note_msg :: "stuple \<Rightarrow> write_locals \<Rightarrow> bytes \<times> bytes \<Rightarrow> write_locals" where
  "note_msg fresh l nm =
     (case nm of (n, m) \<Rightarrow>
        if m = [] then l
        else l\<lparr>wl_errorFound := True,
               wl_otuplePtr := Some (set_attr n (SRString m) (case wl_otuplePtr l of None \<Rightarrow> fresh | Some t \<Rightarrow> t))\<rparr>)"

lemma report_eq: "report fresh aspect n m l s = (Inr (note_msg fresh l (n, m)), reported aspect m s)"
  by (simp add: report_def note_msg_def reported_def bindS_def retS_def incrementValue_def splapplog_def Let_def)

lemma reported_simps [simp]:
  "os_metric (reported aspect m s) = os_metric s + (if m = [] then 1 else 0)"
  "os_out (reported aspect m s) = os_out s"
  by (simp_all add: reported_def)

lemma counts_simps [simp]:
  "succeeded [] = 0" "succeeded ((n, m) # ms) = (if m = [] then 1 else 0) + succeeded ms"
  "failures [] = []" "failures ((n, m) # ms) = (if m = [] then failures ms else (n, m) # failures ms)"
  by (simp_all add: succeeded_def failures_def)

lemma note_all:
  "foldl (note_msg fresh) l ms =
     (if failures ms = [] then l
      else \<lparr>wl_otuplePtr = Some (foldl (\<lambda>t (n, m). set_attr n (SRString m) t)
              (case wl_otuplePtr l of None \<Rightarrow> fresh | Some t \<Rightarrow> t) (failures ms)), wl_errorFound = True\<rparr>)"
  by (induction ms arbitrary: l) (auto simp: note_msg_def split: option.splits if_splits)

lemma process_attr_none: "wa_fun a = None \<Longrightarrow> process_attr write fresh aspect port tup a l s = (Inr l, s)"
  by (simp add: process_attr_def retS_def)

lemma process_attr_write:
  assumes "wa_fun a = Some (operation, params)" and "operation \<noteq> ''AsIs''"
  shows "process_attr write fresh aspect port tup a l s =
     (case write operation params s of
        (Inl e, s) \<Rightarrow> (Inl e, s)
      | (Inr None, s) \<Rightarrow> (Inr l, s)
      | (Inr (Some m), s) \<Rightarrow> (Inr (note_msg fresh l (wa_name a, m)), reported aspect m s))"
  using assms by (auto simp: process_attr_def bindS_def retS_def report_eq split: prod.splits sum.splits option.splits)

text \<open>A write leaves the metric and the output to the operator and never ends at a null pointer.\<close>

locale write_operator =
  fixes wr :: "string \<Rightarrow> spl_expr list \<Rightarrow> ('w, bytes option) act"
  assumes write_tame: "tame NullPointer (wr operation params)"
begin

lemma write_cases:
  obtains (raises) e s' where "wr operation params s = (Inl e, s')" "e \<noteq> NullPointer"
      "os_metric s' = os_metric s" "os_out s' = os_out s"
  | (skips) s' where "wr operation params s = (Inr None, s')" "os_metric s' = os_metric s" "os_out s' = os_out s"
  | (writes) m s' where "wr operation params s = (Inr (Some m), s')" "os_metric s' = os_metric s" "os_out s' = os_out s"
proof -
  obtain r s' where w: "wr operation params s = (r, s')" by fastforce
  have "os_metric s' = os_metric s" "os_out s' = os_out s" "r \<noteq> Inl NullPointer"
    using write_tame [of operation params] by (metis fst_conv snd_conv tame_def w)+
  with w that show thesis by (cases r) (auto split: option.splits)
qed

lemma loop_reports:
  assumes "no_as_is attrs"
  shows "case foldS (process_attr wr fresh aspect port tup) attrs l s of (r, s') \<Rightarrow>
           os_metric s' = os_metric s + succeeded (messages wr aspect attrs s) \<and> os_out s' = os_out s \<and>
           r \<noteq> Inl NullPointer \<and> (\<forall>l'. r = Inr l' \<longrightarrow> l' = foldl (note_msg fresh) l (messages wr aspect attrs s))"
  using assms
proof (induction attrs arbitrary: l s)
  case (Cons a ats)
  then have IH: "\<And>l s. case foldS (process_attr wr fresh aspect port tup) ats l s of (r, s') \<Rightarrow>
      os_metric s' = os_metric s + succeeded (messages wr aspect ats s) \<and> os_out s' = os_out s \<and>
      r \<noteq> Inl NullPointer \<and> (\<forall>l'. r = Inr l' \<longrightarrow> l' = foldl (note_msg fresh) l (messages wr aspect ats s))"
    by (simp add: no_as_is_def)
  show ?case
  proof (cases "wa_fun a")
    case None
    then show ?thesis using IH [of s l] by (simp add: process_attr_none bindS_def)
  next
    case (Some op)
    obtain operation params where op: "op = (operation, params)" by (cases op)
    then have n: "operation \<noteq> ''AsIs''" using Cons.prems Some by (auto simp: no_as_is_def)
    show ?thesis
    proof (cases rule: write_cases [of operation params s])
      case (raises e s')
      then show ?thesis using Some op n by (simp add: process_attr_write bindS_def)
    next
      case (skips s')
      then show ?thesis using Some op n IH [of s' l] by (simp add: process_attr_write bindS_def)
    next
      case (writes m s')
      then show ?thesis
        using Some op n IH [of "reported aspect m s'" "note_msg fresh l (wa_name a, m)"]
        by (auto simp: process_attr_write bindS_def split: prod.splits)
    qed
  qed
qed (simp add: retS_def)

lemma process_reports:
  assumes "no_as_is attrs"
  shows "reports wr fresh aspect attrs (write_process wr fresh aspect port tup attrs)"
  unfolding reports_def
proof
  fix s
  let ?ms = "messages wr aspect attrs s"
  let ?l = "\<lparr>wl_otuplePtr = None, wl_errorFound = False\<rparr>"
  obtain r s' where f: "foldS (process_attr wr fresh aspect port tup) attrs ?l s = (r, s')" by fastforce
  note * = loop_reports [OF assms, where fresh = fresh and aspect = aspect and port = port and tup = tup and l = ?l and s = s, unfolded f prod.case]
  show "case write_process wr fresh aspect port tup attrs s of (r, s') \<Rightarrow>
      os_metric s' = os_metric s + succeeded ?ms \<and>
      os_out s' = os_out s @ (if isl r then [] else error_output fresh ?ms) \<and> r \<noteq> Inl NullPointer"
  proof (cases r)
    case (Inl e)
    then show ?thesis using * by (simp add: write_process_def bindS_def f)
  next
    case (Inr l)
    with * have "l = foldl (note_msg fresh) ?l ?ms" by blast
    with * Inr show ?thesis
      by (simp add: write_process_def bindS_def f note_all error_output_def submit_def retS_def)
  qed
qed

end

section \<open>The writes of the operators\<close>

definition well_formed_expr :: "nat \<Rightarrow> spl_expr \<Rightarrow> bool" where
  "well_formed_expr numberOfInputPorts e \<longleftrightarrow>
     (ex_stream e \<longrightarrow> ex_ports e \<noteq> [] \<and> (\<forall>p \<in> set (ex_ports e). p < numberOfInputPorts))"

lemma guard_on_port:
  assumes "port_guard numberOfInputPorts e port" and "well_formed_expr numberOfInputPorts e"
    and "port < numberOfInputPorts"
  shows "on_port u port e"
proof -
  have "port \<in> set (ex_ports e)" if "ex_stream e"
  proof (cases "numberOfInputPorts > 1")
    case True
    then show ?thesis
      using assms(1) that by (auto simp: port_guard_def portNumber_def split: list.splits)
  next
    case False
    then have "port = 0" "set (ex_ports e) \<subseteq> {0}" "ex_ports e \<noteq> []"
      using assms(2,3) that by (auto simp: well_formed_expr_def)
    then show ?thesis by (cases "ex_ports e") auto
  qed
  then show ?thesis by (simp add: on_port_def)
qed

lemma tame_ready [tame_intros]: "ub u \<Longrightarrow> tame u (ready_connection env cl cfg thread db)"
  unfolding ready_connection_def by (intro tame_intros)

lemma sound_rstring [tame_intros]: "ub u \<Longrightarrow> on_port u port e \<Longrightarrow> sound u (eval_rstring port tup e)"
  by (simp add: eval_rstring_def tame_intros)

lemma sound_key [tame_intros]:
  "ub u \<Longrightarrow> (\<And>k. key = Some k \<Longrightarrow> on_port u port k) \<Longrightarrow> sound u (eval_key port tup key)"
  by (auto simp: eval_key_def split: option.splits intro!: tame_intros)

definition args_on_port :: "op_exn \<Rightarrow> nat \<Rightarrow> spl_expr list \<Rightarrow> bool" where
  "args_on_port u port params \<longleftrightarrow>
     on_port u port (params ! 0) \<and> on_port u port (params ! 1) \<and>
     (\<forall>k. fst (key_and_expr params) = Some k \<longrightarrow> on_port u port k) \<and> on_port u port (snd (key_and_expr params))"

lemma args_null [simp]: "args_on_port NullPointer port params"
  by (simp add: args_on_port_def on_port_null)

lemma args_on_portD:
  assumes "args_on_port u port params"
  shows "on_port u port (params ! 0)" and "on_port u port (params ! 1)"
    and "fst (key_and_expr params) = Some k \<Longrightarrow> on_port u port k" and "on_port u port (snd (key_and_expr params))"
  using assms by (simp_all add: args_on_port_def)

lemma sound_bson_obj: "ub u \<Longrightarrow> args_on_port u port params \<Longrightarrow> sound u (bson_obj env operation params port tup)"
  unfolding bson_obj_def split_beta by (intro tame_intros) (auto dest: args_on_portD)

lemma tame_insert:
  assumes "ub u" and "port_guard n (snd (key_and_expr params)) port \<Longrightarrow> args_on_port u port params"
  shows "tame u (insert_write env cl cfg n thread port tup operation params)"
proof (cases "port_guard n (snd (key_and_expr params)) port")
  case True
  note a = assms(2) [OF this]
  show ?thesis unfolding insert_write_def
    using a by (simp add: True del: One_nat_def) (intro tame_intros sound_bson_obj assms(1); auto dest: args_on_portD)
qed (simp add: insert_write_def tame_ret)

lemma tame_update:
  assumes "ub u" and "port_guard n (snd (key_and_expr params)) port \<Longrightarrow> args_on_port u port params"
    and "\<And>e. findQuery = Some e \<Longrightarrow> on_port u port e"
  shows "tame u (update_write env cl cfg findQuery cachedBO n thread port tup operation params)"
proof (cases "port_guard n (snd (key_and_expr params)) port")
  case True
  note a = assms(2) [OF this]
  show ?thesis unfolding update_write_def
    using a by (simp add: True del: One_nat_def) (intro tame_intros sound_bson_obj assms(1); auto dest: args_on_portD intro: assms(3))
qed (simp add: update_write_def tame_ret)

lemma tame_delete:
  assumes "ub u" and "on_port u port (params ! 0)" and "on_port u port (params ! 1)"
    and "\<And>e. findQuery = Some e \<Longrightarrow> on_port u port e"
  shows "tame u (delete_write env cl cfg findQuery cachedBO thread port tup operation params)"
  unfolding delete_write_def by (intro tame_intros assms)

interpretation insert_op: write_operator "insert_write env cl cfg n thread port tup"
  by unfold_locales (intro tame_insert; simp)

interpretation update_op: write_operator "update_write env cl cfg findQuery cachedBO n thread port tup"
  by unfold_locales (intro tame_update; simp add: on_port_null)

interpretation delete_op: write_operator "delete_write env cl cfg findQuery cachedBO thread port tup"
  by unfold_locales (intro tame_delete; simp add: on_port_null)

section \<open>Properties of the operators\<close>


text \<open>An expression that reads no attribute of a stream, for the examples.\<close>

definition const_expr :: "spl_type \<Rightarrow> spl_val \<Rightarrow> spl_expr" where
  "const_expr t v = \<lparr>ex_eval = (\<lambda>tup. v), ex_type = t, ex_stream = False, ex_ports = []\<rparr>"

definition sample_attr :: "bytes \<Rightarrow> write_attr" where
  "sample_attr name =
     \<lparr>wa_name = name,
      wa_fun = Some (''InsertDocument'',
        [const_expr TRString (SRString (lit ''db'')), const_expr TRString (SRString (lit ''c'')),
         const_expr TRString (SRString (lit ''k'')), const_expr TBoolean (SBool True)])\<rparr>"

text \<open>What an insert of the examples evaluates.\<close>

lemmas insert_steps =
  insert_write_def port_guard_def key_and_expr_def sample_attr_def const_expr_def bindS_def pureS_def
  retS_def bson_obj_def eval_key_def eval_on_def eval_rstring_def rstring_of_def buildBSONObjectWithKey_def
  ready_connection_def getDBClientConnection_def sample_client_def sample_config_def start_state_def driver_def
  on_DBException_def authenticate_def check_connection_def set_profiling_def sample_insert_def reported_def append_field_cases cstring_def lit_def


section \<open>Undefined behaviour\<close>

definition both_or_none :: "write_locals \<Rightarrow> bool" where
  "both_or_none l \<longleftrightarrow> (wl_errorFound l \<longleftrightarrow> wl_otuplePtr l \<noteq> None)"

lemma process_attr_both:
  assumes "both_or_none l" and "process_attr write fresh aspect port tup a l s = (Inr l', s')"
  shows "both_or_none l'"
  using assms
  by (auto simp: process_attr_def both_or_none_def bindS_def retS_def throwS_def pureS_def report_eq note_msg_def
      split: option.splits prod.splits sum.splits if_splits)

lemma loop_both:
  assumes "both_or_none l" and "foldS (process_attr write fresh aspect port tup) attrs l s = (Inr l', s')"
  shows "both_or_none l'"
  using assms
proof (induction attrs arbitrary: l s)
  case (Cons a ats)
  then show ?case
    by (auto simp: bindS_def split: prod.splits sum.splits dest: process_attr_both)
qed (simp add: retS_def)

lemma foldS_append: "foldS f (xs @ ys) a = bindS (foldS f xs a) (foldS f ys)"
  by (induction xs arbitrary: a) (auto simp: fun_eq_iff bindS_def retS_def split: prod.splits sum.splits)

context write_operator
begin

lemma attr_keeps_out: "os_out (snd (process_attr wr fresh aspect port tup a l s)) = os_out s"
proof (cases "wa_fun a")
  case (Some op)
  then show ?thesis
    by (cases op; cases rule: write_cases [of "fst op" "snd op" s])
      (auto simp: process_attr_def bindS_def retS_def throwS_def pureS_def report_eq split: option.splits sum.splits)
qed (simp add: process_attr_none)

lemma loop_keeps_out: "os_out (snd (foldS (process_attr wr fresh aspect port tup) attrs l s)) = os_out s"
proof (induction attrs arbitrary: l s)
  case (Cons a ats)
  have "os_out s' = os_out s" if "process_attr wr fresh aspect port tup a l s = (r, s')" for r s'
    using attr_keeps_out [of fresh aspect port tup a l s] that by simp
  then show ?case
    using Cons.IH by (auto simp: bindS_def split: prod.splits sum.splits)
qed (simp add: retS_def)

lemma quiet_loop:
  assumes "write_process wr fresh aspect port tup attrs s = (Inr (), s')" and "os_out s' = os_out s"
  shows "foldS (process_attr wr fresh aspect port tup) attrs \<lparr>wl_otuplePtr = None, wl_errorFound = False\<rparr> s =
           (Inr \<lparr>wl_otuplePtr = None, wl_errorFound = False\<rparr>, s')"
proof -
  let ?l = "\<lparr>wl_otuplePtr = None, wl_errorFound = False\<rparr>"
  obtain r t where f: "foldS (process_attr wr fresh aspect port tup) attrs ?l s = (r, t)" by fastforce
  then have out: "os_out t = os_out s" using loop_keeps_out [of fresh aspect port tup attrs ?l s] by simp
  obtain l where r: "r = Inr l" using assms(1) f by (cases r) (auto simp: write_process_def bindS_def)
  have b: "both_or_none l" using loop_both [of ?l] f r by (simp add: both_or_none_def)
  have "\<not> wl_errorFound l" "t = s'"
    using assms out by (auto simp: write_process_def bindS_def f r retS_def throwS_def submit_def split: if_splits option.splits)
  then show ?thesis using f r b by (simp add: both_or_none_def)
qed

lemma as_is_dereferences:
  assumes "write_process wr fresh aspect port tup attrs s = (Inr (), s')" and "os_out s' = os_out s"
    and "wa_fun a = Some (''AsIs'', params)" and "eval_on port tup (params ! 0) = Inr v"
  shows "write_process wr fresh aspect port tup (attrs @ a # rest) s = (Inl NullPointer, s')"
  by (simp add: write_process_def foldS_append bindS_def quiet_loop [OF assms(1,2)] process_attr_def assms(3,4)
      pureS_def throwS_def)

end

text \<open>C29: An attribute assigned with \<^verbatim>\<open>AsIs\<close> is set through the pointer to the output tuple, which is null until
  a write has failed: in each of the three operators, when the attributes in front of it raise no
  exception and submit nothing, the assignment dereferences a null pointer.
\<close>

theorem as_is_needs_an_error:
  assumes "wa_fun a = Some (''AsIs'', params)" and "eval_on port tup (params ! 0) = Inr v" and "os_out s' = os_out s"
  shows "(Insert_process env cl cfg fresh n attrs thread tup port s = (Inr (), s') \<longrightarrow>
            Insert_process env cl cfg fresh n (attrs @ a # rest) thread tup port s = (Inl NullPointer, s')) \<and>
         (Update_process env cl cfg findQuery cachedBO fresh n attrs thread tup port s = (Inr (), s') \<longrightarrow>
            Update_process env cl cfg findQuery cachedBO fresh n (attrs @ a # rest) thread tup port s = (Inl NullPointer, s')) \<and>
         (Delete_process env cl cfg findQuery cachedBO fresh attrs thread tup port s = (Inr (), s') \<longrightarrow>
            Delete_process env cl cfg findQuery cachedBO fresh (attrs @ a # rest) thread tup port s = (Inl NullPointer, s'))"
  unfolding Insert_process_def Update_process_def Delete_process_def
  by (intro conjI impI insert_op.as_is_dereferences [OF _ assms(3,1,2)]
      update_op.as_is_dereferences [OF _ assms(3,1,2)] delete_op.as_is_dereferences [OF _ assms(3,1,2)])

theorem as_is_needs_an_error_witness:
  "Insert_process (sample_env (\<lambda>s. Inr [])) (sample_client ()) (sample_config True None) [] 1
     [\<lparr>wa_name = lit ''a'', wa_fun = Some (''AsIs'', [const_expr TRString (SRString [])])\<rparr>] 1 [] 0
     (start_state ([], [])) = (Inl NullPointer, start_state ([], []))"
proof -
  have *: "Insert_process (sample_env (\<lambda>s. Inr [])) (sample_client ()) (sample_config True None) [] 1 [] 1 [] 0
      (start_state ([], [])) = (Inr (), start_state ([], []))"
    by (simp add: Insert_process_def write_process_def bindS_def retS_def)
  have e: "eval_on 0 [] ([const_expr TRString (SRString [])] ! 0) = Inr (SRString [])"
    by (simp add: eval_on_def const_expr_def)
  show ?thesis
    using as_is_needs_an_error [of "\<lparr>wa_name = lit ''a'', wa_fun = Some (''AsIs'', [const_expr TRString (SRString [])])\<rparr>"
      "[const_expr TRString (SRString [])]", OF _ e refl] * by fastforce
qed



text \<open>A program with two ports: the data is an attribute of port 1, the tuple is one of port 0.\<close>

definition stream_expr :: "nat \<Rightarrow> spl_expr" where
  "stream_expr port = \<lparr>ex_eval = (\<lambda>tup. SBool True), ex_type = TBoolean, ex_stream = True, ex_ports = [port]\<rparr>"


text \<open>A connection that failed: without reconnection the operator stops with an exception before it writes.\<close>

lemma dead_connection:
  assumes "os_conns s thread = Some connPtr" and "cl_isFailed cl connPtr (os_world s)" and "\<not> cf_autoReconnect cfg"
  shows "ready_connection env cl cfg thread db s =
     (Inl (SPLRuntimeOperator (lit ''Connection to '' @ buildConnUrl (cf_dbHost cfg) (cf_dbPort cfg) @ lit '' aborted'')), s)"
  using assms by (simp add: ready_connection_def connection_cached bindS_def check_connection_def throwS_def)

section \<open>What the generator accepts\<close>



end
