(* ===== verification/QueryOperator.thy ===== *)
theory QueryOperator
  imports WriteOperators Cursor
begin

text \<open>
  \<^verbatim>\<open>Query/Query_cpp.cgt\<close>: for each input tuple a query of the database, an output tuple for each document that
  fills an attribute, and a window marker, or the bare output tuple when there is no document. The cursor
  is the one of theory \<open>Cursor\<close>, over its interface \<open>cursor_ops\<close>. Asking a cursor for more does not show in the
  world of the operator: what it returns is the cursor's own state.
\<close>

section \<open>The output attributes\<close>

datatype query_assign =
    NotAssigned
  | Assigned spl_expr
  | AsIs spl_expr
  | QueryDocumentFieldAsJson
  | QueryDocumentField "spl_expr option"
  | QueryDocumentMultipleFields "spl_expr option"

record query_attr =
  qa_name :: bytes
  qa_type :: spl_type
  qa_assign :: query_assign

record query_params =
  qp_db :: spl_expr
  qp_collection :: spl_expr
  qp_findQuery :: "spl_expr option"
  qp_findFields :: "spl_expr option"
  qp_nToReturn :: "spl_expr option"
  qp_attrs :: "query_attr list"

text \<open>The constructor: the objects of the parameters that use no attribute of the stream.\<close>

record query_members =
  qm_findFieldsBO :: doc
  qm_findQueryBO :: doc

definition query_new :: "'a spl_env_scheme \<Rightarrow> error_heap \<Rightarrow> status \<Rightarrow> query_params \<Rightarrow> op_exn + query_members" where
  "query_new env heap mongoInit_status qp =
     bindX (init_member (buildFindFieldsBO env) (qp_findFields qp)) (\<lambda>findFieldsBO.
     bindX (init_member (buildFindQueryBO env) (qp_findQuery qp)) (\<lambda>findQueryBO.
     bindX (operator_new heap mongoInit_status) (\<lambda>_.
       Inr \<lparr>qm_findFieldsBO = findFieldsBO, qm_findQueryBO = findQueryBO\<rparr>)))"

section \<open>The template of the output tuple\<close>

text \<open>\<open>fresh\<close> is a new tuple after \<^verbatim>\<open>clear()\<close>. Each thread keeps one.\<close>

definition getOutputTuple :: "stuple \<Rightarrow> nat \<Rightarrow> ('w, stuple) act" where
  "getOutputTuple fresh thread s =
     (case os_otuple s thread of
        Some t \<Rightarrow> (Inr t, s)
      | None \<Rightarrow> (Inr fresh, s\<lparr>os_otuple := (os_otuple s)(thread := Some fresh)\<rparr>))"

definition assign_attr :: "nat \<Rightarrow> stuple \<Rightarrow> nat \<Rightarrow> query_attr \<Rightarrow> stuple \<Rightarrow> ('w, stuple) act" where
  "assign_attr thread tup port a otuple =
     (let set_to = (\<lambda>e. bindS (pureS (eval_on port tup e)) (\<lambda>v s.
        let otuple = set_attr (qa_name a) v otuple in
        (Inr otuple, s\<lparr>os_otuple := (os_otuple s)(thread := Some otuple)\<rparr>))) in
      case qa_assign a of AsIs e \<Rightarrow> set_to e | Assigned e \<Rightarrow> set_to e | _ \<Rightarrow> retS otuple)"

definition query_template :: "stuple \<Rightarrow> query_params \<Rightarrow> nat \<Rightarrow> stuple \<Rightarrow> nat \<Rightarrow> ('w, stuple) act" where
  "query_template fresh qp thread tup port =
     bindS (getOutputTuple fresh thread) (foldS (assign_attr thread tup port) (qp_attrs qp))"

section \<open>Sending the query\<close>

text \<open>\<^verbatim>\<open>nToReturn\<close> is an \<^verbatim>\<open>uint32\<close> that is passed as an \<^verbatim>\<open>int\<close>.\<close>

definition eval_nToReturn :: "nat \<Rightarrow> stuple \<Rightarrow> spl_expr option \<Rightarrow> op_exn + int" where
  "eval_nToReturn port tup e =
     (case e of
        None \<Rightarrow> Inr 0
      | Some e \<Rightarrow> bindX (eval_on port tup e) (\<lambda>v. case v of SInt i \<Rightarrow> Inr (signed_take_bit 31 i) | _ \<Rightarrow> ill_typed))"

definition query_send ::
    "'a spl_env_scheme \<Rightarrow> ('w, 'c) client \<Rightarrow> op_config \<Rightarrow> query_params \<Rightarrow> query_members \<Rightarrow> nat \<Rightarrow> stuple \<Rightarrow> nat \<Rightarrow>
      ('w, 'c option \<times> bytes) act" where
  "query_send env cl cfg qp qm thread tup port =
     bindS (pureS (current_object (buildFindFieldsBO env) (qp_findFields qp) (qm_findFieldsBO qm) port tup)) (\<lambda>findFieldsBO.
     bindS (pureS (current_object (buildFindQueryBO env) (qp_findQuery qp) (qm_findQueryBO qm) port tup)) (\<lambda>findQueryBO.
     bindS (pureS (eval_rstring port tup (qp_db qp))) (\<lambda>db.
     bindS (ready_connection env cl cfg thread db) (\<lambda>connPtr.
     bindS (pureS (eval_rstring port tup (qp_collection qp))) (\<lambda>collection.
     bindS (pureS (eval_nToReturn port tup (qp_nToReturn qp))) (\<lambda>nToReturn.
     bindS (driver (cl_query cl connPtr (buildDbCollection db collection) findQueryBO nToReturn findFieldsBO)) (\<lambda>cursor.
     bindS (driver (cl_getLastError cl connPtr)) (\<lambda>errorMsg. retS (cursor, errorMsg)))))))))"

section \<open>A document\<close>

definition eval_path :: "nat \<Rightarrow> stuple \<Rightarrow> spl_expr option \<Rightarrow> op_exn + bytes option" where
  "eval_path port tup p = eval_key port tup p"

definition fill_one :: "'a spl_env_scheme \<Rightarrow> nat \<Rightarrow> stuple \<Rightarrow> doc \<Rightarrow> query_attr \<Rightarrow> stuple \<Rightarrow> op_exn + stuple" where
  "fill_one env port tup queryResultBO a otuple =
     (case qa_assign a of
        QueryDocumentFieldAsJson \<Rightarrow> handleBSONObjectAsJson env (qa_name a) (qa_type a) queryResultBO otuple
      | QueryDocumentField p \<Rightarrow>
          bindX (eval_path port tup p) (\<lambda>findPath.
            fill_attribute env (qa_name a) (qa_type a) False findPath queryResultBO otuple)
      | QueryDocumentMultipleFields p \<Rightarrow>
          bindX (eval_path port tup p) (\<lambda>findPath.
            fill_attribute env (qa_name a) (qa_type a) True findPath queryResultBO otuple)
      | _ \<Rightarrow> Inr otuple)"

definition fill_tuple ::
    "'a spl_env_scheme \<Rightarrow> query_attr list \<Rightarrow> nat \<Rightarrow> stuple \<Rightarrow> stuple \<Rightarrow> doc \<Rightarrow> op_exn + stuple" where
  "fill_tuple env attrs port tup otuple queryResultBO = foldX (fill_one env port tup queryResultBO) attrs otuple"

definition emit_doc ::
    "'a spl_env_scheme \<Rightarrow> query_attr list \<Rightarrow> nat \<Rightarrow> stuple \<Rightarrow> stuple \<Rightarrow> doc \<Rightarrow> ('w, unit) act" where
  "emit_doc env attrs port tup otuplePtr queryResultBO =
     (let tupleHash = env_hashCode env otuplePtr in
      bindS (pureS (fill_tuple env attrs port tup otuplePtr queryResultBO)) (\<lambda>otuple.
        if env_hashCode env otuple \<noteq> tupleHash then submit (Submit otuple) else retS ()))"

section \<open>The loop over the cursor\<close>

text \<open>A cursor may never end; \<open>None\<close> is a loop that does not.\<close>

partial_function (option) query_loop ::
    "('c \<Rightarrow> (bool \<times> 'c) res) \<Rightarrow> ('c \<Rightarrow> (doc \<times> 'c) res) \<Rightarrow> (doc \<Rightarrow> ('w, unit) act) \<Rightarrow> 'c \<Rightarrow> 'w op_state \<Rightarrow>
      ((op_exn + unit) \<times> 'w op_state) option" where
  "query_loop has_more next_obj emit c s =
     (case has_more c of
        Inl e \<Rightarrow> Some (Inl (Asserted e), s)
      | Inr (b, c) \<Rightarrow>
          if b then
            (case next_obj c of
               Inl e \<Rightarrow> Some (Inl (Asserted e), s)
             | Inr (d, c) \<Rightarrow>
                 (case emit d s of
                    (Inl e, s) \<Rightarrow> Some (Inl e, s)
                  | (Inr u, s) \<Rightarrow> query_loop has_more next_obj emit c s))
          else Some (Inr (), s))"

text \<open>After the answer of the server: \<open>cursor\<close> is the pointer, and \<^verbatim>\<open>docFound\<close> the first answer of \<^verbatim>\<open>more()\<close>.\<close>

definition query_results ::
    "'a spl_env_scheme \<Rightarrow> ('c \<Rightarrow> (bool \<times> 'c) res) \<Rightarrow> ('c \<Rightarrow> (doc \<times> 'c) res) \<Rightarrow> query_attr list \<Rightarrow> nat \<Rightarrow> stuple \<Rightarrow> stuple \<Rightarrow>
      'c option \<Rightarrow> bytes \<Rightarrow> 'w op_state \<Rightarrow> ((op_exn + unit) \<times> 'w op_state) option" where
  "query_results env has_more next_obj attrs port tup otuplePtr cursor errorMsg s =
     (if errorMsg \<noteq> [] then Some (splapplog errorMsg (lit ''MongoDB Query'') s)
      else
        (let s = snd (incrementValue s) in
         case cursor of
           None \<Rightarrow> Some (throwS NullPointer s)
         | Some c \<Rightarrow>
             (case has_more c of
                Inl e \<Rightarrow> Some (Inl (Asserted e), s)
              | Inr (docFound, c) \<Rightarrow>
                  (case query_loop has_more next_obj (emit_doc env attrs port tup otuplePtr) c s of
                     None \<Rightarrow> None
                   | Some (Inl e, s) \<Rightarrow> Some (Inl e, s)
                   | Some (Inr u, s) \<Rightarrow> Some (submit (if docFound then WindowMarker else Submit otuplePtr) s)))))"

definition Query_process ::
    "'a spl_env_scheme \<Rightarrow> ('w, 'c) client \<Rightarrow> ('c \<Rightarrow> (bool \<times> 'c) res) \<Rightarrow> ('c \<Rightarrow> (doc \<times> 'c) res) \<Rightarrow> op_config \<Rightarrow> stuple \<Rightarrow>
      query_params \<Rightarrow> query_members \<Rightarrow> nat \<Rightarrow> stuple \<Rightarrow> nat \<Rightarrow> 'w op_state \<Rightarrow> ((op_exn + unit) \<times> 'w op_state) option" where
  "Query_process env cl has_more next_obj cfg fresh qp qm thread tup port s =
     (case query_template fresh qp thread tup port s of
        (Inl e, s) \<Rightarrow> Some (Inl e, s)
      | (Inr otuplePtr, s) \<Rightarrow>
          (case query_send env cl cfg qp qm thread tup port s of
             (Inl e, s) \<Rightarrow> Some (Inl e, s)
           | (Inr (cursor, errorMsg), s) \<Rightarrow>
               query_results env has_more next_obj (qp_attrs qp) port tup otuplePtr cursor errorMsg s))"

section \<open>What the loop does\<close>

text \<open>The loop over a cursor that keeps its promises is a loop over what the cursor returns.\<close>

context cursor_ops
begin

lemma query_loop_end:
  "ok c \<Longrightarrow> rest c = [] \<Longrightarrow> query_loop has_more next_obj emit c s = Some (Inr (), s)"
  using more_tells [of c] by (subst query_loop.simps) auto

lemma query_loop_step:
  assumes "ok c" and "rest c = d # ds"
  shows "\<exists>c'. ok c' \<and> rest c' = ds \<and> query_loop has_more next_obj emit c s =
     (case emit d s of (Inl e, s) \<Rightarrow> Some (Inl e, s) | (Inr u, s) \<Rightarrow> query_loop has_more next_obj emit c' s)"
proof -
  obtain c1 where c1: "has_more c = Inr (True, c1)" "ok c1" "rest c1 = d # ds" "ready c1"
    using more_tells [OF assms(1)] assms(2) by auto
  obtain c2 where "next_obj c1 = Inr (d, c2)" "ok c2" "rest c2 = ds"
    using next_takes [OF c1(2,4,3)] by blast
  then show ?thesis using c1(1) by (subst query_loop.simps) auto
qed

lemma query_loop_fold:
  assumes "ok c"
  shows "query_loop has_more next_obj emit c s = Some (foldS (\<lambda>d u. emit d) (rest c) () s)"
proof -
  have "ok c \<Longrightarrow> rest c = ds \<Longrightarrow> query_loop has_more next_obj emit c s = Some (foldS (\<lambda>d u. emit d) ds () s)" for ds
  proof (induction ds arbitrary: c s)
    case Nil
    then show ?case by (simp add: query_loop_end retS_def)
  next
    case (Cons d ds)
    obtain c' where c': "ok c'" "rest c' = ds" "query_loop has_more next_obj emit c s =
        (case emit d s of (Inl e, s) \<Rightarrow> Some (Inl e, s) | (Inr u, s) \<Rightarrow> query_loop has_more next_obj emit c' s)"
      using query_loop_step [OF Cons.prems] by blast
    show ?case
      unfolding c'(3) by (simp add: bindS_def Cons.IH [OF c'(1,2)] split: prod.split sum.split)
  qed
  from this [OF assms refl] show ?thesis .
qed

end

text \<open>
  The answer to a query over the documents: the tuples that the documents fill, as far as the template and
  the tuple differ in their hash code, up to the first document that raises.
\<close>

fun answer :: "(doc \<Rightarrow> op_exn + stuple) \<Rightarrow> (stuple \<Rightarrow> bool) \<Rightarrow> doc list \<Rightarrow> (op_exn + unit) \<times> out_item list" where
  "answer fill changed [] = (Inr (), [])"
| "answer fill changed (d # ds) =
     (case fill d of
        Inl e \<Rightarrow> (Inl e, [])
      | Inr t \<Rightarrow> (case answer fill changed ds of (r, ts) \<Rightarrow> (r, (if changed t then [Submit t] else []) @ ts)))"

definition changed_from :: "'a spl_env_scheme \<Rightarrow> stuple \<Rightarrow> stuple \<Rightarrow> bool" where
  "changed_from env otuplePtr otuple \<longleftrightarrow> env_hashCode env otuple \<noteq> env_hashCode env otuplePtr"

lemma emit_doc_eq:
  "emit_doc env attrs port tup t d s =
     (case fill_tuple env attrs port tup t d of
        Inl e \<Rightarrow> (Inl e, s)
      | Inr x \<Rightarrow> (Inr (), if changed_from env t x then s\<lparr>os_out := os_out s @ [Submit x]\<rparr> else s))"
  by (simp add: emit_doc_def bindS_def pureS_def submit_def retS_def changed_from_def Let_def split: sum.split)

lemma emit_fold:
  "foldS (\<lambda>d u. emit_doc env attrs port tup t d) ds () s =
     (case answer (fill_tuple env attrs port tup t) (changed_from env t) ds of
        (r, ts) \<Rightarrow> (r, s\<lparr>os_out := os_out s @ ts\<rparr>))"
  by (induction ds arbitrary: s) (simp_all add: retS_def bindS_def emit_doc_eq split: sum.split prod.split)

text \<open>What follows the answer: a marker if there was a document, the template itself if there was none.\<close>

definition closing :: "stuple \<Rightarrow> doc list \<Rightarrow> op_exn + unit \<Rightarrow> out_item list" where
  "closing otuplePtr ds r = (if isl r then [] else if ds = [] then [Submit otuplePtr] else [WindowMarker])"

context cursor_ops
begin

lemma results_answer:
  assumes "ok c"
  shows "query_results env has_more next_obj attrs port tup t (Some c) [] s =
     (case answer (fill_tuple env attrs port tup t) (changed_from env t) (rest c) of
        (r, ts) \<Rightarrow>
          Some (r, s\<lparr>os_metric := os_metric s + 1, os_out := os_out s @ ts @ closing t (rest c) r\<rparr>))"
proof -
  obtain c1 where c1: "has_more c = Inr (rest c \<noteq> [], c1)" "ok c1" "rest c1 = rest c"
    using more_tells [OF assms] by blast
  obtain r ts where a: "answer (fill_tuple env attrs port tup t) (changed_from env t) (rest c) = (r, ts)" by fastforce
  show ?thesis
    by (cases r) (simp_all add: query_results_def incrementValue_def c1(1) query_loop_fold [OF c1(2)] c1(3) emit_fold a
        submit_def closing_def)
qed

end

section \<open>The template\<close>

text \<open>What the template keeps of a new tuple: the attributes without an assignment.\<close>

definition assigned :: "query_attr list \<Rightarrow> bytes \<Rightarrow> bool" where
  "assigned attrs n \<longleftrightarrow> (\<exists>a \<in> set attrs. qa_name a = n \<and> (\<exists>e. qa_assign a = AsIs e \<or> qa_assign a = Assigned e))"

definition from_fresh :: "stuple \<Rightarrow> query_attr list \<Rightarrow> stuple \<Rightarrow> bool" where
  "from_fresh fresh attrs t \<longleftrightarrow>
     map fst t = map fst fresh \<and> (\<forall>n. \<not> assigned attrs n \<longrightarrow> map_of t n = map_of fresh n)"

definition clean_templates :: "stuple \<Rightarrow> query_attr list \<Rightarrow> 'w op_state \<Rightarrow> bool" where
  "clean_templates fresh attrs s \<longleftrightarrow> (\<forall>thread t. os_otuple s thread = Some t \<longrightarrow> from_fresh fresh attrs t)"

lemma from_fresh_set:
  "from_fresh fresh attrs t \<Longrightarrow> assigned attrs n \<Longrightarrow> from_fresh fresh attrs (set_attr n v t)"
  by (auto simp: from_fresh_def map_of_set_attr)

lemma assign_step:
  assumes "assign_attr thread tup port a t s = (r, s')" and "a \<in> set attrs"
    and "from_fresh fresh attrs t" and "clean_templates fresh attrs s"
  shows "clean_templates fresh attrs s' \<and> (\<forall>t'. r = Inr t' \<longrightarrow> from_fresh fresh attrs t') \<and>
         os_metric s' = os_metric s \<and> os_out s' = os_out s"
proof (cases "\<exists>e. qa_assign a = AsIs e \<or> qa_assign a = Assigned e")
  case True
  then obtain e where e: "qa_assign a = AsIs e \<or> qa_assign a = Assigned e" by blast
  then have n: "assigned attrs (qa_name a)" using assms(2) by (auto simp: assigned_def)
  show ?thesis
    using assms(1,3,4) e from_fresh_set [OF assms(3) n]
    by (auto simp: assign_attr_def bindS_def pureS_def Let_def clean_templates_def split: sum.splits if_splits)
next
  case False
  then show ?thesis
    using assms by (cases "qa_assign a") (auto simp: assign_attr_def retS_def Let_def)
qed

lemma assign_all:
  assumes "foldS (assign_attr thread tup port) ats t s = (r, s')" and "set ats \<subseteq> set attrs"
    and "from_fresh fresh attrs t" and "clean_templates fresh attrs s"
  shows "clean_templates fresh attrs s' \<and> (\<forall>t'. r = Inr t' \<longrightarrow> from_fresh fresh attrs t') \<and>
         os_metric s' = os_metric s \<and> os_out s' = os_out s"
  using assms
proof (induction ats arbitrary: t s)
  case (Cons a rest)
  obtain r1 s1 where a: "assign_attr thread tup port a t s = (r1, s1)" by fastforce
  have a1: "clean_templates fresh attrs s1" "\<And>t'. r1 = Inr t' \<Longrightarrow> from_fresh fresh attrs t'"
    "os_metric s1 = os_metric s" "os_out s1 = os_out s"
    using assign_step [OF a _ Cons.prems(3,4)] Cons.prems(2) by simp_all
  show ?case
  proof (cases r1)
    case (Inl e)
    then show ?thesis using Cons.prems(1) a a1 by (simp add: bindS_def)
  next
    case (Inr t1)
    then have "foldS (assign_attr thread tup port) rest t1 s1 = (r, s')"
      using Cons.prems(1) a by (simp add: bindS_def)
    from Cons.IH [OF this _ a1(2) [OF Inr] a1(1)] show ?thesis using Cons.prems(2) a1(3,4) by simp
  qed
qed (auto simp: retS_def)

lemma template_clean:
  assumes "query_template fresh qp thread tup port s = (r, s')" and "clean_templates fresh (qp_attrs qp) s"
  shows "clean_templates fresh (qp_attrs qp) s' \<and> (\<forall>t. r = Inr t \<longrightarrow> from_fresh fresh (qp_attrs qp) t) \<and>
         os_metric s' = os_metric s \<and> os_out s' = os_out s"
proof (cases "os_otuple s thread")
  case None
  let ?s = "s\<lparr>os_otuple := (os_otuple s)(thread := Some fresh)\<rparr>"
  have "clean_templates fresh (qp_attrs qp) ?s" "from_fresh fresh (qp_attrs qp) fresh"
    using assms(2) by (simp_all add: clean_templates_def from_fresh_def)
  then show ?thesis
    using assign_all [of thread tup port "qp_attrs qp" fresh ?s r s' "qp_attrs qp" fresh] assms(1) None
    by (simp add: query_template_def getOutputTuple_def bindS_def)
next
  case (Some t)
  then have "from_fresh fresh (qp_attrs qp) t" using assms(2) by (simp add: clean_templates_def)
  then show ?thesis
    using assign_all [of thread tup port "qp_attrs qp" t s r s' "qp_attrs qp" fresh] assms Some
    by (simp add: query_template_def getOutputTuple_def bindS_def)
qed


lemma tame_send:
  assumes "query_send env cl cfg qp qm thread tup port s = (r, s')"
  shows "os_metric s' = os_metric s \<and> os_out s' = os_out s \<and> os_otuple s' = os_otuple s \<and> r \<noteq> Inl NullPointer"
proof -
  have "sound NullPointer (eval_nToReturn port tup e)" for e
    by (auto simp: eval_nToReturn_def split: option.splits spl_val.splits intro!: tame_intros)
  then have "tame NullPointer (query_send env cl cfg qp qm thread tup port)"
    unfolding query_send_def by (intro tame_intros ub_simps)
  then show ?thesis using assms by (metis fst_conv snd_conv tame_def)
qed

text \<open>The loop leaves the templates alone, whatever the cursor does.\<close>

lemma loop_keeps:
  assumes "query_loop has_more next_obj emit c s = Some rs"
    and "\<And>d s. os_otuple (snd (emit d s)) = os_otuple s"
  shows "os_otuple (snd rs) = os_otuple s"
  using assms
proof (induction rule: query_loop.raw_induct [rotated, consumes 1, case_names step])
  case (step loop has_more next_obj emit c s rs)
  show ?case
  proof (cases "has_more c")
    case (Inr bc)
    obtain b c1 where bc: "bc = (b, c1)" by (cases bc)
    show ?thesis
    proof (cases "b \<and> (\<exists>d c2. next_obj c1 = Inr (d, c2))")
      case True
      then obtain d c2 where d: "b" "next_obj c1 = Inr (d, c2)" by blast
      obtain r1 s1 where e: "emit d s = (r1, s1)" by fastforce
      have k: "os_otuple s1 = os_otuple s" using step.prems [of d s] e by simp
      show ?thesis
        using step.hyps step.IH [of has_more next_obj emit c2 s1 rs, OF _ step.prems] k Inr bc d e
        by (cases r1) auto
    next
      case False
      then show ?thesis using step.hyps Inr bc by (auto split: if_splits sum.splits)
    qed
  qed (use step.hyps in auto)
qed

lemma results_keep:
  fixes s :: "'w op_state"
  assumes "query_results env has_more next_obj attrs port tup t cursor errorMsg s = Some (r, s')"
  shows "os_otuple s' = os_otuple s"
proof -
  have e: "os_otuple (snd (emit_doc env attrs port tup t d u)) = os_otuple u" for d and u :: "'w op_state"
    by (simp add: emit_doc_eq split: sum.split)
  have l: "os_otuple s2 = os_otuple s1"
    if "query_loop has_more next_obj (emit_doc env attrs port tup t) c s1 = Some (r2, s2)" for c s1 r2 and s2 :: "'w op_state"
    using loop_keeps [OF that e] by simp
  show ?thesis
    using assms by (auto simp: query_results_def splapplog_def incrementValue_def throwS_def submit_def Let_def
        split: if_splits option.splits sum.splits prod.splits dest!: l)
qed

section \<open>Properties of the query operator\<close>

lemma query_steps:
  assumes "query_template fresh qp thread tup port s = (Inr t, s1)"
    and "query_send env cl cfg qp qm thread tup port s1 = (Inr (cursor, errorMsg), s2)"
  shows "Query_process env cl has_more next_obj cfg fresh qp qm thread tup port s =
     query_results env has_more next_obj (qp_attrs qp) port tup t cursor errorMsg s2"
  by (simp add: Query_process_def assms)

lemma template_counts:
  assumes "query_template fresh qp thread tup port s = (r, s1)"
  shows "os_metric s1 = os_metric s \<and> os_out s1 = os_out s"
proof -
  have step: "os_metric (snd (assign_attr thread tup port a t s)) = os_metric s \<and>
      os_out (snd (assign_attr thread tup port a t s)) = os_out s" for a t and s :: "'a op_state"
    by (cases "qa_assign a") (auto simp: assign_attr_def retS_def Let_def bindS_def pureS_def split: sum.splits)
  have "os_metric (snd (foldS (assign_attr thread tup port) attrs t s)) = os_metric s \<and>
      os_out (snd (foldS (assign_attr thread tup port) attrs t s)) = os_out s" for attrs t and s :: "'a op_state"
  proof (induction attrs arbitrary: t s)
    case (Cons a rest)
    then show ?case using step [of a t s] by (auto simp: bindS_def split: prod.splits sum.splits)
  qed (simp add: retS_def)
  note loop = this
  obtain t0 s0 where g: "getOutputTuple fresh thread s = (Inr t0, s0)" "os_metric s0 = os_metric s" "os_out s0 = os_out s"
    by (cases "os_otuple s thread") (simp_all add: getOutputTuple_def)
  then have "foldS (assign_attr thread tup port) (qp_attrs qp) t0 s0 = (r, s1)"
    using assms by (simp add: query_template_def bindS_def)
  then show ?thesis using loop [of "qp_attrs qp" t0 s0] g by simp
qed

text \<open>The abstract answer: how the call ends, what it counts, submits and logs once the server has answered.\<close>

definition query_outcome ::
    "'a spl_env_scheme \<Rightarrow> query_attr list \<Rightarrow> nat \<Rightarrow> stuple \<Rightarrow> stuple \<Rightarrow> doc list option \<Rightarrow> bytes \<Rightarrow>
      (op_exn + unit) \<times> int \<times> out_item list \<times> (bytes \<times> bytes) list" where
  "query_outcome env attrs port tup t docs errorMsg =
     (if errorMsg \<noteq> [] then (Inr (), 0, [], [(errorMsg, lit ''MongoDB Query'')])
      else (case docs of
              None \<Rightarrow> (Inl NullPointer, 1, [], [])
            | Some ds \<Rightarrow>
                (case answer (fill_tuple env attrs port tup t) (changed_from env t) ds of
                   (r, ts) \<Rightarrow> (r, 1, ts @ closing t ds r, []))))"

lemma results_outcome:
  assumes "cursor_ops ok ready rest has_more next_obj" and "\<And>c. cursor = Some c \<Longrightarrow> ok c"
  shows "case query_outcome env attrs port tup t (map_option rest cursor) errorMsg of (r, k, ts, ls) \<Rightarrow>
     query_results env has_more next_obj attrs port tup t cursor errorMsg s =
       Some (r, s\<lparr>os_metric := os_metric s + k, os_out := os_out s @ ts, os_log := os_log s @ ls\<rparr>)"
proof (cases "errorMsg = [] \<and> (\<exists>c. cursor = Some c)")
  case True
  then obtain c where c: "errorMsg = []" "cursor = Some c" by blast
  then have "ok c" by (simp add: assms(2))
  from cursor_ops.results_answer [OF assms(1) this, of env attrs port tup t s] show ?thesis
    by (simp add: c query_outcome_def split: prod.split)
next
  case False
  then show ?thesis
    by (auto simp: query_outcome_def query_results_def splapplog_def incrementValue_def throwS_def)
qed

text \<open>C2: A query that the server answers with an error is logged: nothing is submitted and nothing counted.
  Otherwise it is counted once, and when the cursor keeps what its header promises the operator returns and
  has submitted, in the order of the documents, the tuple of each document as far as its hash code differs
  from the template's, then one window marker, or the template itself when there was no document. If a
  document raises, the tuples before it were submitted and no marker. A null cursor without an error is
  dereferenced.
\<close>

theorem query_answers:
  assumes "cursor_ops ok ready rest has_more next_obj" and "\<And>c. cursor = Some c \<Longrightarrow> ok c"
    and "query_template fresh qp thread tup port s = (Inr t, s1)"
    and "query_send env cl cfg qp qm thread tup port s1 = (Inr (cursor, errorMsg), s2)"
  shows "case query_outcome env (qp_attrs qp) port tup t (map_option rest cursor) errorMsg of (r, k, ts, ls) \<Rightarrow>
     \<exists>s'. Query_process env cl has_more next_obj cfg fresh qp qm thread tup port s = Some (r, s') \<and>
          os_metric s' = os_metric s + k \<and> os_out s' = os_out s @ ts \<and> os_log s' = os_log s2 @ ls"
proof -
  have "os_metric s2 = os_metric s \<and> os_out s2 = os_out s"
    using template_counts [OF assms(3)] tame_send [OF assms(4)] by simp
  then show ?thesis
    using results_outcome [OF assms(1,2), where env = env and attrs = "qp_attrs qp" and port = port and tup = tup and t = t
      and errorMsg = errorMsg and s = s2 and cursor = cursor]
    by (simp add: query_steps [OF assms(3,4)] split: prod.splits)
qed

text \<open>C14: The template of a thread never carries over what an earlier document or tuple put in: after every
  call, whatever the driver and the cursor did, each attribute without an assignment has its initial value
  in every template, so that an output tuple only holds what its own document and input tuple gave it.
\<close>

theorem templates_stay_clean:
  assumes "clean_templates fresh (qp_attrs qp) s"
    and "Query_process env cl has_more next_obj cfg fresh qp qm thread tup port s = Some (r, s')"
  shows "clean_templates fresh (qp_attrs qp) s'"
proof -
  obtain r1 s1 where t: "query_template fresh qp thread tup port s = (r1, s1)" by fastforce
  have c: "clean_templates fresh (qp_attrs qp) s1" using template_clean [OF t assms(1)] by blast
  have same: "clean_templates fresh (qp_attrs qp) u" if "os_otuple u = os_otuple s1" for u
    using c that by (simp add: clean_templates_def)
  show ?thesis
  proof (cases r1)
    case (Inl e)
    then show ?thesis using assms(2) t c by (simp add: Query_process_def)
  next
    case (Inr t1)
    obtain r2 s2 where q: "query_send env cl cfg qp qm thread tup port s1 = (r2, s2)" by fastforce
    then show ?thesis
      using assms(2) t Inr tame_send [OF q] by (cases r2) (auto simp: Query_process_def dest!: results_keep intro: same)
  qed
qed

text \<open>A query for one string attribute, for the examples.\<close>

definition sample_query :: query_params where
  "sample_query =
     \<lparr>qp_db = const_expr TRString (SRString (lit ''db'')), qp_collection = const_expr TRString (SRString (lit ''c'')),
      qp_findQuery = None, qp_findFields = None, qp_nToReturn = None,
      qp_attrs = [\<lparr>qa_name = lit ''k'', qa_type = TRString, qa_assign = QueryDocumentField None\<rparr>]\<rparr>"

definition sample_members :: query_members where
  "sample_members = \<lparr>qm_findFieldsBO = [], qm_findQueryBO = []\<rparr>"

definition sample_tuple :: "bytes \<Rightarrow> stuple" where
  "sample_tuple v = [(lit ''k'', SRString v)]"

lemma sample_template:
  "query_template (sample_tuple []) sample_query 1 [] 0 (start_state w) =
     (Inr (sample_tuple []), (start_state w)\<lparr>os_otuple := [1 \<mapsto> sample_tuple []]\<rparr>)"
  by (simp add: query_template_def getOutputTuple_def start_state_def bindS_def sample_query_def assign_attr_def retS_def)

lemma sample_send:
  "query_send (sample_env parse) (sample_client c) (sample_config True None) sample_query sample_members 1 [] 0
     ((start_state ([], [])) \<lparr>os_otuple := m\<rparr>) =
   (Inr (Some c, []), (start_state ([], []))\<lparr>os_otuple := m, os_conns := [1 \<mapsto> 0]\<rparr>)"
  by (simp add: query_send_def bindS_def pureS_def current_object_def sample_query_def sample_members_def eval_rstring_def
      eval_on_def const_expr_def rstring_of_def ready_connection_def getDBClientConnection_def start_state_def
      sample_client_def sample_config_def driver_def on_DBException_def authenticate_def retS_def check_connection_def
      set_profiling_def eval_nToReturn_def)

lemma sample_fill:
  "fill_tuple (sample_env parse) (qp_attrs sample_query) 0 [] (sample_tuple v) d =
     Inr (case map_of d (lit ''k'') of Some (VString u) \<Rightarrow> sample_tuple u | _ \<Rightarrow> sample_tuple v)"
  by (auto simp: fill_tuple_def sample_query_def fill_one_def eval_path_def eval_key_def fill_attribute_def initBSONObject_def
      sample_env_def get_attr_def sample_tuple_def query_handlePrimitive_def simple_val_def handleRString_def applied_def
      set_attr_def split: option.split bson_val.split)

text \<open>Three documents: one with the attribute, one with an empty one, one without.\<close>

definition sample_docs :: "doc list" where
  "sample_docs = [[(lit ''k'', VString (lit ''x''))], [(lit ''k'', VString [])], []]"

lemma sample_docs_ok: "mc_ok (sample_cursor [] sample_docs [])"
  by (rule sample_ok) (simp_all add: sample_docs_def)

lemma sample_docs_rest: "mc_rest (sample_cursor [] sample_docs []) = sample_docs"
  by (simp add: mc_rest_def sample_cursor_def)

lemma sample_answer:
  "answer (fill_tuple (sample_env parse) (qp_attrs sample_query) 0 [] (sample_tuple []))
     (changed_from (sample_env parse) (sample_tuple [])) sample_docs = (Inr (), [Submit (sample_tuple (lit ''x''))])"
  by (simp add: sample_docs_def sample_fill changed_from_def)
    (simp add: sample_env_def sample_tuple_def lit_def)

theorem query_answers_witness:
  "\<exists>s'. Query_process (sample_env (\<lambda>s. Inr [])) (sample_client (sample_cursor [] sample_docs [])) mc_more mc_next
          (sample_config True None) (sample_tuple []) sample_query sample_members 1 [] 0 (start_state ([], [])) = Some (Inr (), s') \<and>
        os_metric s' = 1 \<and> os_out s' = [Submit (sample_tuple (lit ''x'')), WindowMarker]"
proof -
  let ?c = "sample_cursor [] sample_docs []"
  have "query_outcome (sample_env (\<lambda>s. Inr [])) (qp_attrs sample_query) 0 [] (sample_tuple []) (map_option mc_rest (Some ?c)) [] =
      (Inr (), 1, [Submit (sample_tuple (lit ''x'')), WindowMarker], [])"
    by (simp add: query_outcome_def sample_docs_rest sample_answer closing_def) (simp add: sample_docs_def)
  with query_answers [OF mco.cursor_ops_axioms _ sample_template sample_send, of ?c "\<lambda>s. Inr []"] sample_docs_ok
  show ?thesis by (auto simp: start_state_def)
qed

lemma sample_run:
  "Query_process (sample_env parse) (sample_client (sample_cursor [] sample_docs [])) mc_more mc_next
     (sample_config True None) (sample_tuple []) sample_query sample_members 1 [] 0 (start_state ([], [])) =
   Some (Inr (), (start_state ([], []))\<lparr>os_otuple := [1 \<mapsto> sample_tuple []], os_conns := [1 \<mapsto> 0], os_metric := 1,
     os_out := [Submit (sample_tuple (lit ''x'')), WindowMarker]\<rparr>)"
proof -
  let ?c = "sample_cursor [] sample_docs []"
  have "query_outcome (sample_env parse) (qp_attrs sample_query) 0 [] (sample_tuple []) (Some (mc_rest ?c)) [] =
      (Inr (), 1, [Submit (sample_tuple (lit ''x'')), WindowMarker], [])"
    by (simp add: query_outcome_def sample_docs_rest sample_answer closing_def) (simp add: sample_docs_def)
  then show ?thesis
    unfolding query_steps [OF sample_template sample_send]
    using results_outcome [OF mco.cursor_ops_axioms, of "Some ?c" "sample_env parse" "qp_attrs sample_query" 0 "[]"
        "sample_tuple []" "[]" "start_state ([], []) \<lparr>os_otuple := [1 \<mapsto> sample_tuple []], os_conns := [1 \<mapsto> 0]\<rparr>"]
      sample_docs_ok
    by (simp add: start_state_def)
qed

theorem templates_stay_clean_witness:
  "\<exists>s'. Query_process (sample_env (\<lambda>s. Inr [])) (sample_client (sample_cursor [] sample_docs [])) mc_more mc_next
          (sample_config True None) (sample_tuple []) sample_query sample_members 1 [] 0 (start_state ([], [])) = Some (Inr (), s') \<and>
        os_otuple s' 1 = Some (sample_tuple []) \<and> clean_templates (sample_tuple []) (qp_attrs sample_query) s'"
proof -
  have "clean_templates (sample_tuple []) (qp_attrs sample_query) (start_state ([], []))"
    by (simp add: clean_templates_def start_state_def)
  note clean = templates_stay_clean [OF this sample_run [of "\<lambda>s. Inr []"]]
  show ?thesis by (intro exI conjI, rule sample_run, simp, rule clean)
qed



text \<open>C1: What Insert writes, Query reads: the object that an insert builds for a value under a key, when the
  server returns it with its object id in front, makes the query operator submit the template with that
  very value in the attribute of the key's name, and one marker, for every value that comes back exactly
  and changes the hash code.
\<close>

theorem insert_then_query:
  assumes "env_ok env" and "cursor_ops ok ready rest has_more next_obj" and "ok c"
    and "key_and_expr params = (Some ke, e)" and "\<not> isJson_name operation"
    and "eval_on iport itup ke = Inr (SRString k)" and "eval_on iport itup e = Inr v"
    and "has_type (ex_type e) v" and "exact (ex_type e) v" and "type_ok (ex_type e)" and "cstring k" and "k \<noteq> lit ''_id''"
    and "qp_attrs qp = [\<lparr>qa_name = k, qa_type = ex_type e, qa_assign = QueryDocumentField None\<rparr>]"
    and "query_template fresh qp thread tup port s = (Inr t, s1)"
    and "query_send env cl cfg qp qm thread tup port s1 = (Inr (Some c, []), s2)"
    and "map_of t k = Some cur" and "blank (ex_type e) cur" and "changed_from env t (set_attr k v t)"
  shows "\<exists>d. bson_obj env operation params iport itup = Inr d \<and>
     (rest c = [(lit ''_id'', VOID oid) # d] \<longrightarrow>
        (\<exists>s'. Query_process env cl has_more next_obj cfg fresh qp qm thread tup port s = Some (Inr (), s') \<and>
              os_out s' = os_out s @ [Submit (set_attr k v t), WindowMarker]))"
proof -
  obtain d where d: "buildBSONObjectWithKey env (Some k) (ex_type e) False v = Inr d"
    "fill_attribute env k (ex_type e) False None ((lit ''_id'', VOID oid) # d) t = Inr (set_attr k v t)"
    using stored_attribute [OF assms(1,8-12,16,17)] by blast
  have b: "bson_obj env operation params iport itup = Inr d"
    by (simp add: bson_obj_def assms(4-7) eval_key_def rstring_of_def d(1))
  have "query_outcome env (qp_attrs qp) port tup t (Some [(lit ''_id'', VOID oid) # d]) [] =
      (Inr (), 1, [Submit (set_attr k v t), WindowMarker], [])"
    by (simp add: query_outcome_def fill_tuple_def assms(13,18) fill_one_def eval_path_def eval_key_def d(2) closing_def)
  then show ?thesis
    using results_outcome [OF assms(2), where cursor = "Some c" and env = env and attrs = "qp_attrs qp" and port = port
        and tup = tup and t = t and errorMsg = "[]" and s = s2] assms(3)
      template_counts [OF assms(14)] tame_send [OF assms(15)] b
    by (auto simp: query_steps [OF assms(14,15)])
qed

theorem insert_then_query_witness:
  "\<exists>s'. Query_process (sample_env (\<lambda>s. Inr []))
         (sample_client (sample_cursor [] [[(lit ''_id'', VOID []), (lit ''k'', VString (lit ''x''))]] [])) mc_more mc_next
         (sample_config True None) (sample_tuple []) sample_query sample_members 1 [] 0 (start_state ([], [])) =
           Some (Inr (), s') \<and>
        os_out s' = [Submit (sample_tuple (lit ''x'')), WindowMarker]"
proof -
  let ?c = "sample_cursor [] [[(lit ''_id'', VOID []), (lit ''k'', VString (lit ''x''))]] []"
  let ?ke = "const_expr TRString (SRString (lit ''k''))" and ?e = "const_expr TRString (SRString (lit ''x''))"
  let ?ps = "[const_expr TRString (SRString []), const_expr TRString (SRString []), ?ke, ?e]"
  have ok: "mc_ok ?c" by (rule sample_ok) simp_all
  have r: "mc_rest ?c = [[(lit ''_id'', VOID []), (lit ''k'', VString (lit ''x''))]]"
    by (simp add: mc_rest_def sample_cursor_def)
  have k: "cstring (lit ''k'')" "lit ''k'' \<noteq> lit ''_id''" by (simp_all add: lit_def cstring_def)
  have b: "bson_obj (sample_env (\<lambda>s. Inr [])) ''InsertDocument'' ?ps 0 [] = Inr [(lit ''k'', VString (lit ''x''))]"
    using k by (simp add: bson_obj_def key_and_expr_def eval_key_def eval_on_def const_expr_def rstring_of_def
        isJson_name_def suffix_def buildBSONObjectWithKey_def)
  have args: "key_and_expr ?ps = (Some ?ke, ?e)" "\<not> isJson_name ''InsertDocument''"
    "eval_on 0 [] ?ke = Inr (SRString (lit ''k''))" "eval_on 0 [] ?e = Inr (SRString (lit ''x''))"
    "has_type (ex_type ?e) (SRString (lit ''x''))" "exact (ex_type ?e) (SRString (lit ''x''))" "type_ok (ex_type ?e)"
    by (simp_all add: key_and_expr_def isJson_name_def suffix_def eval_on_def const_expr_def)
  have q: "qp_attrs sample_query = [\<lparr>qa_name = lit ''k'', qa_type = ex_type ?e, qa_assign = QueryDocumentField None\<rparr>]"
    by (simp add: sample_query_def const_expr_def)
  have t: "map_of (sample_tuple []) (lit ''k'') = Some (SRString [])" "blank (ex_type ?e) (SRString [])"
    "set_attr (lit ''k'') (SRString (lit ''x'')) (sample_tuple []) = sample_tuple (lit ''x'')"
    by (simp_all add: sample_tuple_def const_expr_def set_attr_def)
  have h: "changed_from (sample_env (\<lambda>s. Inr [])) (sample_tuple []) (set_attr (lit ''k'') (SRString (lit ''x'')) (sample_tuple []))"
    unfolding t(3) by (simp add: changed_from_def sample_env_def sample_tuple_def lit_def)
  show ?thesis
    using insert_then_query [where env = "sample_env (\<lambda>s. Inr [])" and params = ?ps and ke = ?ke and e = ?e and
        operation = "''InsertDocument''" and iport = 0 and itup = "[]" and k = "lit ''k''" and v = "SRString (lit ''x'')" and
        qp = sample_query and t = "sample_tuple []" and c = ?c and oid = "[]",
        OF sample_env_ok mco.cursor_ops_axioms ok args k q sample_template sample_send t(1,2) h]
    by (simp add: b r t(3)) (simp add: start_state_def)
qed

end
