(* ===== verification/OperatorRuns.thy ===== *)
theory OperatorRuns
  imports QueryOperator "HOL-Library.Sublist"
begin

text \<open>
  An operator over time: the calls of \<^verbatim>\<open>allPortsReady\<close> and \<^verbatim>\<open>process\<close> that the runtime makes, by any threads
  and in any order, as a step relation, and what holds in every state that it reaches. The body of a call
  is one step: the connection and the template of a thread are its own (\<^verbatim>\<open>thread_specific_ptr\<close>), the metric
  and the port are the runtime's.
\<close>

section \<open>The calls of an operator\<close>

datatype operator =
    OpInsert stuple nat "write_attr list"
  | OpUpdate "spl_expr option" doc stuple nat "write_attr list"
  | OpDelete "spl_expr option" doc stuple "write_attr list"
  | OpQuery stuple query_params query_members

inductive op_call ::
    "'a spl_env_scheme \<Rightarrow> ('w, 'c) client \<Rightarrow> ('c \<Rightarrow> (bool \<times> 'c) res) \<Rightarrow> ('c \<Rightarrow> (doc \<times> 'c) res) \<Rightarrow> op_config \<Rightarrow>
      operator \<Rightarrow> 'w op_state \<Rightarrow> 'w op_state \<Rightarrow> bool"
  for env cl has_more next_obj cfg where
  ready: "op_call env cl has_more next_obj cfg op s s'"
    if "allPortsReady cl cfg s = (r, s')"
| insert: "op_call env cl has_more next_obj cfg (OpInsert fresh n attrs) s s'"
    if "Insert_process env cl cfg fresh n attrs thread tup port s = (r, s')"
| update: "op_call env cl has_more next_obj cfg (OpUpdate findQuery cachedBO fresh n attrs) s s'"
    if "Update_process env cl cfg findQuery cachedBO fresh n attrs thread tup port s = (r, s')"
| delete: "op_call env cl has_more next_obj cfg (OpDelete findQuery cachedBO fresh attrs) s s'"
    if "Delete_process env cl cfg findQuery cachedBO fresh attrs thread tup port s = (r, s')"
| query: "op_call env cl has_more next_obj cfg (OpQuery fresh qp qm) s s'"
    if "Query_process env cl has_more next_obj cfg fresh qp qm thread tup port s = Some (r, s')"

definition reaches ::
    "'a spl_env_scheme \<Rightarrow> ('w, 'c) client \<Rightarrow> ('c \<Rightarrow> (bool \<times> 'c) res) \<Rightarrow> ('c \<Rightarrow> (doc \<times> 'c) res) \<Rightarrow> op_config \<Rightarrow>
      operator \<Rightarrow> 'w op_state \<Rightarrow> 'w op_state \<Rightarrow> bool" where
  "reaches env cl has_more next_obj cfg op = (op_call env cl has_more next_obj cfg op)\<^sup>*\<^sup>*"

section \<open>Relations that steps respect\<close>

definition obeys :: "('w op_state \<Rightarrow> 'w op_state \<Rightarrow> bool) \<Rightarrow> ('w, 'a) act \<Rightarrow> bool" where
  "obeys R m \<longleftrightarrow> (\<forall>s. R s (snd (m s)))"

text \<open>A preorder on states is respected by what is composed of steps that respect it.\<close>

locale step_preorder =
  fixes R :: "'w op_state \<Rightarrow> 'w op_state \<Rightarrow> bool"
  assumes refl: "R s s"
    and trans: "R s t \<Longrightarrow> R t u \<Longrightarrow> R s u"
    and logs: "R s (s\<lparr>os_log := os_log s @ l\<rparr>)"
    and counts: "R s (s\<lparr>os_metric := os_metric s + 1\<rparr>)"
    and submits: "R s (s\<lparr>os_out := os_out s @ out\<rparr>)"
    and templates: "R s (s\<lparr>os_otuple := m\<rparr>)"
begin

lemma obeys_ret: "obeys R (retS x)"
  by (simp add: obeys_def retS_def refl)

lemma obeys_throw: "obeys R (throwS e)"
  by (simp add: obeys_def throwS_def refl)

lemma obeys_pure: "obeys R (pureS r)"
  by (simp add: obeys_def pureS_def refl)

lemma obeys_log: "obeys R (splapplog msg aspect)"
  by (simp add: obeys_def splapplog_def logs)

lemma obeys_count: "obeys R incrementValue"
  by (simp add: obeys_def incrementValue_def counts)

lemma obeys_submit: "obeys R (submit t)"
  by (simp add: obeys_def submit_def submits)

lemma obeys_bind:
  assumes "obeys R m" and "\<And>x. obeys R (f x)"
  shows "obeys R (bindS m f)"
proof -
  have "R s (snd (bindS m f s))" for s
  proof -
    obtain r s1 where m: "m s = (r, s1)" by fastforce
    then have "R s s1" using assms(1) by (metis obeys_def snd_conv)
    moreover have "R s1 (snd (f x s1))" for x using assms(2) by (simp add: obeys_def)
    ultimately show ?thesis using m by (cases r) (auto simp: bindS_def intro: trans)
  qed
  then show ?thesis by (simp add: obeys_def)
qed

lemma obeys_fold: "(\<And>x a. obeys R (f x a)) \<Longrightarrow> obeys R (foldS f xs a)"
  by (induction xs arbitrary: a) (simp_all add: obeys_ret obeys_bind)

lemma obeys_on_DBException:
  assumes "obeys R m"
  shows "obeys R (on_DBException cfg m)"
proof -
  have "R s (snd (on_DBException cfg m s))" for s
  proof -
    obtain r s1 where m: "m s = (r, s1)" by fastforce
    then have "R s s1" using assms by (metis obeys_def snd_conv)
    then show ?thesis
      using logs [of s1] by (auto simp: on_DBException_def m splapplog_def throwS_def split: sum.split op_exn.split intro: trans)
  qed
  then show ?thesis by (simp add: obeys_def)
qed

lemmas obeys_parts =
  obeys_ret obeys_throw obeys_pure obeys_log obeys_count obeys_submit obeys_bind obeys_fold
  obeys_on_DBException

lemma obeys_process:
  assumes "\<And>operation params. obeys R (wr operation params)"
  shows "obeys R (write_process wr fresh aspect port tup attrs)"
proof -
  have "obeys R (process_attr wr fresh aspect port tup a l)" for a l
    by (auto simp: process_attr_def report_def Let_def split: option.split intro!: obeys_parts assms)
  then show ?thesis
    unfolding write_process_def by (auto split: option.split intro!: obeys_parts)
qed

lemma obeys_loop:
  assumes "query_loop has_more next_obj emit c s = Some rs" and "\<And>d. obeys R (emit d)"
  shows "R s (snd rs)"
  using assms
proof (induction rule: query_loop.raw_induct [rotated, consumes 1, case_names step])
  case (step loop has_more next_obj emit c s rs)
  show ?case
  proof (cases "\<exists>c1 d c2. has_more c = Inr (True, c1) \<and> next_obj c1 = Inr (d, c2)")
    case True
    then obtain c1 d c2 where d: "has_more c = Inr (True, c1)" "next_obj c1 = Inr (d, c2)" by blast
    obtain r1 s1 where e: "emit d s = (r1, s1)" by fastforce
    have k: "R s s1" using step.prems [of d] e by (metis obeys_def snd_conv)
    show ?thesis
      using step.hyps step.IH [of has_more next_obj emit c2 s1 rs, OF _ step.prems] k d e
      by (cases r1) (auto intro: trans)
  next
    case False
    then show ?thesis using step.hyps refl by (auto split: if_splits sum.splits)
  qed
qed

lemma obeys_results:
  assumes "query_results env has_more next_obj attrs port tup t cursor errorMsg s = Some (r, s')"
  shows "R s s'"
proof -
  have e: "obeys R (emit_doc env attrs port tup t d)" for d
    unfolding emit_doc_def by (auto simp: Let_def intro!: obeys_parts)
  have l: "R s1 s2" if "query_loop has_more next_obj (emit_doc env attrs port tup t) c s1 = Some (r2, s2)" for c s1 r2 s2
    using obeys_loop [OF that e] by simp
  have lo: "R s1 (s2\<lparr>os_out := os_out s2 @ ts\<rparr>)"
    if "query_loop has_more next_obj (emit_doc env attrs port tup t) c s1 = Some (r2, s2)" for c s1 r2 s2 ts
    using l [OF that] submits by (rule trans)
  show ?thesis
  proof (cases "errorMsg = []")
    case True
    let ?s = "s\<lparr>os_metric := os_metric s + 1\<rparr>"
    have "R ?s s'"
      using assms True by (auto simp: query_results_def incrementValue_def throwS_def submit_def Let_def refl
          split: option.splits sum.splits prod.splits intro: l lo)
    then show ?thesis using counts trans by blast
  next
    case False
    then show ?thesis using assms by (auto simp: query_results_def splapplog_def logs)
  qed
qed

end

text \<open>With what the driver's operations do when a thread gets its connection, getting one respects it.\<close>

locale connect_preorder = step_preorder R for R :: "'w op_state \<Rightarrow> 'w op_state \<Rightarrow> bool" +
  fixes cl :: "('w, 'c) client"
  assumes start: "cl_new cl a t (os_world s) = (c, w) \<Longrightarrow> R s (s\<lparr>os_world := w\<rparr>)"
    and connection: "cl_new cl a t (os_world s) = (c, w) \<Longrightarrow> os_conns s thread = None \<Longrightarrow>
      R s (s\<lparr>os_world := w, os_conns := (os_conns s)(thread := Some c)\<rparr>)"
    and connects: "obeys R (driver (cl_connect cl conn url))"
    and auths: "obeys R (driver (cl_auth_params cl conn d))" "obeys R (driver (cl_auth cl conn db user pw))"
    and checks: "obeys R (driver (cl_isStillConnected cl conn))"
    and profiles: "obeys R (driver (cl_setDbProfilingLevel cl conn db level))"
    and errors: "obeys R (driver (cl_getLastError cl conn))"
begin

lemmas obeys_driver = connects auths checks profiles errors

lemma obeys_ready_ports: "obeys R (allPortsReady cl cfg)"
proof -
  have "obeys R (\<lambda>s. case cl_new cl False 0 (os_world s) of (conn, w) \<Rightarrow>
      driver (cl_connect cl conn (buildConnUrl (cf_dbHost cfg) (cf_dbPort cfg))) (s\<lparr>os_world := w\<rparr>))"
    unfolding obeys_def
  proof
    fix s :: "'w op_state"
    obtain conn w where n: "cl_new cl False 0 (os_world s) = (conn, w)" by fastforce
    have "R (s\<lparr>os_world := w\<rparr>) (snd (driver (cl_connect cl conn url) (s\<lparr>os_world := w\<rparr>)))" for url
      using connects by (simp add: obeys_def)
    then show "R s (snd (case cl_new cl False 0 (os_world s) of (conn, w) \<Rightarrow>
        driver (cl_connect cl conn (buildConnUrl (cf_dbHost cfg) (cf_dbPort cfg))) (s\<lparr>os_world := w\<rparr>)))"
      using start [OF n] by (simp add: n) (blast intro: trans)
  qed
  then show ?thesis unfolding allPortsReady_def by (rule obeys_on_DBException)
qed

lemma obeys_authenticate: "obeys R (authenticate env cl cfg connPtr db)"
  unfolding authenticate_def by (auto split: option.split intro!: obeys_parts obeys_driver)

lemma obeys_connection: "obeys R (getDBClientConnection env cl cfg thread db)"
  unfolding obeys_def
proof
  fix s :: "'w op_state"
  show "R s (snd (getDBClientConnection env cl cfg thread db s))"
  proof (cases "os_conns s thread")
    case None
    obtain conn w where n: "cl_new cl (cf_autoReconnect cfg) (cf_timeout cfg) (os_world s) = (conn, w)" by fastforce
    let ?s = "s\<lparr>os_world := w, os_conns := (os_conns s)(thread := Some conn)\<rparr>"
    let ?body = "bindS (on_DBException cfg
        (bindS (driver (cl_connect cl conn (buildConnUrl (cf_dbHost cfg) (cf_dbPort cfg)))) (\<lambda>_.
          authenticate env cl cfg conn db))) (\<lambda>_. retS conn)"
    have "obeys R ?body" by (intro obeys_parts obeys_driver obeys_authenticate)
    then have "R ?s (snd (?body ?s))" by (simp add: obeys_def)
    then show ?thesis
      using connection [OF n None] by (simp add: getDBClientConnection_def None n) (blast intro: trans)
  qed (simp add: connection_cached refl)
qed

lemma obeys_check: "obeys R (check_connection cl cfg connPtr)"
proof -
  have "obeys R (bindS (splapplog m a) (\<lambda>_. bindS (driver (cl_isStillConnected cl connPtr)) (\<lambda>_. retS ())))" for m a
    by (intro obeys_parts obeys_driver)
  then show ?thesis by (auto simp: obeys_def check_connection_def throwS_def retS_def refl)
qed

lemma obeys_profiling: "obeys R (set_profiling cl cfg connPtr db)"
  unfolding set_profiling_def by (auto split: ProfilingLevel.split intro!: obeys_parts obeys_driver)

lemma obeys_ready: "obeys R (ready_connection env cl cfg thread db)"
  unfolding ready_connection_def by (intro obeys_parts obeys_connection obeys_check obeys_profiling)

end

text \<open>With what writes and queries do, every call respects it.\<close>

locale call_preorder = connect_preorder R cl for R :: "'w op_state \<Rightarrow> 'w op_state \<Rightarrow> bool" and cl :: "('w, 'c) client" +
  assumes writes: "obeys R (driver (cl_insert cl conn ns d))" "obeys R (driver (cl_update cl conn ns q d upsert multi))"
      "obeys R (driver (cl_remove cl conn ns q justOne))"
    and queries: "obeys R (driver (cl_query cl conn ns q n flds))"
begin

lemma obeys_writes:
  "obeys R (insert_write env cl cfg n thread port tup operation params)"
  "obeys R (update_write env cl cfg findQuery cachedBO n thread port tup operation params)"
  "obeys R (delete_write env cl cfg findQuery cachedBO thread port tup operation params)"
  unfolding insert_write_def update_write_def delete_write_def
  by (auto intro!: obeys_parts obeys_driver writes obeys_ready)

lemma obeys_send: "obeys R (query_send env cl cfg qp qm thread tup port)"
  unfolding query_send_def by (intro obeys_parts obeys_driver queries obeys_ready)

lemma obeys_template: "obeys R (query_template fresh qp thread tup port)"
proof -
  have "obeys R (getOutputTuple fresh thread)"
    by (auto simp: obeys_def getOutputTuple_def refl templates split: option.split)
  moreover have "obeys R (assign_attr thread tup port a t)" for a t
  proof -
    have "obeys R (\<lambda>s. let u = set_attr n v t in (Inr u, s\<lparr>os_otuple := (os_otuple s)(thread := Some u)\<rparr>))" for n v
      by (simp add: obeys_def Let_def templates)
    then show ?thesis
      unfolding assign_attr_def by (auto simp: Let_def split: query_assign.split intro!: obeys_parts)
  qed
  ultimately show ?thesis unfolding query_template_def by (intro obeys_parts)
qed

lemma query_obeys:
  assumes "Query_process env cl has_more next_obj cfg fresh qp qm thread tup port s = Some (r, s')"
  shows "R s s'"
proof -
  obtain r1 s1 where t: "query_template fresh qp thread tup port s = (r1, s1)" by fastforce
  have 1: "R s s1" using obeys_template by (metis obeys_def snd_conv t)
  show ?thesis
  proof (cases r1)
    case (Inr t1)
    obtain r2 s2 where q: "query_send env cl cfg qp qm thread tup port s1 = (r2, s2)" by fastforce
    have 2: "R s s2" using 1 obeys_send by (metis obeys_def snd_conv q trans)
    then show ?thesis
      using assms t Inr q
      by (cases r2) (auto simp: Query_process_def split: prod.splits dest!: obeys_results intro: trans)
  qed (use assms t 1 in \<open>simp add: Query_process_def\<close>)
qed

lemma call_obeys: "op_call env cl has_more next_obj cfg op s s' \<Longrightarrow> R s s'"
proof (induction rule: op_call.cases)
  case (ready op s s' r)
  then show ?case by (metis obeys_def obeys_ready_ports snd_conv)
next
  case (insert fresh n attrs thread tup port s r s')
  then show ?case unfolding Insert_process_def by (metis obeys_def obeys_process obeys_writes(1) snd_conv)
next
  case (update findQuery cachedBO fresh n attrs thread tup port s r s')
  then show ?case unfolding Update_process_def by (metis obeys_def obeys_process obeys_writes(2) snd_conv)
next
  case (delete findQuery cachedBO fresh attrs thread tup port s r s')
  then show ?case unfolding Delete_process_def by (metis obeys_def obeys_process obeys_writes(3) snd_conv)
next
  case (query fresh qp qm thread tup port s r s')
  then show ?case using query_obeys by blast
qed

lemma reaches_obeys: "reaches env cl has_more next_obj cfg op s s' \<Longrightarrow> R s s'"
  unfolding reaches_def by (induction rule: rtranclp_induct) (auto intro: refl trans call_obeys)

end

section \<open>What was reported stays\<close>

definition grows :: "'w op_state \<Rightarrow> 'w op_state \<Rightarrow> bool" where
  "grows s s' \<longleftrightarrow> os_metric s \<le> os_metric s' \<and> prefix (os_log s) (os_log s') \<and> prefix (os_out s) (os_out s')"

lemma driver_grows: "obeys grows (driver op)"
  by (auto simp: obeys_def driver_def grows_def split: prod.split)

interpretation history: call_preorder grows cl
  by unfold_locales (auto simp: grows_def driver_grows intro: prefix_order.trans)

section \<open>Connections are confined to threads\<close>

text \<open>
  What is assumed of the driver: \<open>used w\<close> are the connections that exist, a new one is not among them, and
  no operation makes one disappear from the world.
\<close>

definition keeps_used :: "('w \<Rightarrow> nat set) \<Rightarrow> ('w \<Rightarrow> 'r \<times> 'w) \<Rightarrow> bool" where
  "keeps_used used op \<longleftrightarrow> (\<forall>w. used w \<subseteq> used (snd (op w)))"

definition client_fresh :: "('w \<Rightarrow> nat set) \<Rightarrow> ('w, 'c) client \<Rightarrow> bool" where
  "client_fresh used cl \<longleftrightarrow>
     (\<forall>a t w. fst (cl_new cl a t w) \<notin> used w \<and> fst (cl_new cl a t w) \<in> used (snd (cl_new cl a t w)) \<and>
              used w \<subseteq> used (snd (cl_new cl a t w))) \<and>
     (\<forall>c url. keeps_used used (cl_connect cl c url)) \<and> (\<forall>c d. keeps_used used (cl_auth_params cl c d)) \<and>
     (\<forall>c db u p. keeps_used used (cl_auth cl c db u p)) \<and> (\<forall>c. keeps_used used (cl_isStillConnected cl c)) \<and>
     (\<forall>c db l. keeps_used used (cl_setDbProfilingLevel cl c db l)) \<and>
     (\<forall>c ns d. keeps_used used (cl_insert cl c ns d)) \<and>
     (\<forall>c ns q d u m. keeps_used used (cl_update cl c ns q d u m)) \<and>
     (\<forall>c ns q j. keeps_used used (cl_remove cl c ns q j)) \<and>
     (\<forall>c ns q n f. keeps_used used (cl_query cl c ns q n f)) \<and> (\<forall>c. keeps_used used (cl_getLastError cl c))"

definition confined :: "('w \<Rightarrow> nat set) \<Rightarrow> 'w op_state \<Rightarrow> bool" where
  "confined used s \<longleftrightarrow>
     (\<forall>t c. os_conns s t = Some c \<longrightarrow> c \<in> used (os_world s) \<and> (\<forall>t'. os_conns s t' = Some c \<longrightarrow> t' = t))"

definition confines :: "('w \<Rightarrow> nat set) \<Rightarrow> ('w, 'c) client \<Rightarrow> 'w op_state \<Rightarrow> 'w op_state \<Rightarrow> bool" where
  "confines used cl s s' \<longleftrightarrow>
     (client_fresh used cl \<longrightarrow> confined used s \<longrightarrow> confined used s' \<and> os_conns s \<subseteq>\<^sub>m os_conns s')"

lemma driver_confines:
  assumes "client_fresh used cl \<Longrightarrow> keeps_used used op"
  shows "obeys (confines used cl) (driver op)"
  unfolding obeys_def confines_def
proof (intro allI impI)
  fix s assume a: "client_fresh used cl" "confined used s"
  have u: "used (os_world s) \<subseteq> used (snd (op (os_world s)))" using assms [OF a(1)] by (simp add: keeps_used_def)
  have d: "os_world (snd (driver op s)) = snd (op (os_world s))" "os_conns (snd (driver op s)) = os_conns s"
    by (simp_all add: driver_def split: prod.split)
  show "confined used (snd (driver op s)) \<and> os_conns s \<subseteq>\<^sub>m os_conns (snd (driver op s))"
    using a(2) u unfolding confined_def d by (simp add: subset_iff)
qed

lemma confines_same: "os_conns s' = os_conns s \<Longrightarrow> os_world s' = os_world s \<Longrightarrow> confines used cl s s'"
  by (simp add: confines_def confined_def)

lemma confines_trans: "confines used cl s t \<Longrightarrow> confines used cl t u \<Longrightarrow> confines used cl s u"
  by (auto simp: confines_def intro: map_le_trans)

lemma client_freshD:
  assumes "client_fresh used cl"
  shows "keeps_used used (cl_connect cl c url)" "keeps_used used (cl_auth_params cl c d)"
    "keeps_used used (cl_auth cl c db u p)" "keeps_used used (cl_isStillConnected cl c)"
    "keeps_used used (cl_setDbProfilingLevel cl c db l)" "keeps_used used (cl_insert cl c ns d)"
    "keeps_used used (cl_update cl c ns q d up m)" "keeps_used used (cl_remove cl c ns q j)"
    "keeps_used used (cl_query cl c ns q n f)" "keeps_used used (cl_getLastError cl c)"
  using assms by (simp_all add: client_fresh_def)

lemma confines_new:
  assumes n: "cl_new cl a t (os_world s) = (c, w)"
  shows "confines used cl s (s\<lparr>os_world := w\<rparr>)"
    and "os_conns s thread = None \<Longrightarrow>
      confines used cl s (s\<lparr>os_world := w, os_conns := (os_conns s)(thread := Some c)\<rparr>)"
proof -
  have f: "c \<notin> used (os_world s) \<and> c \<in> used w \<and> used (os_world s) \<subseteq> used w" if "client_fresh used cl"
    using n that unfolding client_fresh_def by (metis fst_conv snd_conv)
  then show "confines used cl s (s\<lparr>os_world := w\<rparr>)"
    by (simp add: confines_def confined_def subset_iff)
  assume "os_conns s thread = None"
  then show "confines used cl s (s\<lparr>os_world := w, os_conns := (os_conns s)(thread := Some c)\<rparr>)"
    using f by (auto simp: confines_def confined_def map_le_def subset_iff)
qed

interpretation threads: call_preorder "confines used cl" cl
  by unfold_locales
    (simp add: confines_same | rule confines_new driver_confines | assumption | erule client_freshD | erule (1) confines_trans)+

section \<open>What is sent to the server\<close>

text \<open>
  The requests that the driver has sent are a part of the world, \<open>outbox w\<close>. A write that returns has sent one
  request, and connecting, the profiling level and asking for the last error send none of these.
\<close>

datatype request =
    InsertRequest bytes doc
  | UpdateRequest bytes doc doc bool bool
  | RemoveRequest bytes doc bool

definition sends :: "('w \<Rightarrow> request list) \<Rightarrow> ('w, 'c) client \<Rightarrow> bool" where
  "sends outbox cl \<longleftrightarrow>
     (\<forall>c ns d w u w'. cl_insert cl c ns d w = (Inr u, w') \<longrightarrow> outbox w' = outbox w @ [InsertRequest ns d]) \<and>
     (\<forall>c ns q d up m w u w'. cl_update cl c ns q d up m w = (Inr u, w') \<longrightarrow> outbox w' = outbox w @ [UpdateRequest ns q d up m]) \<and>
     (\<forall>c ns q j w u w'. cl_remove cl c ns q j w = (Inr u, w') \<longrightarrow> outbox w' = outbox w @ [RemoveRequest ns q j]) \<and>
     (\<forall>a t w. outbox (snd (cl_new cl a t w)) = outbox w) \<and> (\<forall>c url w. outbox (snd (cl_connect cl c url w)) = outbox w) \<and>
     (\<forall>c d w. outbox (snd (cl_auth_params cl c d w)) = outbox w) \<and>
     (\<forall>c db u p w. outbox (snd (cl_auth cl c db u p w)) = outbox w) \<and>
     (\<forall>c w. outbox (snd (cl_isStillConnected cl c w)) = outbox w) \<and>
     (\<forall>c db l w. outbox (snd (cl_setDbProfilingLevel cl c db l w)) = outbox w) \<and>
     (\<forall>c w. outbox (snd (cl_getLastError cl c w)) = outbox w)"

definition same_sent :: "('w \<Rightarrow> request list) \<Rightarrow> ('w, 'c) client \<Rightarrow> 'w op_state \<Rightarrow> 'w op_state \<Rightarrow> bool" where
  "same_sent outbox cl s s' \<longleftrightarrow> (sends outbox cl \<longrightarrow> outbox (os_world s') = outbox (os_world s))"

lemma driver_same_sent:
  "(sends outbox cl \<Longrightarrow> \<forall>w. outbox (snd (op w)) = outbox w) \<Longrightarrow> obeys (same_sent outbox cl) (driver op)"
  by (auto simp: obeys_def same_sent_def driver_def split: prod.split) (metis snd_conv)

interpretation quiet: connect_preorder "same_sent outbox cl" cl
  by unfold_locales
    (auto simp: same_sent_def sends_def intro!: driver_same_sent dest: arg_cong [where f = snd], (metis snd_conv)+)

text \<open>The requests of one attribute: that of its write when the write is for this port.\<close>

definition insert_request ::
    "'a spl_env_scheme \<Rightarrow> nat \<Rightarrow> nat \<Rightarrow> stuple \<Rightarrow> string \<Rightarrow> spl_expr list \<Rightarrow> request list" where
  "insert_request env n port tup operation params =
     (if port_guard n (snd (key_and_expr params)) port then
        (case (bson_obj env operation params port tup, eval_rstring port tup (params ! 0), eval_rstring port tup (params ! 1)) of
           (Inr d, Inr db, Inr c) \<Rightarrow> [InsertRequest (buildDbCollection db c) d] | _ \<Rightarrow> [])
      else [])"

definition update_request ::
    "'a spl_env_scheme \<Rightarrow> spl_expr option \<Rightarrow> doc \<Rightarrow> nat \<Rightarrow> nat \<Rightarrow> stuple \<Rightarrow> string \<Rightarrow> spl_expr list \<Rightarrow> request list" where
  "update_request env findQuery cachedBO n port tup operation params =
     (if port_guard n (snd (key_and_expr params)) port then
        (case (bson_obj env operation params port tup, current_object (buildFindQueryBO env) findQuery cachedBO port tup,
               eval_rstring port tup (params ! 0), eval_rstring port tup (params ! 1)) of
           (Inr d, Inr q, Inr db, Inr c) \<Rightarrow>
             [UpdateRequest (buildDbCollection db c) q d (upsert_name operation) (multi_name operation)]
         | _ \<Rightarrow> [])
      else [])"

definition delete_request ::
    "'a spl_env_scheme \<Rightarrow> spl_expr option \<Rightarrow> doc \<Rightarrow> nat \<Rightarrow> stuple \<Rightarrow> string \<Rightarrow> spl_expr list \<Rightarrow> request list" where
  "delete_request env findQuery cachedBO port tup operation params =
     (case (current_object (buildFindQueryBO env) findQuery cachedBO port tup,
            eval_rstring port tup (params ! 0), eval_rstring port tup (params ! 1)) of
        (Inr q, Inr db, Inr c) \<Rightarrow> [RemoveRequest (buildDbCollection db c) q (justOne_name operation)]
      | _ \<Rightarrow> [])"

text \<open>The requests of all attributes, in the order of the attributes.\<close>

definition all_requests :: "(string \<Rightarrow> spl_expr list \<Rightarrow> request list) \<Rightarrow> write_attr list \<Rightarrow> request list" where
  "all_requests request attrs =
     concat (map (\<lambda>a. case wa_fun a of
       None \<Rightarrow> [] | Some (operation, params) \<Rightarrow> if operation = ''AsIs'' then [] else request operation params) attrs)"

lemma ready_outbox:
  assumes "sends outbox cl" and "ready_connection env cl cfg thread db s = (r, s')"
  shows "outbox (os_world s') = outbox (os_world s)"
  using quiet.obeys_ready [of outbox cl env cfg thread db] assms by (metis obeys_def same_sent_def snd_conv)

lemma driver_result: "driver op s = (Inr u, s') \<longleftrightarrow> (\<exists>w. op (os_world s) = (Inr u, w) \<and> s' = s\<lparr>os_world := w\<rparr>)"
  by (auto simp: driver_def map_sum_def split: prod.splits sum.splits)

lemma bind_result: "bindS m f s = (Inr y, s') \<longleftrightarrow> (\<exists>x t. m s = (Inr x, t) \<and> f x t = (Inr y, s'))"
  by (auto simp: bindS_def split: prod.splits sum.splits)

lemma pure_result: "pureS r s = (Inr x, s') \<longleftrightarrow> r = Inr x \<and> s' = s"
  by (auto simp: pureS_def)

lemma ret_result: "retS x s = (Inr y, s') \<longleftrightarrow> x = y \<and> s' = s"
  by (auto simp: retS_def)

lemmas results = bind_result driver_result pure_result ret_result

lemma last_error_outbox: "sends outbox cl \<Longrightarrow> cl_getLastError cl c w = (r, w') \<Longrightarrow> outbox w' = outbox w"
  unfolding sends_def by (metis snd_conv)

lemma sendsD:
  assumes "sends outbox cl"
  shows "cl_insert cl c ns d w = (Inr u, w') \<Longrightarrow> outbox w' = outbox w @ [InsertRequest ns d]"
    and "cl_update cl c ns q d up m w = (Inr u, w') \<Longrightarrow> outbox w' = outbox w @ [UpdateRequest ns q d up m]"
    and "cl_remove cl c ns q j w = (Inr u, w') \<Longrightarrow> outbox w' = outbox w @ [RemoveRequest ns q j]"
  using assms by (simp_all add: sends_def)

lemma insert_sends:
  assumes "sends outbox cl" and "insert_write env cl cfg n thread port tup operation params s = (Inr r, s')"
  shows "outbox (os_world s') = outbox (os_world s) @ insert_request env n port tup operation params"
proof (cases "port_guard n (snd (key_and_expr params)) port")
  case True
  show ?thesis
    using assms(2) True
    by (auto simp: insert_write_def results insert_request_def dest!: ready_outbox [OF assms(1)] sendsD [OF assms(1)]
        last_error_outbox [OF assms(1)])
qed (use assms(2) in \<open>auto simp: insert_write_def results insert_request_def\<close>)

lemma update_sends:
  assumes "sends outbox cl"
    and "update_write env cl cfg findQuery cachedBO n thread port tup operation params s = (Inr r, s')"
  shows "outbox (os_world s') = outbox (os_world s) @ update_request env findQuery cachedBO n port tup operation params"
proof (cases "port_guard n (snd (key_and_expr params)) port")
  case True
  show ?thesis
    using assms(2) True
    by (auto simp: update_write_def results update_request_def dest!: ready_outbox [OF assms(1)] sendsD [OF assms(1)]
        last_error_outbox [OF assms(1)])
qed (use assms(2) in \<open>auto simp: update_write_def results update_request_def\<close>)

lemma delete_sends:
  assumes "sends outbox cl" and "delete_write env cl cfg findQuery cachedBO thread port tup operation params s = (Inr r, s')"
  shows "outbox (os_world s') = outbox (os_world s) @ delete_request env findQuery cachedBO port tup operation params"
  using assms(2)
  by (auto simp: delete_write_def results delete_request_def dest!: ready_outbox [OF assms(1)] sendsD [OF assms(1)]
      last_error_outbox [OF assms(1)])

text \<open>A write that sends its requests, provided the driver does; the loop then sends those of all attributes.\<close>

locale sending_write =
  fixes wr :: "string \<Rightarrow> spl_expr list \<Rightarrow> ('w, bytes option) act"
    and request :: "string \<Rightarrow> spl_expr list \<Rightarrow> request list"
    and outbox :: "'w \<Rightarrow> request list"
    and lawful :: bool
  assumes wr_sends: "lawful \<Longrightarrow> wr operation params s = (Inr r, s') \<Longrightarrow>
    outbox (os_world s') = outbox (os_world s) @ request operation params"
begin

lemma attr_sends:
  assumes "lawful" and "process_attr wr fresh aspect port tup a l s = (Inr l', s')"
  shows "outbox (os_world s') = outbox (os_world s) @ all_requests request [a]"
proof (cases "wa_fun a")
  case None
  then show ?thesis using assms(2) by (simp add: process_attr_none all_requests_def)
next
  case (Some op)
  obtain operation params where op: "op = (operation, params)" by (cases op)
  show ?thesis
  proof (cases "operation = ''AsIs''")
    case True
    then show ?thesis
      using assms(2) Some op by (auto simp: process_attr_def results throwS_def all_requests_def split: option.splits)
  next
    case False
    obtain r t where w: "wr operation params s = (Inr r, t)" "os_world s' = os_world t"
      using assms(2) Some op False
      by (auto simp: process_attr_write reported_def split: prod.splits sum.splits option.splits if_splits)
    then show ?thesis using wr_sends [OF assms(1) w(1)] Some op False by (simp add: all_requests_def)
  qed
qed

lemma loop_sends:
  assumes "lawful" and "foldS (process_attr wr fresh aspect port tup) attrs l s = (Inr l', s')"
  shows "outbox (os_world s') = outbox (os_world s) @ all_requests request attrs"
  using assms(2)
proof (induction attrs arbitrary: l s)
  case (Cons a ats)
  then obtain l1 s1 where "process_attr wr fresh aspect port tup a l s = (Inr l1, s1)"
    and "foldS (process_attr wr fresh aspect port tup) ats l1 s1 = (Inr l', s')" by (auto simp: bind_result)
  with Cons.IH attr_sends [OF assms(1)] show ?case by (fastforce simp: all_requests_def)
qed (auto simp: ret_result all_requests_def)

lemma process_sends:
  assumes "lawful" and "write_process wr fresh aspect port tup attrs s = (Inr (), s')"
  shows "outbox (os_world s') = outbox (os_world s) @ all_requests request attrs"
  using assms(2)
  by (auto simp: write_process_def results submit_def throwS_def split: if_splits option.splits
      dest!: loop_sends [OF assms(1)])

end

interpretation insert_out: sending_write "insert_write env cl cfg n thread port tup" "insert_request env n port tup" outbox
    "sends outbox cl"
  by unfold_locales (rule insert_sends)

interpretation update_out: sending_write "update_write env cl cfg findQuery cachedBO n thread port tup"
    "update_request env findQuery cachedBO n port tup" outbox "sends outbox cl"
  by unfold_locales (rule update_sends)

interpretation delete_out: sending_write "delete_write env cl cfg findQuery cachedBO thread port tup"
    "delete_request env findQuery cachedBO port tup" outbox "sends outbox cl"
  by unfold_locales (rule delete_sends)

section \<open>Properties\<close>


text \<open>C24: A connection is used by one thread only: in every state that an operator reaches from its start, by
  any calls of any threads, no two threads have the same connection, and a thread that has one keeps it in
  every later state, provided a new connection of the driver is not one that exists.\<close>

theorem connections_are_confined:
  assumes "client_fresh used cl"
    and "reaches env cl has_more next_obj cfg op (start_state w) s" and "reaches env cl has_more next_obj cfg op s s'"
  shows "(os_conns s t = Some c \<and> os_conns s t' = Some c \<longrightarrow> t = t') \<and>
         (os_conns s t = Some c \<longrightarrow> os_conns s' t = Some c)"
proof -
  have "confined used (start_state w)" by (simp add: confined_def start_state_def)
  with threads.reaches_obeys [OF assms(2), of used] assms(1) have s: "confined used s"
    by (simp add: confines_def)
  with threads.reaches_obeys [OF assms(3), of used] assms(1) have "os_conns s \<subseteq>\<^sub>m os_conns s'"
    by (simp add: confines_def)
  with s show ?thesis by (auto simp: confined_def map_le_def dom_def)
qed

text \<open>A driver that numbers its connections, and an insert of two threads.\<close>

definition counting_client :: "(nat, unit) client" where
  "counting_client =
     \<lparr>cl_new = (\<lambda>auto timeout w. (w, Suc w)), cl_connect = (\<lambda>c url w. (Inr (), w)),
      cl_auth_params = (\<lambda>c d w. (Inr (), w)), cl_auth = (\<lambda>c db user pw w. (Inr (True, []), w)),
      cl_isFailed = (\<lambda>c w. False), cl_isStillConnected = (\<lambda>c w. (Inr True, w)),
      cl_setDbProfilingLevel = (\<lambda>c db level w. (Inr True, w)), cl_insert = (\<lambda>c ns d w. (Inr (), w)),
      cl_update = (\<lambda>c ns q d upsert multi w. (Inr (), w)), cl_remove = (\<lambda>c ns q justOne w. (Inr (), w)),
      cl_query = (\<lambda>c ns q n fields w. (Inr None, w)), cl_getLastError = (\<lambda>c w. (Inr [], w))\<rparr>"

lemma counting_fresh: "client_fresh lessThan counting_client"
  by (auto simp: client_fresh_def counting_client_def keeps_used_def)

lemma counting_insert:
  assumes "os_conns s thread = None"
  shows "Insert_process (sample_env parse) counting_client (sample_config True None) [] 1 [sample_attr (lit ''a'')] thread [] 0 s =
     (Inr (), s\<lparr>os_world := Suc (os_world s), os_conns := (os_conns s)(thread := Some (os_world s)),
       os_metric := os_metric s + 1\<rparr>)"
  using assms
  by (simp add: insert_steps counting_client_def Insert_process_def write_process_def process_attr_def report_eq note_msg_def
      isJson_name_def suffix_def submit_def)

lemma counting_reaches:
  assumes "os_conns s thread = None"
  shows "reaches (sample_env parse) counting_client has_more next_obj (sample_config True None)
     (OpInsert [] 1 [sample_attr (lit ''a'')]) s
     (s\<lparr>os_world := Suc (os_world s), os_conns := (os_conns s)(thread := Some (os_world s)),
       os_metric := os_metric s + 1\<rparr>)"
  unfolding reaches_def by (rule r_into_rtranclp) (rule op_call.insert [OF counting_insert [OF assms]])

definition one_insert :: "nat op_state" where
  "one_insert = (start_state 0)\<lparr>os_world := 1, os_conns := [1 \<mapsto> 0], os_metric := 1\<rparr>"

definition two_inserts :: "nat op_state" where
  "two_inserts = (start_state 0)\<lparr>os_world := 2, os_conns := [1 \<mapsto> 0, 2 \<mapsto> 1], os_metric := 2\<rparr>"

lemma counting_runs:
  "reaches (sample_env parse) counting_client has_more next_obj (sample_config True None)
     (OpInsert [] 1 [sample_attr (lit ''a'')]) (start_state 0) one_insert"
  "reaches (sample_env parse) counting_client has_more next_obj (sample_config True None)
     (OpInsert [] 1 [sample_attr (lit ''a'')]) one_insert two_inserts"
  using counting_reaches [of "start_state 0" 1] counting_reaches [of one_insert 2]
  by (simp_all add: one_insert_def two_inserts_def start_state_def eval_nat_numeral)


theorem connections_are_confined_witness:
  "os_conns one_insert 1 = Some 0 \<and> os_conns two_inserts 1 = Some 0 \<and> os_conns two_inserts 2 = Some 1"
proof -
  have "os_conns one_insert 1 = Some 0" by (simp add: one_insert_def)
  moreover note connections_are_confined [OF counting_fresh counting_runs, of _ 1 0]
  ultimately show ?thesis by (simp add: two_inserts_def)
qed


text \<open>C4: A call that returns has sent the server exactly the requests of its attributes, in the order of the
  attributes and each once: the insert of the object built for it, the update of the query with that
  object, or the removal, in the collection its arguments name, with the flags its function's name asks
  for; nothing for the attributes whose data belongs to another port.\<close>

theorem requests_are_sent:
  assumes "sends outbox cl"
  shows "(Insert_process env cl cfg fresh n attrs thread tup port s = (Inr (), s') \<longrightarrow>
            outbox (os_world s') = outbox (os_world s) @ all_requests (insert_request env n port tup) attrs) \<and>
         (Update_process env cl cfg findQuery cachedBO fresh n attrs thread tup port s = (Inr (), s') \<longrightarrow>
            outbox (os_world s') =
              outbox (os_world s) @ all_requests (update_request env findQuery cachedBO n port tup) attrs) \<and>
         (Delete_process env cl cfg findQuery cachedBO fresh attrs thread tup port s = (Inr (), s') \<longrightarrow>
            outbox (os_world s') =
              outbox (os_world s) @ all_requests (delete_request env findQuery cachedBO port tup) attrs)"
  unfolding Insert_process_def Update_process_def Delete_process_def
  by (intro conjI impI)
    (erule insert_out.process_sends [OF assms] update_out.process_sends [OF assms] delete_out.process_sends [OF assms])+

text \<open>A driver whose world is the list of the requests sent.\<close>

definition recording_client :: "(request list, unit) client" where
  "recording_client =
     \<lparr>cl_new = (\<lambda>auto timeout w. (0, w)), cl_connect = (\<lambda>c url w. (Inr (), w)),
      cl_auth_params = (\<lambda>c d w. (Inr (), w)), cl_auth = (\<lambda>c db user pw w. (Inr (True, []), w)),
      cl_isFailed = (\<lambda>c w. False), cl_isStillConnected = (\<lambda>c w. (Inr True, w)),
      cl_setDbProfilingLevel = (\<lambda>c db level w. (Inr True, w)),
      cl_insert = (\<lambda>c ns d w. (Inr (), w @ [InsertRequest ns d])),
      cl_update = (\<lambda>c ns q d upsert multi w. (Inr (), w @ [UpdateRequest ns q d upsert multi])),
      cl_remove = (\<lambda>c ns q justOne w. (Inr (), w @ [RemoveRequest ns q justOne])),
      cl_query = (\<lambda>c ns q n fields w. (Inr None, w)), cl_getLastError = (\<lambda>c w. (Inr [], w))\<rparr>"

lemma recording_sends: "sends id recording_client"
  by (simp add: sends_def recording_client_def)

text \<open>Two attributes of one tuple: their two requests, in order.\<close>

theorem requests_are_sent_witness:
  "os_world (snd (Insert_process (sample_env (\<lambda>s. Inr [])) recording_client (sample_config True None)
      [(lit ''a'', SRString []), (lit ''b'', SRString [])] 1 [sample_attr (lit ''a''), sample_attr (lit ''b'')] 1 [] 0
      (start_state []))) =
     [InsertRequest (lit ''db.c'') [(lit ''k'', VBool True)], InsertRequest (lit ''db.c'') [(lit ''k'', VBool True)]]"
proof -
  let ?env = "sample_env (\<lambda>s. Inr [])" and ?cfg = "sample_config True None"
    and ?as = "[sample_attr (lit ''a''), sample_attr (lit ''b'')]"
    and ?fresh = "[(lit ''a'', SRString []), (lit ''b'', SRString [])]"
  let ?p = "Insert_process ?env recording_client ?cfg ?fresh 1 ?as 1 [] 0 (start_state [])"
  have r: "fst ?p = Inr ()"
    by (simp add: insert_steps recording_client_def Insert_process_def write_process_def process_attr_def report_eq
        note_msg_def isJson_name_def suffix_def submit_def)
  have "os_world (snd ?p) = all_requests (insert_request ?env 1 0 []) ?as"
    using requests_are_sent [OF recording_sends, of ?env ?cfg ?fresh 1 ?as 1 "[]" 0 "start_state []" "snd ?p"] r
    by (simp add: start_state_def prod_eq_iff)
  then show ?thesis
    by (simp add: all_requests_def insert_request_def insert_steps isJson_name_def suffix_def buildDbCollection_def)
qed

end
