(* ===== verification/OperatorSetup.thy ===== *)
theory OperatorSetup
  imports OperatorCommon
begin

text \<open>
  How an operator is set up: the types of \<^verbatim>\<open>Types.spl\<close>, the parameters that the head of each
  \<^verbatim>\<open>*_cpp.cgt\<close> reads and checks, and \<^verbatim>\<open>Common/MongoInit_h.cgt\<close>, which initialises the driver when the code
  of an operator is loaded. The driver's \<^verbatim>\<open>initialize\<close> and \<^verbatim>\<open>shutdown\<close> and the setters of its options are
  only declared: they are the fields of \<open>library\<close> and \<open>option_setters\<close>.
\<close>

section \<open>The type of the authentication parameter\<close>

definition Authentication_t :: spl_type where
  "Authentication_t =
     TTuple [(lit ''mechanism'', TRString), (lit ''user'', TRString), (lit ''pwd'', TRString), (lit ''db'', TRString),
       (lit ''digestPassword'', TBoolean), (lit ''serviceName'', TRString), (lit ''serviceHostname'', TRString)]"

text \<open>The object that a tuple of strings and booleans becomes.\<close>

definition plain_document :: "stuple \<Rightarrow> doc" where
  "plain_document avs =
     map (\<lambda>(n, v). (n, case v of SRString s \<Rightarrow> VString s | SBool b \<Rightarrow> VBool b | _ \<Rightarrow> VNull)) avs"

definition sasl_names :: "bytes list" where
  "sasl_names =
     [lit ''mechanism'', lit ''user'', lit ''pwd'', lit ''db'', lit ''digestPassword'', lit ''serviceName'',
      lit ''serviceHostname'']"

lemma Authentication_built:
  assumes "has_type Authentication_t (STuple avs)"
  shows "build_b0 env Authentication_t (STuple avs) = Inr (plain_document avs)" and "map fst (plain_document avs) = sasl_names"
  using assms
  by (auto simp: build_b0_def Authentication_t_def plain_document_def sasl_names_def get_attr_def lit_def of_char_def
      append_field_cases cstring_def)

section \<open>The parameters of an operator\<close>

text \<open>A parameter that is not given is \<open>None\<close>.\<close>

record op_params =
  pm_authentication :: "(spl_type \<times> spl_val) option"
  pm_username :: "bytes option"
  pm_password :: "bytes option"
  pm_dbHost :: bytes
  pm_dbPort :: "32 word option"
  pm_timeout :: "double option"
  pm_profiling :: "ProfilingLevel option"
  pm_autoReconnect :: "bool option"
  pm_findQuery :: "spl_expr option"

definition given :: "'a option \<Rightarrow> 'a \<Rightarrow> 'a" where
  "given p fallback = (case p of Some x \<Rightarrow> x | None \<Rightarrow> fallback)"

definition param_errors :: "op_params \<Rightarrow> codegen_error list" where
  "param_errors p =
     credential_errors (pm_authentication p \<noteq> None) (pm_username p \<noteq> None) (pm_password p \<noteq> None) @
     find_query_errors (pm_findQuery p) @
     (case pm_authentication p of Some (t, v) \<Rightarrow> gen_errors t | None \<Rightarrow> [])"

text \<open>
  What the templates put into the code. A user name without a password has no code that compiles, which
  the first check excludes unless \<^verbatim>\<open>authentication\<close> is given; then neither is used.
\<close>

definition config_of :: "op_params \<Rightarrow> op_config" where
  "config_of p =
     \<lparr>cf_dbHost = pm_dbHost p, cf_dbPort = given (pm_dbPort p) 27017, cf_timeout = given (pm_timeout p) 0,
      cf_autoReconnect = given (pm_autoReconnect p) True, cf_authentication = pm_authentication p,
      cf_credentials =
        (case (pm_username p, pm_password p) of (Some u, Some w) \<Rightarrow> Some (u, w) | _ \<Rightarrow> None),
      cf_profiling = given (pm_profiling p) ProfileOff\<rparr>"

definition compile_operator :: "op_params \<Rightarrow> codegen_error list + op_config" where
  "compile_operator p = (if param_errors p = [] then Inr (config_of p) else Inl (param_errors p))"

text \<open>The login of an operator: what the driver is asked to do once a connection is made.\<close>

datatype login_kind = NoLogin | PasswordLogin bytes bytes | ParameterLogin doc

definition login_of :: "op_params \<Rightarrow> login_kind" where
  "login_of p =
     (case pm_authentication p of
        Some (t, v) \<Rightarrow> ParameterLogin (case v of STuple avs \<Rightarrow> plain_document avs | _ \<Rightarrow> [])
      | None \<Rightarrow>
          (case (pm_username p, pm_password p) of
             (Some u, Some w) \<Rightarrow> PasswordLogin u w
           | _ \<Rightarrow> NoLogin))"

definition do_login :: "('w, 'c) client \<Rightarrow> nat \<Rightarrow> bytes \<Rightarrow> login_kind \<Rightarrow> ('w, unit) act" where
  "do_login cl connPtr db l =
     (case l of
        NoLogin \<Rightarrow> retS ()
      | PasswordLogin u w \<Rightarrow>
          bindS (driver (cl_auth cl connPtr db u w)) (\<lambda>(ok, errmsg).
            if ok then retS () else throwS (Driver (DBException_new errmsg 9999)))
      | ParameterLogin d \<Rightarrow> driver (cl_auth_params cl connPtr d))"

text \<open>What the parameters say of the login: every value given is used, unless \<^verbatim>\<open>authentication\<close> replaces it.\<close>

definition typed_authentication :: "op_params \<Rightarrow> bool" where
  "typed_authentication p \<longleftrightarrow> (\<forall>t v. pm_authentication p = Some (t, v) \<longrightarrow> t = Authentication_t \<and> has_type t v)"

definition login_complete :: "op_params \<Rightarrow> bool" where
  "login_complete p \<longleftrightarrow>
     (case login_of p of
        NoLogin \<Rightarrow> pm_authentication p = None \<and> pm_username p = None \<and> pm_password p = None
      | PasswordLogin u w \<Rightarrow> pm_authentication p = None \<and> pm_username p = Some u \<and> pm_password p = Some w
      | ParameterLogin d \<Rightarrow> map fst d = sasl_names)"

lemma Authentication_tuple: "has_type Authentication_t v \<Longrightarrow> \<exists>avs. v = STuple avs"
  by (auto simp: Authentication_t_def)

lemma bind_pure: "bindS (pureS (Inr x)) f = f x"
  by (rule ext) (simp add: bindS_def pureS_def)

lemma credentials_paired:
  assumes "param_errors p = []" and "pm_authentication p = None"
  shows "pm_username p = None \<longleftrightarrow> pm_password p = None"
  using assms by (auto simp: param_errors_def credential_errors_def split: if_splits)

text \<open>C26: An operator whose parameters the generator accepts logs in exactly as its parameters say: with the
  document of \<^verbatim>\<open>authentication\<close>, which building cannot fail and which always has all seven parameters, or
  else with the user name and the password on the database at hand, and not at all only if none of
  them is given.\<close>

theorem accepted_parameters_login:
  assumes "compile_operator p = Inr cfg" and "typed_authentication p"
  shows "login_complete p \<and> authenticate env cl cfg connPtr db = do_login cl connPtr db (login_of p)"
proof (cases "pm_authentication p")
  case None
  have "param_errors p = []" and cfg: "cfg = config_of p" using assms(1) by (auto simp: compile_operator_def split: if_splits)
  from credentials_paired [OF this(1) None] None show ?thesis
    by (cases "pm_username p"; cases "pm_password p")
      (auto simp: cfg login_complete_def login_of_def authenticate_def do_login_def config_of_def
        intro!: arg_cong [where f = "bindS (driver (cl_auth cl connPtr db _ _))"])
next
  case (Some tv)
  obtain t v where tv: "tv = (t, v)" by (cases tv)
  then have v: "t = Authentication_t" "has_type Authentication_t v"
    using assms(2) Some by (auto simp: typed_authentication_def)
  obtain avs where avs: "v = STuple avs" using Authentication_tuple [OF v(2)] by blast
  have cfg: "cfg = config_of p" using assms(1) by (auto simp: compile_operator_def split: if_splits)
  show ?thesis
    using v avs Authentication_built(1) [of avs env] Authentication_built(2) [of avs] Some tv
    by (simp add: cfg login_complete_def login_of_def authenticate_def do_login_def config_of_def bind_pure)
qed

text \<open>An operator that logs in with a user name and a password, on the default port.\<close>

definition sample_params :: op_params where
  "sample_params =
     \<lparr>pm_authentication = None, pm_username = Some (lit ''u''), pm_password = Some (lit ''p''), pm_dbHost = lit ''localhost'',
      pm_dbPort = None, pm_timeout = None, pm_profiling = None, pm_autoReconnect = None, pm_findQuery = None\<rparr>"

lemma sample_compiled: "compile_operator sample_params = Inr (config_of sample_params)"
  by (simp add: compile_operator_def param_errors_def sample_params_def credential_errors_def find_query_errors_def)

theorem accepted_parameters_login_witness:
  "authenticate (sample_env (\<lambda>s. Inr [])) (sample_client ()) (config_of sample_params) 0 (lit ''db'') (start_state ([], [])) =
     (Inl (Driver (DBException_new (lit ''auth fails'') 9999)), start_state ([], []))"
proof -
  have t: "typed_authentication sample_params" by (simp add: typed_authentication_def sample_params_def)
  show ?thesis
    unfolding accepted_parameters_login [OF sample_compiled t, THEN conjunct2]
    by (simp add: do_login_def login_of_def sample_params_def sample_client_def driver_def bindS_def throwS_def start_state_def)
qed

section \<open>The initialisation of the driver\<close>

record ssl_options =
  ss_sslMode :: bool
  ss_caFile :: bytes
  ss_pemKeyFile :: bytes
  ss_pemKeyPassword :: bytes
  ss_crlFile :: bytes
  ss_allowInvalidCertificates :: bool
  ss_allowInvalidHostnames :: bool

text \<open>The constructor and the setters of \<^verbatim>\<open>client::Options\<close> that the template calls.\<close>

record 'appender option_setters =
  Options_new :: "'appender Options"
  setSSLMode :: "SSLModes \<Rightarrow> 'appender Options \<Rightarrow> 'appender Options"
  setSSLCAFile :: "bytes \<Rightarrow> 'appender Options \<Rightarrow> 'appender Options"
  setSSLPEMKeyFile :: "bytes \<Rightarrow> 'appender Options \<Rightarrow> 'appender Options"
  setSSLPEMKeyPassword :: "bytes \<Rightarrow> 'appender Options \<Rightarrow> 'appender Options"
  setSSLCRLFile :: "bytes \<Rightarrow> 'appender Options \<Rightarrow> 'appender Options"
  setSSLAllowInvalidCertificates :: "bool \<Rightarrow> 'appender Options \<Rightarrow> 'appender Options"
  setSSLAllowInvalidHostnames :: "bool \<Rightarrow> 'appender Options \<Rightarrow> 'appender Options"

text \<open>\<^verbatim>\<open>(client::Options::SSLModes)(int)sslMode\<close>: the enumerators are numbered from zero.\<close>

definition sslMode_of :: "bool \<Rightarrow> SSLModes" where
  "sslMode_of b = (if of_bool b = (0 :: int) then kSSLDisabled else kSSLRequired)"

definition clientOptions :: "'appender option_setters \<Rightarrow> ssl_options option \<Rightarrow> 'appender Options" where
  "clientOptions api sslOptions =
     (case sslOptions of
        None \<Rightarrow> Options_new api
      | Some ssl \<Rightarrow>
          setSSLAllowInvalidHostnames api (ss_allowInvalidHostnames ssl)
          (setSSLAllowInvalidCertificates api (ss_allowInvalidCertificates ssl)
          (setSSLCRLFile api (ss_crlFile ssl)
          (setSSLPEMKeyPassword api (ss_pemKeyPassword ssl)
          (setSSLPEMKeyFile api (ss_pemKeyFile ssl)
          (setSSLCAFile api (ss_caFile ssl)
          (setSSLMode api (sslMode_of (ss_sslMode ssl)) (Options_new api))))))))"

text \<open>What the header says of the setters: each configures the member of its name.\<close>

definition setters_ok :: "'appender option_setters \<Rightarrow> bool" where
  "setters_ok api \<longleftrightarrow>
     (\<forall>m opts. setSSLMode api m opts = opts\<lparr>opt_sslMode := m\<rparr>) \<and>
     (\<forall>f opts. setSSLCAFile api f opts = opts\<lparr>opt_sslCAFile := f\<rparr>) \<and>
     (\<forall>f opts. setSSLPEMKeyFile api f opts = opts\<lparr>opt_sslPEMKeyFile := f\<rparr>) \<and>
     (\<forall>f opts. setSSLPEMKeyPassword api f opts = opts\<lparr>opt_sslPEMKeyPassword := f\<rparr>) \<and>
     (\<forall>f opts. setSSLCRLFile api f opts = opts\<lparr>opt_sslCRLFile := f\<rparr>) \<and>
     (\<forall>b opts. setSSLAllowInvalidCertificates api b opts = opts\<lparr>opt_sslAllowInvalidCertificates := b\<rparr>) \<and>
     (\<forall>b opts. setSSLAllowInvalidHostnames api b opts = opts\<lparr>opt_sslAllowInvalidHostnames := b\<rparr>)"

text \<open>The options that a value of the parameter asks for; the values come back from them.\<close>

definition ssl_of :: "'appender Options \<Rightarrow> ssl_options" where
  "ssl_of opts =
     \<lparr>ss_sslMode = (opt_sslMode opts = kSSLRequired), ss_caFile = opt_sslCAFile opts,
      ss_pemKeyFile = opt_sslPEMKeyFile opts, ss_pemKeyPassword = opt_sslPEMKeyPassword opts,
      ss_crlFile = opt_sslCRLFile opts, ss_allowInvalidCertificates = opt_sslAllowInvalidCertificates opts,
      ss_allowInvalidHostnames = opt_sslAllowInvalidHostnames opts\<rparr>"

lemma ssl_of_clientOptions: "setters_ok api \<Longrightarrow> ssl_of (clientOptions api (Some ssl)) = ssl"
  by (simp add: setters_ok_def clientOptions_def ssl_of_def sslMode_of_def)

section \<open>A process with operators\<close>

text \<open>
  Operators that run in one process share the driver. Which object \<^verbatim>\<open>MongoInit<void>::status_\<close> the code of an
  operator names depends on the namespace that the generated prologue opens, which is not in the
  repository: \<open>ld_entity\<close> tells. Loading the code initialises the object unless other code has done it, as
  for every static member of a template. Until then it is all zero, which is a status without an error.
  The calls of the library are recorded, with the object that an initialisation was for.
\<close>

record loaded =
  ld_entity :: nat
  ld_ssl :: "ssl_options option"

datatype 'appender lib_call = InitializeCall nat "'appender Options" | ShutdownCall

record ('appender, 'w) library =
  lib_initialize :: "'appender Options \<Rightarrow> error_heap \<times> 'w \<Rightarrow> status \<times> error_heap \<times> 'w"
  lib_shutdown :: "error_heap \<times> 'w \<Rightarrow> status \<times> error_heap \<times> 'w"

record ('appender, 'w) pe_state =
  pe_world :: 'w
  pe_heap :: error_heap
  pe_status :: "nat \<Rightarrow> status option"
  pe_calls :: "'appender lib_call list"

definition load_operator ::
    "('appender, 'w) library \<Rightarrow> 'appender option_setters \<Rightarrow> loaded \<Rightarrow> ('appender, 'w) pe_state \<Rightarrow> ('appender, 'w) pe_state" where
  "load_operator lib api m s =
     (case pe_status s (ld_entity m) of
        Some st \<Rightarrow> s
      | None \<Rightarrow>
          (let opts = clientOptions api (ld_ssl m) in
           case lib_initialize lib opts (pe_heap s, pe_world s) of (st, heap, w) \<Rightarrow>
             s\<lparr>pe_world := w, pe_heap := heap, pe_status := (pe_status s)(ld_entity m := Some st),
               pe_calls := pe_calls s @ [InitializeCall (ld_entity m) opts]\<rparr>))"

definition construct_operator :: "loaded \<Rightarrow> ('appender, 'w) pe_state \<Rightarrow> op_exn + unit" where
  "construct_operator m s =
     operator_new (pe_heap s) (case pe_status s (ld_entity m) of Some st \<Rightarrow> st | None \<Rightarrow> Status_OK)"

text \<open>The status that \<^verbatim>\<open>shutdown\<close> returns is dropped.\<close>

definition prepareToShutdown :: "('appender, 'w) library \<Rightarrow> ('appender, 'w) pe_state \<Rightarrow> ('appender, 'w) pe_state res" where
  "prepareToShutdown lib s =
     (case lib_shutdown lib (pe_heap s, pe_world s) of (st, heap, w) \<Rightarrow>
        bindE (Status_destroy st heap) (\<lambda>heap.
          Inr (s\<lparr>pe_world := w, pe_heap := heap, pe_calls := pe_calls s @ [ShutdownCall]\<rparr>)))"

lemma load_then_construct:
  assumes "pe_status s (ld_entity m) = None"
    and "lib_initialize lib (clientOptions api (ld_ssl m)) (pe_heap s, pe_world s) = (st, heap, w)"
  shows "construct_operator m (load_operator lib api m s) = operator_new heap st"
  using assms by (simp add: construct_operator_def load_operator_def Let_def)

datatype pe_event = Load loaded | Stop

fun pe_event_step ::
    "('appender, 'w) library \<Rightarrow> 'appender option_setters \<Rightarrow> pe_event \<Rightarrow> ('appender, 'w) pe_state \<Rightarrow>
      ('appender, 'w) pe_state res" where
  "pe_event_step lib api (Load m) s = Inr (load_operator lib api m s)"
| "pe_event_step lib api Stop s = prepareToShutdown lib s"

fun pe_run ::
    "('appender, 'w) library \<Rightarrow> 'appender option_setters \<Rightarrow> pe_event list \<Rightarrow> ('appender, 'w) pe_state \<Rightarrow>
      ('appender, 'w) pe_state res" where
  "pe_run lib api [] s = Inr s"
| "pe_run lib api (e # es) s = bindE (pe_event_step lib api e s) (pe_run lib api es)"

definition pe_start :: "error_heap \<Rightarrow> 'w \<Rightarrow> ('appender, 'w) pe_state" where
  "pe_start heap w = \<lparr>pe_world = w, pe_heap = heap, pe_status = (\<lambda>e. None), pe_calls = []\<rparr>"

lemma pe_run_append: "pe_run lib api (es @ es') s = bindE (pe_run lib api es s) (pe_run lib api es')"
  by (induction es arbitrary: s) (auto simp: bindE_assoc intro: bindE_cong)

text \<open>The initialisations among the calls, the operators among the events, and how many were shut down.\<close>

definition inits :: "'appender lib_call list \<Rightarrow> (nat \<times> 'appender Options) list" where
  "inits calls = concat (map (\<lambda>c. case c of InitializeCall e opts \<Rightarrow> [(e, opts)] | ShutdownCall \<Rightarrow> []) calls)"

definition loads :: "pe_event list \<Rightarrow> loaded list" where
  "loads es = concat (map (\<lambda>e. case e of Load m \<Rightarrow> [m] | Stop \<Rightarrow> []) es)"

definition shutdowns :: "'appender lib_call list \<Rightarrow> nat" where
  "shutdowns calls = length (filter (\<lambda>c. c = ShutdownCall) calls)"

definition stops :: "pe_event list \<Rightarrow> nat" where
  "stops es = length (filter (\<lambda>e. e = Stop) es)"

lemma trace_simps [simp]:
  "inits [] = []" "inits (cs @ [InitializeCall e opts]) = inits cs @ [(e, opts)]" "inits (cs @ [ShutdownCall]) = inits cs"
  "loads [] = []" "loads (es @ [Load m]) = loads es @ [m]" "loads (es @ [Stop]) = loads es"
  "shutdowns [] = 0" "shutdowns (cs @ [InitializeCall e opts]) = shutdowns cs"
  "shutdowns (cs @ [ShutdownCall]) = Suc (shutdowns cs)"
  "stops [] = 0" "stops (es @ [Load m]) = stops es" "stops (es @ [Stop]) = Suc (stops es)"
  by (simp_all add: inits_def loads_def shutdowns_def stops_def)

lemma find_snoc: "find P (xs @ [y]) = (case find P xs of Some x \<Rightarrow> Some x | None \<Rightarrow> if P y then Some y else None)"
  by (induction xs) auto

text \<open>The first operator of an object gives its options.\<close>

definition first_options :: "'appender option_setters \<Rightarrow> pe_event list \<Rightarrow> nat \<Rightarrow> 'appender Options option" where
  "first_options api es e = map_option (\<lambda>m. clientOptions api (ld_ssl m)) (find (\<lambda>m. ld_entity m = e) (loads es))"

definition pe_inv :: "'appender option_setters \<Rightarrow> pe_event list \<Rightarrow> ('appender, 'w) pe_state \<Rightarrow> bool" where
  "pe_inv api es s \<longleftrightarrow>
     distinct (map fst (inits (pe_calls s))) \<and> map_of (inits (pe_calls s)) = first_options api es \<and>
     (\<forall>e. pe_status s e = None \<longleftrightarrow> first_options api es e = None) \<and> shutdowns (pe_calls s) = stops es"

lemma first_options_load:
  "first_options api (es @ [Load m]) =
     (if first_options api es (ld_entity m) = None
      then (first_options api es)(ld_entity m \<mapsto> clientOptions api (ld_ssl m)) else first_options api es)"
  by (rule ext) (auto simp: first_options_def find_snoc split: option.splits)

lemma map_of_snoc: "k \<notin> fst ` set xs \<Longrightarrow> map_of (xs @ [(k, v)]) = (map_of xs)(k \<mapsto> v)"
  by (induction xs) (auto simp: fun_eq_iff)

lemma pe_inv_load:
  assumes "pe_inv api es s"
  shows "pe_inv api (es @ [Load m]) (load_operator lib api m s)"
proof (cases "pe_status s (ld_entity m)")
  case None
  then have f: "first_options api es (ld_entity m) = None" using assms by (simp add: pe_inv_def)
  then have "ld_entity m \<notin> fst ` set (inits (pe_calls s))"
    using assms by (metis map_of_eq_None_iff pe_inv_def)
  moreover obtain st heap w where
    "lib_initialize lib (clientOptions api (ld_ssl m)) (pe_heap s, pe_world s) = (st, heap, w)"
    using prod_cases3 by blast
  with None have "load_operator lib api m s =
      s\<lparr>pe_world := w, pe_heap := heap, pe_status := (pe_status s)(ld_entity m := Some st),
        pe_calls := pe_calls s @ [InitializeCall (ld_entity m) (clientOptions api (ld_ssl m))]\<rparr>"
    by (simp add: load_operator_def)
  ultimately show ?thesis using assms f by (simp add: pe_inv_def first_options_load map_of_snoc del: map_of_append)
next
  case (Some st)
  then have "first_options api es (ld_entity m) \<noteq> None" using assms by (metis option.distinct(1) pe_inv_def)
  then show ?thesis using assms Some by (simp add: pe_inv_def load_operator_def first_options_load)
qed

lemma pe_inv_stop:
  assumes "pe_inv api es s" and "prepareToShutdown lib s = Inr s'"
  shows "pe_inv api (es @ [Stop]) s'"
  using assms
  by (auto simp: pe_inv_def prepareToShutdown_def first_options_def fun_eq_iff bindE_eq_Inr split: prod.splits)

lemma pe_run_inv: "pe_run lib api es (pe_start heap w) = Inr s \<Longrightarrow> pe_inv api es s"
proof (induction es arbitrary: s rule: rev_induct)
  case Nil
  then show ?case by (auto simp: pe_inv_def pe_start_def first_options_def fun_eq_iff)
next
  case (snoc e es)
  then obtain t where t: "pe_run lib api es (pe_start heap w) = Inr t" "pe_event_step lib api e t = Inr s"
    by (auto simp: pe_run_append bindE_eq_Inr)
  then show ?case using snoc.IH [OF t(1)] by (cases e) (auto intro: pe_inv_load pe_inv_stop)
qed

text \<open>C27: However operators are loaded into a process and shut down, the driver is initialised once for every
  object that their code names, with the options of the first operator that was loaded with it: the
  \<^verbatim>\<open>sslOptions\<close> of a later one are dropped, and if the code names several objects, the driver is
  initialised several times. What the first asks for is what the driver gets. It is shut down once for every operator that is.\<close>

theorem first_operator_initializes:
  assumes "pe_run lib api es (pe_start heap w) = Inr s"
  shows "distinct (map fst (inits (pe_calls s))) \<and>
     (\<forall>e. map_of (inits (pe_calls s)) e =
        map_option (\<lambda>m. clientOptions api (ld_ssl m)) (find (\<lambda>m. ld_entity m = e) (loads es))) \<and>
     (\<forall>e m ssl. setters_ok api \<and> find (\<lambda>m. ld_entity m = e) (loads es) = Some m \<and> ld_ssl m = Some ssl \<longrightarrow>
        (\<exists>opts. map_of (inits (pe_calls s)) e = Some opts \<and> ssl_of opts = ssl)) \<and>
     length (inits (pe_calls s)) = card (ld_entity ` set (loads es)) \<and>
     shutdowns (pe_calls s) = stops es"
proof -
  note inv = pe_run_inv [OF assms, unfolded pe_inv_def]
  have "fst ` set (inits (pe_calls s)) = ld_entity ` set (loads es)"
  proof -
    have "e \<in> fst ` set (inits (pe_calls s)) \<longleftrightarrow> find (\<lambda>m. ld_entity m = e) (loads es) \<noteq> None" for e
      using inv map_of_eq_None_iff [of "inits (pe_calls s)" e] by (auto simp: first_options_def)
    then show ?thesis by (auto simp: find_None_iff set_eq_iff image_iff)
  qed
  then have "length (inits (pe_calls s)) = card (ld_entity ` set (loads es))"
    using inv distinct_card [of "map fst (inits (pe_calls s))"] by simp
  then show ?thesis using inv by (auto simp: first_options_def ssl_of_clientOptions)
qed

text \<open>A driver that counts its initialisations, and two operators that name the same object.\<close>

definition no_options :: "unit Options" where
  "no_options =
     \<lparr>opt_callShutdownAtExit = False, opt_autoShutdownGracePeriodMillis = kDefaultAutoShutdownGracePeriodMillis,
      opt_sslMode = kSSLDisabled, opt_useFIPSMode = False, opt_sslDisabledTLSProtocols = [], opt_sslCAFile = [],
      opt_sslPEMKeyFile = [], opt_sslPEMKeyPassword = [], opt_sslCRLFile = [], opt_sslAllowInvalidCertificates = False,
      opt_sslAllowInvalidHostnames = False, opt_sslCipherConfig = [],
      opt_defaultLocalThresholdMillis = kDefaultDefaultLocalThresholdMillis, opt_appenderFactory = (),
      opt_minLoggedSeverity = Log, opt_IPv6Enabled = False, opt_validateObjects = False\<rparr>"

definition sample_setters :: "unit option_setters" where
  "sample_setters =
     \<lparr>Options_new = no_options, setSSLMode = (\<lambda>m opts. opts\<lparr>opt_sslMode := m\<rparr>),
      setSSLCAFile = (\<lambda>f opts. opts\<lparr>opt_sslCAFile := f\<rparr>), setSSLPEMKeyFile = (\<lambda>f opts. opts\<lparr>opt_sslPEMKeyFile := f\<rparr>),
      setSSLPEMKeyPassword = (\<lambda>f opts. opts\<lparr>opt_sslPEMKeyPassword := f\<rparr>),
      setSSLCRLFile = (\<lambda>f opts. opts\<lparr>opt_sslCRLFile := f\<rparr>),
      setSSLAllowInvalidCertificates = (\<lambda>b opts. opts\<lparr>opt_sslAllowInvalidCertificates := b\<rparr>),
      setSSLAllowInvalidHostnames = (\<lambda>b opts. opts\<lparr>opt_sslAllowInvalidHostnames := b\<rparr>)\<rparr>"

lemma sample_setters_ok: "setters_ok sample_setters"
  by (simp add: setters_ok_def sample_setters_def)

definition counting_library :: "(unit, nat) library" where
  "counting_library =
     \<lparr>lib_initialize = (\<lambda>opts (heap, n). (Status_OK, heap, Suc n)), lib_shutdown = (\<lambda>(heap, n). (Status_OK, heap, n))\<rparr>"

definition secure :: ssl_options where
  "secure =
     \<lparr>ss_sslMode = True, ss_caFile = lit ''ca.pem'', ss_pemKeyFile = [], ss_pemKeyPassword = [], ss_crlFile = [],
      ss_allowInvalidCertificates = False, ss_allowInvalidHostnames = False\<rparr>"

definition three_operators :: "pe_event list" where
  "three_operators =
     [Load \<lparr>ld_entity = 0, ld_ssl = None\<rparr>, Load \<lparr>ld_entity = 0, ld_ssl = Some secure\<rparr>,
      Load \<lparr>ld_entity = 1, ld_ssl = Some secure\<rparr>, Stop]"

text \<open>The second operator asks for SSL; the driver is initialised without, and again, with it, for the third.\<close>

theorem first_operator_initializes_witness:
  "\<exists>s opts. pe_run counting_library sample_setters three_operators (pe_start Map.empty 0) = Inr s \<and> pe_world s = 2 \<and>
     length (inits (pe_calls s)) = 2 \<and> map_of (inits (pe_calls s)) 0 = Some no_options \<and> ssl_of no_options \<noteq> secure \<and>
     map_of (inits (pe_calls s)) 1 = Some opts \<and> ssl_of opts = secure \<and> shutdowns (pe_calls s) = 1"
proof -
  obtain s where r: "pe_run counting_library sample_setters three_operators (pe_start Map.empty 0) = Inr s"
    and w: "pe_world s = 2"
    by (simp add: three_operators_def pe_start_def load_operator_def prepareToShutdown_def counting_library_def
        Status_OK_def Status_destroy_def Status_unref_def)
  have l: "loads three_operators =
      [\<lparr>ld_entity = 0, ld_ssl = None\<rparr>, \<lparr>ld_entity = 0, ld_ssl = Some secure\<rparr>, \<lparr>ld_entity = 1, ld_ssl = Some secure\<rparr>]"
    and "stops three_operators = 1" by (simp_all add: three_operators_def loads_def stops_def)
  moreover have "clientOptions sample_setters None = no_options" by (simp add: clientOptions_def sample_setters_def)
  ultimately have i: "length (inits (pe_calls s)) = 2" "map_of (inits (pe_calls s)) 0 = Some no_options"
      "shutdowns (pe_calls s) = 1" "\<exists>opts. map_of (inits (pe_calls s)) 1 = Some opts \<and> ssl_of opts = secure"
    using first_operator_initializes [OF r] by (simp_all add: ssl_of_clientOptions [OF sample_setters_ok])
  then show ?thesis using r w by (auto simp: ssl_of_def no_options_def secure_def)
qed

end
