(* ===== verification/Builders.thy ===== *)
theory Builders
  imports ObjBuilder
begin

text \<open>
  The builder objects of \<^verbatim>\<open>mongo/bson/bsonobjbuilder.h\<close>, \<^verbatim>\<open>bsonmisc.h\<close>, \<^verbatim>\<open>bson-inl.h\<close> and
  \<^verbatim>\<open>bson_db.h\<close>: \<open>BSONObjBuilder\<close> with its value stream and size tracker, and
  \<open>BSONArrayBuilder\<close>. A builder carries the buffer it writes to: its own, or its parent's while a
  sub-builder is in use (the parent takes the buffer back from it). \<open>endField\<close>, \<open>subobj\<close> and the
  table \<open>numStrs\<close> are only declared in the headers and are arguments.
\<close>

section \<open>The size tracker\<close>

record BSONSizeTracker =
  trk_pos :: int
  trk_sizes :: "int list"

definition BSONSizeTracker_SIZE :: int where
  "BSONSizeTracker_SIZE = 10"

definition BSONSizeTracker_new :: BSONSizeTracker where
  "BSONSizeTracker_new = \<lparr>trk_pos = 0, trk_sizes = replicate (nat BSONSizeTracker_SIZE) 512\<rparr>"

definition trk_got :: "int \<Rightarrow> BSONSizeTracker \<Rightarrow> BSONSizeTracker" where
  "trk_got sz t =
     t\<lparr>trk_sizes := (trk_sizes t)[nat (trk_pos t) := sz],
       trk_pos := (trk_pos t + 1) mod BSONSizeTracker_SIZE\<rparr>"

fun trk_scan :: "int \<Rightarrow> int list \<Rightarrow> int" where
  "trk_scan x [] = x"
| "trk_scan x (s # ss) = trk_scan (if s > x then s else x) ss"

definition trk_getSize :: "BSONSizeTracker \<Rightarrow> int" where
  "trk_getSize t = trk_scan 16 (trk_sizes t)"

section \<open>BSONObjBuilder\<close>

record value_stream =
  vs_fieldName :: string_data
  vs_subobj :: "buf_builder option"

record BSONObjBuilder =
  ob_b :: buf_builder
  ob_own :: bool
  ob_offset :: int
  ob_s :: value_stream
  ob_tracker :: "BSONSizeTracker option"
  ob_doneCalled :: bool

definition value_stream_new :: value_stream where
  "value_stream_new = \<lparr>vs_fieldName = [], vs_subobj = None\<rparr>"

definition sizeof_Holder :: int where
  "sizeof_Holder = 4"

definition ob_start :: "(int \<Rightarrow> bool) \<Rightarrow> bool \<Rightarrow> int \<Rightarrow> BSONSizeTracker option \<Rightarrow> buf_builder \<Rightarrow> BSONObjBuilder res" where
  "ob_start env own offset tracker b =
     bindE (bb_skip env 4 b) (\<lambda>(p, b).
     bindE (reserveBytes env 1 b) (\<lambda>b.
       Inr \<lparr>ob_b = b, ob_own = own, ob_offset = offset, ob_s = value_stream_new,
            ob_tracker = tracker, ob_doneCalled = False\<rparr>))"

definition BSONObjBuilder_new :: "(int \<Rightarrow> bool) \<Rightarrow> int \<Rightarrow> BSONObjBuilder res" where
  "BSONObjBuilder_new env initsize =
     bindE (chk32 (sizeof_Holder + initsize)) (\<lambda>n.
     bindE (BufBuilder_new env TrivialAllocator n) (\<lambda>b.
     bindE (bb_skip env sizeof_Holder b) (\<lambda>(p, b). ob_start env True sizeof_Holder None b)))"

definition BSONObjBuilder_sub :: "(int \<Rightarrow> bool) \<Rightarrow> buf_builder \<Rightarrow> BSONObjBuilder res" where
  "BSONObjBuilder_sub env baseBuilder = ob_start env False (bb_len baseBuilder) None baseBuilder"

definition BSONObjBuilder_tracked :: "(int \<Rightarrow> bool) \<Rightarrow> BSONSizeTracker \<Rightarrow> BSONObjBuilder res" where
  "BSONObjBuilder_tracked env tracker =
     bindE (chk32 (sizeof_Holder + trk_getSize tracker)) (\<lambda>n.
     bindE (BufBuilder_new env TrivialAllocator n) (\<lambda>b.
     bindE (bb_skip env sizeof_Holder b) (\<lambda>(p, b). ob_start env True sizeof_Holder (Some tracker) b)))"

definition ob_owned :: "BSONObjBuilder \<Rightarrow> bool" where
  "ob_owned ob \<longleftrightarrow> ob_own ob"

definition ob_len :: "BSONObjBuilder \<Rightarrow> int" where
  "ob_len ob = bb_len (ob_b ob)"

definition ob_isArray :: "BSONObjBuilder \<Rightarrow> bool" where
  "ob_isArray ob \<longleftrightarrow> False"

text \<open>Appending through a builder is appending to its buffer.\<close>

definition ob_append :: "(buf_builder \<Rightarrow> buf_builder res) \<Rightarrow> BSONObjBuilder \<Rightarrow> BSONObjBuilder res" where
  "ob_append f ob = bindE (f (ob_b ob)) (\<lambda>b. Inr (ob\<lparr>ob_b := b\<rparr>))"

type_synonym end_field = "string_data \<Rightarrow> BSONObjBuilder \<Rightarrow> BSONObjBuilder res"

definition ob_done_impl :: "(int \<Rightarrow> bool) \<Rightarrow> end_field \<Rightarrow> BSONObjBuilder \<Rightarrow> BSONObjBuilder res" where
  "ob_done_impl env endField ob =
     (if ob_doneCalled ob then Inr ob
      else
        bindE (endField [] (ob\<lparr>ob_doneCalled := True\<rparr>)) (\<lambda>ob.
        bindE (claimReservedBytes 1 (ob_b ob)) (\<lambda>b.
        bindE (appendNum_char env (type_byte EOO) b) (\<lambda>b.
        let sz = bb_len b - ob_offset ob in
        bindE (poke (ob_offset ob) (le_bytes (word_of_int sz :: 32 word)) b) (\<lambda>b.
          Inr (ob\<lparr>ob_b := b, ob_tracker := map_option (trk_got sz) (ob_tracker ob)\<rparr>))))))"

text \<open>The bytes from \<^verbatim>\<open>_b.buf() + _offset\<close> on.\<close>

definition ob_data :: "BSONObjBuilder \<Rightarrow> bytes res" where
  "ob_data ob = read_cells (drop (nat (ob_offset ob)) (contents (ob_b ob)))"

definition ob_doneFast :: "(int \<Rightarrow> bool) \<Rightarrow> end_field \<Rightarrow> BSONObjBuilder \<Rightarrow> BSONObjBuilder res" where
  "ob_doneFast env endField ob = ob_done_impl env endField ob"

definition ob_done ::
    "(int \<Rightarrow> bool) \<Rightarrow> end_field \<Rightarrow> (BSONObj \<Rightarrow> unit res) \<Rightarrow> BSONObjBuilder \<Rightarrow> (BSONObj \<times> BSONObjBuilder) res" where
  "ob_done env endField assertInvalid ob =
     bindE (ob_done_impl env endField ob) (\<lambda>ob.
     bindE (ob_data ob) (\<lambda>d.
     bindE (BSONObj_unowned assertInvalid d) (\<lambda>o1. Inr (o1, ob))))"

definition ob_decouple :: "BSONObjBuilder \<Rightarrow> BSONObjBuilder" where
  "ob_decouple ob = ob\<lparr>ob_b := bb_decouple (ob_b ob)\<rparr>"

text \<open>\<open>p\<close> is the address of the builder's block, whose ownership moves to the object.\<close>

definition ob_obj ::
    "(int \<Rightarrow> bool) \<Rightarrow> end_field \<Rightarrow> nat \<Rightarrow> shared_heap \<Rightarrow> BSONObjBuilder \<Rightarrow>
     (BSONObj \<times> BSONObjBuilder \<times> shared_heap) res" where
  "ob_obj env endField p heap ob =
     bindE (massert 10335 (ob_owned ob)) (\<lambda>_.
     bindE (ob_doneFast env endField ob) (\<lambda>ob.
     bindE (ob_data ob) (\<lambda>d.
     bindE (obj_takeOwnership p d heap) (\<lambda>(o1, heap). Inr (o1, ob_decouple ob, heap)))))"

definition ob_asTempObj ::
    "(int \<Rightarrow> bool) \<Rightarrow> end_field \<Rightarrow> (BSONObj \<Rightarrow> unit res) \<Rightarrow> BSONObjBuilder \<Rightarrow> (BSONObj \<times> BSONObjBuilder) res" where
  "ob_asTempObj env endField assertInvalid ob =
     bindE (ob_done env endField assertInvalid ob) (\<lambda>(temp, ob).
     let b = bb_setlen (bb_len (ob_b ob) - 1) (ob_b ob) in
     bindE (reserveBytes env 1 b) (\<lambda>b.
       Inr (temp, ob\<lparr>ob_b := b, ob_doneCalled := False\<rparr>)))"

definition ob_abandon :: "BSONObjBuilder \<Rightarrow> BSONObjBuilder" where
  "ob_abandon ob = ob\<lparr>ob_doneCalled := True\<rparr>"

text \<open>The destructor: the buffer a sub-builder leaves to its parent.\<close>

definition ob_destroy :: "(int \<Rightarrow> bool) \<Rightarrow> end_field \<Rightarrow> BSONObjBuilder \<Rightarrow> BSONObjBuilder res" where
  "ob_destroy env endField ob =
     (if \<not> ob_doneCalled ob \<and> bb_data (ob_b ob) \<noteq> None \<and>
         (if ob_own ob then bb_getSize (ob_b ob) = 0 else True)
      then ob_done_impl env endField ob else Inr ob)"

definition numStr :: "(int \<Rightarrow> bool) \<Rightarrow> bool \<Rightarrow> (int \<Rightarrow> bytes) \<Rightarrow> int \<Rightarrow> bytes res" where
  "numStr env numStrsReady numStrs i =
     (if i \<ge> 0 \<and> i < 100 \<and> numStrsReady then Inr (numStrs i)
      else bindE (BufBuilder_new env TrivialAllocator 512) (\<lambda>o1.
           bindE (sb_int env (word_of_int i) o1) (\<lambda>o1. sb_str o1)))"

section \<open>The value stream\<close>

text \<open>\<^verbatim>\<open>builder << name\<close> and \<^verbatim>\<open>builder << field\<close>.\<close>

definition ob_stream_name :: "end_field \<Rightarrow> string_data \<Rightarrow> BSONObjBuilder \<Rightarrow> BSONObjBuilder res" where
  "ob_stream_name endField name ob = endField name ob"

definition ob_stream_genoid :: "(int \<Rightarrow> bool) \<Rightarrow> OID \<Rightarrow> BSONObjBuilder \<Rightarrow> BSONObjBuilder res" where
  "ob_stream_genoid env generated ob = ob_append (genOID env generated) ob"

definition ob_stream_element ::
    "(int \<Rightarrow> bool) \<Rightarrow> (bytes \<Rightarrow> int \<Rightarrow> int res) \<Rightarrow> BSONElement \<Rightarrow> BSONObjBuilder \<Rightarrow> BSONObjBuilder res" where
  "ob_stream_element env esize e ob = ob_append (append_element env esize e) ob"

definition subobjStarted :: "BSONObjBuilder \<Rightarrow> bool" where
  "subobjStarted ob \<longleftrightarrow> vs_fieldName (ob_s ob) \<noteq> []"

definition haveSubobj :: "BSONObjBuilder \<Rightarrow> bool" where
  "haveSubobj ob \<longleftrightarrow> vs_subobj (ob_s ob) \<noteq> None"

definition ob_stream_label :: "(BSONObjBuilder \<Rightarrow> BSONObjBuilder res) \<Rightarrow> BSONObjBuilder \<Rightarrow> BSONObjBuilder res" where
  "ob_stream_label streamLabel ob = bindE (massert 10336 (subobjStarted ob)) (\<lambda>_. streamLabel ob)"

text \<open>\<^verbatim>\<open>stream << value\<close>, for the append overload \<open>app\<close> of the value.\<close>

definition stream_value ::
    "(string_data \<Rightarrow> buf_builder \<Rightarrow> buf_builder res) \<Rightarrow> BSONObjBuilder \<Rightarrow> BSONObjBuilder res" where
  "stream_value app ob =
     bindE (ob_append (app (vs_fieldName (ob_s ob))) ob) (\<lambda>ob.
       Inr (ob\<lparr>ob_s := (ob_s ob)\<lparr>vs_fieldName := []\<rparr>\<rparr>))"

definition stream_null :: "(int \<Rightarrow> bool) \<Rightarrow> BSONObjBuilder \<Rightarrow> BSONObjBuilder res" where
  "stream_null env ob =
     bindE (ob_append (appendNull env (vs_fieldName (ob_s ob))) ob) (\<lambda>ob.
       Inr (ob\<lparr>ob_s := (ob_s ob)\<lparr>vs_fieldName := []\<rparr>\<rparr>))"

definition stream_undefined :: "(int \<Rightarrow> bool) \<Rightarrow> BSONObjBuilder \<Rightarrow> BSONObjBuilder res" where
  "stream_undefined env ob =
     bindE (ob_append (appendUndefined env (vs_fieldName (ob_s ob))) ob) (\<lambda>ob.
       Inr (ob\<lparr>ob_s := (ob_s ob)\<lparr>vs_fieldName := []\<rparr>\<rparr>))"

definition stream_minkey :: "(int \<Rightarrow> bool) \<Rightarrow> BSONObjBuilder \<Rightarrow> BSONObjBuilder res" where
  "stream_minkey env ob =
     bindE (ob_append (appendMinKey env (vs_fieldName (ob_s ob))) ob) (\<lambda>ob.
       Inr (ob\<lparr>ob_s := (ob_s ob)\<lparr>vs_fieldName := []\<rparr>\<rparr>))"

definition stream_maxkey :: "(int \<Rightarrow> bool) \<Rightarrow> BSONObjBuilder \<Rightarrow> BSONObjBuilder res" where
  "stream_maxkey env ob =
     bindE (ob_append (appendMaxKey env (vs_fieldName (ob_s ob))) ob) (\<lambda>ob.
       Inr (ob\<lparr>ob_s := (ob_s ob)\<lparr>vs_fieldName := []\<rparr>\<rparr>))"

text \<open>\<^verbatim>\<open>stream << DATENOW\<close>, over \<open>appendDate\<close> and the clock, which are only declared.\<close>

definition stream_datenow ::
    "(string_data \<Rightarrow> Date_t \<Rightarrow> buf_builder \<Rightarrow> buf_builder res) \<Rightarrow> Date_t \<Rightarrow> BSONObjBuilder \<Rightarrow> BSONObjBuilder res" where
  "stream_datenow appendDate jsTime ob =
     bindE (ob_append (appendDate (vs_fieldName (ob_s ob)) jsTime) ob) (\<lambda>ob.
       Inr (ob\<lparr>ob_s := (ob_s ob)\<lparr>vs_fieldName := []\<rparr>\<rparr>))"

definition ob_append_date ::
    "(string_data \<Rightarrow> Date_t \<Rightarrow> buf_builder \<Rightarrow> buf_builder res) \<Rightarrow> string_data \<Rightarrow> Date_t \<Rightarrow> BSONObjBuilder \<Rightarrow>
     BSONObjBuilder res" where
  "ob_append_date appendDate n dt ob = ob_append (appendDate n dt) ob"

text \<open>\<^verbatim>\<open>Labeler << value\<close> appends to the sub-object that \<open>subobj\<close> provides.\<close>

definition labeler_value ::
    "(BSONObjBuilder \<Rightarrow> (buf_builder \<times> BSONObjBuilder) res) \<Rightarrow> string_data \<Rightarrow>
     (string_data \<Rightarrow> buf_builder \<Rightarrow> buf_builder res) \<Rightarrow> BSONObjBuilder \<Rightarrow> BSONObjBuilder res" where
  "labeler_value subobj label app ob =
     bindE (subobj ob) (\<lambda>(sub, ob).
     bindE (app label sub) (\<lambda>sub. Inr (ob\<lparr>ob_s := (ob_s ob)\<lparr>vs_subobj := Some sub\<rparr>\<rparr>)))"

section \<open>Containers\<close>

text \<open>The loop that appends values under the names 0, 1, ...\<close>

fun append_indexed ::
    "(int \<Rightarrow> bytes res) \<Rightarrow> (string_data \<Rightarrow> 'a \<Rightarrow> buf_builder \<Rightarrow> buf_builder res) \<Rightarrow> int \<Rightarrow> 'a list \<Rightarrow>
     BSONObjBuilder \<Rightarrow> BSONObjBuilder res" where
  "append_indexed num app i [] ob = Inr ob"
| "append_indexed num app i (x # xs) ob =
     bindE (num i) (\<lambda>name.
     bindE (ob_append (app name x) ob) (\<lambda>ob. append_indexed num app (i + 1) xs ob))"

definition append_vector ::
    "(int \<Rightarrow> bool) \<Rightarrow> end_field \<Rightarrow> (BSONObj \<Rightarrow> unit res) \<Rightarrow> (int \<Rightarrow> bytes res) \<Rightarrow>
     (string_data \<Rightarrow> 'a \<Rightarrow> buf_builder \<Rightarrow> buf_builder res) \<Rightarrow> string_data \<Rightarrow> 'a list \<Rightarrow>
     buf_builder \<Rightarrow> buf_builder res" where
  "append_vector env endField assertInvalid num app name vals b =
     bindE (BSONObjBuilder_new env 512) (\<lambda>arrBuilder.
     bindE (append_indexed num app 0 vals arrBuilder) (\<lambda>arrBuilder.
     bindE (ob_done env endField assertInvalid arrBuilder) (\<lambda>(arr, arrBuilder).
       appendArray env name arr b)))"

text \<open>\<open>_appendIt\<close>, for lists and sets (their elements in iteration order).\<close>

definition appendIt ::
    "(int \<Rightarrow> bool) \<Rightarrow> end_field \<Rightarrow> (BSONObj \<Rightarrow> unit res) \<Rightarrow> (int \<Rightarrow> bytes res) \<Rightarrow>
     (string_data \<Rightarrow> 'a \<Rightarrow> buf_builder \<Rightarrow> buf_builder res) \<Rightarrow> string_data \<Rightarrow> 'a list \<Rightarrow>
     buf_builder \<Rightarrow> buf_builder res" where
  "appendIt env endField assertInvalid num app name vals b =
     bindE (BSONObjBuilder_new env 512) (\<lambda>arrBuilder.
     bindE (append_indexed num app 0 vals arrBuilder) (\<lambda>arrBuilder.
     bindE (ob_done env endField assertInvalid arrBuilder) (\<lambda>(arr, arrBuilder).
       appendArray env name arr b)))"

definition append_list where
  "append_list env endField assertInvalid num app name vals b =
     appendIt env endField assertInvalid num app name vals b"

definition append_set where
  "append_set env endField assertInvalid num app name vals b =
     appendIt env endField assertInvalid num app name vals b"

fun append_pairs ::
    "(string_data \<Rightarrow> 'a \<Rightarrow> buf_builder \<Rightarrow> buf_builder res) \<Rightarrow> (string_data \<times> 'a) list \<Rightarrow>
     BSONObjBuilder \<Rightarrow> BSONObjBuilder res" where
  "append_pairs app [] bob = Inr bob"
| "append_pairs app ((k, x) # ps) bob = bindE (ob_append (app k x) bob) (append_pairs app ps)"

definition append_map ::
    "(int \<Rightarrow> bool) \<Rightarrow> end_field \<Rightarrow> nat \<Rightarrow> shared_heap \<Rightarrow>
     (string_data \<Rightarrow> 'a \<Rightarrow> buf_builder \<Rightarrow> buf_builder res) \<Rightarrow> string_data \<Rightarrow> (string_data \<times> 'a) list \<Rightarrow>
     buf_builder \<Rightarrow> buf_builder res" where
  "append_map env endField p heap app name vals b =
     bindE (BSONObjBuilder_new env 512) (\<lambda>bob.
     bindE (append_pairs app vals bob) (\<lambda>bob.
     bindE (ob_obj env endField p heap bob) (\<lambda>(o1, bob, heap). append_obj env name o1 b)))"

section \<open>BSONArrayBuilder\<close>

record BSONArrayBuilder =
  ab_i :: int
  ab_b :: BSONObjBuilder

definition BSONArrayBuilder_new :: "(int \<Rightarrow> bool) \<Rightarrow> BSONArrayBuilder res" where
  "BSONArrayBuilder_new env = bindE (BSONObjBuilder_new env 512) (\<lambda>b. Inr \<lparr>ab_i = 0, ab_b = b\<rparr>)"

definition BSONArrayBuilder_sub :: "(int \<Rightarrow> bool) \<Rightarrow> buf_builder \<Rightarrow> BSONArrayBuilder res" where
  "BSONArrayBuilder_sub env base = bindE (BSONObjBuilder_sub env base) (\<lambda>b. Inr \<lparr>ab_i = 0, ab_b = b\<rparr>)"

definition BSONArrayBuilder_size :: "(int \<Rightarrow> bool) \<Rightarrow> int \<Rightarrow> BSONArrayBuilder res" where
  "BSONArrayBuilder_size env initialSize =
     bindE (BSONObjBuilder_new env initialSize) (\<lambda>b. Inr \<lparr>ab_i = 0, ab_b = b\<rparr>)"

definition ab_num :: "(int \<Rightarrow> bytes res) \<Rightarrow> BSONArrayBuilder \<Rightarrow> (bytes \<times> BSONArrayBuilder) res" where
  "ab_num num ab =
     bindE (chk32 (ab_i ab + 1)) (\<lambda>i'.
     bindE (num (ab_i ab)) (\<lambda>name. Inr (name, ab\<lparr>ab_i := i'\<rparr>)))"

text \<open>Appending under the next number, for the operation \<open>f\<close> of the object builder.\<close>

definition ab_append ::
    "(int \<Rightarrow> bytes res) \<Rightarrow> (string_data \<Rightarrow> buf_builder \<Rightarrow> buf_builder res) \<Rightarrow> BSONArrayBuilder \<Rightarrow>
     BSONArrayBuilder res" where
  "ab_append num f ab =
     bindE (ab_num num ab) (\<lambda>(name, ab).
     bindE (ob_append (f name) (ab_b ab)) (\<lambda>ob. Inr (ab\<lparr>ab_b := ob\<rparr>)))"

definition ab_append_element where
  "ab_append_element env esize num e ab = ab_append num (appendAs env esize e) ab"

text \<open>\<^verbatim>\<open>operator<<\<close> goes through the value stream of the object builder.\<close>

definition ab_stream ::
    "end_field \<Rightarrow> (int \<Rightarrow> bytes res) \<Rightarrow> (string_data \<Rightarrow> buf_builder \<Rightarrow> buf_builder res) \<Rightarrow>
     BSONArrayBuilder \<Rightarrow> BSONArrayBuilder res" where
  "ab_stream endField num app ab =
     bindE (ab_num num ab) (\<lambda>(name, ab).
     bindE (StringData_cstr (Some (name @ [0]))) (\<lambda>name.
     bindE (ob_stream_name endField name (ab_b ab)) (\<lambda>ob.
     bindE (stream_value app ob) (\<lambda>ob. Inr (ab\<lparr>ab_b := ob\<rparr>)))))"

definition ab_appendNull where
  "ab_appendNull env num ab = ab_append num (appendNull env) ab"

definition ab_appendUndefined where
  "ab_appendUndefined env num ab = ab_append num (appendUndefined env) ab"

definition ab_obj where
  "ab_obj env endField p heap ab = ob_obj env endField p heap (ab_b ab)"

definition ab_arr where
  "ab_arr env endField p heap ab = ob_obj env endField p heap (ab_b ab)"

definition ab_done where
  "ab_done env endField assertInvalid ab = ob_done env endField assertInvalid (ab_b ab)"

definition ab_doneFast where
  "ab_doneFast env endField ab = ob_doneFast env endField (ab_b ab)"

definition ab_subobjStart where
  "ab_subobjStart env num ab = ab_append num (subobjStart env) ab"

definition ab_subarrayStart where
  "ab_subarrayStart env num ab = ab_append num (subarrayStart env) ab"

definition ab_appendRegex where
  "ab_appendRegex env num rx options ab =
     bindE (uassert 0 (find_char rx 0 0 = None)) (\<lambda>_.
       ab_append num (\<lambda>name. appendRegex env name rx options) ab)"

definition ab_appendDate where
  "ab_appendDate (appendDate :: string_data \<Rightarrow> Date_t \<Rightarrow> buf_builder \<Rightarrow> buf_builder res) num dt ab =
     ab_append num (\<lambda>name. appendDate name dt) ab"

definition ab_appendBinData where
  "ab_appendBinData env num len type d ab = ab_append num (\<lambda>name. appendBinData env name len type d) ab"

definition ab_appendCode where
  "ab_appendCode env num code ab = ab_append num (\<lambda>name. appendCode env name code) ab"

definition ab_appendCodeWScope where
  "ab_appendCodeWScope env num code scope ab =
     ab_append num (\<lambda>name. appendCodeWScope env name code scope) ab"

definition ab_appendTimeT where
  "ab_appendTimeT env num dt ab = ab_append num (\<lambda>name. appendTimeT env name dt) ab"

definition ab_appendBool where
  "ab_appendBool env num val ab =
     ab_append num (\<lambda>name. appendBool env name (if val then 1 else 0)) ab"

definition ab_isArray :: "BSONArrayBuilder \<Rightarrow> bool" where
  "ab_isArray ab \<longleftrightarrow> True"

definition ab_len :: "BSONArrayBuilder \<Rightarrow> int" where
  "ab_len ab = ob_len (ab_b ab)"

definition ab_arrSize :: "BSONArrayBuilder \<Rightarrow> int" where
  "ab_arrSize ab = ab_i ab"

fun appendArrayIt ::
    "(int \<Rightarrow> bytes res) \<Rightarrow> (string_data \<Rightarrow> 'a \<Rightarrow> buf_builder \<Rightarrow> buf_builder res) \<Rightarrow> 'a list \<Rightarrow>
     BSONArrayBuilder \<Rightarrow> BSONArrayBuilder res" where
  "appendArrayIt num app [] ab = Inr ab"
| "appendArrayIt num app (x # xs) ab =
     bindE (ab_append num (\<lambda>name. app name x) ab) (appendArrayIt num app xs)"

section \<open>The $or helpers\<close>

fun ab_stream_all ::
    "(int \<Rightarrow> bool) \<Rightarrow> end_field \<Rightarrow> (int \<Rightarrow> bytes res) \<Rightarrow> BSONObj list \<Rightarrow> BSONArrayBuilder \<Rightarrow> BSONArrayBuilder res" where
  "ab_stream_all env endField num [] ab = Inr ab"
| "ab_stream_all env endField num (x # xs) ab =
     bindE (ab_stream endField num (\<lambda>name. append_obj env name x) ab) (ab_stream_all env endField num xs)"

text \<open>\<^verbatim>\<open>BSON("$or" << BSON_ARRAY(a << b << ...))\<close>; \<open>p\<close> and \<open>q\<close> are the addresses of the two blocks.\<close>

definition OR_objs ::
    "(int \<Rightarrow> bool) \<Rightarrow> end_field \<Rightarrow> (int \<Rightarrow> bytes res) \<Rightarrow> nat \<Rightarrow> nat \<Rightarrow> shared_heap \<Rightarrow> BSONObj list \<Rightarrow>
     (BSONObj \<times> shared_heap) res" where
  "OR_objs env endField num p q heap objs =
     bindE (BSONArrayBuilder_new env) (\<lambda>ab.
     bindE (ab_stream_all env endField num objs ab) (\<lambda>ab.
     bindE (ab_arr env endField p heap ab) (\<lambda>(arr, ob, heap).
     bindE (BSONObjBuilder_new env 64) (\<lambda>ob.
     bindE (ob_stream_name endField [36, 111, 114] ob) (\<lambda>ob.
     bindE (stream_value (\<lambda>name. append_array env name arr) ob) (\<lambda>ob.
     bindE (ob_obj env endField q heap ob) (\<lambda>(o1, ob, heap). Inr (o1, heap))))))))"

definition OR2 where
  "OR2 env endField num p q heap a b = OR_objs env endField num p q heap [a, b]"

definition OR3 where
  "OR3 env endField num p q heap a b c = OR_objs env endField num p q heap [a, b, c]"

definition OR4 where
  "OR4 env endField num p q heap a b c d = OR_objs env endField num p q heap [a, b, c, d]"

definition OR5 where
  "OR5 env endField num p q heap a b c d e = OR_objs env endField num p q heap [a, b, c, d, e]"

definition OR6 where
  "OR6 env endField num p q heap a b c d e f = OR_objs env endField num p q heap [a, b, c, d, e, f]"

section \<open>What a builder holds\<close>

text \<open>
  The abstract state of a builder in use: the cells \<open>pre\<close> before its object (the space of the holder,
  or what the parent has written), four cells for the size, and the elements appended so far.
\<close>

definition holds :: "BSONObjBuilder \<Rightarrow> cells \<Rightarrow> doc \<Rightarrow> bool" where
  "holds ob pre es \<longleftrightarrow>
     bb_ok (ob_b ob) \<and> 1 \<le> bb_reserved (ob_b ob) \<and> ob_offset ob = int (length pre) \<and>
     \<not> ob_doneCalled ob \<and> vs_subobj (ob_s ob) = None \<and>
     (\<exists>hdr. length hdr = 4 \<and> contents (ob_b ob) = pre @ hdr @ map Some (enc_elems es))"

text \<open>What the contract of \<open>endField\<close> is when no sub-object has been started.\<close>

definition end_field_ok :: "end_field \<Rightarrow> bool" where
  "end_field_ok endField \<longleftrightarrow>
     (\<forall>name ob. vs_subobj (ob_s ob) = None \<longrightarrow>
        endField name ob = Inr (ob\<lparr>ob_s := (ob_s ob)\<lparr>vs_fieldName := name\<rparr>\<rparr>))"

lemma skip_total:
  assumes "bb_ok b" and "0 \<le> n" and "bb_l b + n + bb_reserved b \<le> BufferMaxSize" and "mallocs env"
  shows "\<exists>b' gap. bb_skip env n b = Inr (bb_l b, b') \<and> bb_ok b' \<and> length gap = nat n \<and>
    contents b' = contents b @ gap \<and> bb_l b' = bb_l b + n \<and> bb_reserved b' = bb_reserved b \<and> bb_al b' = bb_al b"
proof -
  from grow_total [OF assms] obtain b' where
    g: "grow env n b = Inr (bb_l b, b')" "bb_ok b'" "bb_l b' = bb_l b + n" "bb_reserved b' = bb_reserved b"
      "bb_al b' = bb_al b" "take (nat (bb_l b)) (contents b') = contents b"
    by auto
  have "0 \<le> bb_l b" using assms(1) by (simp add: bb_ok_def)
  then have "length (drop (nat (bb_l b)) (contents b')) = nat n"
    using length_contents [OF g(2)] g(3) assms(2) by (simp add: nat_add_distrib)
  moreover have "contents b' = contents b @ drop (nat (bb_l b)) (contents b')"
    using g(6) by (metis append_take_drop_id)
  ultimately show ?thesis using g
    by (intro exI [of _ b'] exI [of _ "drop (nat (bb_l b)) (contents b')"]) (simp add: bb_skip_def)
qed

lemma ob_start_holds:
  assumes "bb_ok b" and "bb_l b + bb_reserved b + 5 \<le> BufferMaxSize" and "mallocs env"
    and "offset = int (length (contents b))"
  shows "\<exists>ob. ob_start env own offset trk b = Inr ob \<and> holds ob (contents b) [] \<and> ob_own ob = own \<and>
    ob_tracker ob = trk \<and> bb_l (ob_b ob) = bb_l b + 4 \<and> bb_reserved (ob_b ob) = bb_reserved b + 1 \<and>
    ob_offset ob = offset \<and> bb_al (ob_b ob) = bb_al b"
proof -
  from skip_total [OF assms(1), of 4 env] assms(2,3) obtain b1 gap where
    s: "bb_skip env 4 b = Inr (bb_l b, b1)" "bb_ok b1" "length gap = 4" "contents b1 = contents b @ gap"
      "bb_l b1 = bb_l b + 4" "bb_reserved b1 = bb_reserved b" "bb_al b1 = bb_al b"
    by auto
  from reserveBytes_total [OF s(2), of 1 env] assms(2,3) s obtain b2 where
    r: "reserveBytes env 1 b1 = Inr b2" "bb_ok b2" "contents b2 = contents b1" "bb_l b2 = bb_l b1"
      "bb_reserved b2 = bb_reserved b1 + 1" "bb_al b2 = bb_al b1"
    by auto
  have "0 \<le> bb_reserved b" using assms(1) by (simp add: bb_ok_def)
  then show ?thesis
    using s r assms(4) by (simp add: ob_start_def holds_def value_stream_new_def)
qed

lemma BSONObjBuilder_new_holds:
  assumes "mallocs env" and "0 \<le> initsize" and "initsize + 4 \<le> BufferMaxSize"
  shows "\<exists>ob pre. BSONObjBuilder_new env initsize = Inr ob \<and> length pre = 4 \<and> holds ob pre [] \<and>
    ob_own ob \<and> ob_tracker ob = None \<and> bb_l (ob_b ob) = 8 \<and> bb_reserved (ob_b ob) = 1"
proof -
  from BufBuilder_new_ok [OF assms(1), of "4 + initsize" TrivialAllocator] assms(2,3) obtain b where
    b: "BufBuilder_new env TrivialAllocator (4 + initsize) = Inr b" "bb_ok b" "contents b = []" "bb_l b = 0"
      "bb_reserved b = 0" by auto
  from skip_total [OF b(2), of 4 env] b assms(1) obtain b1 gap where
    s: "bb_skip env 4 b = Inr (0, b1)" "bb_ok b1" "length gap = 4" "contents b1 = gap" "bb_l b1 = 4"
      "bb_reserved b1 = 0"
    by (auto simp: BufferMaxSize_def)
  have "bb_l b1 + bb_reserved b1 + 5 \<le> BufferMaxSize" using s by (simp add: BufferMaxSize_def)
  from ob_start_holds [OF s(2) this assms(1), of 4 True None] s(3-6) obtain ob where
    ob: "ob_start env True 4 None b1 = Inr ob" "holds ob gap []" "ob_own ob" "ob_tracker ob = None"
    "bb_l (ob_b ob) = 8" "bb_reserved (ob_b ob) = 1"
    by auto
  have "in_int32 (4 + initsize)" using assms by (simp add: in_int32_iff BufferMaxSize_def)
  then have "BSONObjBuilder_new env initsize = Inr ob"
    using b(1) s(1) ob(1) by (simp add: BSONObjBuilder_new_def sizeof_Holder_def)
  then show ?thesis using ob s(3) by blast
qed

lemma holds_append:
  assumes "holds ob pre es" and "emits f (enc_elem e)"
    and "bb_l (ob_b ob) + int (length (enc_elem e)) + bb_reserved (ob_b ob) \<le> BufferMaxSize"
  shows "\<exists>b'. ob_append f ob = Inr (ob\<lparr>ob_b := b'\<rparr>) \<and> holds (ob\<lparr>ob_b := b'\<rparr>) pre (es @ [e]) \<and>
    bb_l b' = bb_l (ob_b ob) + int (length (enc_elem e)) \<and> bb_reserved b' = bb_reserved (ob_b ob)"
proof -
  from assms obtain b' where "f (ob_b ob) = Inr b'" "bb_ok b'"
    "contents b' = contents (ob_b ob) @ map Some (enc_elem e)"
    "bb_l b' = bb_l (ob_b ob) + int (length (enc_elem e))" "bb_reserved b' = bb_reserved (ob_b ob)"
    unfolding emits_def holds_def by blast
  then show ?thesis using assms(1)
    by (auto simp: ob_append_def holds_def enc_elems_append enc_elems_Cons)
qed

fun append_all :: "(int \<Rightarrow> bool) \<Rightarrow> doc \<Rightarrow> BSONObjBuilder \<Rightarrow> BSONObjBuilder res" where
  "append_all env [] ob = Inr ob"
| "append_all env (e # es) ob = bindE (ob_append (append_val env e) ob) (append_all env es)"

lemma holds_append_all:
  assumes "holds ob pre es" and "mallocs env" and "wf_doc fs" and "list_all (\<lambda>e. appendable (snd e)) fs"
    and "bb_l (ob_b ob) + int (length (enc_elems fs)) + bb_reserved (ob_b ob) \<le> BufferMaxSize"
  shows "\<exists>b'. append_all env fs ob = Inr (ob\<lparr>ob_b := b'\<rparr>) \<and> holds (ob\<lparr>ob_b := b'\<rparr>) pre (es @ fs) \<and>
    bb_l b' = bb_l (ob_b ob) + int (length (enc_elems fs)) \<and> bb_reserved b' = bb_reserved (ob_b ob)"
  using assms
proof (induction fs arbitrary: ob es)
  case Nil
  then show ?case by (intro exI [of _ "ob_b ob"]) simp
next
  case (Cons e fs)
  have ok: "bb_ok (ob_b ob)" using Cons.prems(1) by (simp add: holds_def)
  have e: "wf_elem e" "wf_doc fs" "appendable (snd e)" "list_all (\<lambda>e. appendable (snd e)) fs"
    using Cons.prems(3,4) by (auto simp: wf_doc_iff)
  have len: "length (enc_elems (e # fs)) = length (enc_elem e) + length (enc_elems fs)"
    by (simp add: enc_elems_Cons)
  have bound: "bb_l (ob_b ob) + int (length (enc_elem e)) + bb_reserved (ob_b ob) \<le> BufferMaxSize"
    "int (length (enc_elem e)) \<le> BufferMaxSize"
    using Cons.prems(5) ok unfolding len bb_ok_def by linarith+
  then have "length (enc_elem e) < 2 ^ 31" by (simp add: BufferMaxSize_def)
  from holds_append [OF Cons.prems(1) append_val_emits [OF Cons.prems(2) e(1,3) this] bound(1)] obtain b1
    where b1: "ob_append (append_val env e) ob = Inr (ob\<lparr>ob_b := b1\<rparr>)"
      "holds (ob\<lparr>ob_b := b1\<rparr>) pre (es @ [e])" "bb_l b1 = bb_l (ob_b ob) + int (length (enc_elem e))"
      "bb_reserved b1 = bb_reserved (ob_b ob)" by blast
  have "bb_l (ob_b (ob\<lparr>ob_b := b1\<rparr>)) + int (length (enc_elems fs)) + bb_reserved (ob_b (ob\<lparr>ob_b := b1\<rparr>))
      \<le> BufferMaxSize"
    using Cons.prems(5) b1(3,4) unfolding len by simp
  from Cons.IH [OF b1(2) Cons.prems(2) e(2,4) this] b1 show ?case
    by (auto simp: enc_elems_Cons)
qed

lemma type_byte_EOO [simp]: "type_byte EOO = 0"
  by (simp add: type_byte_def)

text \<open>A finished builder: the whole object is in place.\<close>

definition finished :: "BSONObjBuilder \<Rightarrow> cells \<Rightarrow> doc \<Rightarrow> bool" where
  "finished ob pre es \<longleftrightarrow> bb_ok (ob_b ob) \<and> ob_doneCalled ob \<and> ob_offset ob = int (length pre) \<and>
     contents (ob_b ob) = pre @ map Some (enc_doc es) \<and> vs_subobj (ob_s ob) = None"

lemma holds_length:
  "holds ob pre es \<Longrightarrow> bb_l (ob_b ob) = int (length pre) + 4 + int (length (enc_elems es))"
proof -
  assume h: "holds ob pre es"
  then have "length (contents (ob_b ob)) = length pre + 4 + length (enc_elems es)"
    by (auto simp: holds_def)
  moreover have "length (contents (ob_b ob)) = nat (bb_l (ob_b ob))" "0 \<le> bb_l (ob_b ob)"
    using h length_contents by (auto simp: holds_def bb_ok_def)
  ultimately show ?thesis by linarith
qed

lemma take_drop_header:
  assumes "length hdr = 4" and "length bs = 4"
  shows "take (length pre) (pre @ hdr @ xs) @ bs @ drop (length pre + 4) (pre @ hdr @ xs) = pre @ bs @ xs"
  using assms by simp

lemma holds_done:
  assumes h: "holds ob pre es" and ef: "end_field_ok endField" and env: "mallocs env"
    and max: "bb_l (ob_b ob) + bb_reserved (ob_b ob) \<le> BufferMaxSize"
  shows "\<exists>ob'. ob_done_impl env endField ob = Inr ob' \<and> finished ob' pre es \<and> ob_own ob' = ob_own ob \<and>
    bb_l (ob_b ob') = bb_l (ob_b ob) + 1 \<and> bb_reserved (ob_b ob') = bb_reserved (ob_b ob) - 1 \<and>
    ob_tracker ob' = map_option (trk_got (int (length (enc_doc es)))) (ob_tracker ob)"
proof -
  let ?ob = "ob\<lparr>ob_doneCalled := True, ob_s := (ob_s ob)\<lparr>vs_fieldName := []\<rparr>\<rparr>"
  from h obtain hdr where ok: "bb_ok (ob_b ob)" "1 \<le> bb_reserved (ob_b ob)" "ob_offset ob = int (length pre)"
    "\<not> ob_doneCalled ob" "vs_subobj (ob_s ob) = None" "length hdr = 4"
    "contents (ob_b ob) = pre @ hdr @ map Some (enc_elems es)"
    unfolding holds_def by blast
  have e: "endField [] (ob\<lparr>ob_doneCalled := True\<rparr>) = Inr ?ob"
    using ef ok(5) by (simp add: end_field_ok_def)
  from claim_ok [OF ok(1) _ ok(2)] obtain b1 where c: "claimReservedBytes 1 (ob_b ob) = Inr b1" "bb_ok b1"
    "b1 = (ob_b ob)\<lparr>bb_reserved := bb_reserved (ob_b ob) - 1\<rparr>" "contents b1 = contents (ob_b ob)" by auto
  have "bb_l b1 + int (length [0 :: byte]) + bb_reserved b1 \<le> BufferMaxSize" using c(3) max by simp
  with emits_num_char [OF env, of 0] c(2) obtain b2 where n: "appendNum_char env 0 b1 = Inr b2" "bb_ok b2"
    "contents b2 = contents b1 @ map Some [0]" "bb_l b2 = bb_l b1 + int (length [0 :: byte])"
    "bb_reserved b2 = bb_reserved b1" unfolding emits_def by blast
  have l: "bb_l b2 = int (length pre) + 5 + int (length (enc_elems es))"
    using n(4) c(3) holds_length [OF h] by simp
  let ?sz = "le_bytes (word_of_int (bb_l b2 - ob_offset ob) :: 32 word)"
  have sz: "?sz = enc_len (length (enc_elems es) + 5)" by (simp add: l ok(3) enc_len_def len_word_def add.commute)
  from poke_spec [OF n(2), of "ob_offset ob" ?sz] l ok(3) obtain b3 where
    p: "poke (ob_offset ob) ?sz b2 = Inr b3" "bb_ok b3" "bb_l b3 = bb_l b2" "bb_reserved b3 = bb_reserved b2"
      "contents b3 = take (nat (ob_offset ob)) (contents b2) @ map Some ?sz @
         drop (nat (ob_offset ob) + length ?sz) (contents b2)"
    by auto
  have c2: "contents b2 = pre @ hdr @ map Some (enc_elems es @ [0])" using n(3) c(4) ok(7) by simp
  have "contents b3 = pre @ map Some ?sz @ map Some (enc_elems es @ [0])"
    using take_drop_header [OF ok(6), of "map Some ?sz" pre "map Some (enc_elems es @ [0])"]
    unfolding p(5) c2 ok(3) by simp
  then have "contents b3 = pre @ map Some (enc_doc es)"
    unfolding sz by (simp add: enc_doc_def frame_doc_def)
  moreover have "bb_l b2 - ob_offset ob = int (length (enc_doc es))"
    by (simp add: l ok(3) enc_doc_def)
  moreover have "ob_done_impl env endField ob =
      Inr (?ob\<lparr>ob_b := b3, ob_tracker := map_option (trk_got (bb_l b2 - ob_offset ob)) (ob_tracker ob)\<rparr>)"
    using ok(4) e c(1) n(1) p(1) by (simp add: ob_done_impl_def bb_len_def Let_def)
  moreover have "bb_l b3 = bb_l (ob_b ob) + 1" "bb_reserved b3 = bb_reserved (ob_b ob) - 1"
    using p(3,4) l n(5) c(3) holds_length [OF h] by simp_all
  ultimately show ?thesis using ok(3,5) p(2) by (simp add: finished_def)
qed

lemma finished_data: "finished ob pre es \<Longrightarrow> ob_data ob = Inr (enc_doc es)"
  by (auto simp: finished_def ob_data_def read_cells_def comp_def)

lemma valid_doc:
  assumes "int (length (enc_doc es)) \<le> BSONObjMaxInternalSize"
  shows "BSONObj_unowned assertInvalid (enc_doc es) = Inr (obj_at es [])"
proof -
  have "length (enc_doc es) < 2 ^ 31"
    using assms by (simp add: BSONObjMaxInternalSize_def BSONObjMaxUserSize_def)
  from obj_objsize_at [OF this, of "[]"] assms show ?thesis
    by (simp add: BSONObj_unowned_def obj_init_def obj_isValid_def obj_at_def SharedBuffer_new_def
        enc_doc_def obj_objsize_def)
qed

lemma done_done:
  assumes "finished ob pre es"
  shows "ob_done_impl env endField ob = Inr ob"
  using assms by (simp add: ob_done_impl_def finished_def)

lemma built_and_iterated:
  assumes "mallocs env" and "end_field_ok endField" and "element_size esize"
    and "wf_doc es" and "list_all (\<lambda>e. appendable (snd e)) es"
    and "int (length (enc_doc es)) \<le> BSONObjMaxInternalSize"
  shows "\<exists>ob ob1 ob2 o1 els.
    BSONObjBuilder_new env 512 = Inr ob \<and> append_all env es ob = Inr ob1 \<and>
    ob_done env endField assertInvalid ob1 = Inr (o1, ob2) \<and> od_objdata o1 = enc_doc es \<and>
    bindE (BSONObjIterator_new o1) (BSONForEach (length es) esize) = Inr els \<and>
    list_all2 (\<lambda>el e. \<exists>r. el = el_at e r) els es"
proof -
  have len: "int (length (enc_elems es)) + 5 \<le> BSONObjMaxInternalSize" "length (enc_doc es) < 2 ^ 31"
    using assms(6) by (simp_all add: enc_doc_def BSONObjMaxInternalSize_def BSONObjMaxUserSize_def)
  from BSONObjBuilder_new_holds [OF assms(1), of 512] obtain ob pre where
    ob: "BSONObjBuilder_new env 512 = Inr ob" "holds ob pre []" "bb_l (ob_b ob) = 8" "bb_reserved (ob_b ob) = 1"
    by (auto simp: BufferMaxSize_def)
  have "bb_l (ob_b ob) + int (length (enc_elems es)) + bb_reserved (ob_b ob) \<le> BufferMaxSize"
    using len(1) ob(3,4) by (simp add: BufferMaxSize_def BSONObjMaxInternalSize_def BSONObjMaxUserSize_def)
  from holds_append_all [OF ob(2) assms(1,4,5) this] ob(3,4) obtain b1 where
    b1: "append_all env es ob = Inr (ob\<lparr>ob_b := b1\<rparr>)" "holds (ob\<lparr>ob_b := b1\<rparr>) pre es"
      "bb_l b1 = 8 + int (length (enc_elems es))" "bb_reserved b1 = 1" by auto
  have "bb_l (ob_b (ob\<lparr>ob_b := b1\<rparr>)) + bb_reserved (ob_b (ob\<lparr>ob_b := b1\<rparr>)) \<le> BufferMaxSize"
    using len(1) b1(3,4) by (simp add: BufferMaxSize_def BSONObjMaxInternalSize_def BSONObjMaxUserSize_def)
  from holds_done [OF b1(2) assms(2,1) this] obtain ob2 where
    ob2: "ob_done_impl env endField (ob\<lparr>ob_b := b1\<rparr>) = Inr ob2" "finished ob2 pre es" by blast
  have "ob_done env endField assertInvalid (ob\<lparr>ob_b := b1\<rparr>) = Inr (obj_at es [], ob2)"
    using ob2 finished_data valid_doc [OF assms(6)] by (simp add: ob_done_def)
  moreover have "od_objdata (obj_at es []) = enc_doc es" by (simp add: obj_at_def)
  ultimately show ?thesis
    using ob(1) b1(1) element_size.forEach_doc [OF assms(3,4) len(2) order_refl, of "[]"] by blast
qed

section \<open>Properties\<close>

text \<open>C6: building and iterating are inverse: a document appended element by element to a new builder
  and finished gives an object whose bytes are the documented format, and whose iteration yields the
  elements that were appended, in order.\<close>

theorem build_then_iterate:
  assumes "mallocs env" and "end_field_ok endField" and "element_size esize"
    and "wf_doc es" and "list_all (\<lambda>e. appendable (snd e)) es"
    and "int (length (enc_doc es)) \<le> BSONObjMaxInternalSize"
  shows "\<exists>ob ob1 ob2 o1 els.
    BSONObjBuilder_new env 512 = Inr ob \<and> append_all env es ob = Inr ob1 \<and>
    ob_done env endField assertInvalid ob1 = Inr (o1, ob2) \<and> od_objdata o1 = enc_doc es \<and>
    bindE (BSONObjIterator_new o1) (BSONForEach (length es) esize) = Inr els \<and>
    list_all2 (\<lambda>el e. \<exists>r. el = el_at e r) els es"
  by (rule built_and_iterated [OF assms])

definition plain_endField :: end_field where
  "plain_endField name ob = Inr (ob\<lparr>ob_s := (ob_s ob)\<lparr>vs_fieldName := name\<rparr>\<rparr>)"

lemma plain_endField_ok: "end_field_ok plain_endField"
  by (simp add: end_field_ok_def plain_endField_def)

lemma mallocs_all: "mallocs (\<lambda>_. True)"
  by (simp add: mallocs_def)

theorem build_then_iterate_witness:
  "\<exists>ob ob1 ob2 o1 els.
    BSONObjBuilder_new (\<lambda>_. True) 512 = Inr ob \<and>
    append_all (\<lambda>_. True) [([97], VInt 7), ([98], VArray [([48], VNull)])] ob = Inr ob1 \<and>
    ob_done (\<lambda>_. True) plain_endField (\<lambda>_. Inl (MsgAssertion 10334)) ob1 = Inr (o1, ob2) \<and>
    od_objdata o1 = enc_doc [([97], VInt 7), ([98], VArray [([48], VNull)])] \<and>
    bindE (BSONObjIterator_new o1) (BSONForEach (Suc (Suc 0)) format_esize) = Inr els \<and>
    list_all2 (\<lambda>el e. \<exists>r. el = el_at e r) els [([97], VInt 7), ([98], VArray [([48], VNull)])]"
  using build_then_iterate [OF mallocs_all plain_endField_ok fmt.element_size_axioms,
      of "[([97], VInt 7), ([98], VArray [([48], VNull)])]" "\<lambda>_. Inl (MsgAssertion 10334)"]
  by (simp add: cstring_def enc_doc_def BSONObjMaxInternalSize_def BSONObjMaxUserSize_def)

lemma subobj_started:
  assumes "bb_ok (ob_b ob)" and "mallocs env" and "cstring n"
    and "bb_l (ob_b ob) + int (length (type_byte Object # n @ [0])) + 5 + bb_reserved (ob_b ob) \<le> BufferMaxSize"
  shows "\<exists>b1 sub. subobjStart env n (ob_b ob) = Inr b1 \<and> BSONObjBuilder_sub env b1 = Inr sub \<and>
    contents b1 = contents (ob_b ob) @ map Some (type_byte Object # n @ [0]) \<and> holds sub (contents b1) [] \<and>
    \<not> ob_own sub \<and> bb_l (ob_b sub) = bb_l (ob_b ob) + int (length (type_byte Object # n @ [0])) + 4 \<and>
    bb_reserved (ob_b sub) = bb_reserved (ob_b ob) + 1"
proof -
  let ?h = "type_byte Object # n @ [0]"
  have "emits (subobjStart env n) ?h"
    using emits_header_only [OF assms(2,3), of "type_byte Object"] by (simp add: subobjStart_def [abs_def])
  moreover have "bb_l (ob_b ob) + int (length ?h) + bb_reserved (ob_b ob) \<le> BufferMaxSize"
    using assms(4) by linarith
  ultimately obtain b1 where b1: "subobjStart env n (ob_b ob) = Inr b1" "bb_ok b1"
    "contents b1 = contents (ob_b ob) @ map Some ?h" "bb_l b1 = bb_l (ob_b ob) + int (length ?h)"
    "bb_reserved b1 = bb_reserved (ob_b ob)" using assms(1) unfolding emits_def by blast
  have off: "bb_len b1 = int (length (contents b1))"
    using length_contents [OF b1(2)] b1(2) by (simp add: bb_len_def bb_ok_def)
  have "bb_l b1 + bb_reserved b1 + 5 \<le> BufferMaxSize" using assms(4) b1(4,5) by linarith
  from ob_start_holds [OF b1(2) this assms(2) off, of False None] obtain sub where
    "BSONObjBuilder_sub env b1 = Inr sub" "holds sub (contents b1) []" "\<not> ob_own sub"
    "bb_l (ob_b sub) = bb_l b1 + 4" "bb_reserved (ob_b sub) = bb_reserved b1 + 1"
    by (auto simp: BSONObjBuilder_sub_def)
  then show ?thesis using b1(1,3-5) by (intro exI [of _ b1] exI [of _ sub]) simp
qed

lemma sub_destroyed:
  assumes "holds sub pre fs" and "mallocs env" and "end_field_ok endField" and "\<not> ob_own sub"
    and "bb_l (ob_b sub) + bb_reserved (ob_b sub) \<le> BufferMaxSize"
  shows "\<exists>sub2. ob_destroy env endField sub = Inr sub2 \<and> finished sub2 pre fs \<and>
    bb_reserved (ob_b sub2) = bb_reserved (ob_b sub) - 1"
proof -
  from holds_done [OF assms(1,3,2,5)] obtain sub2 where
    s2: "ob_done_impl env endField sub = Inr sub2" "finished sub2 pre fs"
      "bb_reserved (ob_b sub2) = bb_reserved (ob_b sub) - 1" by auto
  have "contents (ob_b sub) \<noteq> []" using assms(1) by (auto simp: holds_def)
  then have "bb_data (ob_b sub) \<noteq> None" by (cases "bb_data (ob_b sub)") (simp_all add: contents_def)
  then show ?thesis using s2 assms(1,4) by (simp add: ob_destroy_def holds_def)
qed

text \<open>C7: a sub-builder that writes into its parent's buffer leaves there the encoding of the nested
  object: the parent then holds its elements and the new member, with the reservation it had.\<close>

theorem subobject_in_place:
  assumes "holds ob pre es" and "mallocs env" and "end_field_ok endField"
    and "wf_doc fs" and "list_all (\<lambda>e. appendable (snd e)) fs" and "cstring n"
    and "bb_l (ob_b ob) + int (length (enc_elem (n, VObject fs))) + bb_reserved (ob_b ob) < BufferMaxSize"
  shows "\<exists>b1 sub sub1 sub2. subobjStart env n (ob_b ob) = Inr b1 \<and> BSONObjBuilder_sub env b1 = Inr sub \<and>
    append_all env fs sub = Inr sub1 \<and> ob_destroy env endField sub1 = Inr sub2 \<and>
    holds (ob\<lparr>ob_b := ob_b sub2\<rparr>) pre (es @ [(n, VObject fs)])"
proof -
  let ?h = "type_byte Object # n @ [0]"
  from assms(1) obtain hdr where ok: "bb_ok (ob_b ob)" "1 \<le> bb_reserved (ob_b ob)" "length hdr = 4"
    "contents (ob_b ob) = pre @ hdr @ map Some (enc_elems es)" unfolding holds_def by blast
  have len: "length (enc_elem (n, VObject fs)) = length ?h + length (enc_elems fs) + 5"
    by (simp add: enc_elem_split)
  have max: "bb_l (ob_b ob) + int (length ?h) + int (length (enc_elems fs)) + 5 + bb_reserved (ob_b ob) < BufferMaxSize"
    using assms(7) unfolding len by linarith
  then have "bb_l (ob_b ob) + int (length ?h) + 5 + bb_reserved (ob_b ob) \<le> BufferMaxSize" by linarith
  from subobj_started [OF ok(1) assms(2,6) this] obtain b1 sub where
    sub: "subobjStart env n (ob_b ob) = Inr b1" "BSONObjBuilder_sub env b1 = Inr sub"
      "contents b1 = contents (ob_b ob) @ map Some ?h" "holds sub (contents b1) []" "\<not> ob_own sub"
      "bb_l (ob_b sub) = bb_l (ob_b ob) + int (length ?h) + 4" "bb_reserved (ob_b sub) = bb_reserved (ob_b ob) + 1"
    by blast
  have "bb_l (ob_b sub) + int (length (enc_elems fs)) + bb_reserved (ob_b sub) \<le> BufferMaxSize"
    using max sub(6,7) by linarith
  from holds_append_all [OF sub(4) assms(2,4,5) this] obtain b2 where
    b2: "append_all env fs sub = Inr (sub\<lparr>ob_b := b2\<rparr>)" "holds (sub\<lparr>ob_b := b2\<rparr>) (contents b1) fs"
      "bb_l b2 = bb_l (ob_b sub) + int (length (enc_elems fs))" "bb_reserved b2 = bb_reserved (ob_b sub)"
    by auto
  have "bb_l (ob_b (sub\<lparr>ob_b := b2\<rparr>)) + bb_reserved (ob_b (sub\<lparr>ob_b := b2\<rparr>)) \<le> BufferMaxSize"
    using max sub(6,7) b2(3,4) by simp
  from sub_destroyed [OF b2(2) assms(2,3) _ this] sub(5) obtain sub2 where
    s2: "ob_destroy env endField (sub\<lparr>ob_b := b2\<rparr>) = Inr sub2" "finished sub2 (contents b1) fs"
      "bb_reserved (ob_b sub2) = bb_reserved b2 - 1" by auto
  then have "holds (ob\<lparr>ob_b := ob_b sub2\<rparr>) pre (es @ [(n, VObject fs)])"
    using assms(1) ok sub b2(4)
    by (auto simp: holds_def finished_def enc_elems_append enc_elems_Cons enc_elem_split enc_doc_def)
  then show ?thesis using sub(1,2) b2(1) s2(1) by blast
qed

text \<open>C35: peeking at a builder with \<^verbatim>\<open>asTempObj\<close> gives the finished object and leaves the builder
  with the elements it had, ready for more appends: the end of object is taken back and its byte
  reserved again.\<close>

theorem asTempObj_restores:
  assumes "holds ob pre es" and "mallocs env" and "end_field_ok endField"
    and "int (length (enc_doc es)) \<le> BSONObjMaxInternalSize"
    and "bb_l (ob_b ob) + bb_reserved (ob_b ob) < BufferMaxSize"
  shows "\<exists>o1 ob'. ob_asTempObj env endField assertInvalid ob = Inr (o1, ob') \<and>
    od_objdata o1 = enc_doc es \<and> holds ob' pre es \<and> bb_reserved (ob_b ob') = bb_reserved (ob_b ob)"
proof -
  have max: "bb_l (ob_b ob) + bb_reserved (ob_b ob) \<le> BufferMaxSize" using assms(5) by linarith
  from holds_done [OF assms(1,3,2) max] obtain ob1 where
    d: "ob_done_impl env endField ob = Inr ob1" "finished ob1 pre es" "bb_l (ob_b ob1) = bb_l (ob_b ob) + 1"
      "bb_reserved (ob_b ob1) = bb_reserved (ob_b ob) - 1" by blast
  let ?b = "bb_setlen (bb_len (ob_b ob1) - 1) (ob_b ob1)"
  have l0: "0 \<le> bb_l (ob_b ob)" using assms(1) by (simp add: holds_def bb_ok_def)
  have r1: "1 \<le> bb_reserved (ob_b ob)" using assms(1) by (simp add: holds_def)
  have ok: "bb_ok ?b"
    using d(2,3,4) l0 r1
    by (auto simp: finished_def bb_ok_def bb_setlen_def bb_len_def block_ok_def split: option.splits)
  have "contents ?b = take (nat (bb_l (ob_b ob))) (contents (ob_b ob1))"
    using d(3) l0 by (cases "bb_data (ob_b ob1)") (simp_all add: contents_def bb_setlen_def bb_len_def min_def)
  moreover have "nat (bb_l (ob_b ob)) = length pre + 4 + length (enc_elems es)"
    using holds_length [OF assms(1)] by simp
  ultimately have c: "contents ?b = pre @ map Some (enc_len (length (enc_elems es) + 5)) @ map Some (enc_elems es)"
    using d(2) by (simp add: finished_def enc_doc_def frame_doc_def)
  have "bb_l ?b + bb_reserved ?b + 1 \<le> BufferMaxSize"
    using max d(3,4) by (simp add: bb_setlen_def bb_len_def)
  from reserveBytes_total [OF ok _ this assms(2)] obtain b2 where
    b2: "reserveBytes env 1 ?b = Inr b2" "bb_ok b2" "contents b2 = contents ?b" "bb_l b2 = bb_l ?b"
      "bb_reserved b2 = bb_reserved ?b + 1" by auto
  have t: "ob_asTempObj env endField assertInvalid ob =
      Inr (obj_at es [], ob1\<lparr>ob_b := b2, ob_doneCalled := False\<rparr>)"
    using d(1) finished_data [OF d(2)] valid_doc [OF assms(4)] b2(1)
    by (simp add: ob_asTempObj_def ob_done_def Let_def)
  have r: "bb_reserved b2 = bb_reserved (ob_b ob)" using b2(5) d(4) by (simp add: bb_setlen_def)
  have "holds (ob1\<lparr>ob_b := b2, ob_doneCalled := False\<rparr>) pre es"
    using b2(2,3) r r1 c d(2) by (auto simp: holds_def finished_def intro!: exI [of _ "map Some (enc_len _)"])
  with t r show ?thesis by (auto simp: obj_at_def)
qed

lemma sint_word_of_int_small:
  assumes "- (2 ^ 31) \<le> i" and "i < 2 ^ 31"
  shows "sint (word_of_int i :: 32 word) = i"
proof -
  have "signed_take_bit 31 i = i" by (rule signed_take_bit_int_eq_self) (use assms in simp_all)
  then show ?thesis by (simp add: signed_of_int)
qed

lemma sint_ucast_small:
  assumes "\<bar>sint l\<bar> < 2 ^ 30"
  shows "sint (ucast (l :: 64 word) :: 32 word) = sint l"
proof -
  have "(ucast l :: 32 word) = word_of_int (sint l)"
    by (rule bit_word_eqI) (simp add: bit_ucast_iff bit_word_of_int_iff bit_sint_iff bit_signed_iff)
  then show ?thesis using sint_word_of_int_small [of "sint l"] assms by simp
qed

lemma new_builder:
  "\<exists>ob pre. BSONObjBuilder_new (\<lambda>_. True) 64 = Inr ob \<and> holds ob pre [] \<and> bb_l (ob_b ob) = 8 \<and>
     bb_reserved (ob_b ob) = 1"
  using BSONObjBuilder_new_holds [OF mallocs_all, of 64] by (auto simp: BufferMaxSize_def)

theorem subobject_in_place_witness:
  "\<exists>ob pre b1 sub sub1 sub2. BSONObjBuilder_new (\<lambda>_. True) 64 = Inr ob \<and>
    subobjStart (\<lambda>_. True) [97] (ob_b ob) = Inr b1 \<and> BSONObjBuilder_sub (\<lambda>_. True) b1 = Inr sub \<and>
    append_all (\<lambda>_. True) [([98], VInt 7)] sub = Inr sub1 \<and>
    ob_destroy (\<lambda>_. True) plain_endField sub1 = Inr sub2 \<and>
    holds (ob\<lparr>ob_b := ob_b sub2\<rparr>) pre [([97], VObject [([98], VInt 7)])]"
proof -
  obtain ob pre where ob: "BSONObjBuilder_new (\<lambda>_. True) 64 = Inr ob" "holds ob pre []"
    "bb_l (ob_b ob) = 8" "bb_reserved (ob_b ob) = 1" using new_builder by blast
  from subobject_in_place [OF ob(2) mallocs_all plain_endField_ok, of "[([98], VInt 7)]" "[97]"] ob
  show ?thesis by (auto simp: cstring_def enc_elem_split BufferMaxSize_def)
qed

theorem asTempObj_restores_witness:
  "\<exists>ob pre o1 ob'. BSONObjBuilder_new (\<lambda>_. True) 64 = Inr ob \<and>
    ob_asTempObj (\<lambda>_. True) plain_endField (\<lambda>_. Inl (MsgAssertion 10334)) ob = Inr (o1, ob') \<and>
    od_objdata o1 = enc_doc [] \<and> holds ob' pre []"
proof -
  obtain ob pre where ob: "BSONObjBuilder_new (\<lambda>_. True) 64 = Inr ob" "holds ob pre []"
    "bb_l (ob_b ob) = 8" "bb_reserved (ob_b ob) = 1" using new_builder by blast
  have "int (length (enc_doc [])) \<le> BSONObjMaxInternalSize"
    by (simp add: enc_doc_def BSONObjMaxInternalSize_def BSONObjMaxUserSize_def)
  from asTempObj_restores [OF ob(2) mallocs_all plain_endField_ok this, of "\<lambda>_. Inl (MsgAssertion 10334)"] ob
  show ?thesis by (auto simp: BufferMaxSize_def)
qed

text \<open>The names of array members are the decimal numerals, whether they come from the cached table
  of the first hundred or are printed.\<close>

theorem numStr_decimal:
  assumes "mallocs env" and "0 \<le> i" and "i \<le> int32_max" and "\<forall>k. k < 100 \<longrightarrow> numStrs (int k) = dec_nat k"
  shows "numStr env ready numStrs i = Inr (dec_nat (nat i))"
proof (cases "i < 100 \<and> ready")
  case True
  then have "numStrs i = dec_nat (nat i)" using assms(2,4) by (metis nat_less_iff of_nat_numeral int_nat_eq)
  then show ?thesis using True assms(2) by (simp add: numStr_def)
next
  case False
  from BufBuilder_new_ok [OF assms(1), of 512 TrivialAllocator] obtain b where
    b: "BufBuilder_new env TrivialAllocator 512 = Inr b" "bb_ok b" "contents b = []" "bb_l b = 0"
      "bb_reserved b = 0" by (auto simp: BufferMaxSize_def)
  have s: "sint (word_of_int i :: 32 word) = i"
    using assms(2,3) by (intro sint_word_of_int_small) (simp_all add: int32_max_def)
  have d: "dec_int i = dec_nat (nat i)" using assms(2) by (simp add: dec_int_def)
  have "length (dec_int i) \<le> 10"
    by (rule length_dec_int(2)) (use assms(2,3) in \<open>simp_all add: int32_max_def\<close>)
  then have "int (length (dec_int i)) < MONGO_S32_SIZE" by (simp add: MONGO_S32_SIZE_def)
  from SBNUM_spec [OF b(2) this _ assms(1)] b obtain b1 where
    b1: "sb_int env (word_of_int i) b = Inr b1" "contents b1 = map Some (dec_nat (nat i))"
    by (auto simp: sb_int_def s d MONGO_S32_SIZE_def BufferMaxSize_def)
  have "sb_str b1 = Inr (dec_nat (nat i))" by (auto simp: sb_str_def b1(2) read_cells_def comp_def)
  then show ?thesis using False b(1) b1(1) by (auto simp: numStr_def)
qed

theorem numStr_decimal_witness: "numStr (\<lambda>_. True) True (\<lambda>i. dec_nat (nat i)) 123 = Inr [49, 50, 51]"
proof -
  have "dec_nat 123 = [49, 50, 51]" by (simp add: dec_nat.simps)
  then show ?thesis
    using numStr_decimal [OF mallocs_all, of 123 "\<lambda>i. dec_nat (nat i)" True] by (simp add: int32_max_def)
qed

text \<open>\<^verbatim>\<open>appendNumber\<close> of a 64-bit integer picks the smallest sensible type and loses nothing: the
  element it writes is an int, a double or a long whose value is the number.\<close>

theorem appendNumber_exact:
  assumes "mallocs env" and "cstring n"
  shows "\<exists>v. emits (appendNumber_longlong env n l) (enc_elem (n, v)) \<and>
    (case v of VInt i \<Rightarrow> sint i = sint l \<and> \<bar>sint l\<bar> < 2 ^ 30
     | VDouble d \<Rightarrow> val_eq (dbl_value d) (Fin (sint l) 0) \<and> 2 ^ 30 \<le> \<bar>sint l\<bar> \<and> \<bar>sint l\<bar> < 2 ^ 40
     | VLong k \<Rightarrow> k = l \<and> 2 ^ 40 \<le> \<bar>sint l\<bar>
     | _ \<Rightarrow> False)"
proof -
  have p: "push_bit 30 (1 :: int) = 2 ^ 30" "push_bit 40 (1 :: int) = 2 ^ 40" by (simp_all add: push_bit_eq_mult)
  consider (i) "\<bar>sint l\<bar> < 2 ^ 30" | (d) "2 ^ 30 \<le> \<bar>sint l\<bar>" "\<bar>sint l\<bar> < 2 ^ 40" | (l) "2 ^ 40 \<le> \<bar>sint l\<bar>"
    by linarith
  then show ?thesis
  proof cases
    case i
    then have "- (2 ^ 30) < sint l" "sint l < 2 ^ 30" by linarith+
    then have "appendNumber_longlong env n l = append_val env (n, VInt (ucast l))"
      by (simp add: appendNumber_longlong_def [abs_def] p)
    moreover have "emits (append_val env (n, VInt (ucast l))) (enc_elem (n, VInt (ucast l)))"
      by (rule emits_append_fixed [OF assms]) simp_all
    ultimately show ?thesis using i sint_ucast_small [OF i]
      by (intro exI [of _ "VInt (ucast l)"]) simp
  next
    case d
    then have "\<not> (- (2 ^ 30) < sint l \<and> sint l < 2 ^ 30)" "- (2 ^ 40) < sint l" "sint l < 2 ^ 40"
      by linarith+
    then have "appendNumber_longlong env n l = append_val env (n, VDouble (int_to_double (sint l)))"
      by (auto simp: appendNumber_longlong_def [abs_def] p)
    moreover have "emits (append_val env (n, VDouble (int_to_double (sint l))))
        (enc_elem (n, VDouble (int_to_double (sint l))))"
      by (rule emits_append_fixed [OF assms]) simp_all
    ultimately show ?thesis using d int_to_double_exact [of "sint l"]
      by (intro exI [of _ "VDouble (int_to_double (sint l))"]) simp
  next
    case l
    then have "\<not> (- (2 ^ 30) < sint l \<and> sint l < 2 ^ 30)" "\<not> (- (2 ^ 40) < sint l \<and> sint l < 2 ^ 40)"
      by auto
    then have "appendNumber_longlong env n l = append_val env (n, VLong l)"
      by (auto simp: appendNumber_longlong_def [abs_def] p)
    moreover have "emits (append_val env (n, VLong l)) (enc_elem (n, VLong l))"
      by (rule emits_append_fixed [OF assms]) simp_all
    ultimately show ?thesis using l by (intro exI [of _ "VLong l"]) simp
  qed
qed

theorem appendNumber_exact_witness:
  "\<exists>v. emits (appendNumber_longlong (\<lambda>_. True) [97] 4294967297) (enc_elem ([97], v)) \<and>
    (case v of VInt i \<Rightarrow> sint i = 4294967297 \<and> \<bar>4294967297 :: int\<bar> < 2 ^ 30
     | VDouble d \<Rightarrow> val_eq (dbl_value d) (Fin 4294967297 0) \<and> 2 ^ 30 \<le> \<bar>4294967297 :: int\<bar> \<and>
         \<bar>4294967297 :: int\<bar> < 2 ^ 40
     | VLong k \<Rightarrow> k = 4294967297 \<and> 2 ^ 40 \<le> \<bar>4294967297 :: int\<bar>
     | _ \<Rightarrow> False)"
proof -
  have "sint (4294967297 :: 64 word) = 4294967297" by simp
  then show ?thesis
    using appendNumber_exact [OF mallocs_all, of "[97]" 4294967297] by (simp only: cstring_def) simp
qed

text \<open>A field name with a null byte is refused with user assertion 0 by every operation that checks
  it, before anything is written; \<^verbatim>\<open>appendUndefined\<close> does not check, and writes the name up to
  and beyond its null, so that what follows the null is no longer the name.\<close>

theorem field_names_checked:
  assumes "\<not> cstring n"
  shows "append_int env n i b = Inl (UserAssertion 0) \<and> append_double env n d b = Inl (UserAssertion 0) \<and>
    append_string_data env n s b = Inl (UserAssertion 0) \<and> append_obj env n o1 b = Inl (UserAssertion 0) \<and>
    appendArray env n o1 b = Inl (UserAssertion 0) \<and> append_oid env n oid b = Inl (UserAssertion 0) \<and>
    appendRegex env n rx opts b = Inl (UserAssertion 0) \<and> appendCode env n s b = Inl (UserAssertion 0) \<and>
    appendNull env n b = Inl (UserAssertion 0) \<and> appendTimestamp env n ts b = Inl (UserAssertion 0) \<and>
    appendBinData env n len st bs b = Inl (UserAssertion 0) \<and>
    appendCodeWScope env n s o1 b = Inl (UserAssertion 0) \<and>
    (mallocs env \<longrightarrow> emits (appendUndefined env n) (type_byte Undefined # n @ [0]))"
proof -
  have "mallocs env \<Longrightarrow> emits (appendUndefined env n) (type_byte Undefined # n @ [0])"
    using emits_comp [OF emits_num_char [of env "type_byte Undefined"] emits_cstr [of env n]]
    by (simp add: appendUndefined_def [abs_def])
  then show ?thesis
    by (simp add: checkFieldName_null [OF assms] append_int_def append_double_def append_string_data_def
        append_obj_def appendArray_def append_oid_def appendRegex_def appendCode_def appendNull_def
        appendTimestamp_def appendBinData_def appendCodeWScope_def)
qed

theorem field_names_checked_witness:
  "append_int (\<lambda>_. True) [97, 0, 98] 7
     \<lparr>bb_al = TrivialAllocator, bb_data = None, bb_l = 0, bb_size = 0, bb_reserved = 0\<rparr> = Inl (UserAssertion 0) \<and>
   emits (appendUndefined (\<lambda>_. True) [97, 0, 98]) [6, 97, 0, 98, 0]"
  using field_names_checked [of "[97, 0, 98]" "\<lambda>_. True" 7] mallocs_all
  by (simp add: cstring_def type_byte_def)

lemma trk_scan_Max: "trk_scan x xs = Max (insert x (set xs))"
proof (induction xs arbitrary: x)
  case (Cons y ys)
  have "Max (insert x (insert y (set ys))) = Max (insert (max x y) (set ys))"
    by (cases "ys = []") (simp_all add: max.assoc)
  moreover have "(if y > x then y else x) = max x y" by (simp add: max_def)
  ultimately show ?case using Cons.IH [of "max x y"] by simp
qed simp

lemma mod_add_inj:
  fixes n j k m :: nat
  assumes "(n + j) mod m = (n + k) mod m" "j < m" "k < m"
  shows "j = k"
proof -
  have "(int n + int j) mod int m = (int n + int k) mod int m"
    using assms(1) by (metis of_nat_add of_nat_mod)
  then have "int m dvd (int n + int j) - (int n + int k)" by (simp only: mod_eq_dvd_iff)
  then have "int m dvd int j - int k" by simp
  then show ?thesis using assms(2,3) zdvd_not_zless [of "int j - int k" "int m"]
      zdvd_not_zless [of "int k - int j" "int m"] by (cases j k rule: linorder_cases)
        (auto simp: dvd_diff_commute)
qed

text \<open>The ring of sizes: slot \<open>k mod 10\<close> holds the last size told at a time \<open>k\<close> of its residue.\<close>

lemma tracker_ring:
  fixes szs :: "int list"
  defines "t \<equiv> fold trk_got szs BSONSizeTracker_new"
  shows "trk_pos t = int (length szs mod 10) \<and> length (trk_sizes t) = 10 \<and>
    (\<forall>j < 10. trk_sizes t ! ((length szs + j) mod 10) = (replicate 10 512 @ szs) ! (length szs + j))"
  unfolding t_def
proof (induction szs rule: rev_induct)
  case Nil
  show ?case by (simp add: BSONSizeTracker_new_def BSONSizeTracker_SIZE_def)
next
  case (snoc s szs)
  let ?t = "fold trk_got szs BSONSizeTracker_new" and ?n = "length szs"
  have len: "length (trk_sizes ?t) = 10" and pos: "nat (trk_pos ?t) = ?n mod 10"
    and ring: "\<And>j. j < 10 \<Longrightarrow> trk_sizes ?t ! ((?n + j) mod 10) = (replicate 10 512 @ szs) ! (?n + j)"
    using snoc.IH by auto
  have "trk_pos ?t = int (?n mod 10)" using snoc.IH by simp
  then have "trk_pos (trk_got s ?t) = (int (?n mod 10) + 1) mod 10"
    by (simp add: trk_got_def BSONSizeTracker_SIZE_def add.commute)
  also have "\<dots> = int (Suc ?n mod 10)" by (simp add: zmod_int mod_simps add.commute)
  finally have "trk_pos (trk_got s ?t) = int (Suc ?n mod 10)" .
  moreover have "trk_sizes (trk_got s ?t) ! ((Suc ?n + j) mod 10) =
      (replicate 10 512 @ szs @ [s]) ! (Suc ?n + j)" if j: "j < 10" for j
  proof (cases "j = 9")
    case True
    have "(Suc ?n + 9) mod 10 = (?n + 10) mod 10" by (simp only: add_Suc add_Suc_right) simp
    then have "(Suc ?n + 9) mod 10 = ?n mod 10" by simp
    then show ?thesis using len by (simp add: trk_got_def pos True nth_append)
  next
    case False
    have "(?n + Suc j) mod 10 \<noteq> (?n + 0) mod 10" using mod_add_inj [of ?n "Suc j" 10 0] j False by auto
    then have "(Suc ?n + j) mod 10 \<noteq> ?n mod 10" by simp
    then have "trk_sizes (trk_got s ?t) ! ((Suc ?n + j) mod 10) = trk_sizes ?t ! ((?n + Suc j) mod 10)"
      by (simp add: trk_got_def pos)
    also have "\<dots> = (replicate 10 512 @ szs) ! (?n + Suc j)" using j False by (intro ring) simp
    also have "\<dots> = (replicate 10 512 @ szs @ [s]) ! (Suc ?n + j)"
    proof -
      have "?n + Suc j < length (replicate 10 512 @ szs)" using j False by simp
      then show ?thesis by (simp only: append_assoc [symmetric] nth_append_left add_Suc add_Suc_right)
    qed
    finally show ?thesis .
  qed
  moreover have "length (trk_sizes (trk_got s ?t)) = 10" using len by (simp add: trk_got_def)
  ultimately show ?case by simp
qed

lemma tracker_set:
  "set (trk_sizes (fold trk_got szs BSONSizeTracker_new)) = set (drop (length szs) (replicate 10 512 @ szs))"
proof -
  let ?t = "fold trk_got szs BSONSizeTracker_new" and ?n = "length szs" and ?L = "replicate 10 512 @ szs"
  have len: "length (trk_sizes ?t) = 10"
    and ring: "\<And>j. j < 10 \<Longrightarrow> trk_sizes ?t ! ((?n + j) mod 10) = ?L ! (?n + j)"
    using tracker_ring [of szs] by auto
  have img: "(\<lambda>j. (?n + j) mod 10) ` {..<10} = {..<10}"
  proof (rule card_subset_eq)
    have "inj_on (\<lambda>j. (?n + j) mod 10) {..<10}"
      by (rule inj_onI) (rule mod_add_inj [of ?n _ 10], simp_all)
    then show "card ((\<lambda>j. (?n + j) mod 10) ` {..<10}) = card {..<10::nat}" by (rule card_image)
  qed auto
  have "set (trk_sizes ?t) = (\<lambda>i. trk_sizes ?t ! i) ` {..<10}"
    using len by (auto simp: set_conv_nth)
  also have "\<dots> = (\<lambda>i. trk_sizes ?t ! i) ` (\<lambda>j. (?n + j) mod 10) ` {..<10}" by (simp only: img)
  also have "\<dots> = (\<lambda>j. ?L ! (?n + j)) ` {..<10}" unfolding image_image by (rule image_cong) (auto simp: ring)
  also have "\<dots> = set (drop ?n ?L)"
  proof -
    have "drop ?n ?L = List.map (\<lambda>j. ?L ! (?n + j)) [0..<10]"
      by (rule nth_equalityI) (simp_all del: drop_append set_append)
    then show ?thesis by (simp only: set_map set_upt atLeast0LessThan)
  qed
  finally show ?thesis .
qed

text \<open>The size tracker proposes the largest of the last ten sizes it was told (512 for those not
  told yet), and at least 16.\<close>

theorem tracker_proposes_maximum:
  "trk_getSize (fold trk_got szs BSONSizeTracker_new) =
     Max (insert 16 (set (drop (length szs) (replicate 10 512 @ szs))))"
  by (simp add: trk_getSize_def trk_scan_Max tracker_set del: drop_append set_append)

end
