(* ===== verification/OperatorBytes.thy ===== *)
theory OperatorBytes
  imports QueryOperator Builders
begin

text \<open>
  The operators on bytes: the documents of \<open>BsonCommon\<close> and \<open>QueryCommon\<close> are what the object builder
  writes into its buffer and what the iterator reads from it.
\<close>

text \<open>A value under a key is an element that the builder can append; a \<^verbatim>\<open>Date_t\<close> it appends in whole seconds only.\<close>

lemma built_appendable:
  assumes "buildBSONObjectWithKey env (Some k) t False v = Inr d" and "has_type t v" and "gen_errors t = []" and "t \<noteq> TTimestamp"
  shows "list_all (\<lambda>e. appendable (snd e)) d"
proof -
  obtain w where w: "buildBSONObject env t v = Inr w" "d = [(k, w)]"
    using assms(1) by (cases "buildBSONObject env t v") (auto simp: buildBSONObjectWithKey_def append_field_cases split: if_splits)
  have "appendable w"
    using w(1) assms(2-4) by (cases t) (auto simp: bindX_eq_Inr ill_typed_def split: if_splits)
  then show ?thesis by (simp add: w(2))
qed



end
