(* ===== verification/DataCursor.thy ===== *)
theory DataCursor
  imports DataView
begin

text \<open>
  The class \<^verbatim>\<open>DataCursor\<close> of \<^verbatim>\<open>base/data_cursor.h\<close>: it repeats the operations of \<^verbatim>\<open>ConstDataCursor\<close> over a
  storage that can be written. What one cursor writes another reads, and moving back over what was written
  reads it again.
\<close>

section \<open>Moving\<close>

definition DataCursor_const :: "data_view \<Rightarrow> data_view" where
  "DataCursor_const c = view c 0"

definition DataCursor_plus :: "data_view \<Rightarrow> nat \<Rightarrow> data_view" where
  "DataCursor_plus c s = view c s"

definition DataCursor_minus :: "data_view \<Rightarrow> nat \<Rightarrow> data_view res" where
  "DataCursor_minus c s = (if s \<le> dv_pos c then Inr (c\<lparr>dv_pos := dv_pos c - s\<rparr>) else Inl BadAccess)"

definition DataCursor_pre_increment :: "data_view \<Rightarrow> data_view" where
  "DataCursor_pre_increment c = DataCursor_plus c 1"

definition DataCursor_post_increment :: "data_view \<Rightarrow> data_view \<times> data_view" where
  "DataCursor_post_increment c = (let tmp = c in (tmp, DataCursor_pre_increment c))"

definition DataCursor_pre_decrement :: "data_view \<Rightarrow> data_view res" where
  "DataCursor_pre_decrement c = DataCursor_minus c 1"

definition DataCursor_post_decrement :: "data_view \<Rightarrow> (data_view \<times> data_view) res" where
  "DataCursor_post_decrement c = (let tmp = c in bindE (DataCursor_pre_decrement c) (\<lambda>c'. Inr (tmp, c')))"

definition DataCursor_skip :: "nat \<Rightarrow> data_view \<Rightarrow> data_view" where
  "DataCursor_skip sizeof_T c = view c sizeof_T"

section \<open>Reading\<close>

definition DataCursor_readNativeAndAdvance :: "byte_order \<Rightarrow> data_view \<Rightarrow> ('a::len word \<times> data_view) res" where
  "DataCursor_readNativeAndAdvance bo c =
     bindE (readNative bo c 0) (\<lambda>out. Inr (out, DataCursor_skip (LENGTH('a) div 8) c))"

definition DataCursor_readLEAndAdvance ::
    "byte_order \<Rightarrow> 'a::len word byte_order_converter \<Rightarrow> data_view \<Rightarrow> ('a word \<times> data_view) res" where
  "DataCursor_readLEAndAdvance bo cv c =
     bindE (DataCursor_readNativeAndAdvance bo c) (\<lambda>(t, c'). Inr (littleToNative cv t, c'))"

definition DataCursor_readBEAndAdvance ::
    "byte_order \<Rightarrow> 'a::len word byte_order_converter \<Rightarrow> data_view \<Rightarrow> ('a word \<times> data_view) res" where
  "DataCursor_readBEAndAdvance bo cv c =
     bindE (DataCursor_readNativeAndAdvance bo c) (\<lambda>(t, c'). Inr (bigToNative cv t, c'))"

section \<open>The two cursors agree\<close>

lemmas moves =
  DataCursor_const_def DataCursor_plus_def DataCursor_minus_def DataCursor_pre_increment_def DataCursor_pre_decrement_def
  DataCursor_skip_def cursor_plus_def cursor_minus_def pre_increment_def pre_decrement_def skip_def view_def

text \<open>A step back undoes a step forward, and reading does not depend on the class of the cursor.\<close>

lemma back_and_forth:
  "DataCursor_minus (DataCursor_plus c n) n = Inr c"
  "DataCursor_pre_decrement (DataCursor_pre_increment c) = Inr c"
  by (simp_all add: moves)

lemma reads_agree:
  "DataCursor_readLEAndAdvance bo cv c = readLEAndAdvance bo cv (DataCursor_const c)"
  "DataCursor_readBEAndAdvance bo cv c = readBEAndAdvance bo cv (DataCursor_const c)"
  by (simp_all add: DataCursor_readLEAndAdvance_def DataCursor_readBEAndAdvance_def readLEAndAdvance_def readBEAndAdvance_def
      DataCursor_readNativeAndAdvance_def readNativeAndAdvance_def moves)

context byte_order_law
begin

lemma written_reads_back:
  assumes "writeLEAndAdvance bo cv c t = Inr c'"
  shows "bindE (DataCursor_minus c' (LENGTH('a) div 8)) (DataCursor_readLEAndAdvance bo cv) = Inr (t, c')"
proof -
  obtain c1 where w: "writeLE bo cv c t 0 = Inr c1" "c' = cursor_plus c1 (LENGTH('a) div 8)"
    using assms by (auto simp: writeLEAndAdvance_eq bindE_eq_Inr)
  have "DataCursor_minus c' (LENGTH('a) div 8) = Inr c1"
    unfolding w(2) by (simp add: moves)
  moreover have "DataCursor_readLEAndAdvance bo cv c1 = Inr (t, c')"
    using readLE_writeLE [OF w(1)] by (simp add: reads_agree readLEAndAdvance_eq w(2) DataCursor_const_def view_def)
  ultimately show ?thesis by simp
qed

end

end
