(* ===== verification/Ordering.thy ===== *)
theory Ordering
  imports Builders
begin

text \<open>
  \<^verbatim>\<open>mongo/bson/ordering.h\<close>, the precomputed directions of a key pattern, and \<^verbatim>\<open>mongo/bson/bson_field.h\<close>,
  named fields with the type of their value. The loop of \<open>make\<close> needs no bound of its own: the
  assertion on the number of keys ends it after 33 rounds whatever the elements are.
\<close>

section \<open>Ordering\<close>

record Ordering =
  ord_bits :: "32 word"

definition Ordering_copy :: "Ordering \<Rightarrow> Ordering" where
  "Ordering_copy r = \<lparr>ord_bits = ord_bits r\<rparr>"

definition ord_assign :: "Ordering \<Rightarrow> Ordering \<Rightarrow> Ordering" where
  "ord_assign this r = this\<lparr>ord_bits := ord_bits r\<rparr>"

text \<open>A shift by a negative amount or by 32 and more is undefined; \<open>SignedOverflow\<close> marks it.\<close>

definition ord_get :: "Ordering \<Rightarrow> int \<Rightarrow> int res" where
  "ord_get ord i =
     (if 0 \<le> i \<and> i < 32 then Inr (if push_bit (nat i) 1 AND ord_bits ord \<noteq> 0 then - 1 else 1)
      else Inl SignedOverflow)"

definition ord_descending :: "Ordering \<Rightarrow> 32 word \<Rightarrow> 32 word" where
  "ord_descending ord msk = ord_bits ord AND msk"

function ord_loop ::
    "(bytes \<Rightarrow> int \<Rightarrow> int res) \<Rightarrow> BSONObjIterator \<Rightarrow> 32 word \<Rightarrow> nat \<Rightarrow> 32 word res" where
  "ord_loop esize k b n =
     bindE (it_next esize k) (\<lambda>(e, k).
     bindE (eoo e) (\<lambda>isEnd.
       if isEnd then Inr b
       else
         bindE (uassert 13103 (n \<le> 31)) (\<lambda>u.
         bindE (number e) (\<lambda>d.
         ord_loop esize k (if dbl_less d 0 then b OR push_bit n 1 else b) (n + 1)))))"
  by pat_completeness auto
termination
  by (relation "measure (\<lambda>(esize, k, b, n). 33 - n)") auto

declare ord_loop.simps [simp del]

definition ord_make :: "(bytes \<Rightarrow> int \<Rightarrow> int res) \<Rightarrow> BSONObj \<Rightarrow> Ordering res" where
  "ord_make esize obj =
     bindE (BSONObjIterator_new obj) (\<lambda>k.
     bindE (ord_loop esize k 0 0) (\<lambda>b. Inr \<lparr>ord_bits = b\<rparr>))"

section \<open>Fields\<close>

record 'a BSONFieldValue =
  fv_name :: bytes
  fv_t :: 'a

definition BSONFieldValue_new :: "bytes \<Rightarrow> 'a \<Rightarrow> 'a BSONFieldValue" where
  "BSONFieldValue_new name t = \<lparr>fv_name = name, fv_t = t\<rparr>"

definition fv_value :: "'a BSONFieldValue \<Rightarrow> 'a" where
  "fv_value v = fv_t v"

record 'a BSONField =
  bf_name :: bytes
  bf_default :: 'a
  bf_defaultSet :: bool

text \<open>Without a default value the member is default-constructed.\<close>

definition BSONField_new :: "'a \<Rightarrow> bytes \<Rightarrow> 'a BSONField" where
  "BSONField_new dflt name = \<lparr>bf_name = name, bf_default = dflt, bf_defaultSet = False\<rparr>"

definition BSONField_default :: "bytes \<Rightarrow> 'a \<Rightarrow> 'a BSONField" where
  "BSONField_default name defaultVal = \<lparr>bf_name = name, bf_default = defaultVal, bf_defaultSet = True\<rparr>"

definition bf_make :: "'a BSONField \<Rightarrow> 'a \<Rightarrow> 'a BSONFieldValue" where
  "bf_make f t = BSONFieldValue_new (bf_name f) t"

definition bf_call :: "'a BSONField \<Rightarrow> 'a \<Rightarrow> 'a BSONFieldValue" where
  "bf_call f t = BSONFieldValue_new (bf_name f) t"

definition fv_get_name :: "'a BSONFieldValue \<Rightarrow> bytes" where
  "fv_get_name v = fv_name v"

definition bf_get_name :: "'a BSONField \<Rightarrow> bytes" where
  "bf_get_name f = bf_name f"

definition bf_getDefault :: "'a BSONField \<Rightarrow> 'a" where
  "bf_getDefault f = bf_default f"

definition bf_hasDefault :: "'a BSONField \<Rightarrow> bool" where
  "bf_hasDefault f = bf_defaultSet f"

definition bf_call_name :: "'a BSONField \<Rightarrow> bytes" where
  "bf_call_name f = bf_name f"

text \<open>Streaming a field names the next value; streaming a field value appends it under its name.\<close>

definition ob_stream_field :: "end_field \<Rightarrow> 'a BSONField \<Rightarrow> BSONObjBuilder \<Rightarrow> BSONObjBuilder res" where
  "ob_stream_field endField f ob = endField (bf_get_name f) ob"

definition ob_stream_field_value ::
    "(string_data \<Rightarrow> 'a \<Rightarrow> buf_builder \<Rightarrow> buf_builder res) \<Rightarrow> 'a BSONFieldValue \<Rightarrow> BSONObjBuilder \<Rightarrow> BSONObjBuilder res" where
  "ob_stream_field_value app v ob = ob_append (app (fv_get_name v) (fv_value v)) ob"

text \<open>\<open>app q t\<close> is the builder's append operation for the type of the field.\<close>

definition bf_query ::
    "(int \<Rightarrow> bool) \<Rightarrow> end_field \<Rightarrow> (string_data \<Rightarrow> 'a \<Rightarrow> buf_builder \<Rightarrow> buf_builder res) \<Rightarrow> nat \<Rightarrow> shared_heap \<Rightarrow>
     'a BSONField \<Rightarrow> bytes \<Rightarrow> 'a \<Rightarrow> (BSONObj BSONFieldValue \<times> shared_heap) res" where
  "bf_query env endField app p heap f q t =
     bindE (BSONObjBuilder_new env 512) (\<lambda>b.
     bindE (ob_append (app q t) b) (\<lambda>b.
     bindE (ob_obj env endField p heap b) (\<lambda>(o1, b, heap).
       Inr (BSONFieldValue_new (bf_name f) o1, heap))))"

definition bf_gt where
  "bf_gt env endField app p heap f t = bf_query env endField app p heap f [0x24, 0x67, 0x74] t"

definition bf_lt where
  "bf_lt env endField app p heap f t = bf_query env endField app p heap f [0x24, 0x6C, 0x74] t"

definition bf_ne where
  "bf_ne env endField app p heap f t = bf_query env endField app p heap f [0x24, 0x6E, 0x65] t"

section \<open>Lemmas\<close>

text \<open>A key is descending when its value is a negative number.\<close>

fun descending_key :: "bson_val \<Rightarrow> bool" where
  "descending_key (VInt i) \<longleftrightarrow> sint i < 0"
| "descending_key (VLong i) \<longleftrightarrow> sint i < 0"
| "descending_key (VDouble d) \<longleftrightarrow> dbl_less d 0"
| "descending_key v \<longleftrightarrow> False"

lemma sint_to_double_sign:
  fixes w :: "'a::len word"
  assumes "LENGTH('a) \<le> 64"
  shows "dbl_less (int_to_double (sint w)) 0 \<longleftrightarrow> sint w < 0"
proof (rule int_to_double_sign)
  have "\<bar>sint w\<bar> \<le> 2 ^ (LENGTH('a) - 1)"
    using sint_greater_eq [of w] sint_less [of w] by (auto simp: abs_le_iff)
  also have "\<dots> \<le> 2 ^ 63" using assms by (intro power_increasing) auto
  finally show "\<bar>sint w\<bar> \<le> 2 ^ 63" .
qed

lemma number_sign:
  assumes "name_ok n"
  shows "\<exists>d. number (el_at (n, v) rest) = Inr d \<and> (dbl_less d 0 \<longleftrightarrow> descending_key v)"
proof -
  have val: "el_value (el_at (n, v) rest) = Inr (enc_val v @ rest)" using el_value_at [of "(n, v)"] assms by simp
  note i = sint_to_double_sign
  have z: "\<not> dbl_less 0 0" by (simp add: dbl_less_def dbl_value_0 scale_def)
  show ?thesis
    using val by (cases v) (simp_all add: number_def numberDouble_def numberDouble_raw_def numberInt_raw_def
        numberLong_raw_def i z)
qed

text \<open>The bits that the loop has set after the keys \<open>vs\<close> from the \<open>n\<close>-th on.\<close>

fun key_bits :: "nat \<Rightarrow> bson_val list \<Rightarrow> 32 word" where
  "key_bits n [] = 0"
| "key_bits n (v # vs) = (if descending_key v then push_bit n 1 else 0) OR key_bits (n + 1) vs"

lemma bit_key_bits:
  "i < 32 \<Longrightarrow> bit (key_bits n vs) i \<longleftrightarrow> n \<le> i \<and> i < n + length vs \<and> descending_key (vs ! (i - n))"
proof (induction vs arbitrary: n)
  case (Cons v vs)
  show ?case
  proof (cases "i = n")
    case True
    then show ?thesis using Cons by (simp add: bit_or_iff bit_push_bit_iff bit_exp_iff)
  next
    case False
    have "bit (key_bits n (v # vs)) i \<longleftrightarrow> bit (key_bits (n + 1) vs) i"
      using False by (simp add: bit_or_iff bit_exp_iff)
    also have "\<dots> \<longleftrightarrow> n + 1 \<le> i \<and> i < n + 1 + length vs \<and> descending_key (vs ! (i - (n + 1)))"
      by (rule Cons.IH [OF Cons.prems])
    also have "\<dots> \<longleftrightarrow> n \<le> i \<and> i < n + length (v # vs) \<and> descending_key ((v # vs) ! (i - n))"
    proof (cases "n < i")
      case True
      then have "(v # vs) ! (i - n) = vs ! (i - (n + 1))" by (simp add: nth_Cons')
      then show ?thesis using True by auto
    qed (use False in auto)
    finally show ?thesis .
  qed
qed simp

context element_size
begin

text \<open>The loop over the rest of the object: it collects the bits, or meets the 33rd key.\<close>

lemma ord_loop_at:
  assumes "it_mem k = xs @ enc_elems es @ 0 # ys" and "it_pos k = int (length xs)"
    and "it_theend k = int (length xs) + int (length (enc_elems es))"
    and "wf_doc es" and "list_all (\<lambda>e. name_ok (fst e)) es" and "length (enc_elems es) < 2 ^ 31" and "n \<le> 32"
  shows "ord_loop esize k b n =
    (if n + length es \<le> 32 then Inr (b OR key_bits n (map snd es)) else Inl (UserAssertion 13103))"
  using assms
proof (induction es arbitrary: xs k b n)
  case Nil
  from next_eoo [of k xs ys] Nil.prems obtain e where
    "it_next esize k = Inr (e, k\<lparr>it_pos := it_pos k + 1\<rparr>)" "eoo e = Inr True" by auto
  then show ?case using Nil.prems by (simp add: ord_loop.simps [of _ k])
next
  case (Cons e es)
  from Cons.prems(4-6) have e: "wf_elem e" "wf_doc es" "length (enc_elem e) < 2 ^ 31"
    "length (enc_elems es) < 2 ^ 31" "name_ok (fst e)" "list_all (\<lambda>e. name_ok (fst e)) es"
    by (auto simp: wf_doc_iff enc_elems_Cons)
  let ?k = "k\<lparr>it_pos := it_pos k + int (length (enc_elem e))\<rparr>"
  have mem: "it_mem k = xs @ enc_elem e @ enc_elems es @ 0 # ys"
    using Cons.prems(1) by (simp add: enc_elems_Cons)
  have nxt: "it_next esize k = Inr (el_at e (enc_elems es @ 0 # ys), ?k)"
    by (rule next_at [OF mem Cons.prems(2) _ e(1,3)]) (use Cons.prems(2,3) in simp)
  obtain d where d: "number (el_at e (enc_elems es @ 0 # ys)) = Inr d" "dbl_less d 0 \<longleftrightarrow> descending_key (snd e)"
    using number_sign [OF e(5), of "snd e"] by (metis prod.collapse)
  show ?case
  proof (cases "n \<le> 31")
    case True
    have "ord_loop esize ?k b' (n + 1) = (if n + 1 + length es \<le> 32
        then Inr (b' OR key_bits (n + 1) (map snd es)) else Inl (UserAssertion 13103))" for b'
      by (rule Cons.IH [of _ "xs @ enc_elem e"])
        (use mem Cons.prems(2,3) e True in \<open>simp_all add: enc_elems_Cons\<close>)
    then show ?thesis using True by (simp add: ord_loop.simps [of _ k] nxt d or.assoc)
  next
    case False
    then show ?thesis by (simp add: ord_loop.simps [of _ k] nxt)
  qed
qed

lemma ord_make_at:
  assumes "wf_doc es" and "list_all (\<lambda>e. name_ok (fst e)) es" and "length (enc_doc es) < 2 ^ 31"
  shows "ord_make esize (obj_at es rest) =
    (if length es \<le> 32 then Inr \<lparr>ord_bits = key_bits 0 (map snd es)\<rparr> else Inl (UserAssertion 13103))"
proof -
  let ?it = "\<lparr>it_mem = enc_doc es @ rest, it_pos = 4, it_theend = int (length (enc_doc es)) - 1\<rparr>"
  have "ord_loop esize ?it 0 0 =
      (if 0 + length es \<le> 32 then Inr (0 OR key_bits 0 (map snd es)) else Inl (UserAssertion 13103))"
    by (rule ord_loop_at [of _ "enc_len (length (enc_elems es) + 5)" _ rest])
      (use assms in \<open>simp_all add: enc_doc_def frame_doc_def\<close>)
  then show ?thesis using iterator_at [OF assms(3), of rest] by (simp add: ord_make_def)
qed

end

section \<open>Properties\<close>

text \<open>The ordering made of a key pattern of at most 32 fields is -1 exactly at the fields whose value
  is a negative number and 1 everywhere else; a pattern with more fields is refused with 13103.\<close>

theorem ordering_directions:
  assumes "element_size esize" and "wf_doc es" and "list_all (\<lambda>e. name_ok (fst e)) es"
    and "length (enc_doc es) < 2 ^ 31"
  shows "(length es \<le> 32 \<longrightarrow> (\<exists>ord. ord_make esize (obj_at es rest) = Inr ord \<and>
      (\<forall>i<32. ord_get ord (int i) = Inr (if i < length es \<and> descending_key (snd (es ! i)) then - 1 else 1)))) \<and>
    (32 < length es \<longrightarrow> ord_make esize (obj_at es rest) = Inl (UserAssertion 13103))"
proof -
  have "ord_get \<lparr>ord_bits = key_bits 0 (map snd es)\<rparr> (int i) =
      Inr (if i < length es \<and> descending_key (snd (es ! i)) then - 1 else 1)" if "i < 32" for i
  proof -
    have "push_bit i 1 AND key_bits 0 (map snd es) \<noteq> 0 \<longleftrightarrow> bit (key_bits 0 (map snd es)) i"
      using and_exp_eq_0_iff_not_bit [of "key_bits 0 (map snd es)" i] by (simp add: push_bit_eq_mult and.commute)
    then show ?thesis using bit_key_bits [OF that, of 0 "map snd es"] that by (auto simp: ord_get_def)
  qed
  then show ?thesis using element_size.ord_make_at [OF assms, of rest] by simp
qed

theorem ordering_directions_witness:
  "\<exists>ord. ord_make format_esize (obj_at [([97], VInt 1), ([98], VInt (- 1))] []) = Inr ord \<and>
     ord_get ord 0 = Inr 1 \<and> ord_get ord 1 = Inr (- 1)"
proof -
  define es :: doc where "es = [([97], VInt 1), ([98], VInt (- 1))]"
  obtain ord where "ord_make format_esize (obj_at es []) = Inr ord"
    "\<forall>i<32. ord_get ord (int i) = Inr (if i < length es \<and> descending_key (snd (es ! i)) then - 1 else 1)"
    using ordering_directions [OF fmt.element_size_axioms, of es "[]"]
    by (auto simp: es_def name_ok_def cstring_def int32_max_def enc_doc_def)
  then show ?thesis by (auto simp: es_def dest: spec [where x = 0] spec [where x = 1])
qed

end
