(* ===== verification/GeoBox.thy ===== *)
theory GeoBox
  imports BsonElement StringBuilder
begin

text \<open>
  \<^verbatim>\<open>mongo/geo\<close>: constants, coordinates, bounding boxes and the helpers of \<^verbatim>\<open>Geometry\<close>, at the level of
  documents (\<open>doc\<close> of \<open>BsonFormat\<close>: the builders write what the readers read back, so a \<^verbatim>\<open>BSONObj\<close> is its
  list of elements and a \<^verbatim>\<open>BSONElement\<close> its value). What the headers only declare, \<^verbatim>\<open>getField\<close>, \<^verbatim>\<open>Array\<close>, \<^verbatim>\<open>Obj\<close>,
  \<^verbatim>\<open>appendElements\<close> and the members of the coordinate classes, is the record \<open>geo_env\<close> of functions
  that the definitions take; the locale \<open>geo_contract\<close> states what their comments document.
\<close>

section \<open>Constants\<close>

definition kBoundingBoxFieldName :: bytes where
  "kBoundingBoxFieldName = [98, 98, 111, 120]"

definition kCoordsFieldName :: bytes where
  "kCoordsFieldName = [99, 111, 111, 114, 100, 105, 110, 97, 116, 101, 115]"

definition kGeometriesFieldName :: bytes where
  "kGeometriesFieldName = [103, 101, 111, 109, 101, 116, 114, 105, 101, 115]"

definition kTypeFieldName :: bytes where
  "kTypeFieldName = [116, 121, 112, 101]"

definition kGeometryCollectionTypeStr :: bytes where
  "kGeometryCollectionTypeStr = [71, 101, 111, 109, 101, 116, 114, 121, 67, 111, 108, 108, 101, 99, 116, 105, 111, 110]"

definition kLineStringTypeStr :: bytes where
  "kLineStringTypeStr = [76, 105, 110, 101, 83, 116, 114, 105, 110, 103]"

definition kMultiLineStringTypeStr :: bytes where
  "kMultiLineStringTypeStr = [77, 117, 108, 116, 105, 76, 105, 110, 101, 83, 116, 114, 105, 110, 103]"

definition kMultiPointTypeStr :: bytes where
  "kMultiPointTypeStr = [77, 117, 108, 116, 105, 80, 111, 105, 110, 116]"

definition kMultiPolygonTypeStr :: bytes where
  "kMultiPolygonTypeStr = [77, 117, 108, 116, 105, 80, 111, 108, 121, 103, 111, 110]"

definition kPointTypeStr :: bytes where
  "kPointTypeStr = [80, 111, 105, 110, 116]"

definition kPolygonTypeStr :: bytes where
  "kPolygonTypeStr = [80, 111, 108, 121, 103, 111, 110]"

lemmas geo_names = kBoundingBoxFieldName_def
  kCoordsFieldName_def
  kGeometriesFieldName_def
  kTypeFieldName_def
  kGeometryCollectionTypeStr_def
  kLineStringTypeStr_def
  kMultiLineStringTypeStr_def
  kMultiPointTypeStr_def
  kMultiPolygonTypeStr_def
  kPointTypeStr_def
  kPolygonTypeStr_def

datatype GeoObjType =
    GeoObjType_GeometryCollection
  | GeoObjType_LineString
  | GeoObjType_MultiLineString
  | GeoObjType_MultiPoint
  | GeoObjType_MultiPolygon
  | GeoObjType_Point
  | GeoObjType_Polygon

section \<open>What is only declared\<close>

text \<open>\<^verbatim>\<open>getField\<close> answers \<open>None\<close> for the end-of-object element.\<close>

record 'c geo_env =
  ge_getField :: "doc \<Rightarrow> bytes \<Rightarrow> bson_val option"
  ge_Array :: "bson_val \<Rightarrow> bson_val list res"
  ge_Obj :: "bson_val \<Rightarrow> doc res"
  ge_appendElements :: "doc \<Rightarrow> doc \<Rightarrow> doc"
  ge_coords :: "double list \<Rightarrow> 'c res"
  ge_getValues :: "'c \<Rightarrow> double list"
  ge_at :: "'c \<Rightarrow> nat \<Rightarrow> double res"
  ge_coordsBSON :: "'c \<Rightarrow> doc"
  ge_dimensionality :: nat

text \<open>The checked accessors of \<open>BsonElement\<close>, on the value that the element holds.\<close>

definition val_Double :: "bson_val \<Rightarrow> double res" where
  "val_Double v = (case v of VDouble d \<Rightarrow> Inr d | _ \<Rightarrow> Inl (MsgAssertion 13111))"

definition val_String :: "bson_val \<Rightarrow> bytes res" where
  "val_String v = (case v of VString s \<Rightarrow> Inr s | _ \<Rightarrow> Inl (MsgAssertion 13111))"

definition hasField :: "'c geo_env \<Rightarrow> doc \<Rightarrow> bytes \<Rightarrow> bool" where
  "hasField env bson name \<longleftrightarrow> ge_getField env bson name \<noteq> None"

text \<open>An array is the document whose names are the decimal numerals.\<close>

definition array_of :: "bson_val list \<Rightarrow> bson_val" where
  "array_of vs = VArray (zip (map dec_nat [0..<length vs]) vs)"

fun mapE :: "('a \<Rightarrow> 'b res) \<Rightarrow> 'a list \<Rightarrow> 'b list res" where
  "mapE f [] = Inr []"
| "mapE f (x # xs) = bindE (f x) (\<lambda>y. bindE (mapE f xs) (\<lambda>ys. Inr (y # ys)))"

section \<open>Coordinates\<close>

record Coordinates2D =
  c2_x :: double
  c2_y :: double

definition Coordinates2D_default :: Coordinates2D where
  "Coordinates2D_default = \<lparr>c2_x = 0, c2_y = 0\<rparr>"

definition Coordinates2D_new :: "double \<Rightarrow> double \<Rightarrow> Coordinates2D" where
  "Coordinates2D_new x y = \<lparr>c2_x = x, c2_y = y\<rparr>"

definition getX :: "Coordinates2D \<Rightarrow> double" where
  "getX c = c2_x c"

definition getY :: "Coordinates2D \<Rightarrow> double" where
  "getY c = c2_y c"

definition Coordinates2D_dimensionality :: nat where
  "Coordinates2D_dimensionality = 2"

record Coordinates2DGeographic =
  cg_longitude :: double
  cg_latitude :: double

definition Coordinates2DGeographic_default :: Coordinates2DGeographic where
  "Coordinates2DGeographic_default = \<lparr>cg_longitude = 0, cg_latitude = 0\<rparr>"

definition getLongitude :: "Coordinates2DGeographic \<Rightarrow> double" where
  "getLongitude c = cg_longitude c"

definition getLatitude :: "Coordinates2DGeographic \<Rightarrow> double" where
  "getLatitude c = cg_latitude c"

definition Coordinates2DGeographic_dimensionality :: nat where
  "Coordinates2DGeographic_dimensionality = 2"

section \<open>Bounding boxes\<close>

record 'c BoundingBox =
  bx_min :: 'c
  bx_max :: 'c

definition BoundingBox_new :: "'c \<Rightarrow> 'c \<Rightarrow> 'c BoundingBox" where
  "BoundingBox_new mn mx = \<lparr>bx_min = mn, bx_max = mx\<rparr>"

text \<open>The two loops push the elements \<open>i\<close> and \<open>n + i\<close>; the order of the checks is that of the code.\<close>

fun box_components :: "nat \<Rightarrow> bson_val list \<Rightarrow> nat list \<Rightarrow> (double list \<times> double list) res" where
  "box_components n es [] = Inr ([], [])"
| "box_components n es (i # is) =
     bindE (val_Double (es ! i)) (\<lambda>a.
     bindE (val_Double (es ! (n + i))) (\<lambda>b.
     bindE (box_components n es is) (\<lambda>(as, bs). Inr (a # as, b # bs))))"

definition BoundingBox_parse :: "'c geo_env \<Rightarrow> doc \<Rightarrow> 'c BoundingBox res" where
  "BoundingBox_parse env bson =
     (let bbox = ge_getField env bson kBoundingBoxFieldName; n = ge_dimensionality env in
      bindE (uassert 0 (bbox \<noteq> None)) (\<lambda>u.
      bindE (ge_Array env (the bbox)) (\<lambda>bboxCoords.
      bindE (uassert 0 (length bboxCoords = 2 * n)) (\<lambda>u.
      bindE (box_components n bboxCoords [0..<n]) (\<lambda>(minCoords, maxCoords).
      bindE (ge_coords env minCoords) (\<lambda>mn.
      bindE (ge_coords env maxCoords) (\<lambda>mx. Inr (BoundingBox_new mn mx))))))))"

definition getMin :: "'c BoundingBox \<Rightarrow> 'c" where
  "getMin b = bx_min b"

definition getMax :: "'c BoundingBox \<Rightarrow> 'c" where
  "getMax b = bx_max b"

definition box_toBSONArray :: "'c geo_env \<Rightarrow> 'c BoundingBox \<Rightarrow> bson_val" where
  "box_toBSONArray env b =
     array_of (map VDouble (ge_getValues env (bx_min b)) @ map VDouble (ge_getValues env (bx_max b)))"

definition box_toBSON :: "'c geo_env \<Rightarrow> 'c BoundingBox \<Rightarrow> doc" where
  "box_toBSON env b = [(kBoundingBoxFieldName, box_toBSONArray env b)]"

definition box_toNestedBSONArray :: "'c geo_env \<Rightarrow> 'c BoundingBox \<Rightarrow> bson_val" where
  "box_toNestedBSONArray env b =
     array_of [array_of (map VDouble (ge_getValues env (bx_min b))), array_of (map VDouble (ge_getValues env (bx_max b)))]"

section \<open>GeoObj and Geometry\<close>

text \<open>\<^verbatim>\<open>typeField.String()\<close> is evaluated only when the type is not a string, and then it throws.\<close>

definition validateType :: "'c geo_env \<Rightarrow> doc \<Rightarrow> bytes \<Rightarrow> doc res" where
  "validateType env bson typeStr =
     (case ge_getField env bson kTypeFieldName of
        None \<Rightarrow> bindE (uassert 0 False) (\<lambda>u. Inr bson)
      | Some v \<Rightarrow>
          bindE (if val_type v = String then Inr True
                 else bindE (val_String v) (\<lambda>s. Inr (s = typeStr))) (\<lambda>ok.
          bindE (uassert 0 ok) (\<lambda>u. Inr bson)))"

definition getCoordsField :: "'c geo_env \<Rightarrow> doc \<Rightarrow> bson_val res" where
  "getCoordsField env bson =
     (let coordsField = ge_getField env bson kCoordsFieldName in
      bindE (uassert 0 (coordsField \<noteq> None \<and> val_type (the coordsField) = Array)) (\<lambda>u. Inr (the coordsField)))"

definition parseCoords :: "'c geo_env \<Rightarrow> bson_val \<Rightarrow> double list res" where
  "parseCoords env coordArr = bindE (ge_Array env coordArr) (mapE val_Double)"

definition parseCoords_obj :: "'c geo_env \<Rightarrow> doc \<Rightarrow> double list res" where
  "parseCoords_obj env bson = bindE (getCoordsField env bson) (parseCoords env)"

text \<open>\<^verbatim>\<open>std::numeric_limits<double>::max()\<close> and its negative.\<close>

definition DBL_MAX :: double where "DBL_MAX = 0x7FEFFFFFFFFFFFFF"
definition NEG_DBL_MAX :: double where "NEG_DBL_MAX = 0xFFEFFFFFFFFFFFFF"

text \<open>The loop over the values of one dimension of the points.\<close>

fun min_max_loop :: "double list \<Rightarrow> double \<times> double \<Rightarrow> double \<times> double" where
  "min_max_loop [] (mn, mx) = (mn, mx)"
| "min_max_loop (x # xs) (mn, mx) =
     min_max_loop xs (if dbl_less x mn then x else mn, if dbl_less mx x then x else mx)"

definition findMinAndMaxCoordinatesOfDimension ::
    "'c geo_env \<Rightarrow> 'c list \<Rightarrow> nat \<Rightarrow> (double \<times> double) res" where
  "findMinAndMaxCoordinatesOfDimension env points dim =
     bindE (mapE (\<lambda>p. ge_at env p dim) points) (\<lambda>xs. Inr (min_max_loop xs (DBL_MAX, NEG_DBL_MAX)))"

definition computeBoundingBox :: "'c geo_env \<Rightarrow> 'c list \<Rightarrow> 'c BoundingBox res" where
  "computeBoundingBox env points =
     bindE (mapE (findMinAndMaxCoordinatesOfDimension env points) [0..<ge_dimensionality env]) (\<lambda>mms.
     bindE (ge_coords env (map fst mms)) (\<lambda>mn.
     bindE (ge_coords env (map snd mms)) (\<lambda>mx. Inr (BoundingBox_new mn mx))))"

definition std_min :: "double \<Rightarrow> double \<Rightarrow> double" where
  "std_min a b = (if dbl_less b a then b else a)"

definition std_max :: "double \<Rightarrow> double \<Rightarrow> double" where
  "std_max a b = (if dbl_less a b then b else a)"

text \<open>The inner loop runs over the sizes of the current box; a shorter accumulator is overrun.\<close>

fun merge_coords :: "(double \<Rightarrow> double \<Rightarrow> double) \<Rightarrow> double list \<Rightarrow> double list \<Rightarrow> double list res" where
  "merge_coords f acc [] = Inr acc"
| "merge_coords f [] (c # cur) = Inl BadAccess"
| "merge_coords f (a # acc) (c # cur) = bindE (merge_coords f acc cur) (\<lambda>r. Inr (f a c # r))"

fun merge_boxes ::
    "'c geo_env \<Rightarrow> 'c BoundingBox list \<Rightarrow> double list \<times> double list \<Rightarrow> (double list \<times> double list) res" where
  "merge_boxes env [] (mn, mx) = Inr (mn, mx)"
| "merge_boxes env (b # bs) (mn, mx) =
     bindE (merge_coords std_min mn (ge_getValues env (getMin b))) (\<lambda>mn.
     bindE (if length (ge_getValues env (getMax b)) < length (ge_getValues env (getMin b)) then Inl BadAccess
            else merge_coords std_max mx (take (length (ge_getValues env (getMin b))) (ge_getValues env (getMax b)))) (\<lambda>mx.
     merge_boxes env bs (mn, mx)))"

text \<open>The result is a pointer: \<open>None\<close> is null.\<close>

definition computeBoundingBox_boxes :: "'c geo_env \<Rightarrow> 'c BoundingBox list \<Rightarrow> 'c BoundingBox option res" where
  "computeBoundingBox_boxes env bboxes =
     (case bboxes of [] \<Rightarrow> Inr None
      | b # bs \<Rightarrow>
          bindE (merge_boxes env bs (ge_getValues env (getMin b), ge_getValues env (getMax b))) (\<lambda>(minCoords, maxCoords).
          bindE (ge_coords env minCoords) (\<lambda>mn.
          bindE (ge_coords env maxCoords) (\<lambda>mx. Inr (Some (BoundingBox_new mn mx))))))"

definition parseBoundingBox :: "'c geo_env \<Rightarrow> doc \<Rightarrow> 'c BoundingBox option res" where
  "parseBoundingBox env bson =
     (if hasField env bson kBoundingBoxFieldName
      then bindE (BoundingBox_parse env bson) (\<lambda>b. Inr (Some b)) else Inr None)"

section \<open>The order of doubles\<close>

lemma val_less_trans: "val_less x y \<Longrightarrow> val_less y z \<Longrightarrow> val_less x z"
proof (cases x; cases y; cases z)
  fix m e n f k g
  assume v: "x = Fin m e" "y = Fin n f" "z = Fin k g" and l: "val_less x y" "val_less y z"
  define b where "b = min e (min f g)"
  have "b \<le> min e f" "b \<le> min f g" "b \<le> min e g" by (auto simp: b_def)
  then show ?thesis using l unfolding v by (simp only: val_less_shift [of b])
qed simp_all

lemma dbl_less_trans: "dbl_less x y \<Longrightarrow> dbl_less y z \<Longrightarrow> dbl_less x z"
  unfolding dbl_less_def by (rule val_less_trans)

lemma val_less_irrefl: "\<not> val_less x x"
  by (cases x) simp_all

text \<open>A finite double: neither an infinity nor not a number.\<close>

definition dbl_finite :: "double \<Rightarrow> bool" where
  "dbl_finite d \<longleftrightarrow> (\<exists>m e. dbl_value d = Fin m e)"

lemma dbl_trichotomy:
  assumes "dbl_finite a" and "dbl_finite b"
  shows "dbl_less a b \<or> dbl_eq a b \<or> dbl_less b a"
  using assms by (auto simp: dbl_finite_def dbl_less_def dbl_eq_def min.commute)

lemma val_eq_shift:
  assumes "k \<le> min e f"
  shows "val_eq (Fin m e) (Fin n f) \<longleftrightarrow> m * 2 ^ nat (e - k) = n * 2 ^ nat (f - k)"
  using scale_shift [OF assms, of e m] scale_shift [OF assms, of f n] by simp

text \<open>Equal values compare alike.\<close>

lemma val_less_eq:
  "val_eq y z \<Longrightarrow> val_less x y = val_less x z" "val_eq y z \<Longrightarrow> val_less y x = val_less z x"
proof -
  show "val_less x y = val_less x z" if e: "val_eq y z"
  proof (cases x; cases y; cases z)
    fix m e n f k g
    assume v: "x = Fin m e" "y = Fin n f" "z = Fin k g"
    define b where "b = min e (min f g)"
    have "b \<le> min e f" "b \<le> min f g" "b \<le> min e g" by (auto simp: b_def)
    then show ?thesis using e unfolding v by (simp only: val_less_shift [of b] val_eq_shift [of b])
  qed (use e in simp_all)
  show "val_less y x = val_less z x" if e: "val_eq y z"
  proof (cases x; cases y; cases z)
    fix m e n f k g
    assume v: "x = Fin m e" "y = Fin n f" "z = Fin k g"
    define b where "b = min e (min f g)"
    have "b \<le> min f e" "b \<le> min f g" "b \<le> min g e" by (auto simp: b_def)
    then show ?thesis using e unfolding v by (simp only: val_less_shift [of b] val_eq_shift [of b])
  qed (use e in simp_all)
qed

text \<open>No finite double is beyond the largest one.\<close>

lemma DBL_MAX_value: "dbl_value DBL_MAX = Fin (2 ^ 53 - 1) 971" "dbl_value NEG_DBL_MAX = Fin (- (2 ^ 53 - 1)) 971"
  by (simp_all add: DBL_MAX_def NEG_DBL_MAX_def dbl_value_def dbl_exponent_def dbl_fraction_def dbl_sign_def Let_def)

lemma dbl_value_bounds:
  assumes "dbl_value d = Fin m e"
  shows "\<bar>m\<bar> \<le> 2 ^ 53 - 1" and "e \<le> 971"
proof -
  have f: "0 \<le> dbl_fraction d" "dbl_fraction d < 2 ^ 52" by (simp_all add: dbl_fraction_def)
  have x: "0 \<le> dbl_exponent d" "dbl_exponent d < 2048" by (simp_all add: dbl_exponent_def)
  show "\<bar>m\<bar> \<le> 2 ^ 53 - 1" using assms f by (auto simp: dbl_value_def Let_def split: if_splits)
  show "e \<le> 971" using assms x by (auto simp: dbl_value_def Let_def split: if_splits)
qed

lemma scaled_bound:
  fixes m :: int
  assumes "\<bar>m\<bar> \<le> M" and "e \<le> (E :: int)"
  shows "m * 2 ^ nat (e - e) \<le> M * 2 ^ nat (E - e)" and "- (M * 2 ^ nat (E - e)) \<le> m * 2 ^ nat (e - e)"
proof -
  have "M * 1 \<le> M * 2 ^ nat (E - e)" using assms(1) by (intro mult_left_mono) auto
  with assms(1) show "m * 2 ^ nat (e - e) \<le> M * 2 ^ nat (E - e)" "- (M * 2 ^ nat (E - e)) \<le> m * 2 ^ nat (e - e)"
    by (simp_all add: abs_le_iff)
qed

lemma DBL_MAX_greatest:
  assumes "dbl_finite d"
  shows "\<not> dbl_less DBL_MAX d" and "\<not> dbl_less d NEG_DBL_MAX"
proof -
  from assms obtain m e where v: "dbl_value d = Fin m e" by (auto simp: dbl_finite_def)
  note b = scaled_bound [OF dbl_value_bounds [OF v]]
  have k: "e \<le> min 971 e" "e \<le> min e 971" using dbl_value_bounds(2) [OF v] by simp_all
  show "\<not> dbl_less DBL_MAX d" using b(1)
    unfolding dbl_less_def v DBL_MAX_value val_less_shift [OF k(1)] by (simp only: not_less)
  show "\<not> dbl_less d NEG_DBL_MAX" using b(2)
    unfolding dbl_less_def v DBL_MAX_value val_less_shift [OF k(2)] by (simp only: not_less mult_minus_left)
qed

section \<open>Minimum and maximum\<close>

text \<open>Folding with a strict order keeps the best value seen.\<close>

definition best :: "('a \<Rightarrow> 'a \<Rightarrow> bool) \<Rightarrow> 'a \<Rightarrow> 'a list \<Rightarrow> 'a" where
  "best better = foldl (\<lambda>acc x. if better x acc then x else acc)"

locale strict_order =
  fixes better :: "'a \<Rightarrow> 'a \<Rightarrow> bool"
  assumes irrefl: "\<not> better x x"
    and trans: "better x y \<Longrightarrow> better y z \<Longrightarrow> better x z"
begin

lemma best_in: "best better a xs \<in> insert a (set xs)"
proof (induction xs arbitrary: a)
  case (Cons x xs)
  from Cons.IH [of "if better x a then x else a"] show ?case by (auto simp: best_def)
qed (simp add: best_def)

lemma best_improves: "best better a xs = a \<or> better (best better a xs) a"
proof (induction xs arbitrary: a)
  case (Cons x xs)
  from Cons.IH [of "if better x a then x else a"] show ?case
    using trans by (cases "better x a") (auto simp: best_def)
qed (simp add: best_def)

lemma best_unbeaten: "\<not> better a (best better a xs) \<and> (\<forall>x\<in>set xs. \<not> better x (best better a xs))"
proof (induction xs arbitrary: a)
  case (Cons x xs)
  have step: "best better a (x # xs) = best better (if better x a then x else a) xs" by (simp add: best_def)
  show ?case
  proof (cases "better x a")
    case True
    then show ?thesis using Cons.IH [of x] trans unfolding step by auto
  next
    case False
    then show ?thesis using Cons.IH [of a] best_improves [of a xs] trans unfolding step by auto
  qed
qed (simp add: best_def irrefl)

end

interpretation lower: strict_order dbl_less
  by unfold_locales (simp add: dbl_less_def val_less_irrefl, rule dbl_less_trans)

interpretation upper: strict_order "\<lambda>x y. dbl_less y x"
  by unfold_locales (simp add: dbl_less_def val_less_irrefl, rule dbl_less_trans)

lemma min_max_loop_best:
  "min_max_loop xs (mn, mx) = (best dbl_less mn xs, best (\<lambda>x y. dbl_less y x) mx xs)"
  by (induction xs arbitrary: mn mx) (auto simp: best_def)

lemma dbl_eq_refl: "dbl_finite x \<Longrightarrow> dbl_eq x x"
  by (auto simp: dbl_finite_def dbl_eq_def)

lemma min_max_tight:
  assumes "xs \<noteq> []" and "\<forall>x\<in>set xs. dbl_finite x" and "min_max_loop xs (DBL_MAX, NEG_DBL_MAX) = (lo, hi)"
  shows "(\<forall>x\<in>set xs. \<not> dbl_less x lo \<and> \<not> dbl_less hi x) \<and> (\<exists>x\<in>set xs. dbl_eq x lo) \<and> (\<exists>x\<in>set xs. dbl_eq x hi)"
proof -
  have lohi: "lo = best dbl_less DBL_MAX xs" "hi = best (\<lambda>x y. dbl_less y x) NEG_DBL_MAX xs"
    using assms(3) by (simp_all add: min_max_loop_best)
  have fin: "dbl_finite DBL_MAX" "dbl_finite NEG_DBL_MAX" by (simp_all add: dbl_finite_def DBL_MAX_value)
  have out: "\<forall>x\<in>set xs. \<not> dbl_less x lo \<and> \<not> dbl_less hi x"
    using lower.best_unbeaten [of DBL_MAX xs] upper.best_unbeaten [of NEG_DBL_MAX xs] by (simp add: lohi)
  obtain x where x: "x \<in> set xs" using assms(1) by (cases xs) auto
  have "\<exists>x\<in>set xs. dbl_eq x lo"
  proof (cases "lo = DBL_MAX")
    case True
    then show ?thesis using x out assms(2) DBL_MAX_greatest [of x] dbl_trichotomy [of x DBL_MAX] fin by blast
  next
    case False
    then have "lo \<in> set xs" using lower.best_in [of DBL_MAX xs] by (simp add: lohi)
    then show ?thesis using assms(2) dbl_eq_refl by blast
  qed
  moreover have "\<exists>x\<in>set xs. dbl_eq x hi"
  proof (cases "hi = NEG_DBL_MAX")
    case True
    then show ?thesis using x out assms(2) DBL_MAX_greatest [of x] dbl_trichotomy [of x NEG_DBL_MAX] fin by blast
  next
    case False
    then have "hi \<in> set xs" using upper.best_in [of NEG_DBL_MAX xs] by (simp add: lohi)
    then show ?thesis using assms(2) dbl_eq_refl by blast
  qed
  ultimately show ?thesis using out by blast
qed

section \<open>The contract of the declared functions\<close>

fun val_depth :: "bson_val \<Rightarrow> nat" and doc_depth :: "doc \<Rightarrow> nat" where
  "val_depth (VObject es) = Suc (doc_depth es)"
| "val_depth (VArray es) = Suc (doc_depth es)"
| "val_depth v = 0"
| "doc_depth [] = 0"
| "doc_depth ((n, v) # es) = max (val_depth v) (doc_depth es)"

locale geo_contract =
  fixes env :: "'c geo_env"
  assumes getField: "ge_getField env d name = map_of d name"
    and Array_array: "ge_Array env (array_of vs) = Inr vs"
    and Array_other: "val_type v \<noteq> Array \<Longrightarrow> ge_Array env v = Inl (MsgAssertion 13111)"
    and Array_returns: "ge_Array env v \<noteq> Inl Diverges"
    and Array_nested: "ge_Array env v = Inr vs \<Longrightarrow> w \<in> set vs \<Longrightarrow> ge_Obj env w = Inr d \<Longrightarrow> doc_depth d < val_depth v"
    and Obj_object: "ge_Obj env (VObject d) = Inr d"
    and Obj_returns: "ge_Obj env v \<noteq> Inl Diverges"
    and coords_returns: "ge_coords env xs \<noteq> Inl Diverges"
    and values_inject: "ge_getValues env c = ge_getValues env c' \<Longrightarrow> c = c'"
    and appendElements: "ge_appendElements env d d' = d @ d'"
    and coords: "length xs = ge_dimensionality env \<Longrightarrow> \<exists>c. ge_coords env xs = Inr c \<and> ge_getValues env c = xs"
    and dims: "length (ge_getValues env c) = ge_dimensionality env"
    and coord_at: "i < ge_dimensionality env \<Longrightarrow> ge_at env c i = Inr (ge_getValues env c ! i)"
    and coordsBSON: "ge_coordsBSON env c = [(kCoordsFieldName, array_of (map VDouble (ge_getValues env c)))]"
begin

lemma mapE_at: "i < ge_dimensionality env \<Longrightarrow>
    mapE (\<lambda>p. ge_at env p i) ps = Inr (map (\<lambda>p. ge_getValues env p ! i) ps)"
  by (induction ps) (simp_all add: coord_at)

lemma minmax_dimension: "i < ge_dimensionality env \<Longrightarrow> findMinAndMaxCoordinatesOfDimension env ps i =
    Inr (min_max_loop (map (\<lambda>p. ge_getValues env p ! i) ps) (DBL_MAX, NEG_DBL_MAX))"
  by (simp add: findMinAndMaxCoordinatesOfDimension_def mapE_at)

lemma mapE_dimensions: "set is \<subseteq> {..<ge_dimensionality env} \<Longrightarrow>
    mapE (findMinAndMaxCoordinatesOfDimension env ps) is =
      Inr (map (\<lambda>i. min_max_loop (map (\<lambda>p. ge_getValues env p ! i) ps) (DBL_MAX, NEG_DBL_MAX)) is)"
  by (induction "is") (simp_all add: minmax_dimension)

lemma computeBoundingBox_values:
  "\<exists>b. computeBoundingBox env ps = Inr b \<and> (\<forall>i<ge_dimensionality env.
     (ge_getValues env (getMin b) ! i, ge_getValues env (getMax b) ! i) =
       min_max_loop (map (\<lambda>p. ge_getValues env p ! i) ps) (DBL_MAX, NEG_DBL_MAX))"
proof -
  define mms where "mms = map (\<lambda>i. min_max_loop (map (\<lambda>p. ge_getValues env p ! i) ps) (DBL_MAX, NEG_DBL_MAX))
    [0..<ge_dimensionality env]"
  have all: "mapE (findMinAndMaxCoordinatesOfDimension env ps) [0..<ge_dimensionality env] = Inr mms"
    unfolding mms_def by (rule mapE_dimensions) auto
  obtain mn where mn: "ge_coords env (map fst mms) = Inr mn" "ge_getValues env mn = map fst mms"
    using coords [of "map fst mms"] by (auto simp: mms_def)
  obtain mx where mx: "ge_coords env (map snd mms) = Inr mx" "ge_getValues env mx = map snd mms"
    using coords [of "map snd mms"] by (auto simp: mms_def)
  have "computeBoundingBox env ps = Inr (BoundingBox_new mn mx)"
    by (simp add: computeBoundingBox_def all mn(1) mx(1))
  moreover have "(ge_getValues env (getMin (BoundingBox_new mn mx)) ! i, ge_getValues env (getMax (BoundingBox_new mn mx)) ! i) =
      min_max_loop (map (\<lambda>p. ge_getValues env p ! i) ps) (DBL_MAX, NEG_DBL_MAX)" if "i < ge_dimensionality env" for i
    using that by (simp add: getMin_def getMax_def BoundingBox_new_def mn(2) mx(2) mms_def)
  ultimately show ?thesis by blast
qed

text \<open>Merging boxes is folding the minimum and the maximum in every dimension.\<close>

lemma merge_coords_map2: "length acc = length cur \<Longrightarrow> merge_coords f acc cur = Inr (map2 f acc cur)"
  by (induction acc cur rule: list_induct2) simp_all

lemma merge_boxes_fold:
  "length mn = ge_dimensionality env \<Longrightarrow> length mx = ge_dimensionality env \<Longrightarrow>
   merge_boxes env bs (mn, mx) =
     Inr (foldl (map2 std_min) mn (map (\<lambda>b. ge_getValues env (getMin b)) bs),
          foldl (map2 std_max) mx (map (\<lambda>b. ge_getValues env (getMax b)) bs))"
  by (induction bs arbitrary: mn mx) (simp_all add: merge_coords_map2 dims)

lemma foldl_map2:
  "\<forall>xs\<in>set xss. length xs = length acc \<Longrightarrow> length (foldl (map2 f) acc xss) = length acc \<and>
   (\<forall>j<length acc. foldl (map2 f) acc xss ! j = foldl f (acc ! j) (map (\<lambda>xs. xs ! j) xss))"
  by (induction xss arbitrary: acc) simp_all

lemma std_best: "foldl std_min a xs = best dbl_less a xs" "foldl std_max a xs = best (\<lambda>x y. dbl_less y x) a xs"
proof -
  have "std_min = (\<lambda>acc x. if dbl_less x acc then x else acc)" "std_max = (\<lambda>acc x. if dbl_less acc x then x else acc)"
    by (simp_all add: std_min_def std_max_def fun_eq_iff)
  then show "foldl std_min a xs = best dbl_less a xs" "foldl std_max a xs = best (\<lambda>x y. dbl_less y x) a xs"
    by (simp_all add: best_def)
qed

lemma computeBoundingBox_boxes_values:
  "\<exists>r. computeBoundingBox_boxes env (b # bs) = Inr (Some r) \<and> (\<forall>j<ge_dimensionality env.
     ge_getValues env (getMin r) ! j =
       best dbl_less (ge_getValues env (getMin b) ! j) (map (\<lambda>b. ge_getValues env (getMin b) ! j) bs) \<and>
     ge_getValues env (getMax r) ! j =
       best (\<lambda>x y. dbl_less y x) (ge_getValues env (getMax b) ! j) (map (\<lambda>b. ge_getValues env (getMax b) ! j) bs))"
proof -
  let ?mn = "foldl (map2 std_min) (ge_getValues env (getMin b)) (map (\<lambda>b. ge_getValues env (getMin b)) bs)"
  let ?mx = "foldl (map2 std_max) (ge_getValues env (getMax b)) (map (\<lambda>b. ge_getValues env (getMax b)) bs)"
  have mn: "length ?mn = ge_dimensionality env"
      "\<forall>j<ge_dimensionality env. ?mn ! j = foldl std_min (ge_getValues env (getMin b) ! j) (map (\<lambda>b. ge_getValues env (getMin b) ! j) bs)"
    using foldl_map2 [of "map (\<lambda>b. ge_getValues env (getMin b)) bs" "ge_getValues env (getMin b)" std_min]
    by (simp_all add: dims comp_def)
  have mx: "length ?mx = ge_dimensionality env"
      "\<forall>j<ge_dimensionality env. ?mx ! j = foldl std_max (ge_getValues env (getMax b) ! j) (map (\<lambda>b. ge_getValues env (getMax b) ! j) bs)"
    using foldl_map2 [of "map (\<lambda>b. ge_getValues env (getMax b)) bs" "ge_getValues env (getMax b)" std_max]
    by (simp_all add: dims comp_def)
  obtain lo hi where "ge_coords env ?mn = Inr lo" "ge_getValues env lo = ?mn"
      "ge_coords env ?mx = Inr hi" "ge_getValues env hi = ?mx"
    using coords [OF mn(1)] coords [OF mx(1)] by blast
  then show ?thesis using mn(2) mx(2)
    by (simp add: computeBoundingBox_boxes_def merge_boxes_fold dims getMin_def getMax_def BoundingBox_new_def std_best)
qed

end

section \<open>The contract met\<close>

text \<open>What the comments document of the declared functions, for both coordinate classes.\<close>

definition document_Array :: "bson_val \<Rightarrow> bson_val list res" where
  "document_Array v = (case v of VArray es \<Rightarrow> Inr (map snd es) | _ \<Rightarrow> Inl (MsgAssertion 13111))"

text \<open>An element that is an object or an array has an object inside.\<close>

definition document_Obj :: "bson_val \<Rightarrow> doc res" where
  "document_Obj v = (case v of VObject d \<Rightarrow> Inr d | VArray d \<Rightarrow> Inr d | _ \<Rightarrow> Inl (UserAssertion 10065))"

definition Coordinates2D_env :: "Coordinates2D geo_env" where
  "Coordinates2D_env =
     \<lparr>ge_getField = map_of, ge_Array = document_Array, ge_Obj = document_Obj, ge_appendElements = append,
      ge_coords = (\<lambda>xs. case xs of [x, y] \<Rightarrow> Inr (Coordinates2D_new x y) | _ \<Rightarrow> Inl (UserAssertion 0)),
      ge_getValues = (\<lambda>c. [getX c, getY c]),
      ge_at = (\<lambda>c i. if i = 0 then Inr (getX c) else if i = 1 then Inr (getY c) else Inl (UserAssertion 0)),
      ge_coordsBSON = (\<lambda>c. [(kCoordsFieldName, array_of [VDouble (getX c), VDouble (getY c)])]),
      ge_dimensionality = Coordinates2D_dimensionality\<rparr>"

definition Coordinates2DGeographic_env :: "Coordinates2DGeographic geo_env" where
  "Coordinates2DGeographic_env =
     \<lparr>ge_getField = map_of, ge_Array = document_Array, ge_Obj = document_Obj, ge_appendElements = append,
      ge_coords = (\<lambda>xs. case xs of [x, y] \<Rightarrow> Inr \<lparr>cg_longitude = x, cg_latitude = y\<rparr> | _ \<Rightarrow> Inl (UserAssertion 0)),
      ge_getValues = (\<lambda>c. [getLongitude c, getLatitude c]),
      ge_at = (\<lambda>c i. if i = 0 then Inr (getLongitude c) else if i = 1 then Inr (getLatitude c) else Inl (UserAssertion 0)),
      ge_coordsBSON = (\<lambda>c. [(kCoordsFieldName, array_of [VDouble (getLongitude c), VDouble (getLatitude c)])]),
      ge_dimensionality = Coordinates2DGeographic_dimensionality\<rparr>"

lemma map_snd_zip_names: "map snd (zip (map f [0..<length vs]) vs) = vs"
  by simp

lemma document_Array_laws:
  "document_Array (array_of vs) = Inr vs" "val_type v \<noteq> Array \<Longrightarrow> document_Array v = Inl (MsgAssertion 13111)"
  by (simp add: document_Array_def array_of_def) (cases v, simp_all add: document_Array_def)

lemma doc_depth_member: "v \<in> snd ` set es \<Longrightarrow> val_depth v \<le> doc_depth es"
  by (induction es) (force simp: le_max_iff_disj)+

lemma document_Array_nested:
  assumes "document_Array v = Inr vs" and "w \<in> set vs" and "document_Obj w = Inr d"
  shows "doc_depth d < val_depth v"
proof -
  obtain es where v: "v = VArray es" "vs = map snd es"
    using assms(1) by (cases v) (auto simp: document_Array_def)
  then have "val_depth w \<le> doc_depth es" using assms(2) doc_depth_member [of w es] by simp
  moreover have "doc_depth d < val_depth w" using assms(3) by (cases w) (auto simp: document_Obj_def)
  ultimately show ?thesis by (simp add: v)
qed

lemma document_returns: "document_Array v \<noteq> Inl Diverges" "document_Obj v \<noteq> Inl Diverges"
  by (cases v; simp add: document_Array_def document_Obj_def)+

lemma document_Obj_object: "document_Obj (VObject d) = Inr d"
  by (simp add: document_Obj_def)

lemma length_two: "length xs = 2 \<longleftrightarrow> (\<exists>x y. xs = [x, y])"
  by (auto simp: numeral_2_eq_2 length_Suc_conv)

lemma less_two: "(i :: nat) < 2 \<longleftrightarrow> i = 0 \<or> i = 1"
  by auto

interpretation c2d: geo_contract Coordinates2D_env
proof unfold_locales
  fix v vs w d
  show "ge_Array Coordinates2D_env v = Inr vs \<Longrightarrow> w \<in> set vs \<Longrightarrow> ge_Obj Coordinates2D_env w = Inr d \<Longrightarrow>
      doc_depth d < val_depth v"
    by (simp add: Coordinates2D_env_def document_Array_nested)
qed (auto simp: Coordinates2D_env_def document_Array_laws document_returns document_Obj_object
    Coordinates2D_dimensionality_def length_two less_two Coordinates2D_new_def getX_def getY_def split: list.splits)

interpretation c2g: geo_contract Coordinates2DGeographic_env
proof unfold_locales
  fix v vs w d
  show "ge_Array Coordinates2DGeographic_env v = Inr vs \<Longrightarrow> w \<in> set vs \<Longrightarrow> ge_Obj Coordinates2DGeographic_env w = Inr d \<Longrightarrow>
      doc_depth d < val_depth v"
    by (simp add: Coordinates2DGeographic_env_def document_Array_nested)
qed (auto simp: Coordinates2DGeographic_env_def document_Array_laws document_returns document_Obj_object
    Coordinates2DGeographic_dimensionality_def length_two less_two getLongitude_def getLatitude_def split: list.splits)

text \<open>The accessors on values are those of \<open>BsonElement\<close> on the encoded element.\<close>

lemma el_Double_at: "name_ok n \<Longrightarrow> el_Double (el_at (n, v) rest) = val_Double v"
  using el_value_at [of "(n, v)" rest]
  by (cases v) (simp_all add: el_Double_def chk_type_def numberDouble_raw_def val_Double_def)

section \<open>Properties\<close>

text \<open>C34: the bounding box computed around points with finite coordinates is tight: in every dimension no
  point lies outside it and each of its two sides meets a point.\<close>

theorem bounding_box_tight:
  assumes "geo_contract env" and "points \<noteq> []"
    and "\<forall>p\<in>set points. \<forall>d\<in>set (ge_getValues env p). dbl_finite d"
  shows "\<exists>b. computeBoundingBox env points = Inr b \<and> (\<forall>i<ge_dimensionality env.
    let lo = ge_getValues env (getMin b) ! i; hi = ge_getValues env (getMax b) ! i;
        xs = map (\<lambda>p. ge_getValues env p ! i) points
    in (\<forall>x\<in>set xs. \<not> dbl_less x lo \<and> \<not> dbl_less hi x) \<and> (\<exists>x\<in>set xs. dbl_eq x lo) \<and> (\<exists>x\<in>set xs. dbl_eq x hi))"
proof -
  obtain b where b: "computeBoundingBox env points = Inr b"
    and mm: "\<And>i. i < ge_dimensionality env \<Longrightarrow> min_max_loop (map (\<lambda>p. ge_getValues env p ! i) points) (DBL_MAX, NEG_DBL_MAX) =
      (ge_getValues env (getMin b) ! i, ge_getValues env (getMax b) ! i)"
    using geo_contract.computeBoundingBox_values [OF assms(1), of points] by metis
  have fin: "\<forall>x\<in>set (map (\<lambda>p. ge_getValues env p ! i) points). dbl_finite x" if "i < ge_dimensionality env" for i
    using assms(3) that geo_contract.dims [OF assms(1)] by (auto intro!: nth_mem)
  have "map (\<lambda>p. ge_getValues env p ! i) points \<noteq> []" for i using assms(2) by simp
  from min_max_tight [OF this fin mm] b show ?thesis by (simp add: Let_def)
qed

theorem bounding_box_tight_witness:
  "\<exists>b. computeBoundingBox Coordinates2D_env [Coordinates2D_new 0 0x3FF0000000000000, Coordinates2D_new 0x4000000000000000 0] = Inr b \<and>
     \<not> dbl_less 0 (getX (getMin b)) \<and> \<not> dbl_less (getX (getMax b)) 0x4000000000000000"
proof -
  let ?ps = "[Coordinates2D_new 0 0x3FF0000000000000, Coordinates2D_new 0x4000000000000000 0]"
  have vals: "ge_getValues Coordinates2D_env c = [getX c, getY c]" "ge_dimensionality Coordinates2D_env = 2" for c
    by (simp_all add: Coordinates2D_env_def Coordinates2D_dimensionality_def)
  have "dbl_finite 0" "dbl_finite 0x3FF0000000000000" "dbl_finite 0x4000000000000000"
    by (simp_all add: dbl_finite_def dbl_value_def dbl_exponent_def dbl_fraction_def dbl_sign_def Let_def)
  then have "\<forall>p\<in>set ?ps. \<forall>d\<in>set (ge_getValues Coordinates2D_env p). dbl_finite d"
    by (simp add: vals getX_def getY_def Coordinates2D_new_def)
  from bounding_box_tight [OF c2d.geo_contract_axioms _ this] obtain b where
    "computeBoundingBox Coordinates2D_env ?ps = Inr b"
    "let xs = map (\<lambda>p. ge_getValues Coordinates2D_env p ! 0) ?ps
     in \<forall>x\<in>set xs. \<not> dbl_less x (getX (getMin b)) \<and> \<not> dbl_less (getX (getMax b)) x"
    by (auto simp: vals Let_def dest: spec [where x = 0])
  then show ?thesis by (simp add: vals Let_def getX_def Coordinates2D_new_def)
qed

text \<open>The box computed around boxes contains each of them and every side of it is a side of one of
  them; around no boxes there is none (the null pointer), and around no points it is inside out.\<close>

theorem box_of_boxes:
  assumes "geo_contract env"
  shows "(bboxes \<noteq> [] \<longrightarrow> (\<exists>r. computeBoundingBox_boxes env bboxes = Inr (Some r) \<and> (\<forall>i<ge_dimensionality env.
      let lo = ge_getValues env (getMin r) ! i; hi = ge_getValues env (getMax r) ! i;
          los = map (\<lambda>b. ge_getValues env (getMin b) ! i) bboxes; his = map (\<lambda>b. ge_getValues env (getMax b) ! i) bboxes
      in (\<forall>x\<in>set los. \<not> dbl_less x lo) \<and> (\<forall>x\<in>set his. \<not> dbl_less hi x) \<and> lo \<in> set los \<and> hi \<in> set his))) \<and>
    computeBoundingBox_boxes env [] = Inr None \<and>
    (\<exists>b. computeBoundingBox env [] = Inr b \<and> (\<forall>i<ge_dimensionality env.
      dbl_less (ge_getValues env (getMax b) ! i) (ge_getValues env (getMin b) ! i)))"
proof (intro conjI impI)
  assume "bboxes \<noteq> []"
  then obtain b bs where bboxes: "bboxes = b # bs" by (cases bboxes) auto
  from geo_contract.computeBoundingBox_boxes_values [OF assms, of b bs] obtain r where
    r: "computeBoundingBox_boxes env bboxes = Inr (Some r)" and
    v: "\<And>j. j < ge_dimensionality env \<Longrightarrow> ge_getValues env (getMin r) ! j =
       best dbl_less (ge_getValues env (getMin b) ! j) (map (\<lambda>b. ge_getValues env (getMin b) ! j) bs) \<and>
     ge_getValues env (getMax r) ! j =
       best (\<lambda>x y. dbl_less y x) (ge_getValues env (getMax b) ! j) (map (\<lambda>b. ge_getValues env (getMax b) ! j) bs)"
    unfolding bboxes by blast
  show "\<exists>r. computeBoundingBox_boxes env bboxes = Inr (Some r) \<and> (\<forall>i<ge_dimensionality env.
      let lo = ge_getValues env (getMin r) ! i; hi = ge_getValues env (getMax r) ! i;
          los = map (\<lambda>b. ge_getValues env (getMin b) ! i) bboxes; his = map (\<lambda>b. ge_getValues env (getMax b) ! i) bboxes
      in (\<forall>x\<in>set los. \<not> dbl_less x lo) \<and> (\<forall>x\<in>set his. \<not> dbl_less hi x) \<and> lo \<in> set los \<and> hi \<in> set his)"
  proof (intro exI [of _ r] conjI allI impI)
    fix i assume "i < ge_dimensionality env"
    note v = v [OF this]
    note lo = lower.best_unbeaten [of "ge_getValues env (getMin b) ! i" "map (\<lambda>b. ge_getValues env (getMin b) ! i) bs"]
      lower.best_in [of "ge_getValues env (getMin b) ! i" "map (\<lambda>b. ge_getValues env (getMin b) ! i) bs"]
    note hi = upper.best_unbeaten [of "ge_getValues env (getMax b) ! i" "map (\<lambda>b. ge_getValues env (getMax b) ! i) bs"]
      upper.best_in [of "ge_getValues env (getMax b) ! i" "map (\<lambda>b. ge_getValues env (getMax b) ! i) bs"]
    show "let lo = ge_getValues env (getMin r) ! i; hi = ge_getValues env (getMax r) ! i;
          los = map (\<lambda>b. ge_getValues env (getMin b) ! i) bboxes; his = map (\<lambda>b. ge_getValues env (getMax b) ! i) bboxes
      in (\<forall>x\<in>set los. \<not> dbl_less x lo) \<and> (\<forall>x\<in>set his. \<not> dbl_less hi x) \<and> lo \<in> set los \<and> hi \<in> set his"
      using lo hi v by (simp add: Let_def bboxes)
  qed (rule r)
next
  show "computeBoundingBox_boxes env [] = Inr None" by (simp add: computeBoundingBox_boxes_def)
next
  have "dbl_less NEG_DBL_MAX DBL_MAX" by (simp add: dbl_less_def DBL_MAX_value scale_def)
  then show "\<exists>b. computeBoundingBox env [] = Inr b \<and> (\<forall>i<ge_dimensionality env.
      dbl_less (ge_getValues env (getMax b) ! i) (ge_getValues env (getMin b) ! i))"
    using geo_contract.computeBoundingBox_values [OF assms, of "[]"] by auto
qed

theorem box_of_boxes_witness:
  "computeBoundingBox_boxes Coordinates2D_env [] = Inr None \<and>
   (\<exists>r. computeBoundingBox_boxes Coordinates2D_env
      [BoundingBox_new Coordinates2D_default (Coordinates2D_new 0x3FF0000000000000 0)] = Inr (Some r))"
  using box_of_boxes [OF c2d.geo_contract_axioms,
      of "[BoundingBox_new Coordinates2D_default (Coordinates2D_new 0x3FF0000000000000 0)]"] by blast

end
