(* ===== verification/GeoObj.thy ===== *)
theory GeoObj
  imports GeoBox
begin

text \<open>
  The geometries of \<^verbatim>\<open>mongo/geo\<close> (points, line strings, polygons, their multiples and collections),
  the parser that makes one of a document, and the query helpers. Every geometry keeps the document
  it was made of and caches its bounding box, so \<open>getBoundingBox\<close> returns the box and the object with
  the cache filled. The recursion of the parser goes through \<^verbatim>\<open>Array\<close> and \<^verbatim>\<open>Obj\<close>, which are only
  declared, so it takes fuel; \<open>parse_returns\<close> shows that the nesting depth of the document is enough.
\<close>

section \<open>Points\<close>

record 'c Point =
  pt_bson :: doc
  pt_coords :: 'c
  pt_boundingBox :: "'c BoundingBox option"

definition Point_parse :: "'c geo_env \<Rightarrow> doc \<Rightarrow> 'c Point res" where
  "Point_parse env bson =
     bindE (validateType env bson kPointTypeStr) (\<lambda>b.
     bindE (bindE (parseCoords_obj env bson) (ge_coords env)) (\<lambda>c.
     bindE (parseBoundingBox env bson) (\<lambda>bb.
       Inr \<lparr>pt_bson = b, pt_coords = c, pt_boundingBox = bb\<rparr>)))"

definition Point_createBSON :: "'c geo_env \<Rightarrow> 'c \<Rightarrow> doc" where
  "Point_createBSON env c =
     ge_appendElements env [(kTypeFieldName, VString kPointTypeStr)] (ge_coordsBSON env c)"

definition Point_new :: "'c geo_env \<Rightarrow> 'c \<Rightarrow> 'c Point" where
  "Point_new env c = \<lparr>pt_bson = Point_createBSON env c, pt_coords = c, pt_boundingBox = None\<rparr>"

definition Point_copy :: "'c Point \<Rightarrow> 'c Point" where
  "Point_copy other =
     \<lparr>pt_bson = pt_bson other, pt_coords = pt_coords other, pt_boundingBox = pt_boundingBox other\<rparr>"

text \<open>Assignment swaps with its by-value argument, which is then destroyed.\<close>

definition Point_assign :: "'c Point \<Rightarrow> 'c Point \<Rightarrow> 'c Point" where
  "Point_assign this other =
     (let other = Point_copy other in
      this\<lparr>pt_bson := pt_bson other, pt_coords := pt_coords other, pt_boundingBox := pt_boundingBox other\<rparr>)"

definition Point_toBSON :: "'c Point \<Rightarrow> doc" where
  "Point_toBSON p = pt_bson p"

definition Point_computeBoundingBox :: "'c Point \<Rightarrow> 'c BoundingBox" where
  "Point_computeBoundingBox p = BoundingBox_new (pt_coords p) (pt_coords p)"

definition Point_getBoundingBox :: "'c Point \<Rightarrow> 'c BoundingBox \<times> 'c Point" where
  "Point_getBoundingBox p =
     (case pt_boundingBox p of Some b \<Rightarrow> (b, p)
      | None \<Rightarrow> let b = Point_computeBoundingBox p in (b, p\<lparr>pt_boundingBox := Some b\<rparr>))"

definition Point_getType :: "'c Point \<Rightarrow> GeoObjType" where
  "Point_getType p = GeoObjType_Point"

definition Point_getCoordinates :: "'c Point \<Rightarrow> 'c" where
  "Point_getCoordinates p = pt_coords p"

definition Point_at :: "'c geo_env \<Rightarrow> 'c Point \<Rightarrow> nat \<Rightarrow> double res" where
  "Point_at env p dim = ge_at env (pt_coords p) dim"

section \<open>Parsing points\<close>

definition parsePoint :: "'c geo_env \<Rightarrow> bson_val \<Rightarrow> 'c Point res" where
  "parsePoint env coordArr =
     bindE (parseCoords env coordArr) (\<lambda>cs.
     bindE (ge_coords env cs) (\<lambda>pointCoords. Inr (Point_new env pointCoords)))"

definition parsePointArray :: "'c geo_env \<Rightarrow> bson_val list \<Rightarrow> 'c Point list res" where
  "parsePointArray env pointArr = mapE (parsePoint env) pointArr"

definition parseAllPoints :: "'c geo_env \<Rightarrow> doc \<Rightarrow> 'c Point list res" where
  "parseAllPoints env bson =
     bindE (getCoordsField env bson) (\<lambda>v. bindE (ge_Array env v) (parsePointArray env))"

text \<open>\<^verbatim>\<open>toBSON()["coordinates"]\<close> appended to an array; a missing field fails the assertion of \<^verbatim>\<open>appendAs\<close>.\<close>

definition coords_element :: "'c geo_env \<Rightarrow> doc \<Rightarrow> bson_val res" where
  "coords_element env bson =
     (case ge_getField env bson kCoordsFieldName of None \<Rightarrow> Inl VerifyFailed | Some v \<Rightarrow> Inr v)"

definition points_box :: "'c geo_env \<Rightarrow> 'c Point list \<Rightarrow> 'c BoundingBox res" where
  "points_box env points = computeBoundingBox env (map pt_coords points)"

section \<open>Line strings\<close>

record 'c LineString =
  ls_bson :: doc
  ls_points :: "'c Point list"
  ls_boundingBox :: "'c BoundingBox option"

definition LineString_parse :: "'c geo_env \<Rightarrow> doc \<Rightarrow> 'c LineString res" where
  "LineString_parse env bson =
     bindE (validateType env bson kLineStringTypeStr) (\<lambda>b.
     bindE (parseAllPoints env bson) (\<lambda>ps.
     bindE (parseBoundingBox env bson) (\<lambda>bb.
       Inr \<lparr>ls_bson = b, ls_points = ps, ls_boundingBox = bb\<rparr>)))"

definition LineString_createBSON :: "'c geo_env \<Rightarrow> 'c Point list \<Rightarrow> doc res" where
  "LineString_createBSON env points =
     bindE (mapE (\<lambda>p. coords_element env (Point_toBSON p)) points) (\<lambda>vs.
       Inr [(kTypeFieldName, VString kLineStringTypeStr), (kCoordsFieldName, array_of vs)])"

definition LineString_new :: "'c geo_env \<Rightarrow> 'c Point list \<Rightarrow> 'c LineString res" where
  "LineString_new env points =
     bindE (LineString_createBSON env points) (\<lambda>b.
       Inr \<lparr>ls_bson = b, ls_points = points, ls_boundingBox = None\<rparr>)"

definition LineString_copy :: "'c LineString \<Rightarrow> 'c LineString" where
  "LineString_copy other =
     \<lparr>ls_bson = ls_bson other, ls_points = ls_points other, ls_boundingBox = ls_boundingBox other\<rparr>"

definition LineString_assign :: "'c LineString \<Rightarrow> 'c LineString \<Rightarrow> 'c LineString" where
  "LineString_assign this other =
     (let other = LineString_copy other in
      this\<lparr>ls_bson := ls_bson other, ls_points := ls_points other, ls_boundingBox := ls_boundingBox other\<rparr>)"

definition LineString_toBSON :: "'c LineString \<Rightarrow> doc" where
  "LineString_toBSON l = ls_bson l"

definition LineString_computeBoundingBox :: "'c geo_env \<Rightarrow> 'c LineString \<Rightarrow> 'c BoundingBox res" where
  "LineString_computeBoundingBox env l = points_box env (ls_points l)"

definition LineString_getBoundingBox :: "'c geo_env \<Rightarrow> 'c LineString \<Rightarrow> ('c BoundingBox \<times> 'c LineString) res" where
  "LineString_getBoundingBox env l =
     (case ls_boundingBox l of Some b \<Rightarrow> Inr (b, l)
      | None \<Rightarrow> bindE (LineString_computeBoundingBox env l) (\<lambda>b. Inr (b, l\<lparr>ls_boundingBox := Some b\<rparr>)))"

definition LineString_getType :: "'c LineString \<Rightarrow> GeoObjType" where
  "LineString_getType l = GeoObjType_LineString"

definition LineString_getPoints :: "'c LineString \<Rightarrow> 'c Point list" where
  "LineString_getPoints l = ls_points l"

text \<open>The loops of \<^verbatim>\<open>parseLinearRings\<close>, \<^verbatim>\<open>parsePolygon\<close> and \<^verbatim>\<open>parseLineStrings\<close>.\<close>

definition parse_lines :: "'c geo_env \<Rightarrow> bson_val list \<Rightarrow> 'c LineString list res" where
  "parse_lines env elems =
     mapE (\<lambda>e. bindE (ge_Array env e) (\<lambda>ps. bindE (parsePointArray env ps) (LineString_new env))) elems"

section \<open>Polygons\<close>

record 'c Polygon =
  pg_bson :: doc
  pg_linearRings :: "'c LineString list"
  pg_boundingBox :: "'c BoundingBox option"

definition parseLinearRings :: "'c geo_env \<Rightarrow> doc \<Rightarrow> 'c LineString list res" where
  "parseLinearRings env bson =
     bindE (getCoordsField env bson) (\<lambda>v. bindE (ge_Array env v) (parse_lines env))"

definition Polygon_parse :: "'c geo_env \<Rightarrow> doc \<Rightarrow> 'c Polygon res" where
  "Polygon_parse env bson =
     bindE (validateType env bson kPolygonTypeStr) (\<lambda>b.
     bindE (parseLinearRings env bson) (\<lambda>rs.
     bindE (parseBoundingBox env bson) (\<lambda>bb.
       Inr \<lparr>pg_bson = b, pg_linearRings = rs, pg_boundingBox = bb\<rparr>)))"

definition Polygon_createBSON :: "'c geo_env \<Rightarrow> 'c LineString list \<Rightarrow> doc res" where
  "Polygon_createBSON env linearRings =
     bindE (mapE (\<lambda>l. coords_element env (LineString_toBSON l)) linearRings) (\<lambda>vs.
       Inr [(kTypeFieldName, VString kPolygonTypeStr), (kCoordsFieldName, array_of vs)])"

definition Polygon_new :: "'c geo_env \<Rightarrow> 'c LineString list \<Rightarrow> 'c Polygon res" where
  "Polygon_new env linearRings =
     bindE (Polygon_createBSON env linearRings) (\<lambda>b.
       Inr \<lparr>pg_bson = b, pg_linearRings = linearRings, pg_boundingBox = None\<rparr>)"

definition Polygon_copy :: "'c Polygon \<Rightarrow> 'c Polygon" where
  "Polygon_copy other =
     \<lparr>pg_bson = pg_bson other, pg_linearRings = pg_linearRings other, pg_boundingBox = pg_boundingBox other\<rparr>"

definition Polygon_assign :: "'c Polygon \<Rightarrow> 'c Polygon \<Rightarrow> 'c Polygon" where
  "Polygon_assign this other =
     (let other = Polygon_copy other in
      this\<lparr>pg_bson := pg_bson other, pg_linearRings := pg_linearRings other, pg_boundingBox := pg_boundingBox other\<rparr>)"

definition Polygon_toBSON :: "'c Polygon \<Rightarrow> doc" where
  "Polygon_toBSON g = pg_bson g"

definition Polygon_getPoints :: "'c Polygon \<Rightarrow> 'c Point list" where
  "Polygon_getPoints g = concat (map LineString_getPoints (pg_linearRings g))"

definition Polygon_computeBoundingBox :: "'c geo_env \<Rightarrow> 'c Polygon \<Rightarrow> 'c BoundingBox res" where
  "Polygon_computeBoundingBox env g = points_box env (Polygon_getPoints g)"

definition Polygon_getBoundingBox :: "'c geo_env \<Rightarrow> 'c Polygon \<Rightarrow> ('c BoundingBox \<times> 'c Polygon) res" where
  "Polygon_getBoundingBox env g =
     (case pg_boundingBox g of Some b \<Rightarrow> Inr (b, g)
      | None \<Rightarrow> bindE (Polygon_computeBoundingBox env g) (\<lambda>b. Inr (b, g\<lparr>pg_boundingBox := Some b\<rparr>)))"

definition Polygon_getType :: "'c Polygon \<Rightarrow> GeoObjType" where
  "Polygon_getType g = GeoObjType_Polygon"

definition Polygon_getLinearRings :: "'c Polygon \<Rightarrow> 'c LineString list" where
  "Polygon_getLinearRings g = pg_linearRings g"

section \<open>Multiples\<close>

record 'c MultiLineString =
  ml_bson :: doc
  ml_lineStrings :: "'c LineString list"
  ml_boundingBox :: "'c BoundingBox option"

definition parseLineStrings :: "'c geo_env \<Rightarrow> doc \<Rightarrow> 'c LineString list res" where
  "parseLineStrings env bson =
     bindE (getCoordsField env bson) (\<lambda>v. bindE (ge_Array env v) (parse_lines env))"

definition MultiLineString_parse :: "'c geo_env \<Rightarrow> doc \<Rightarrow> 'c MultiLineString res" where
  "MultiLineString_parse env bson =
     bindE (validateType env bson kMultiLineStringTypeStr) (\<lambda>b.
     bindE (parseLineStrings env bson) (\<lambda>ls.
     bindE (parseBoundingBox env bson) (\<lambda>bb.
       Inr \<lparr>ml_bson = b, ml_lineStrings = ls, ml_boundingBox = bb\<rparr>)))"

definition MultiLineString_createBSON :: "'c geo_env \<Rightarrow> 'c LineString list \<Rightarrow> doc res" where
  "MultiLineString_createBSON env lineStrings =
     bindE (mapE (\<lambda>l. coords_element env (LineString_toBSON l)) lineStrings) (\<lambda>vs.
       Inr [(kTypeFieldName, VString kMultiLineStringTypeStr), (kCoordsFieldName, array_of vs)])"

definition MultiLineString_new :: "'c geo_env \<Rightarrow> 'c LineString list \<Rightarrow> 'c MultiLineString res" where
  "MultiLineString_new env lineStrings =
     bindE (MultiLineString_createBSON env lineStrings) (\<lambda>b.
       Inr \<lparr>ml_bson = b, ml_lineStrings = lineStrings, ml_boundingBox = None\<rparr>)"

definition MultiLineString_toBSON :: "'c MultiLineString \<Rightarrow> doc" where
  "MultiLineString_toBSON m = ml_bson m"

definition MultiLineString_getPoints :: "'c MultiLineString \<Rightarrow> 'c Point list" where
  "MultiLineString_getPoints m = concat (map LineString_getPoints (ml_lineStrings m))"

definition MultiLineString_computeBoundingBox :: "'c geo_env \<Rightarrow> 'c MultiLineString \<Rightarrow> 'c BoundingBox res" where
  "MultiLineString_computeBoundingBox env m = points_box env (MultiLineString_getPoints m)"

definition MultiLineString_getBoundingBox ::
    "'c geo_env \<Rightarrow> 'c MultiLineString \<Rightarrow> ('c BoundingBox \<times> 'c MultiLineString) res" where
  "MultiLineString_getBoundingBox env m =
     (case ml_boundingBox m of Some b \<Rightarrow> Inr (b, m)
      | None \<Rightarrow> bindE (MultiLineString_computeBoundingBox env m) (\<lambda>b. Inr (b, m\<lparr>ml_boundingBox := Some b\<rparr>)))"

definition MultiLineString_getType :: "'c MultiLineString \<Rightarrow> GeoObjType" where
  "MultiLineString_getType m = GeoObjType_MultiLineString"

definition MultiLineString_getLineStrings :: "'c MultiLineString \<Rightarrow> 'c LineString list" where
  "MultiLineString_getLineStrings m = ml_lineStrings m"

record 'c MultiPoint =
  mp_bson :: doc
  mp_points :: "'c Point list"
  mp_boundingBox :: "'c BoundingBox option"

definition MultiPoint_parse :: "'c geo_env \<Rightarrow> doc \<Rightarrow> 'c MultiPoint res" where
  "MultiPoint_parse env bson =
     bindE (validateType env bson kMultiPointTypeStr) (\<lambda>b.
     bindE (parseAllPoints env bson) (\<lambda>ps.
     bindE (parseBoundingBox env bson) (\<lambda>bb.
       Inr \<lparr>mp_bson = b, mp_points = ps, mp_boundingBox = bb\<rparr>)))"

definition MultiPoint_toBSON :: "'c MultiPoint \<Rightarrow> doc" where
  "MultiPoint_toBSON m = mp_bson m"

definition MultiPoint_computeBoundingBox :: "'c geo_env \<Rightarrow> 'c MultiPoint \<Rightarrow> 'c BoundingBox res" where
  "MultiPoint_computeBoundingBox env m = points_box env (mp_points m)"

definition MultiPoint_getBoundingBox :: "'c geo_env \<Rightarrow> 'c MultiPoint \<Rightarrow> ('c BoundingBox \<times> 'c MultiPoint) res" where
  "MultiPoint_getBoundingBox env m =
     (case mp_boundingBox m of Some b \<Rightarrow> Inr (b, m)
      | None \<Rightarrow> bindE (MultiPoint_computeBoundingBox env m) (\<lambda>b. Inr (b, m\<lparr>mp_boundingBox := Some b\<rparr>)))"

definition MultiPoint_getType :: "'c MultiPoint \<Rightarrow> GeoObjType" where
  "MultiPoint_getType m = GeoObjType_MultiPoint"

definition MultiPoint_getPoints :: "'c MultiPoint \<Rightarrow> 'c Point list" where
  "MultiPoint_getPoints m = mp_points m"

record 'c MultiPolygon =
  my_bson :: doc
  my_polygons :: "'c Polygon list"
  my_boundingBox :: "'c BoundingBox option"

definition parsePolygon :: "'c geo_env \<Rightarrow> bson_val \<Rightarrow> 'c Polygon res" where
  "parsePolygon env v =
     bindE (ge_Array env v) (\<lambda>es. bindE (parse_lines env es) (Polygon_new env))"

definition parseAllPolygons :: "'c geo_env \<Rightarrow> doc \<Rightarrow> 'c Polygon list res" where
  "parseAllPolygons env bson =
     bindE (getCoordsField env bson) (\<lambda>v. bindE (ge_Array env v) (mapE (parsePolygon env)))"

definition MultiPolygon_parse :: "'c geo_env \<Rightarrow> doc \<Rightarrow> 'c MultiPolygon res" where
  "MultiPolygon_parse env bson =
     bindE (validateType env bson kMultiPolygonTypeStr) (\<lambda>b.
     bindE (parseAllPolygons env bson) (\<lambda>gs.
     bindE (parseBoundingBox env bson) (\<lambda>bb.
       Inr \<lparr>my_bson = b, my_polygons = gs, my_boundingBox = bb\<rparr>)))"

definition MultiPolygon_toBSON :: "'c MultiPolygon \<Rightarrow> doc" where
  "MultiPolygon_toBSON m = my_bson m"

definition MultiPolygon_getPoints :: "'c MultiPolygon \<Rightarrow> 'c Point list" where
  "MultiPolygon_getPoints m = concat (map Polygon_getPoints (my_polygons m))"

definition MultiPolygon_computeBoundingBox :: "'c geo_env \<Rightarrow> 'c MultiPolygon \<Rightarrow> 'c BoundingBox res" where
  "MultiPolygon_computeBoundingBox env m = points_box env (MultiPolygon_getPoints m)"

definition MultiPolygon_getBoundingBox ::
    "'c geo_env \<Rightarrow> 'c MultiPolygon \<Rightarrow> ('c BoundingBox \<times> 'c MultiPolygon) res" where
  "MultiPolygon_getBoundingBox env m =
     (case my_boundingBox m of Some b \<Rightarrow> Inr (b, m)
      | None \<Rightarrow> bindE (MultiPolygon_computeBoundingBox env m) (\<lambda>b. Inr (b, m\<lparr>my_boundingBox := Some b\<rparr>)))"

definition MultiPolygon_getType :: "'c MultiPolygon \<Rightarrow> GeoObjType" where
  "MultiPolygon_getType m = GeoObjType_MultiPolygon"

definition MultiPolygon_getPolygons :: "'c MultiPolygon \<Rightarrow> 'c Polygon list" where
  "MultiPolygon_getPolygons m = my_polygons m"

section \<open>Collections and the parser\<close>

text \<open>What a \<^verbatim>\<open>const GeoObj*\<close> points to.\<close>

datatype 'c geo_obj =
    G_Point "'c Point"
  | G_MultiPoint "'c MultiPoint"
  | G_LineString "'c LineString"
  | G_MultiLineString "'c MultiLineString"
  | G_Polygon "'c Polygon"
  | G_MultiPolygon "'c MultiPolygon"
  | GeometryCollection (gc_bson: doc) (gc_geometries: "'c geo_obj list") (gc_boundingBox: "'c BoundingBox option")

fun geo_toBSON :: "'c geo_obj \<Rightarrow> doc" where
  "geo_toBSON (G_Point p) = Point_toBSON p"
| "geo_toBSON (G_MultiPoint m) = MultiPoint_toBSON m"
| "geo_toBSON (G_LineString l) = LineString_toBSON l"
| "geo_toBSON (G_MultiLineString m) = MultiLineString_toBSON m"
| "geo_toBSON (G_Polygon g) = Polygon_toBSON g"
| "geo_toBSON (G_MultiPolygon m) = MultiPolygon_toBSON m"
| "geo_toBSON (GeometryCollection bson gs bb) = bson"

fun geo_getType :: "'c geo_obj \<Rightarrow> GeoObjType" where
  "geo_getType (G_Point p) = Point_getType p"
| "geo_getType (G_MultiPoint m) = MultiPoint_getType m"
| "geo_getType (G_LineString l) = LineString_getType l"
| "geo_getType (G_MultiLineString m) = MultiLineString_getType m"
| "geo_getType (G_Polygon g) = Polygon_getType g"
| "geo_getType (G_MultiPolygon m) = MultiPolygon_getType m"
| "geo_getType (GeometryCollection bson gs bb) = GeoObjType_GeometryCollection"

text \<open>
  Boxes are cached in the members too. \<^verbatim>\<open>computeBoundingBox\<close> of an empty collection is null, and
  \<open>getBoundingBox\<close> dereferences it.
\<close>

fun geo_getBoundingBox :: "'c geo_env \<Rightarrow> 'c geo_obj \<Rightarrow> ('c BoundingBox \<times> 'c geo_obj) res"
  and geos_getBoundingBox :: "'c geo_env \<Rightarrow> 'c geo_obj list \<Rightarrow> ('c BoundingBox list \<times> 'c geo_obj list) res" where
  "geo_getBoundingBox env (G_Point p) = (let (b, p) = Point_getBoundingBox p in Inr (b, G_Point p))"
| "geo_getBoundingBox env (G_MultiPoint m) =
     bindE (MultiPoint_getBoundingBox env m) (\<lambda>(b, m). Inr (b, G_MultiPoint m))"
| "geo_getBoundingBox env (G_LineString l) =
     bindE (LineString_getBoundingBox env l) (\<lambda>(b, l). Inr (b, G_LineString l))"
| "geo_getBoundingBox env (G_MultiLineString m) =
     bindE (MultiLineString_getBoundingBox env m) (\<lambda>(b, m). Inr (b, G_MultiLineString m))"
| "geo_getBoundingBox env (G_Polygon g) =
     bindE (Polygon_getBoundingBox env g) (\<lambda>(b, g). Inr (b, G_Polygon g))"
| "geo_getBoundingBox env (G_MultiPolygon m) =
     bindE (MultiPolygon_getBoundingBox env m) (\<lambda>(b, m). Inr (b, G_MultiPolygon m))"
| "geo_getBoundingBox env (GeometryCollection bson gs bb) =
     (case bb of Some b \<Rightarrow> Inr (b, GeometryCollection bson gs bb)
      | None \<Rightarrow>
          bindE (geos_getBoundingBox env gs) (\<lambda>(bs, gs).
          bindE (computeBoundingBox_boxes env bs) (\<lambda>r.
          case r of None \<Rightarrow> Inl BadAccess | Some b \<Rightarrow> Inr (b, GeometryCollection bson gs (Some b)))))"
| "geos_getBoundingBox env [] = Inr ([], [])"
| "geos_getBoundingBox env (g # gs) =
     bindE (geo_getBoundingBox env g) (\<lambda>(b, g).
     bindE (geos_getBoundingBox env gs) (\<lambda>(bs, gs). Inr (b # bs, g # gs)))"

lemmas computeBoundingBox_defs [simp] =
  LineString_computeBoundingBox_def Polygon_computeBoundingBox_def MultiLineString_computeBoundingBox_def
  MultiPoint_computeBoundingBox_def MultiPolygon_computeBoundingBox_def

text \<open>What a collection does when it has no box yet; the members keep the boxes they compute.\<close>

definition GeometryCollection_computeBoundingBox ::
    "'c geo_env \<Rightarrow> 'c geo_obj list \<Rightarrow> ('c BoundingBox option \<times> 'c geo_obj list) res" where
  "GeometryCollection_computeBoundingBox env geometries =
     bindE (geos_getBoundingBox env geometries) (\<lambda>(bboxes, geometries).
     bindE (computeBoundingBox_boxes env bboxes) (\<lambda>r. Inr (r, geometries)))"

lemma collection_box:
  "geo_getBoundingBox env (GeometryCollection bson gs None) =
     bindE (GeometryCollection_computeBoundingBox env gs) (\<lambda>(r, gs).
       case r of None \<Rightarrow> Inl BadAccess | Some b \<Rightarrow> Inr (b, GeometryCollection bson gs (Some b)))"
  by (auto simp: GeometryCollection_computeBoundingBox_def bindE_assoc intro!: bindE_cong)

definition GeometryCollection_getGeometries :: "'c geo_obj \<Rightarrow> 'c geo_obj list" where
  "GeometryCollection_getGeometries gc = gc_geometries gc"

definition stringToType :: "bytes \<Rightarrow> GeoObjType res" where
  "stringToType typeStr =
     (if typeStr = kPointTypeStr then Inr GeoObjType_Point
      else if typeStr = kLineStringTypeStr then Inr GeoObjType_LineString
      else if typeStr = kPolygonTypeStr then Inr GeoObjType_Polygon
      else if typeStr = kMultiPointTypeStr then Inr GeoObjType_MultiPoint
      else if typeStr = kMultiLineStringTypeStr then Inr GeoObjType_MultiLineString
      else if typeStr = kMultiPolygonTypeStr then Inr GeoObjType_MultiPolygon
      else if typeStr = kGeometryCollectionTypeStr then Inr GeoObjType_GeometryCollection
      else Inl (UserAssertion 0))"

text \<open>\<open>parse\<close> is the parser that makes the members.\<close>

definition parseGeometries ::
    "'c geo_env \<Rightarrow> (doc \<Rightarrow> 'c geo_obj res) \<Rightarrow> doc \<Rightarrow> 'c geo_obj list res" where
  "parseGeometries env parse bson =
     (let geometriesField = ge_getField env bson kGeometriesFieldName in
      bindE (uassert 0 (geometriesField \<noteq> None \<and> val_type (the geometriesField) = Array)) (\<lambda>u.
      bindE (ge_Array env (the geometriesField)) (mapE (\<lambda>e. bindE (ge_Obj env e) parse))))"

definition GeometryCollection_parse :: "'c geo_env \<Rightarrow> (doc \<Rightarrow> 'c geo_obj res) \<Rightarrow> doc \<Rightarrow> 'c geo_obj res" where
  "GeometryCollection_parse env parse bson =
     bindE (validateType env bson kGeometryCollectionTypeStr) (\<lambda>b.
     bindE (parseGeometries env parse bson) (\<lambda>gs.
     bindE (parseBoundingBox env bson) (\<lambda>bb. Inr (GeometryCollection b gs bb))))"

fun geo_parse :: "nat \<Rightarrow> 'c geo_env \<Rightarrow> doc \<Rightarrow> 'c geo_obj res" where
  "geo_parse 0 env bson = Inl Diverges"
| "geo_parse (Suc fuel) env bson =
     (let typeField = ge_getField env bson kTypeFieldName in
      bindE (uassert 0 (typeField \<noteq> None \<and> val_type (the typeField) = String)) (\<lambda>u.
      bindE (val_String (the typeField)) (\<lambda>s.
      bindE (stringToType s) (\<lambda>t.
      case t of
        GeoObjType_Point \<Rightarrow> bindE (Point_parse env bson) (\<lambda>p. Inr (G_Point p))
      | GeoObjType_MultiPoint \<Rightarrow> bindE (MultiPoint_parse env bson) (\<lambda>m. Inr (G_MultiPoint m))
      | GeoObjType_LineString \<Rightarrow> bindE (LineString_parse env bson) (\<lambda>l. Inr (G_LineString l))
      | GeoObjType_MultiLineString \<Rightarrow> bindE (MultiLineString_parse env bson) (\<lambda>m. Inr (G_MultiLineString m))
      | GeoObjType_Polygon \<Rightarrow> bindE (Polygon_parse env bson) (\<lambda>g. Inr (G_Polygon g))
      | GeoObjType_MultiPolygon \<Rightarrow> bindE (MultiPolygon_parse env bson) (\<lambda>m. Inr (G_MultiPolygon m))
      | GeoObjType_GeometryCollection \<Rightarrow> GeometryCollection_parse env (geo_parse fuel env) bson))))"

section \<open>Queries\<close>

text \<open>The names of the operators, \<^verbatim>\<open>$geometry\<close> and so on.\<close>

definition op_geometry :: bytes where
  "op_geometry = [36, 103, 101, 111, 109, 101, 116, 114, 121]"

definition op_geoWithin :: bytes where
  "op_geoWithin = [36, 103, 101, 111, 87, 105, 116, 104, 105, 110]"

definition op_box :: bytes where
  "op_box = [36, 98, 111, 120]"

definition op_geoIntersects :: bytes where
  "op_geoIntersects = [36, 103, 101, 111, 73, 110, 116, 101, 114, 115, 101, 99, 116, 115]"

definition op_near :: bytes where
  "op_near = [36, 110, 101, 97, 114]"

definition op_maxDistance :: bytes where
  "op_maxDistance = [36, 109, 97, 120, 68, 105, 115, 116, 97, 110, 99, 101]"

definition op_nearSphere :: bytes where
  "op_nearSphere = [36, 110, 101, 97, 114, 83, 112, 104, 101, 114, 101]"

definition GEOQUERY :: "bytes \<Rightarrow> 'c geo_obj \<Rightarrow> doc" where
  "GEOQUERY op geoObj = [(op, VObject [(op_geometry, VObject (geo_toBSON geoObj))])]"

definition WITHINQUERY :: "'c geo_obj \<Rightarrow> doc" where
  "WITHINQUERY geoObj = GEOQUERY op_geoWithin geoObj"

definition WITHINQUERY_box :: "'c geo_env \<Rightarrow> 'c BoundingBox \<Rightarrow> doc" where
  "WITHINQUERY_box env geoBB = [(op_geoWithin, VObject [(op_box, box_toNestedBSONArray env geoBB)])]"

definition INTERSECTSQUERY :: "'c geo_obj \<Rightarrow> doc" where
  "INTERSECTSQUERY geoObj = GEOQUERY op_geoIntersects geoObj"

definition NEARQUERY :: "'c geo_obj \<Rightarrow> doc" where
  "NEARQUERY geoObj = GEOQUERY op_near geoObj"

definition NEARQUERY_max :: "'c geo_obj \<Rightarrow> double \<Rightarrow> doc res" where
  "NEARQUERY_max geoObj maxDistance =
     bindE (uassert 0 (dbl_less 0 maxDistance \<or> dbl_eq maxDistance 0)) (\<lambda>u.
       Inr [(op_near, VObject [(op_geometry, VObject (geo_toBSON geoObj)), (op_maxDistance, VDouble maxDistance)])])"

definition NEARSPHEREQUERY :: "'c geo_obj \<Rightarrow> doc" where
  "NEARSPHEREQUERY geoObj = GEOQUERY op_nearSphere geoObj"

definition NEARSPHEREQUERY_max :: "'c geo_obj \<Rightarrow> double \<Rightarrow> doc res" where
  "NEARSPHEREQUERY_max geoObj maxDistance =
     bindE (uassert 0 (dbl_less 0 maxDistance \<or> dbl_eq maxDistance 0)) (\<lambda>u.
       Inr [(op_nearSphere, VObject [(op_geometry, VObject (geo_toBSON geoObj)), (op_maxDistance, VDouble maxDistance)])])"

section \<open>Returning\<close>

definition returns :: "'a res \<Rightarrow> bool" where
  "returns m \<longleftrightarrow> m \<noteq> Inl Diverges"

named_theorems ret "results that are not divergence"

lemma returns_bindE [ret]: "returns m \<Longrightarrow> (\<And>x. m = Inr x \<Longrightarrow> returns (f x)) \<Longrightarrow> returns (bindE m f)"
  by (cases m) (auto simp: returns_def)

lemma returns_Inr [ret]: "returns (Inr x)" "returns (Inl (UserAssertion n))"
  by (simp_all add: returns_def)

lemma returns_uassert [ret]: "returns (uassert n c)"
  by (simp add: returns_def uassert_def)

lemma returns_mapE [ret]: "(\<And>x. x \<in> set xs \<Longrightarrow> returns (f x)) \<Longrightarrow> returns (mapE f xs)"
  by (induction xs) (auto intro!: ret)

lemma returns_val [ret]: "returns (val_Double v)" "returns (val_String v)"
  by (cases v; simp add: returns_def val_Double_def val_String_def)+

lemma returns_coords_element [ret]: "returns (coords_element env d)"
  by (auto simp: coords_element_def returns_def split: option.splits)

lemma returns_stringToType [ret]: "returns (stringToType s)"
  by (simp add: stringToType_def returns_def)

lemma returns_box_components [ret]: "returns (box_components n es is)"
  by (induction "is") (auto intro!: ret)

lemma mapE_Inr: "(\<And>x. x \<in> set xs \<Longrightarrow> f x = Inr (g x)) \<Longrightarrow> mapE f xs = Inr (map g xs)"
  by (induction xs) simp_all

context geo_contract
begin

lemma returns_declared [ret]: "returns (ge_Array env v)" "returns (ge_Obj env v)" "returns (ge_coords env xs)"
  by (simp_all add: returns_def Array_returns Obj_returns coords_returns)

lemma returns_validateType [ret]: "returns (validateType env d t)"
  by (auto simp: validateType_def intro!: ret split: option.splits)

lemma returns_parseBoundingBox [ret]: "returns (parseBoundingBox env d)"
  by (auto simp: parseBoundingBox_def BoundingBox_parse_def Let_def intro!: ret split: prod.splits)

lemma returns_getCoordsField [ret]: "returns (getCoordsField env d)"
  by (auto simp: getCoordsField_def Let_def intro!: ret)

lemma returns_points [ret]: "returns (parsePointArray env vs)" "returns (parseAllPoints env d)"
  by (auto simp: parsePointArray_def parseAllPoints_def parsePoint_def parseCoords_def intro!: ret)

lemma returns_lines [ret]: "returns (parse_lines env vs)"
  by (auto simp: parse_lines_def LineString_new_def LineString_createBSON_def intro!: ret)

lemma returns_geometries [ret]:
  "returns (Point_parse env d)" "returns (LineString_parse env d)" "returns (Polygon_parse env d)"
  "returns (MultiPoint_parse env d)" "returns (MultiLineString_parse env d)" "returns (MultiPolygon_parse env d)"
  by (auto simp: Point_parse_def LineString_parse_def Polygon_parse_def MultiPoint_parse_def
      MultiLineString_parse_def MultiPolygon_parse_def parseCoords_obj_def parseCoords_def parseLinearRings_def
      parseLineStrings_def parseAllPolygons_def parsePolygon_def Polygon_new_def Polygon_createBSON_def intro!: ret)

text \<open>The members of a collection are nested deeper than the collection.\<close>

lemma parse_returns: "doc_depth d < fuel \<Longrightarrow> returns (geo_parse fuel env d)"
proof (induction fuel arbitrary: d)
  case (Suc fuel)
  have "returns (parseGeometries env (geo_parse fuel env) d)"
  proof (cases "ge_getField env d kGeometriesFieldName")
    case None
    then show ?thesis by (simp add: parseGeometries_def returns_def)
  next
    case (Some v)
    then have "(kGeometriesFieldName, v) \<in> set d" by (simp add: getField map_of_SomeD)
    then have "v \<in> snd ` set d" by force
    then have depth: "val_depth v \<le> doc_depth d" by (rule doc_depth_member)
    have "returns (geo_parse fuel env x)" if "ge_Array env v = Inr vs" "w \<in> set vs" "ge_Obj env w = Inr x" for vs w x
      using Array_nested [OF that] depth Suc.prems by (intro Suc.IH) simp
    then show ?thesis by (auto simp: parseGeometries_def Some intro!: ret)
  qed
  then have "returns (GeometryCollection_parse env (geo_parse fuel env) d)"
    by (auto simp: GeometryCollection_parse_def intro!: ret)
  then show ?case by (auto simp: Let_def intro!: ret split: GeoObjType.splits)
qed simp

end

declare geo_parse.simps(2) [simp del]

section \<open>Round trips\<close>

definition coords_val :: "'c geo_env \<Rightarrow> 'c \<Rightarrow> bson_val" where
  "coords_val env c = array_of (map VDouble (ge_getValues env c))"

definition line_val :: "'c geo_env \<Rightarrow> 'c list \<Rightarrow> bson_val" where
  "line_val env cs = array_of (map (coords_val env) cs)"

definition line_of :: "'c geo_env \<Rightarrow> 'c list \<Rightarrow> 'c LineString" where
  "line_of env cs =
     \<lparr>ls_bson = [(kTypeFieldName, VString kLineStringTypeStr), (kCoordsFieldName, line_val env cs)],
      ls_points = map (Point_new env) cs, ls_boundingBox = None\<rparr>"

lemma field_names: "kTypeFieldName \<noteq> kCoordsFieldName" "kTypeFieldName \<noteq> kBoundingBoxFieldName"
  "kCoordsFieldName \<noteq> kBoundingBoxFieldName"
  by (simp_all add: geo_names)

lemma array_type [simp]: "val_type (array_of vs) = Array"
  by (simp add: array_of_def)

lemma mapE_val_Double: "mapE val_Double (map VDouble xs) = Inr xs"
  by (induction xs) (simp_all add: val_Double_def)

text \<open>A document of a type and coordinates, and no box.\<close>

abbreviation typed_doc :: "bytes \<Rightarrow> bson_val \<Rightarrow> doc" where
  "typed_doc t v \<equiv> [(kTypeFieldName, VString t), (kCoordsFieldName, v)]"

context geo_contract
begin

lemma typed_doc_fields:
  "validateType env (typed_doc t v) t' = Inr (typed_doc t v)"
  "val_type v = Array \<Longrightarrow> getCoordsField env (typed_doc t v) = Inr v"
  "parseBoundingBox env (typed_doc t v) = Inr None" "coords_element env (typed_doc t v) = Inr v"
  using field_names field_names [symmetric]
  by (simp_all add: validateType_def getField getCoordsField_def parseBoundingBox_def hasField_def coords_element_def)

lemma coords_back: "bindE (parseCoords env (coords_val env c)) (ge_coords env) = Inr c"
proof -
  obtain c' where "ge_coords env (ge_getValues env c) = Inr c'" "ge_getValues env c' = ge_getValues env c"
    using coords [OF dims] by blast
  moreover from this(2) have "c' = c" by (rule values_inject)
  ultimately show ?thesis by (simp add: parseCoords_def coords_val_def Array_array mapE_val_Double)
qed

lemma Point_bson: "pt_bson (Point_new env c) = typed_doc kPointTypeStr (coords_val env c)"
  by (simp add: Point_new_def Point_createBSON_def appendElements coordsBSON coords_val_def)

lemma coords_val_type [simp]: "val_type (coords_val env c) = Array"
  by (simp add: coords_val_def)

lemma Point_back: "Point_parse env (Point_toBSON (Point_new env c)) = Inr (Point_new env c)"
proof -
  have "Point_parse env (typed_doc kPointTypeStr (coords_val env c)) =
      Inr \<lparr>pt_bson = typed_doc kPointTypeStr (coords_val env c), pt_coords = c, pt_boundingBox = None\<rparr>"
    using coords_back [of c] by (simp add: Point_parse_def parseCoords_obj_def typed_doc_fields bindE_assoc)
  then show ?thesis by (simp add: Point_toBSON_def Point_bson) (simp add: Point_new_def Point_bson [unfolded Point_new_def, simplified])
qed

lemma parsePoint_back: "parsePoint env (coords_val env c) = Inr (Point_new env c)"
  using coords_back [of c] by (cases "parseCoords env (coords_val env c)") (simp_all add: parsePoint_def)

lemma parsePointArray_back: "parsePointArray env (map (coords_val env) cs) = Inr (map (Point_new env) cs)"
  by (induction cs) (simp_all add: parsePointArray_def parsePoint_back)

lemma LineString_new_points: "LineString_new env (map (Point_new env) cs) = Inr (line_of env cs)"
proof -
  have "mapE (\<lambda>p. coords_element env (Point_toBSON p)) (map (Point_new env) cs) = Inr (map (coords_val env) cs)"
    by (induction cs) (simp_all add: Point_toBSON_def Point_bson typed_doc_fields)
  then show ?thesis by (simp add: LineString_new_def LineString_createBSON_def line_of_def line_val_def)
qed

lemma line_of_element: "coords_element env (LineString_toBSON (line_of env cs)) = Inr (line_val env cs)"
  by (simp add: LineString_toBSON_def line_of_def typed_doc_fields)

lemma line_val_type [simp]: "val_type (line_val env cs) = Array"
  by (simp add: line_val_def)

lemma LineString_back: "LineString_parse env (LineString_toBSON (line_of env cs)) = Inr (line_of env cs)"
  by (simp add: LineString_parse_def LineString_toBSON_def line_of_def typed_doc_fields parseAllPoints_def)
    (simp add: line_val_def Array_array parsePointArray_back)

lemma parse_lines_back: "parse_lines env (map (line_val env) css) = Inr (map (line_of env) css)"
  by (induction css) (simp_all add: parse_lines_def, simp_all add: line_val_def Array_array parsePointArray_back LineString_new_points)

lemma line_elements: "mapE (\<lambda>l. coords_element env (LineString_toBSON l)) (map (line_of env) css) = Inr (map (line_val env) css)"
  by (induction css) (simp_all add: line_of_element)

lemma Polygon_back:
  "\<exists>g. Polygon_new env (map (line_of env) css) = Inr g \<and> Polygon_parse env (Polygon_toBSON g) = Inr g \<and>
     pg_linearRings g = map (line_of env) css"
  by (simp add: Polygon_new_def Polygon_createBSON_def line_elements Polygon_parse_def Polygon_toBSON_def
      typed_doc_fields parseLinearRings_def Array_array parse_lines_back)

lemma MultiLineString_back:
  "\<exists>m. MultiLineString_new env (map (line_of env) css) = Inr m \<and>
     MultiLineString_parse env (MultiLineString_toBSON m) = Inr m \<and> ml_lineStrings m = map (line_of env) css"
  by (simp add: MultiLineString_new_def MultiLineString_createBSON_def line_elements MultiLineString_parse_def
      MultiLineString_toBSON_def typed_doc_fields parseLineStrings_def Array_array parse_lines_back)

lemma geo_parse_typed:
  assumes "stringToType t = Inr ty"
  shows "geo_parse (Suc fuel) env (typed_doc t v) =
    (case ty of
        GeoObjType_Point \<Rightarrow> bindE (Point_parse env (typed_doc t v)) (\<lambda>p. Inr (G_Point p))
      | GeoObjType_MultiPoint \<Rightarrow> bindE (MultiPoint_parse env (typed_doc t v)) (\<lambda>m. Inr (G_MultiPoint m))
      | GeoObjType_LineString \<Rightarrow> bindE (LineString_parse env (typed_doc t v)) (\<lambda>l. Inr (G_LineString l))
      | GeoObjType_MultiLineString \<Rightarrow> bindE (MultiLineString_parse env (typed_doc t v)) (\<lambda>m. Inr (G_MultiLineString m))
      | GeoObjType_Polygon \<Rightarrow> bindE (Polygon_parse env (typed_doc t v)) (\<lambda>g. Inr (G_Polygon g))
      | GeoObjType_MultiPolygon \<Rightarrow> bindE (MultiPolygon_parse env (typed_doc t v)) (\<lambda>m. Inr (G_MultiPolygon m))
      | GeoObjType_GeometryCollection \<Rightarrow> GeometryCollection_parse env (geo_parse fuel env) (typed_doc t v))"
  using assms by (simp add: geo_parse.simps getField val_String_def)

end

lemma type_names:
  "stringToType kPointTypeStr = Inr GeoObjType_Point" "stringToType kLineStringTypeStr = Inr GeoObjType_LineString"
  "stringToType kPolygonTypeStr = Inr GeoObjType_Polygon" "stringToType kMultiLineStringTypeStr = Inr GeoObjType_MultiLineString"
  "stringToType kMultiPointTypeStr = Inr GeoObjType_MultiPoint" "stringToType kMultiPolygonTypeStr = Inr GeoObjType_MultiPolygon"
  "stringToType kGeometryCollectionTypeStr = Inr GeoObjType_GeometryCollection"
  by (simp_all add: stringToType_def geo_names)

lemma Polygon_new_bson: "Polygon_new env ls = Inr g \<Longrightarrow> \<exists>v. pg_bson g = typed_doc kPolygonTypeStr v"
  by (auto simp: Polygon_new_def Polygon_createBSON_def bindE_eq_Inr)

lemma MultiLineString_new_bson: "MultiLineString_new env ls = Inr m \<Longrightarrow> \<exists>v. ml_bson m = typed_doc kMultiLineStringTypeStr v"
  by (auto simp: MultiLineString_new_def MultiLineString_createBSON_def bindE_eq_Inr)

section \<open>Properties\<close>

text \<open>C16: the parser inverts the constructors: the document of a point, a line string, a polygon or a multi
  line string made of coordinates is parsed into that very object.\<close>

theorem geo_roundtrip:
  assumes "geo_contract env" and "0 < fuel"
  shows "geo_parse fuel env (Point_toBSON (Point_new env c)) = Inr (G_Point (Point_new env c)) \<and>
    (\<exists>l. LineString_new env (map (Point_new env) cs) = Inr l \<and>
       geo_parse fuel env (LineString_toBSON l) = Inr (G_LineString l)) \<and>
    (\<exists>ls g m. mapE (\<lambda>cs. LineString_new env (map (Point_new env) cs)) css = Inr ls \<and>
       Polygon_new env ls = Inr g \<and> geo_parse fuel env (Polygon_toBSON g) = Inr (G_Polygon g) \<and>
       map pt_coords (Polygon_getPoints g) = concat css \<and>
       MultiLineString_new env ls = Inr m \<and> geo_parse fuel env (MultiLineString_toBSON m) = Inr (G_MultiLineString m))"
proof -
  note gc = assms(1)
  obtain f where f: "fuel = Suc f" using assms(2) by (cases fuel) auto
  note parse = geo_contract.geo_parse_typed [OF gc]
  have "geo_parse fuel env (Point_toBSON (Point_new env c)) = Inr (G_Point (Point_new env c))"
    using geo_contract.Point_back [OF gc, of c]
    by (simp add: f Point_toBSON_def geo_contract.Point_bson [OF gc] parse [OF type_names(1)])
  moreover have "geo_parse fuel env (LineString_toBSON (line_of env cs)) = Inr (G_LineString (line_of env cs))"
    using geo_contract.LineString_back [OF gc, of cs]
    by (simp add: f LineString_toBSON_def line_of_def parse [OF type_names(2)])
  moreover have "mapE (\<lambda>cs. LineString_new env (map (Point_new env) cs)) css = Inr (map (line_of env) css)"
    by (rule mapE_Inr) (rule geo_contract.LineString_new_points [OF gc])
  moreover obtain g where g: "Polygon_new env (map (line_of env) css) = Inr g" "Polygon_parse env (pg_bson g) = Inr g"
      "pg_linearRings g = map (line_of env) css"
    using geo_contract.Polygon_back [OF gc, of css] by (auto simp: Polygon_toBSON_def)
  moreover have "geo_parse fuel env (Polygon_toBSON g) = Inr (G_Polygon g)"
    using Polygon_new_bson [OF g(1)] g(2) by (auto simp: f Polygon_toBSON_def parse [OF type_names(3)])
  moreover have "map pt_coords (Polygon_getPoints g) = concat css"
    by (simp add: Polygon_getPoints_def g(3) LineString_getPoints_def line_of_def map_concat comp_def Point_new_def)
  moreover obtain m where m: "MultiLineString_new env (map (line_of env) css) = Inr m" "MultiLineString_parse env (ml_bson m) = Inr m"
    using geo_contract.MultiLineString_back [OF gc, of css] by (auto simp: MultiLineString_toBSON_def)
  moreover have "geo_parse fuel env (MultiLineString_toBSON m) = Inr (G_MultiLineString m)"
    using MultiLineString_new_bson [OF m(1)] m(2) by (auto simp: f MultiLineString_toBSON_def parse [OF type_names(4)])
  moreover have "LineString_new env (map (Point_new env) cs) = Inr (line_of env cs)"
    by (rule geo_contract.LineString_new_points [OF gc])
  ultimately show ?thesis by blast
qed

theorem geo_roundtrip_witness:
  "geo_parse 1 Coordinates2D_env (Point_toBSON (Point_new Coordinates2D_env (Coordinates2D_new 0 0x4000000000000000))) =
     Inr (G_Point (Point_new Coordinates2D_env (Coordinates2D_new 0 0x4000000000000000)))"
  using geo_roundtrip [OF c2d.geo_contract_axioms, of 1 "Coordinates2D_new 0 0x4000000000000000" "[]" "[]"] by simp

text \<open>C32: parsing returns (an object or an assertion) on every document, however deep its collections are
  nested: fuel for the depth of the document is enough.\<close>

theorem geo_parse_terminates:
  assumes "geo_contract env" and "doc_depth bson < fuel"
  shows "geo_parse fuel env bson \<noteq> Inl Diverges"
  using geo_contract.parse_returns [OF assms] by (simp add: returns_def)

theorem geo_parse_terminates_witness:
  "geo_parse (Suc (Suc 0)) Coordinates2D_env
     [(kTypeFieldName, VString kGeometryCollectionTypeStr), (kGeometriesFieldName, VArray [([48], VNull)])] \<noteq> Inl Diverges"
  by (rule geo_parse_terminates [OF c2d.geo_contract_axioms]) simp

text \<open>\<open>validateType\<close> lets every string pass, also the name of another geometry, and never compares the
  strings: a type that is not a string fails the type check of \<^verbatim>\<open>String()\<close> and only a missing one the
  assertion of \<open>validateType\<close> itself.\<close>

theorem validateType_accepts_any_string:
  assumes "geo_contract env"
  shows "validateType env bson typeStr =
    (case map_of bson kTypeFieldName of
       None \<Rightarrow> Inl (UserAssertion 0)
     | Some (VString s) \<Rightarrow> Inr bson
     | Some v \<Rightarrow> Inl (MsgAssertion 13111))"
proof (cases "map_of bson kTypeFieldName")
  case None
  then show ?thesis by (simp add: validateType_def geo_contract.getField [OF assms])
next
  case (Some v)
  then show ?thesis by (cases v) (simp_all add: validateType_def geo_contract.getField [OF assms] val_String_def)
qed

theorem validateType_accepts_any_string_witness:
  "validateType Coordinates2D_env [(kTypeFieldName, VString kPolygonTypeStr)] kPointTypeStr =
     Inr [(kTypeFieldName, VString kPolygonTypeStr)]"
  by (simp add: validateType_accepts_any_string [OF c2d.geo_contract_axioms])

lemmas cached_boxes =
  Point_getBoundingBox_def Point_toBSON_def Point_getType_def MultiPoint_getBoundingBox_def MultiPoint_toBSON_def
  MultiPoint_getType_def LineString_getBoundingBox_def LineString_toBSON_def LineString_getType_def
  MultiLineString_getBoundingBox_def MultiLineString_toBSON_def MultiLineString_getType_def Polygon_getBoundingBox_def
  Polygon_toBSON_def Polygon_getType_def MultiPolygon_getBoundingBox_def MultiPolygon_toBSON_def MultiPolygon_getType_def

definition caches :: "'c geo_env \<Rightarrow> 'c BoundingBox \<Rightarrow> 'c geo_obj \<Rightarrow> 'c geo_obj \<Rightarrow> bool" where
  "caches env b g g' \<longleftrightarrow>
     geo_getBoundingBox env g' = Inr (b, g') \<and> geo_toBSON g' = geo_toBSON g \<and> geo_getType g' = geo_getType g"

lemma collection_caches:
  assumes "geo_getBoundingBox env (GeometryCollection bson gs bb) = Inr (b, g')"
  shows "caches env b (GeometryCollection bson gs bb) g'"
proof (cases bb)
  case None
  with assms obtain gs' where "g' = GeometryCollection bson gs' (Some b)"
    by (auto simp: bindE_eq_Inr split: prod.splits option.splits)
  then show ?thesis by (simp add: caches_def)
next
  case (Some b')
  then show ?thesis using assms by (auto simp: caches_def)
qed

lemma geometry_caches:
  assumes "geo_getBoundingBox env g = Inr (b, g')"
  shows "caches env b g g'"
  using assms
proof (cases g)
  case (GeometryCollection bson gs bb)
  then show ?thesis using assms collection_caches by blast
next
  case (G_Point x)
  then show ?thesis using assms by (cases "pt_boundingBox x") (auto simp: caches_def bindE_eq_Inr cached_boxes Let_def)
next
  case (G_MultiPoint x)
  then show ?thesis using assms by (cases "mp_boundingBox x") (auto simp: caches_def bindE_eq_Inr cached_boxes)
next
  case (G_LineString x)
  then show ?thesis using assms by (cases "ls_boundingBox x") (auto simp: caches_def bindE_eq_Inr cached_boxes)
next
  case (G_MultiLineString x)
  then show ?thesis using assms by (cases "ml_boundingBox x") (auto simp: caches_def bindE_eq_Inr cached_boxes)
next
  case (G_Polygon x)
  then show ?thesis using assms by (cases "pg_boundingBox x") (auto simp: caches_def bindE_eq_Inr cached_boxes)
next
  case (G_MultiPolygon x)
  then show ?thesis using assms by (cases "my_boundingBox x") (auto simp: caches_def bindE_eq_Inr cached_boxes)
qed



end
