(* ===== verification/GridFs.thy ===== *)
theory GridFs
  imports BsonObj Net
begin

text \<open>
  \<^verbatim>\<open>mongo/client/gridfs.h\<close>: the inline members of a file and of a chunk, over the objects that describe
  them. \<^verbatim>\<open>operator[]\<close> of an object calls \<^verbatim>\<open>getField\<close>, which is only declared and is an argument.
  The number of chunks is computed in \<^verbatim>\<open>double\<close>: division rounds to nearest, ties to even, as IEEE 754
  prescribes; it is spelled out for the operands that occur, integers of at most 64 bits, whose quotient
  is zero or within the range of the normal numbers.
\<close>

section \<open>Division, ceiling and conversion of doubles\<close>

text \<open>The power of two that brings the ratio of two positive numbers between \<open>2 ^ 52\<close> and \<open>2 ^ 53\<close>.\<close>

definition scaled :: "nat \<Rightarrow> nat \<Rightarrow> int \<Rightarrow> nat \<times> nat" where
  "scaled a b k = (a * 2 ^ nat k, b * 2 ^ nat (- k))"

definition ratio_exponent :: "nat \<Rightarrow> nat \<Rightarrow> int" where
  "ratio_exponent a b =
     (let k = 52 + int (bit_length b) - int (bit_length a);
          (n, d) = scaled a b k in
      if 2 ^ 52 * d \<le> n then k else k + 1)"

definition round_div :: "nat \<Rightarrow> nat \<Rightarrow> nat" where
  "round_div n d =
     (let q = n div d; r = n mod d in
      if d < 2 * r \<or> 2 * r = d \<and> odd q then q + 1 else q)"

definition val_div :: "dbl \<Rightarrow> dbl \<Rightarrow> dbl" where
  "val_div x y =
     (case x of
        NaN \<Rightarrow> NaN
      | Inf neg \<Rightarrow> (case y of Fin n f \<Rightarrow> Inf (neg \<noteq> (n < 0)) | _ \<Rightarrow> NaN)
      | Fin m e \<Rightarrow>
          (case y of
             NaN \<Rightarrow> NaN
           | Inf neg \<Rightarrow> Fin 0 0
           | Fin n f \<Rightarrow>
               if n = 0 then (if m = 0 then NaN else Inf (m < 0))
               else if m = 0 then Fin 0 0
               else (let a = nat (scale \<bar>m\<bar> (e - min e f));
                         b = nat (scale \<bar>n\<bar> (f - min e f));
                         k = ratio_exponent a b;
                         (p, q) = scaled a b k
                     in Fin ((if (m < 0) = (n < 0) then 1 else - 1) * int (round_div p q)) (- k))))"

fun val_ceil :: "dbl \<Rightarrow> dbl" where
  "val_ceil (Fin m e) = (if 0 \<le> e then Fin m e else Fin (- ((- m) div 2 ^ nat (- e))) 0)"
| "val_ceil x = x"

definition cast_val :: "int \<Rightarrow> int \<Rightarrow> dbl \<Rightarrow> int res" where
  "cast_val lo hi v =
     (case v of
        Fin m e \<Rightarrow> (let n = val_trunc m e in if lo \<le> n \<and> n \<le> hi then Inr n else Inl UndefinedCast)
      | _ \<Rightarrow> Inl UndefinedCast)"

lemma cast_to_int_val: "cast_to_int lo hi d = cast_val lo hi (dbl_value d)"
  by (simp add: cast_to_int_def cast_val_def)

section \<open>Chunks\<close>

type_synonym get_field = "BSONObj \<Rightarrow> string_data \<Rightarrow> BSONElement res"

record GridFSChunk =
  gc_data :: BSONObj

definition gc_len :: "get_field \<Rightarrow> GridFSChunk \<Rightarrow> int res" where
  "gc_len getField c =
     bindE (getField (gc_data c) (lit ''data'')) (\<lambda>e. bindE (binDataClean e) (\<lambda>(d, len). Inr len))"

definition gc_bytes :: "get_field \<Rightarrow> GridFSChunk \<Rightarrow> (bytes \<times> int) res" where
  "gc_bytes getField c = bindE (getField (gc_data c) (lit ''data'')) binDataClean"

section \<open>Files\<close>

record GridFile =
  gf_grid :: "nat option"
  gf_obj :: BSONObj

definition gf_exists :: "GridFile \<Rightarrow> bool res" where
  "gf_exists f = bindE (obj_isEmpty (gf_obj f)) (\<lambda>b. Inr (\<not> b))"

definition getFilename :: "get_field \<Rightarrow> GridFile \<Rightarrow> bytes res" where
  "getFilename getField f = bindE (getField (gf_obj f) (lit ''filename'')) str"

definition gf_getChunkSize :: "get_field \<Rightarrow> GridFile \<Rightarrow> int res" where
  "gf_getChunkSize getField f =
     bindE (getField (gf_obj f) (lit ''chunkSize'')) (\<lambda>e. bindE (number e) double_to_int)"

definition getContentLength :: "get_field \<Rightarrow> GridFile \<Rightarrow> int res" where
  "getContentLength getField f =
     bindE (getField (gf_obj f) (lit ''length'')) (\<lambda>e. bindE (number e) (cast_to_int 0 (2 ^ 64 - 1)))"

text \<open>The C string behind the pointer; the type of the element is not checked.\<close>

definition getContentType :: "get_field \<Rightarrow> GridFile \<Rightarrow> bytes res" where
  "getContentType getField f =
     bindE (getField (gf_obj f) (lit ''contentType'')) (\<lambda>e.
     bindE (valuestr e) (\<lambda>p. bindE (strlen p) (\<lambda>n. slice p 0 n)))"

definition getUploadDate :: "get_field \<Rightarrow> GridFile \<Rightarrow> Date_t res" where
  "getUploadDate getField f = bindE (getField (gf_obj f) (lit ''uploadDate'')) date"

definition getMD5 :: "get_field \<Rightarrow> GridFile \<Rightarrow> bytes res" where
  "getMD5 getField f = bindE (getField (gf_obj f) (lit ''md5'')) str"

definition getFileField :: "get_field \<Rightarrow> bytes \<Rightarrow> GridFile \<Rightarrow> BSONElement res" where
  "getFileField getField name f = getField (gf_obj f) name"

definition num_chunks :: "int \<Rightarrow> int \<Rightarrow> int res" where
  "num_chunks len c =
     cast_val int32_min int32_max
       (val_ceil (val_div (dbl_value (int_to_double len)) (dbl_value (int_to_double c))))"

definition getNumChunks :: "get_field \<Rightarrow> GridFile \<Rightarrow> int res" where
  "getNumChunks getField f =
     bindE (getContentLength getField f) (\<lambda>len.
     bindE (gf_getChunkSize getField f) (\<lambda>c. num_chunks len c))"

section \<open>The rounded quotient\<close>

lemma scaled_ratio:
  assumes "0 < a" and "0 < b" and "scaled a b (ratio_exponent a b) = (n, d)"
  shows "2 ^ 52 * d \<le> n \<and> n < 2 ^ 53 * d \<and> 0 < d"
proof -
  define la lb where "la = bit_length a" and "lb = bit_length b"
  note len = bit_length_bounds [OF assms(1), folded la_def] bit_length_bounds [OF assms(2), folded lb_def]
  define k where "k = 52 + int lb - int la"
  define n0 d0 where "n0 = a * 2 ^ nat k" and "d0 = b * 2 ^ nat (- k)"
  have e: "la + nat k = 52 + lb + nat (- k)" by (simp add: k_def)
  have a1: "a < 2 ^ la" "2 ^ la \<le> 2 * a" using len(1) by (cases la; simp)+
  have b1: "b < 2 ^ lb" "2 ^ lb \<le> 2 * b" using len(2) by (cases lb; simp)+
  have "n0 < 2 ^ la * 2 ^ nat k" using a1(1) by (simp add: n0_def)
  also have "\<dots> = 2 ^ lb * (2 ^ 52 * 2 ^ nat (- k))" by (simp only: power_add [symmetric] e ac_simps)
  also have "\<dots> \<le> 2 * b * (2 ^ 52 * 2 ^ nat (- k))" using b1(2) by (rule mult_right_mono) simp
  finally have up: "n0 < 2 ^ 53 * d0" by (simp add: d0_def)
  have "2 ^ 52 * d0 < 2 ^ lb * (2 ^ 52 * 2 ^ nat (- k))" using b1(1) by (simp add: d0_def)
  also have "\<dots> = 2 ^ la * 2 ^ nat k" by (simp only: power_add [symmetric] e ac_simps)
  also have "\<dots> \<le> 2 * a * 2 ^ nat k" using a1(2) by (rule mult_right_mono) simp
  finally have lo: "2 ^ 52 * d0 < 2 * n0" by (simp add: n0_def)
  have d0: "0 < d0" using assms(2) by (simp add: d0_def)
  show ?thesis
  proof (cases "2 ^ 52 * d0 \<le> n0")
    case True
    then have "ratio_exponent a b = k"
      by (simp add: ratio_exponent_def scaled_def k_def la_def lb_def n0_def d0_def)
    then show ?thesis using assms(3) up d0 True by (simp add: scaled_def n0_def d0_def)
  next
    case False
    then have "ratio_exponent a b = k + 1"
      by (simp add: ratio_exponent_def scaled_def k_def la_def lb_def n0_def d0_def)
    then have nd: "n = a * 2 ^ nat (k + 1)" "d = b * 2 ^ nat (- (k + 1))" using assms(3) by (simp_all add: scaled_def)
    show ?thesis
    proof (cases "0 \<le> k")
      case True
      then have "n = 2 * n0" "d = d0" using nd by (simp_all add: n0_def d0_def nat_add_distrib)
      then show ?thesis using False lo d0 by simp
    next
      case neg: False
      then have "nat (- k) = Suc (nat (- (k + 1)))" "nat k = 0" "nat (k + 1) = 0" by simp_all
      then have "d0 = 2 * d" "n = n0" using nd by (simp_all add: n0_def d0_def)
      then show ?thesis using False lo d0 by simp
    qed
  qed
qed

lemma round_div_near:
  assumes "0 < d"
  shows "2 * n \<le> 2 * d * round_div n d + d" and "2 * d * round_div n d \<le> 2 * n + d"
proof -
  define q r where "q = n div d" and "r = n mod d"
  have n: "n = d * q + r" by (simp add: q_def r_def)
  have r: "r < d" using assms by (simp add: r_def)
  have rd: "round_div n d = (if d < 2 * r \<or> 2 * r = d \<and> odd q then q + 1 else q)"
    by (simp add: round_div_def Let_def q_def r_def)
  show "2 * n \<le> 2 * d * round_div n d + d" unfolding rd using n r by (auto simp: algebra_simps)
  show "2 * d * round_div n d \<le> 2 * n + d" unfolding rd using n r by (auto simp: algebra_simps)
qed

text \<open>Rounding does not pass an integer.\<close>

lemma round_div_le:
  assumes "0 < d" and "n \<le> c * d"
  shows "round_div n d \<le> c"
proof (cases "n mod d = 0")
  case True
  then have "n = d * (n div d)" by (metis add.right_neutral mult_div_mod_eq)
  then have "d * (n div d) \<le> d * c" using assms(2) by (metis mult.commute)
  then have "n div d \<le> c" using assms(1) by simp
  then show ?thesis using assms(1) True by (simp add: round_div_def)
next
  case False
  have "n = d * (n div d) + n mod d" by simp
  then have "d * (n div d) < n" using False by linarith
  also have "n \<le> d * c" using assms(2) by (simp add: mult.commute)
  finally have "n div d < c" by simp
  then show ?thesis by (simp add: round_div_def Let_def)
qed

definition ceil_div :: "int \<Rightarrow> int \<Rightarrow> int" where
  "ceil_div a b = - ((- a) div b)"

lemma ceil_div_unique:
  assumes "0 < b" and "(c - 1) * b < a" and "a \<le> c * b"
  shows "ceil_div a b = c"
proof -
  have "(- a) div b = - c"
  proof (rule int_div_pos_eq)
    show "- a = b * (- c) + (c * b - a)" by (simp add: algebra_simps)
    show "0 \<le> c * b - a" using assms(3) by simp
    show "c * b - a < b" using assms(2) by (simp add: algebra_simps)
  qed
  then show ?thesis by (simp add: ceil_div_def)
qed

lemma ceil_div_bounds:
  assumes "0 < b"
  shows "(ceil_div a b - 1) * b < a" and "a \<le> ceil_div a b * b"
proof -
  define q r where "q = (- a) div b" and "r = (- a) mod b"
  have "b * q + r = - a" by (simp add: q_def r_def)
  moreover have "0 \<le> r" "r < b" using assms by (simp_all add: r_def)
  ultimately show "(ceil_div a b - 1) * b < a" and "a \<le> ceil_div a b * b"
    unfolding ceil_div_def q_def [symmetric] by (simp_all add: algebra_simps)
qed

text \<open>
  The ratio of integers below \<open>2 ^ 53\<close> that is not an integer is further above the integer below it than
  the rounding error: rounding keeps its ceiling.
\<close>

lemma rounded_above:
  fixes a b c d n q s :: int
  assumes "0 < b" and "0 < d" and "0 < s" and ratio: "n * b = d * (a * s)" and "b < 2 * s"
    and near: "2 * n \<le> 2 * d * q + d" and above: "(c - 1) * b < a"
  shows "(c - 1) * s < q"
proof -
  have "2 * n * b \<le> (2 * d * q + d) * b" using near assms(1) by (simp add: mult_right_mono)
  then have "d * (2 * (a * s)) \<le> d * (2 * q * b + b)" using ratio by (simp add: algebra_simps)
  then have "2 * (a * s) \<le> 2 * q * b + b" using assms(2) by simp
  moreover have "((c - 1) * b + 1) * s \<le> a * s" using above assms(3) by (intro mult_right_mono) simp_all
  ultimately have "((c - 1) * s) * b < q * b" using assms(5) by (simp add: algebra_simps)
  then show ?thesis using assms(1) by simp
qed

lemma ceil_of_rounded:
  fixes a b :: int and A B k :: nat
  assumes "0 < b" and "a < 2 ^ 53" and "0 < B" and ratio: "int A * b = int B * a"
    and low: "2 ^ 52 * B \<le> A * 2 ^ k"
  shows "ceil_div (int (round_div (A * 2 ^ k) B)) (2 ^ k) = ceil_div a b"
proof (rule ceil_div_unique)
  let ?c = "ceil_div a b" and ?q = "round_div (A * 2 ^ k) B"
  have c: "(?c - 1) * b < a" "a \<le> ?c * b" using ceil_div_bounds [OF assms(1)] by blast+
  have n: "(int A * 2 ^ k) * b = int B * (a * 2 ^ k)" using ratio by (simp add: ac_simps)
  have "int (2 ^ 52 * B) \<le> int (A * 2 ^ k)" using low by (simp only: of_nat_le_iff)
  then have "2 ^ 52 * int B * b \<le> int A * 2 ^ k * b" using assms(1) by (intro mult_right_mono) simp_all
  then have "int B * (2 ^ 52 * b) \<le> int B * (a * 2 ^ k)" unfolding n by (simp add: ac_simps)
  then have "2 ^ 52 * b \<le> a * 2 ^ k" using assms(3) by simp
  also have "\<dots> < 2 ^ 53 * 2 ^ k" using assms(2) by (intro mult_strict_right_mono) simp_all
  finally have small: "b < 2 * 2 ^ k" by simp
  show "(0 :: int) < 2 ^ k" by simp
  have "int (2 * (A * 2 ^ k)) \<le> int (2 * B * ?q + B)"
    using round_div_near(1) [OF assms(3)] by (simp only: of_nat_le_iff)
  then have near: "2 * (int A * 2 ^ k) \<le> 2 * int B * int ?q + int B" by simp
  show "(?c - 1) * 2 ^ k < int ?q"
    using rounded_above [OF assms(1) _ _ n small near c(1)] assms(3) by simp
  have "0 \<le> ?c"
  proof (rule ccontr)
    assume "\<not> 0 \<le> ?c"
    then have "?c * b < 0" using assms(1) by (simp add: mult_neg_pos)
    then have "a < 0" using c(2) by linarith
    then have "int B * a < 0" using assms(3) by (simp add: mult_pos_neg)
    moreover have "0 \<le> int A * b" using assms(1) by simp
    ultimately show False using ratio by simp
  qed
  have "int B * a \<le> int B * (?c * b)" using c(2) by (intro mult_left_mono) simp_all
  then have "int A * b \<le> (?c * int B) * b" unfolding ratio [symmetric] by (simp add: ac_simps)
  then have "int A \<le> ?c * int B" using assms(1) by simp
  then have "int A \<le> int (nat ?c * B)" using \<open>0 \<le> ?c\<close> by simp
  then have "A \<le> nat ?c * B" by (simp only: of_nat_le_iff)
  then have "A * 2 ^ k \<le> (nat ?c * 2 ^ k) * B" by (simp add: ac_simps)
  from round_div_le [OF assms(3) this] have "?q \<le> nat ?c * 2 ^ k" .
  then have "int ?q \<le> int (nat ?c * 2 ^ k)" by (simp only: of_nat_le_iff)
  then show "int ?q \<le> ?c * 2 ^ k" using \<open>0 \<le> ?c\<close> by simp
qed

section \<open>The number of chunks\<close>

lemma int_double_fin:
  assumes "0 < n" and "n < 2 ^ 53"
  obtains m e where "dbl_value (int_to_double n) = Fin m e" and "0 < m"
    and "m * 2 ^ nat (e - min e 0) = n * 2 ^ nat (- min e 0)"
proof (cases "dbl_value (int_to_double n)")
  case (Fin m e)
  have "val_eq (Fin m e) (Fin n 0)" using int_to_double_exact [of n] assms Fin by simp
  then have eq: "m * 2 ^ nat (e - min e 0) = n * 2 ^ nat (- min e 0)" by (simp add: scale_def)
  have "0 < n * 2 ^ nat (- min e 0)" using assms(1) by simp
  then have "0 < m * 2 ^ nat (e - min e 0)" unfolding eq .
  then have "0 < m" by (simp add: zero_less_mult_iff)
  with that Fin eq show ?thesis by blast
next
  case NaN
  then show ?thesis using int_to_double_exact [of n] assms by simp
next
  case (Inf neg)
  then show ?thesis using int_to_double_exact [of n] assms by simp
qed

lemma aligned_ratio:
  fixes m n a b e f :: int
  assumes "m * 2 ^ nat (e - min e 0) = a * 2 ^ nat (- min e 0)"
    and "n * 2 ^ nat (f - min f 0) = b * 2 ^ nat (- min f 0)"
  shows "scale m (e - min e f) * b = scale n (f - min e f) * a"
proof -
  define s t where "s = nat (- min e 0)" and "t = nat (- min f 0)"
  define p q where "p = nat (e - min e 0)" and "q = nat (f - min f 0)"
  have x: "nat (e - min e f) + q + s = nat (f - min e f) + p + t"
    unfolding s_def t_def p_def q_def by arith
  have "(scale m (e - min e f) * b) * (2 ^ s * 2 ^ t) = m * 2 ^ nat (e - min e f) * (b * 2 ^ t) * 2 ^ s"
    by (simp add: scale_def ac_simps)
  also have "\<dots> = m * n * 2 ^ (nat (e - min e f) + q + s)"
    unfolding t_def assms(2) [symmetric] by (simp add: q_def power_add ac_simps)
  also have "\<dots> = n * m * 2 ^ (nat (f - min e f) + p + t)" unfolding x by simp
  also have "\<dots> = n * 2 ^ nat (f - min e f) * (a * 2 ^ s) * 2 ^ t"
    unfolding s_def assms(1) [symmetric] by (simp add: p_def power_add ac_simps)
  also have "\<dots> = (scale n (f - min e f) * a) * (2 ^ s * 2 ^ t)" by (simp add: scale_def ac_simps)
  finally show ?thesis by simp
qed

text \<open>The quotient of two positive numbers, and the case of a dividend that is exact.\<close>

lemma val_div_pos:
  assumes "0 < m" and "0 < n"
  shows "\<exists>A B k. 0 < A \<and> 0 < B \<and> int A = scale m (e - min e f) \<and> int B = scale n (f - min e f) \<and>
    k = ratio_exponent A B \<and>
    val_div (Fin m e) (Fin n f) = Fin (int (round_div (A * 2 ^ nat k) (B * 2 ^ nat (- k)))) (- k)"
proof -
  let ?A = "nat (scale m (e - min e f))" and ?B = "nat (scale n (f - min e f))"
  have "0 < scale m (e - min e f)" "0 < scale n (f - min e f)" using assms by (simp_all add: scale_def)
  then show ?thesis using assms
    by (intro exI [of _ ?A] exI [of _ ?B] exI [of _ "ratio_exponent ?A ?B"])
      (simp add: val_div_def scaled_def Let_def)
qed

lemma quotient_ceiling:
  assumes "0 < a" and "a < 2 ^ 53" and "0 < b" and "b < 2 ^ 53"
  shows "\<exists>m e. val_ceil (val_div (dbl_value (int_to_double a)) (dbl_value (int_to_double b))) = Fin m e \<and>
    val_trunc m e = ceil_div a b"
proof -
  obtain m e where me: "dbl_value (int_to_double a) = Fin m e" "0 < m"
    "m * 2 ^ nat (e - min e 0) = a * 2 ^ nat (- min e 0)" by (rule int_double_fin [OF assms(1,2)])
  obtain n f where nf: "dbl_value (int_to_double b) = Fin n f" "0 < n"
    "n * 2 ^ nat (f - min f 0) = b * 2 ^ nat (- min f 0)" by (rule int_double_fin [OF assms(3,4)])
  obtain A B k where AB: "0 < A" "0 < B" "int A = scale m (e - min e f)" "int B = scale n (f - min e f)"
    "k = ratio_exponent A B"
    and q: "val_div (Fin m e) (Fin n f) = Fin (int (round_div (A * 2 ^ nat k) (B * 2 ^ nat (- k)))) (- k)"
    using val_div_pos [OF me(2) nf(2)] by blast
  have ratio: "int A * b = int B * a" using aligned_ratio [OF me(3) nf(3)] AB(3,4) by simp
  have s: "2 ^ 52 * (B * 2 ^ nat (- k)) \<le> A * 2 ^ nat k" "A * 2 ^ nat k < 2 ^ 53 * (B * 2 ^ nat (- k))"
    using scaled_ratio [OF AB(1,2), of "A * 2 ^ nat k" "B * 2 ^ nat (- k)"] AB(5) by (simp_all add: scaled_def)
  have "0 \<le> k"
  proof (rule ccontr)
    assume "\<not> 0 \<le> k"
    then obtain j where j: "nat (- k) = Suc j" "nat k = 0" by (cases "nat (- k)") auto
    have "2 ^ 53 * B \<le> 2 ^ 52 * (B * 2 ^ nat (- k))" unfolding j by simp
    from order_trans [OF this s(1)] have "2 ^ 53 * B \<le> A" unfolding j(2) by simp
    then have "int (2 ^ 53 * B) \<le> int A" by (simp only: of_nat_le_iff)
    then have "2 ^ 53 * int B * b \<le> int A * b" using assms(3) by (intro mult_right_mono) simp_all
    then have "int B * (2 ^ 53 * b) \<le> int B * a" unfolding ratio by (simp add: ac_simps)
    then have "2 ^ 53 * b \<le> a" using AB(2) by simp
    moreover have "2 ^ 53 * 1 \<le> 2 ^ 53 * b" using assms(3) by (intro mult_left_mono) simp_all
    ultimately show False using assms(2) by simp
  qed
  then have k: "nat (- k) = 0" by simp
  have c: "ceil_div (int (round_div (A * 2 ^ nat k) B)) (2 ^ nat k) = ceil_div a b"
    using ceil_of_rounded [OF assms(3,2) AB(2) ratio, of "nat k"] s(1) k by simp
  show ?thesis
  proof (cases "k = 0")
    case True
    then show ?thesis using c q me(1) nf(1) by (simp add: val_trunc_def ceil_div_def)
  next
    case False
    then show ?thesis using c q me(1) nf(1) \<open>0 \<le> k\<close> k by (simp add: val_trunc_def ceil_div_def)
  qed
qed

text \<open>C33: The number of chunks of a file of fewer than \<open>2 ^ 53\<close> bytes is the length divided by the chunk
  size, rounded up: the rounding of the division in \<^verbatim>\<open>double\<close> does not reach the result. A number of chunks
  beyond \<^verbatim>\<open>int\<close> is an undefined conversion.\<close>

theorem num_chunks_exact:
  assumes "0 \<le> len" and "len < 2 ^ 53" and "0 < c" and "c \<le> int32_max"
  shows "num_chunks len c =
    (if ceil_div len c \<le> int32_max then Inr (ceil_div len c) else Inl UndefinedCast)"
proof (cases "len = 0")
  case True
  have "c < 2 ^ 53" using assms(4) by (simp add: int32_max_def)
  then obtain n f where nf: "dbl_value (int_to_double c) = Fin n f" "0 < n"
    by (rule int_double_fin [OF assms(3)])
  have "int_to_double len = 0" using True by (simp add: int_to_double_def)
  then show ?thesis using True nf
    by (simp add: num_chunks_def dbl_value_0 val_div_def cast_val_def val_trunc_def ceil_div_def
        int32_min_def int32_max_def)
next
  case False
  have "c < 2 ^ 53" using assms(4) by (simp add: int32_max_def)
  then obtain m e where me: "val_ceil (val_div (dbl_value (int_to_double len)) (dbl_value (int_to_double c))) = Fin m e"
    "val_trunc m e = ceil_div len c"
    using quotient_ceiling [of len c] assms False by auto
  have "0 < ceil_div len c"
  proof (rule ccontr)
    assume "\<not> 0 < ceil_div len c"
    then have "ceil_div len c * c \<le> 0" using assms(3) by (simp add: mult_nonpos_nonneg)
    then show False using ceil_div_bounds(2) [OF assms(3), of len] False assms(1) by linarith
  qed
  then show ?thesis using me by (simp add: num_chunks_def cast_val_def int32_min_def)
qed

text \<open>A megabyte and one byte, in chunks of 255 kilobytes.\<close>

theorem num_chunks_exact_witness: "num_chunks 1048577 261120 = Inr 5"
  using num_chunks_exact [of 1048577 261120] by (simp add: ceil_div_def int32_max_def)

lemma num_chunks_zero_size: "num_chunks len 0 = Inl UndefinedCast"
proof -
  have z: "dbl_value (int_to_double 0) = Fin 0 (- 1074)" by (simp add: int_to_double_def dbl_value_0)
  show ?thesis
    by (cases "dbl_value (int_to_double len)") (simp_all add: num_chunks_def z val_div_def cast_val_def)
qed

text \<open>A file without a chunk size has the chunk size 0 (\<^verbatim>\<open>number()\<close> of a missing field) and no number of
  chunks: the quotient is infinite or not a number, and its conversion to \<^verbatim>\<open>int\<close> is undefined.\<close>

theorem num_chunks_missing_size:
  assumes "getField (gf_obj f) (lit ''chunkSize'') = Inr BSONElement_empty"
    and "getContentLength getField f = Inr len"
  shows "gf_getChunkSize getField f = Inr 0 \<and> getNumChunks getField f = Inl UndefinedCast"
proof -
  have "number BSONElement_empty = Inr 0"
    by (simp add: number_def numberDouble_def el_type_def BSONElement_empty_def type_of_code_def enumerators_def)
  then have "gf_getChunkSize getField f = Inr 0"
    by (simp add: gf_getChunkSize_def assms(1) double_to_int_def cast_to_int_val dbl_value_0 cast_val_def
        val_trunc_def int32_min_def int32_max_def)
  then show ?thesis by (simp add: getNumChunks_def assms(2) num_chunks_zero_size)
qed

text \<open>A file description with the length 5 and nothing else.\<close>

definition only_length :: get_field where
  "only_length b name =
     Inr (if name = lit ''length'' then \<lparr>el_data = [16, 97, 0, 5, 0, 0, 0], el_fieldNameSize = 2, el_totalSize = 7\<rparr>
          else BSONElement_empty)"

lemma load_five: "load_le [5, 0, 0, 0] 0 = Inr (5 :: 32 word)"
  by code_simp

lemma five: "number \<lparr>el_data = [16, 97, 0, 5, 0, 0, 0], el_fieldNameSize = 2, el_totalSize = 7\<rparr> = Inr (int_to_double 5)"
  by (simp add: number_def numberDouble_def el_type_def type_of_code_def enumerators_def numberInt_raw_def
      el_value_def fieldNameSize_def read_int_def advance_def load_five)

lemma dbl_five: "dbl_value (int_to_double 5) = Fin (5 * 2 ^ 50) (- 50)"
  by (simp add: int_to_double_def bit_length.simps round_significand_def dbl_value_def dbl_exponent_def
      dbl_fraction_def dbl_sign_def Let_def)

theorem num_chunks_missing_size_witness:
  "getContentLength only_length \<lparr>gf_grid = None, gf_obj = BSONObj_empty\<rparr> = Inr 5 \<and>
   getNumChunks only_length \<lparr>gf_grid = None, gf_obj = BSONObj_empty\<rparr> = Inl UndefinedCast"
proof -
  have len: "getContentLength only_length \<lparr>gf_grid = None, gf_obj = BSONObj_empty\<rparr> = Inr 5"
    by (simp add: getContentLength_def only_length_def five cast_to_int_val dbl_five cast_val_def val_trunc_def)
  have "only_length (gf_obj \<lparr>gf_grid = None, gf_obj = BSONObj_empty\<rparr>) (lit ''chunkSize'') = Inr BSONElement_empty"
    by (simp add: only_length_def lit_eq)
  from num_chunks_missing_size [OF this len] len show ?thesis by simp
qed

text \<open>The content type of a file without that field is read beyond the element.\<close>

lemma content_type_missing:
  assumes "getField (gf_obj f) (lit ''contentType'') = Inr BSONElement_empty"
  shows "getContentType getField f = Inl BadAccess"
  unfolding getContentType_def assms bindE_Inr
  by (simp add: valuestr_def el_value_def BSONElement_empty_def fieldNameSize_def advance_def)

end
