(* ===== verification/Spec2Isabelle.thy ===== *)
theory Spec2Isabelle
  imports OperatorRuns OperatorSetup OperatorBytes DataCursor DataView StringData StrUtil StringBuilder BsonTypes Doubles Oid BsonElement AtomicWord
    SharedBuffer BsonObj ObjBuilder Builders RefCount Status Message Ordering Logger GeoBox GeoObj
    Cursor Net ConnString Client GridFs
begin

text \<open>
  A model of the toolkit \<^verbatim>\<open>com.ibm.streamsx.mongodb\<close>: the MongoDB client headers that it ships under
  \<^verbatim>\<open>impl/include/mongo\<close>, and the four Streams operators whose generated code calls them.

  What the program is. The operators (Insert, Query, Update, Delete) are code templates that
  turn a tuple into a BSON object with \<^verbatim>\<open>BSONObjBuilder\<close>, hand it to a connection, and read results
  with \<^verbatim>\<open>BSONObjIterator\<close> and \<^verbatim>\<open>BSONElement\<close>. The code they call is in headers; the rest of the driver is a
  binary library. So the header's inline code and the templates are what is modelled, and a function that
  a header only declares is a parameter of the definitions that call it.

  The theories, from the bottom up:

  \<^item> \<^verbatim>\<open>Prelude\<close>: results and exceptions (\<^verbatim>\<open>util/assert_util.h\<close>), C integers at their width, storage
    that is read and written by offset.
  \<^item> \<^verbatim>\<open>Endian\<close>, \<^verbatim>\<open>DataView\<close>, \<^verbatim>\<open>DataCursor\<close>: \<^verbatim>\<open>platform/endian.h\<close>, \<^verbatim>\<open>base/data_view.h\<close>, \<^verbatim>\<open>base/data_cursor.h\<close>. The locale
    \<^verbatim>\<open>byte_order_law\<close> is what a converter promises, interpreted for every type and both byte orders.
  \<^item> \<^verbatim>\<open>StringData\<close>, \<^verbatim>\<open>StrUtil\<close>: \<^verbatim>\<open>base/string_data*.h\<close> and \<^verbatim>\<open>util/mongoutils/str.h\<close>.
  \<^item> \<^verbatim>\<open>BufBuilder\<close>, \<^verbatim>\<open>StringBuilder\<close>: \<^verbatim>\<open>bson/util/builder.h\<close>. A block is a list of cells, each written
    or not; allocation asks an oracle \<open>env\<close> whether the system has the memory. \<open>emits f bs\<close> says
    that \<open>f\<close> appends \<open>bs\<close> and keeps the invariant \<open>bb_ok\<close>; it composes, and is how every append
    operation of the builders is specified.
  \<^item> \<^verbatim>\<open>BsonTypes\<close>, \<^verbatim>\<open>Oid\<close>, \<^verbatim>\<open>Doubles\<close>: \<^verbatim>\<open>bson/bsontypes.h\<close>, \<^verbatim>\<open>bson/oid.h\<close>, \<^verbatim>\<open>bson/timestamp.h\<close>, and the IEEE
    double as its 64 bits with its exact value.
  \<^item> \<^verbatim>\<open>BsonFormat\<close>: the abstract specification, the documents of the format description in
    \<^verbatim>\<open>bson/bsonobj.h\<close> as a datatype, their encoding, and that the encoding is injective. The size of an
    element, whose body is not in the headers, is a parameter \<open>esize\<close> that the locale \<^verbatim>\<open>element_size\<close>
    constrains; it is interpreted on the size the format documents.
  \<^item> \<^verbatim>\<open>BsonElement\<close>, \<^verbatim>\<open>BsonObj\<close>: \<^verbatim>\<open>bson/bsonelement.h\<close>, \<^verbatim>\<open>bson/bsonobj.h\<close>, \<^verbatim>\<open>bson/bsonobjiterator.h\<close>.
  \<^item> \<^verbatim>\<open>AtomicWord\<close>, \<^verbatim>\<open>SharedBuffer\<close>: \<^verbatim>\<open>platform/atomic_*.h\<close>, \<^verbatim>\<open>util/shared_buffer.h\<close>. An atomic cell
    carries the list of what other threads will do to it before each access, so an operation is
    linearizable (\<open>lin\<close>) if all its accesses but one leave the cell alone. Retry loops end since
    the list is finite. Windows is four toolchains: with and without 64-bit interlocked operations and
    64-bit pointers.
  \<^item> \<^verbatim>\<open>ObjBuilder\<close>, \<^verbatim>\<open>Builders\<close>: \<^verbatim>\<open>bson/bsonobjbuilder.h\<close>, \<^verbatim>\<open>bson/bsonmisc.h\<close>, \<^verbatim>\<open>bson/bson_db.h\<close>. The invariant
    \<open>holds\<close> relates a builder to the document it has built so far.
  \<^item> \<^verbatim>\<open>Ordering\<close>: \<^verbatim>\<open>bson/ordering.h\<close> and \<^verbatim>\<open>bson/bson_field.h\<close>, over the iterator and the builders.
  \<^item> \<^verbatim>\<open>RefCount\<close>: the interface of intrusive reference counting (locales \<^verbatim>\<open>ref_counted\<close> and
    \<^verbatim>\<open>counted_machine\<close>), which \<^verbatim>\<open>SharedBuffer\<close> and \<^verbatim>\<open>Status\<close> interpret.
  \<^item> \<^verbatim>\<open>Status\<close>: \<^verbatim>\<open>base/error_codes.h\<close>, \<^verbatim>\<open>base/status*.h\<close> and the exceptions of \<^verbatim>\<open>util/assert_util.h\<close>.
  \<^item> \<^verbatim>\<open>Message\<close>: \<^verbatim>\<open>util/net/message.h\<close>. Buffers are blocks of a heap; a machine runs the programs that a
    client writes with messages.
  \<^item> \<^verbatim>\<open>Logger\<close>: \<^verbatim>\<open>mongo/logger\<close>.
  \<^item> \<^verbatim>\<open>GeoBox\<close>, \<^verbatim>\<open>GeoObj\<close>: \<^verbatim>\<open>mongo/geo\<close>. Objects are documents here. The coordinate class is a parameter
    \<open>env\<close>, with its contract as the locale \<^verbatim>\<open>geo_contract\<close>, interpreted on both classes of the code.
    \<open>geo_parse\<close> takes fuel for the nesting of collections; a document's depth is enough
    (\<open>geo_parse_terminates\<close>).
  \<^item> \<^verbatim>\<open>Net\<close>, \<^verbatim>\<open>ConnString\<close>, \<^verbatim>\<open>Cursor\<close>, \<^verbatim>\<open>Client\<close>, \<^verbatim>\<open>GridFs\<close>: the inline parts of \<^verbatim>\<open>util/net\<close> and \<^verbatim>\<open>client\<close>.
    What the binary library does (running a command, more and next of a cursor) is a parameter; the
    locales \<^verbatim>\<open>cursor_ops\<close> and \<^verbatim>\<open>batch_source\<close> state what the comments promise of a cursor, and a cursor
    over batches in memory interprets them. \<open>itcount\<close> is a loop that may not end, so it is an option.
  \<^item> \<^verbatim>\<open>SplTypes\<close>: the types and values of the Streams language, what generated code may raise, and the
    functions of the Streams runtime as the record \<open>spl_env\<close>, whose documented behaviour is \<open>env_ok\<close>.
  \<^item> \<^verbatim>\<open>BsonCommon\<close>, \<^verbatim>\<open>QueryCommon\<close>: \<^verbatim>\<open>Common/BSONCommon.pm\<close> and \<^verbatim>\<open>Common/QueryCommon.pm\<close>, the generators of the
    code that builds an object from a value and fills an attribute from a document. Generator and
    generated code are one function, on the type and the value.
  \<^item> \<^verbatim>\<open>OperatorCommon\<close>: the other templates under \<^verbatim>\<open>Common\<close>. The state of an operator (\<open>op_state\<close>) is its
    connection and tuple template per thread, its metric, its log and what it submitted, with the world
    behind the driver; the driver's operations are the record \<open>client\<close>. The code is in the state monad
    \<open>act\<close> with exceptions; \<open>tame\<close> says what a step leaves alone and is closed under the monad.
  \<^item> \<^verbatim>\<open>OperatorSetup\<close>: how an operator is set up. The parameters that the head of each \<^verbatim>\<open>*_cpp.cgt\<close> reads and
    checks (\<open>op_params\<close>, \<open>compile_operator\<close>), the types of \<^verbatim>\<open>Types.spl\<close>, and \<^verbatim>\<open>Common/MongoInit_h.cgt\<close>: loading an operator's
    code initialises the driver (\<open>load_operator\<close>), its shutdown ends it (\<open>prepareToShutdown\<close>). Operators that share a
    process share \<open>pe_state\<close>, and \<open>pe_inv\<close> holds along every run.
  \<^item> \<^verbatim>\<open>WriteOperators\<close>: \<^verbatim>\<open>Insert_cpp.cgt\<close>, \<^verbatim>\<open>Update_cpp.cgt\<close>, \<^verbatim>\<open>Delete_cpp.cgt\<close>. They share one loop, over the
    locale \<^verbatim>\<open>write_operator\<close>, which is interpreted on the write of each; \<open>reports\<close> is their contract.
  \<^item> \<^verbatim>\<open>QueryOperator\<close>: \<^verbatim>\<open>Query_cpp.cgt\<close>. Its loop over the cursor may not end and is an option; over
    \<^verbatim>\<open>cursor_ops\<close> it is a fold over the documents. \<open>query_outcome\<close> is its abstract specification.
  \<^item> \<^verbatim>\<open>OperatorBytes\<close>: the documents of the operators are the bytes of the builders and the iterator.
  \<^item> \<^verbatim>\<open>OperatorRuns\<close>: an operator over time, as the step relation \<open>op_call\<close> of the calls of all threads. The
    locales \<^verbatim>\<open>step_preorder\<close>, \<^verbatim>\<open>connect_preorder\<close> and \<^verbatim>\<open>call_preorder\<close> carry a relation on states through
    every definition of the operators; they are interpreted on what grows, on what keeps connections
    confined and on what sends nothing. The locale \<^verbatim>\<open>sending_write\<close>, interpreted on the three writes, gives
    the requests that a call sends.

  What the properties show. Of the operators: what Insert stores Query reads back, through the
  bytes of the builder, with the values that
  are lost on the way; the write operators send exactly the requests of their
  attributes and report exactly the writes that failed; a query submits its
  documents in order and one marker; templates of threads stay clean, connections stay confined to their
  thread, and reports are final; accepted attributes build, and accepted parameters say the login; the
  driver is initialised with the options of the first operator loaded, whatever the others ask for; ports are guarded where they are,
  and a failed login, an early \<^verbatim>\<open>AsIs\<close> and unchanged documents behave as the theorems say, which is not as
  intended. Of the headers: the builders refine the format and the readers invert it, so a document
  that is built and then iterated comes back; memory safety of the checked iterator and bounded
  construction; the reserved byte guarantees that finishing a builder cannot fail; reference counts
  of shared buffers and of statuses are exact; messages own their buffers, and concatenation keeps
  their bytes; atomic operations are linearizable on each toolchain; geometries round-trip through
  their documents, parsing ends, and bounding boxes are tight; a cursor's loop ends with the number of
  its documents; connection strings have the shape of their type; commands are sent as documented; the
  string and number routines meet their specifications, with the corners where they do not.

  How the parts interact. Builders write through \<open>emits\<close> into a \<^verbatim>\<open>BufBuilder\<close>, whose bytes become an object
  that owns a \<^verbatim>\<open>SharedBuffer\<close>; iterators and elements read those bytes with the \<^verbatim>\<open>DataView\<close> loads; the
  geometry, query and command makers are stated on the documents that the builder theorems connect with
  the bytes. Reference counts use the fetch-and-add of \<^verbatim>\<open>AtomicWord\<close>. The operators are stated on documents
  too: \<open>append_field\<close> uses the builder's \<open>checkFieldName\<close>, \<open>simple_val\<close> is \<open>isSimpleType\<close> of an element, and
  the query operator runs on the cursor of \<^verbatim>\<open>Cursor\<close>; \<^verbatim>\<open>OperatorBytes\<close> composes them with the builder, the
  iterator and the encoding.

  What is not modelled: input and output on sockets, the declarations whose bodies are in the binary
  library (bulk operations, the JSON parser, option setters), output streams, compiler glue, and of the
  templates bounded strings and collections.
\<close>

end
